(* ===== verification/Prelude.thy ===== *)
theory Prelude
  imports
    Main
    "HOL-Library.Word"
    "HOL-Library.List_Lexorder"
    "HOL-Library.Product_Lexorder"
    "HOL-Library.Multiset"
begin

text \<open>
  Shared vocabulary of the development: machine integers and byte strings, Rust's checked and
  saturating arithmetic, big-endian integers, the adjacent-pair scans the code writes as
  \<^verbatim>\<open>windows(2)\<close>, and the result monad that models \<^verbatim>\<open>Result<T, E>\<close> with the \<^verbatim>\<open>?\<close> operator, with
  and without a threaded state (a reader's cursor, the entropy source).

  Collections: \<open>monad_simps\<close> evaluates monadic terms, \<open>monad_elims\<close> takes apart a computation
  that is known to have succeeded.
\<close>

named_theorems monad_simps "evaluation of the result and state-result monads"
named_theorems monad_elims "inversion of successful monadic computations"
named_theorems word_bounds "numeric bounds of machine words"

section \<open>Machine integers and byte strings\<close>

type_synonym byte = "8 word"
type_synonym bytes = "byte list"
type_synonym u8 = "8 word"
type_synonym u16 = "16 word"
type_synonym u32 = "32 word"
type_synonym u64 = "64 word"

text \<open>
  \<^verbatim>\<open>usize\<close> values are natural numbers; the target's width (64 bits) is written out where the code
  checks for overflow.
\<close>

definition usize_checked_add :: "nat \<Rightarrow> nat \<Rightarrow> nat option" where
  "usize_checked_add a b = (if a + b < 2 ^ 64 then Some (a + b) else None)"

definition checked_add :: "'a::len word \<Rightarrow> 'a word \<Rightarrow> 'a word option" where
  "checked_add a b = (if unat a + unat b < 2 ^ LENGTH('a) then Some (a + b) else None)"

definition saturating_add :: "'a::len word \<Rightarrow> 'a word \<Rightarrow> 'a word" where
  "saturating_add a b = (if unat a + unat b < 2 ^ LENGTH('a) then a + b else - 1)"

definition saturating_sub :: "'a::len word \<Rightarrow> 'a word \<Rightarrow> 'a word" where
  "saturating_sub a b = (if b \<le> a then a - b else 0)"

text \<open>\<^verbatim>\<open>T::try_from(usize)\<close>: the value when it fits the width.\<close>

definition try_from_usize :: "nat \<Rightarrow> 'a::len word option" where
  "try_from_usize n = (if n < 2 ^ LENGTH('a) then Some (word_of_nat n) else None)"

lemma checked_add_Some_iff:
  "checked_add a b = Some c \<longleftrightarrow> unat a + unat b < 2 ^ LENGTH('a) \<and> c = (a + b :: 'a::len word)"
  by (auto simp: checked_add_def)

lemma unat_add_no_overflow:
  "unat a + unat b < 2 ^ LENGTH('a) \<Longrightarrow> unat (a + b :: 'a::len word) = unat a + unat b"
  by (simp add: unat_word_ariths)

lemma checked_add_unat:
  "checked_add a b = Some c \<Longrightarrow> unat c = unat a + unat (b :: 'a::len word)"
  by (auto simp: checked_add_Some_iff unat_add_no_overflow)

lemma unat_saturating_add:
  "unat (saturating_add a b) = min (unat a + unat b) (2 ^ LENGTH('a) - 1)"
  for a b :: "'a::len word"
proof -
  have "unat (- 1 :: 'a word) = 2 ^ LENGTH('a) - 1"
    by (simp add: unsigned_minus_1_eq_mask mask_eq_exp_minus_1)
  then show ?thesis
    by (auto simp: saturating_add_def unat_add_no_overflow min_def)
qed

text \<open>Only the largest value has no successor.\<close>

lemma checked_add_one: "v \<noteq> - 1 \<Longrightarrow> checked_add v 1 = Some (v + 1 :: 'a::len word)"
proof -
  assume "v \<noteq> - 1"
  moreover have "unat (- 1 :: 'a word) = 2 ^ LENGTH('a) - 1"
    by (simp add: unsigned_minus_1_eq_mask mask_eq_exp_minus_1)
  ultimately have "unat v \<noteq> 2 ^ LENGTH('a) - 1" by (metis word_unat_eq_iff)
  with unsigned_less [of v] have "unat v + 1 < 2 ^ LENGTH('a)"
    by (metis Suc_eq_plus1 Suc_lessI diff_Suc_1)
  moreover have "unat (1 :: 'a word) = 1" by simp
  ultimately show ?thesis by (simp add: checked_add_def)
qed

lemma unat_saturating_sub: "unat (saturating_sub a b) = unat a - unat (b :: 'a::len word)"
  by (auto simp: saturating_sub_def unat_sub word_le_nat_alt)

lemma try_from_usize_unat:
  "try_from_usize n = Some (w :: 'a::len word) \<Longrightarrow> unat w = n"
  by (auto simp: try_from_usize_def unat_of_nat split: if_splits)

lemma try_from_usize_Some [simp]:
  "n < 2 ^ LENGTH('a) \<Longrightarrow> try_from_usize n = Some (word_of_nat n :: 'a::len word)"
  by (simp add: try_from_usize_def)

lemma try_from_usize_None [simp]:
  "\<not> n < 2 ^ LENGTH('a) \<Longrightarrow> (try_from_usize n :: 'a::len word option) = None"
  by (simp add: try_from_usize_def)

lemma unat_of_nat_small [simp]:
  "n < 2 ^ LENGTH('a) \<Longrightarrow> unat (word_of_nat n :: 'a::len word) = n"
  by (simp add: unat_of_nat)

lemma unat_less_256 [word_bounds]: "unat (b :: byte) < 256"
  using unsigned_less [of b] by simp

lemma unat_u16_bound [word_bounds]: "unat (w :: u16) < 65536"
  using unsigned_less [of w] by simp

lemma unat_u32_bound [word_bounds]: "unat (w :: u32) < 4294967296"
  using unsigned_less [of w] by simp

lemma unat_u64_bound [word_bounds]: "unat (w :: u64) < 18446744073709551616"
  using unsigned_less [of w] by simp

section \<open>Big-endian integers\<close>

text \<open>
  \<open>be_bytes n v\<close> is the \<open>n\<close>-byte big-endian form of \<open>v\<close> (\<^verbatim>\<open>to_be_bytes\<close>), \<open>be_value\<close> reads one
  back (\<^verbatim>\<open>from_be_bytes\<close>).
\<close>

primrec be_bytes :: "nat \<Rightarrow> nat \<Rightarrow> bytes" where
  "be_bytes 0 v = []"
| "be_bytes (Suc n) v = be_bytes n (v div 256) @ [word_of_nat v]"

definition be_value :: "bytes \<Rightarrow> nat" where
  "be_value bs = foldl (\<lambda>a b. a * 256 + unat b) 0 bs"

lemma length_be_bytes [simp]: "length (be_bytes n v) = n"
  by (induction n arbitrary: v) auto

lemma be_value_Nil [simp]: "be_value [] = 0"
  by (simp add: be_value_def)

lemma be_value_snoc [simp]: "be_value (bs @ [b]) = be_value bs * 256 + unat b"
  by (simp add: be_value_def)

lemma unat_byte_of_nat: "unat (word_of_nat v :: byte) = v mod 256"
  by (simp add: unat_of_nat)

lemma be_value_be_bytes: "be_value (be_bytes n v) = v mod 256 ^ n"
proof (induction n arbitrary: v)
  case 0
  show ?case by simp
next
  case (Suc n)
  then show ?case
    by (simp add: unat_byte_of_nat mod_mult2_eq mult.commute)
qed

lemma be_value_less: "be_value bs < 256 ^ length bs"
proof (induction bs rule: rev_induct)
  case Nil
  show ?case by simp
next
  case (snoc b bs)
  have "unat b < 256" by (rule unat_less_256)
  with snoc show ?case by simp
qed

lemma be_bytes_be_value: "be_bytes (length bs) (be_value bs) = bs"
proof (induction bs rule: rev_induct)
  case Nil
  show ?case by simp
next
  case (snoc b bs)
  have "unat b < 256" by (rule unat_less_256)
  then have "(be_value bs * 256 + unat b) div 256 = be_value bs" by simp
  moreover have "unat (word_of_nat (be_value bs * 256 + unat b) :: byte) = unat b"
    using \<open>unat b < 256\<close> by (simp only: unat_byte_of_nat) simp
  then have "word_of_nat (be_value bs * 256 + unat b) = b"
    by (rule word_unat_eq_iff [THEN iffD2])
  ultimately show ?case using snoc by simp
qed

section \<open>Lists\<close>

lemma split_atE:
  assumes "n \<le> length xs"
  obtains a b where "xs = a @ b" and "length a = n"
  by (rule that [of "take n xs" "drop n xs"]) (use assms in auto)

section \<open>Adjacent pairs\<close>

text \<open>\<^verbatim>\<open>xs.windows(2).any(|pair| p(pair[0], pair[1]))\<close>\<close>

fun windows2_any :: "('a \<Rightarrow> 'a \<Rightarrow> bool) \<Rightarrow> 'a list \<Rightarrow> bool" where
  "windows2_any p (x # y # zs) = (p x y \<or> windows2_any p (y # zs))"
| "windows2_any p _ = False"

text \<open>A scan that finds no descent is a proof of sortedness, for a transitive order.\<close>

lemma windows2_any_sorted_wrt:
  assumes "transp Q" and "\<And>x y. p x y \<longleftrightarrow> \<not> Q x y"
  shows "\<not> windows2_any p xs \<longleftrightarrow> sorted_wrt Q xs"
proof (induction xs rule: induct_list012)
  case (3 x y zs)
  then show ?case
    using assms by (simp add: sorted_wrt2 del: sorted_wrt.simps(2))
qed simp_all

lemma sorted_wrt_less_key_distinct:
  "sorted_wrt (\<lambda>a b. f a < f b) xs \<Longrightarrow> distinct (map f xs)"
  for f :: "'a \<Rightarrow> 'b::order"
  by (induction xs) auto

lemma sort_key_of_sorted:
  "sorted_wrt (\<lambda>a b. f a < f b) xs \<Longrightarrow> sort_key f xs = xs"
  for f :: "'a \<Rightarrow> 'b::linorder"
proof (rule sort_key_id_if_sorted)
  assume "sorted_wrt (\<lambda>a b. f a < f b) xs"
  then have "sorted_wrt (\<lambda>a b. f a \<le> f b) xs"
    by (rule sorted_wrt_mono_rel [rotated]) simp
  then show "sorted (map f xs)" by (simp add: sorted_wrt_map)
qed

lemma sort_key_strict:
  fixes f :: "'a \<Rightarrow> 'b::linorder"
  assumes "distinct (map f xs)"
  shows "sorted_wrt (\<lambda>a b. f a < f b) (sort_key f xs)"
proof -
  have "mset (map f (sort_key f xs)) = mset (map f xs)"
    by (metis mset_map mset_sort)
  then have "distinct (map f (sort_key f xs))"
    using assms mset_eq_imp_distinct_iff by blast
  moreover have "sorted (map f (sort_key f xs))" by (rule sorted_sort_key)
  ultimately have "sorted_wrt (<) (map f (sort_key f xs))"
    by (simp add: strict_sorted_iff)
  then show ?thesis by (simp add: sorted_wrt_map)
qed

lemma find_None_iff_notin: "find (\<lambda>x. f x = k) xs = None \<longleftrightarrow> k \<notin> f ` set xs"
  by (auto simp: find_None_iff)

lemma find_distinct_key:
  "distinct (map f xs) \<Longrightarrow> x \<in> set xs \<Longrightarrow> find (\<lambda>y. f y = f x) xs = Some x"
  by (induction xs) (auto simp: image_iff)

section \<open>Removal at the first match\<close>

text \<open>
  \<^verbatim>\<open>let position = xs.iter().position(p).ok_or(..)?; xs.remove(position)\<close>: \<open>None\<close> when nothing
  matches, otherwise the list without its first match.
\<close>

fun remove_first :: "('a \<Rightarrow> bool) \<Rightarrow> 'a list \<Rightarrow> 'a list option" where
  "remove_first p [] = None"
| "remove_first p (x # xs) = (if p x then Some xs else map_option ((#) x) (remove_first p xs))"

lemma remove_first_None_iff: "remove_first p xs = None \<longleftrightarrow> (\<forall>x \<in> set xs. \<not> p x)"
  by (induction xs) auto

lemma remove_first_SomeD:
  "remove_first p xs = Some ys \<Longrightarrow>
     \<exists>us x vs. xs = us @ x # vs \<and> ys = us @ vs \<and> p x \<and> (\<forall>u \<in> set us. \<not> p u) \<and> find p xs = Some x"
proof (induction xs arbitrary: ys)
  case Nil
  then show ?case by simp
next
  case (Cons a xs)
  show ?case
  proof (cases "p a")
    case True
    with Cons.prems show ?thesis by (intro exI [of _ "[]"] exI [of _ a] exI [of _ xs]) simp
  next
    case False
    with Cons.prems obtain zs where zs: "remove_first p xs = Some zs" and ys: "ys = a # zs" by auto
    from Cons.IH [OF zs] obtain us x vs where
      "xs = us @ x # vs" "zs = us @ vs" "p x" "\<forall>u \<in> set us. \<not> p u" "find p xs = Some x"
      by blast
    with False ys show ?thesis by (intro exI [of _ "a # us"] exI [of _ x] exI [of _ vs]) simp
  qed
qed

lemma remove_first_find: "remove_first p xs = None \<longleftrightarrow> find p xs = None"
  by (induction xs) auto

lemma remove_first_sorted_wrt:
  "remove_first p xs = Some ys \<Longrightarrow> sorted_wrt R xs \<Longrightarrow> sorted_wrt R ys"
  by (drule remove_first_SomeD) (auto simp: sorted_wrt_append)

lemma remove_first_subset: "remove_first p xs = Some ys \<Longrightarrow> set ys \<subseteq> set xs"
  by (drule remove_first_SomeD) auto

lemma remove_first_length: "remove_first p xs = Some ys \<Longrightarrow> length xs = Suc (length ys)"
  by (drule remove_first_SomeD) auto

section \<open>Results: the \<^verbatim>\<open>?\<close> operator\<close>

abbreviation Ok :: "'a \<Rightarrow> 'e + 'a" where "Ok \<equiv> Inr"
abbreviation Err :: "'e \<Rightarrow> 'e + 'a" where "Err \<equiv> Inl"

definition rbind :: "'e + 'a \<Rightarrow> ('a \<Rightarrow> 'e + 'b) \<Rightarrow> 'e + 'b" where
  "rbind m f = (case m of Inl e \<Rightarrow> Err e | Inr x \<Rightarrow> f x)"

text \<open>\<^verbatim>\<open>if bad { return Err(e); }\<close>\<close>

definition reject_if :: "bool \<Rightarrow> 'e \<Rightarrow> 'e + unit" where
  "reject_if bad e = (if bad then Err e else Ok ())"

definition ok_or :: "'a option \<Rightarrow> 'e \<Rightarrow> 'e + 'a" where
  "ok_or v e = (case v of None \<Rightarrow> Err e | Some x \<Rightarrow> Ok x)"

text \<open>\<^verbatim>\<open>for x in xs { f(x)?; }\<close>\<close>

fun each :: "('a \<Rightarrow> 'e + unit) \<Rightarrow> 'a list \<Rightarrow> 'e + unit" where
  "each f [] = Ok ()"
| "each f (x # xs) = rbind (f x) (\<lambda>_. each f xs)"

lemma rbind_simps [simp, monad_simps]:
  "rbind (Ok x) f = f x"
  "rbind (Err e) f = Err e"
  by (simp_all add: rbind_def)

lemma rbind_cong [fundef_cong]:
  "m = m' \<Longrightarrow> (\<And>x. m' = Ok x \<Longrightarrow> f x = g x) \<Longrightarrow> rbind m f = rbind m' g"
  by (cases m') auto

lemma rbind_assoc: "rbind (rbind m f) g = rbind m (\<lambda>x. rbind (f x) g)"
  by (cases m) simp_all

lemma rbind_OkE [monad_elims]:
  assumes "rbind m f = Ok y"
  obtains x where "m = Ok x" and "f x = Ok y"
  using assms by (cases m) auto

lemma rbind_Ok_iff: "rbind m f = Ok y \<longleftrightarrow> (\<exists>x. m = Ok x \<and> f x = Ok y)"
  by (cases m) auto

lemma reject_if_simps [simp, monad_simps]:
  "reject_if False e = Ok ()"
  "reject_if True e = Err e"
  by (simp_all add: reject_if_def)

lemma reject_if_Ok_iff [simp]: "reject_if bad e = Ok u \<longleftrightarrow> \<not> bad"
  by (simp add: reject_if_def)

lemma ok_or_simps [simp, monad_simps]:
  "ok_or None e = Err e"
  "ok_or (Some x) e = Ok x"
  by (simp_all add: ok_or_def)

lemma ok_or_Ok_iff [simp]: "ok_or v e = Ok x \<longleftrightarrow> v = Some x"
  by (cases v) simp_all

lemma each_Ok_iff: "each f xs = Ok u \<longleftrightarrow> (\<forall>x \<in> set xs. f x = Ok ())"
  by (induction xs) (auto simp: rbind_Ok_iff)

section \<open>Results over a threaded state\<close>

type_synonym ('s, 'e, 'a) sr = "'s \<Rightarrow> 'e + ('a \<times> 's)"

definition ret :: "'a \<Rightarrow> ('s, 'e, 'a) sr" where
  "ret x s = Ok (x, s)"

definition sbind :: "('s, 'e, 'a) sr \<Rightarrow> ('a \<Rightarrow> ('s, 'e, 'b) sr) \<Rightarrow> ('s, 'e, 'b) sr" where
  "sbind m f s = (case m s of Inl e \<Rightarrow> Err e | Inr (x, s') \<Rightarrow> f x s')"

text \<open>A computation that does not touch the threaded state.\<close>

definition slift :: "'e + 'a \<Rightarrow> ('s, 'e, 'a) sr" where
  "slift m s = rbind m (\<lambda>x. Ok (x, s))"

text \<open>\<^verbatim>\<open>for _ in 0..n { out.push(m()?); }\<close>\<close>

primrec repeat_s :: "nat \<Rightarrow> ('s, 'e, 'a) sr \<Rightarrow> ('s, 'e, 'a list) sr" where
  "repeat_s 0 m = ret []"
| "repeat_s (Suc n) m = sbind m (\<lambda>x. sbind (repeat_s n m) (\<lambda>xs. ret (x # xs)))"

text \<open>\<^verbatim>\<open>for x in xs { out.push(f(x)?); }\<close>\<close>

primrec map_s :: "('a \<Rightarrow> ('s, 'e, 'b) sr) \<Rightarrow> 'a list \<Rightarrow> ('s, 'e, 'b list) sr" where
  "map_s f [] = ret []"
| "map_s f (x # xs) = sbind (f x) (\<lambda>y. sbind (map_s f xs) (\<lambda>ys. ret (y # ys)))"

lemma ret_apply [monad_simps]: "ret x s = Ok (x, s)"
  by (simp add: ret_def)

lemma sbind_ret [simp, monad_simps]: "sbind (ret x) f = f x"
  by (rule ext) (simp add: sbind_def ret_apply)

lemma slift_apply [monad_simps]:
  "slift (Ok x) s = Ok (x, s)"
  "slift (Err e) s = Err e"
  by (simp_all add: slift_def)

lemma sbind_slift [simp, monad_simps]:
  "sbind (slift (Ok x)) f = f x"
  "sbind (slift (Err e)) f s = Err e"
  by (simp_all add: sbind_def slift_def fun_eq_iff)

lemma sbind_Ok [monad_simps]: "m s = Ok (x, s') \<Longrightarrow> sbind m f s = f x s'"
  by (simp add: sbind_def)

lemma sbind_Err [monad_simps]: "m s = Err e \<Longrightarrow> sbind m f s = Err e"
  by (simp add: sbind_def)

lemma sbind_OkE [monad_elims]:
  assumes "sbind m f s = Ok y"
  obtains x s' where "m s = Ok (x, s')" and "f x s' = Ok y"
  using assms by (auto simp: sbind_def split: sum.splits prod.splits)

lemma slift_Ok_iff [simp]: "slift m s = Ok (x, s') \<longleftrightarrow> m = Ok x \<and> s' = s"
  by (cases m) (auto simp: slift_def)

lemma length_map_s: "map_s f xs s = Ok (ys, s') \<Longrightarrow> length ys = length xs"
  by (induction xs arbitrary: s ys s') (auto simp: ret_apply elim!: monad_elims)

lemma length_repeat_s: "repeat_s n m s = Ok (ys, s') \<Longrightarrow> length ys = n"
  by (induction n arbitrary: s ys s') (auto simp: ret_apply elim!: monad_elims)

end
