(* ===== verification/Crypto_Provider.thy ===== *)
theory Crypto_Provider
  imports Prelude
begin

text \<open>
  The error codes (\<^verbatim>\<open>error.rs\<close>), size limits (\<^verbatim>\<open>bounds.rs\<close>), bounded secret buffers (\<^verbatim>\<open>secret.rs\<close>),
  the entropy source (\<^verbatim>\<open>random.rs\<close>) and the provider methods (\<^verbatim>\<open>provider.rs\<close>).

  The cryptographic primitives come from crates and C libraries; they are the fields of
  the record \<open>prims\<close>, a parameter of everything below. What \<^verbatim>\<open>RustCryptoProvider\<close> adds to them (size
  limits, error mapping, the all-zero X25519 check, the use of entropy) is modelled here.
  What the primitives are documented to do is named by the predicates at the end of this theory;
  theorems that rely on one of them take it as a hypothesis.
\<close>

section \<open>Errors\<close>

datatype crypto_error =
    NoError
  | InvalidArgument
  | InputTooLarge
  | OutputTooSmall
  | MalformedInput
  | InvalidHandle
  | WrongHandleType
  | AuthenticationFailed
  | UnsupportedVersion
  | UnsupportedOperation
  | ResourceExhausted
  | EntropyUnavailable
  | StateViolation
  | InternalFailure
  | PanicContained

type_synonym 'a cresult = "crypto_error + 'a"

text \<open>The stable C ABI codes.\<close>

fun error_code :: "crypto_error \<Rightarrow> int" where
  "error_code NoError = 0"
| "error_code InvalidArgument = 1"
| "error_code InputTooLarge = 2"
| "error_code OutputTooSmall = 3"
| "error_code MalformedInput = 4"
| "error_code InvalidHandle = 5"
| "error_code WrongHandleType = 6"
| "error_code AuthenticationFailed = 7"
| "error_code UnsupportedVersion = 8"
| "error_code UnsupportedOperation = 9"
| "error_code ResourceExhausted = 10"
| "error_code EntropyUnavailable = 11"
| "error_code StateViolation = 12"
| "error_code InternalFailure = 13"
| "error_code PanicContained = 14"

section \<open>Bounds and bounded buffers\<close>

definition MAX_INPUT_BYTES :: nat where "MAX_INPUT_BYTES = 1048576"
definition MAX_PASSWORD_BYTES :: nat where "MAX_PASSWORD_BYTES = 4096"

definition bounded_bytes_new :: "bytes \<Rightarrow> nat \<Rightarrow> bytes cresult" where
  "bounded_bytes_new bs limit = (if length bs > limit then Err InputTooLarge else Ok bs)"

definition secret_vec_from_vec :: "bytes \<Rightarrow> nat \<Rightarrow> bytes cresult" where
  "secret_vec_from_vec bs limit = (if length bs > limit then Err InputTooLarge else Ok bs)"

definition secret_vec_from_slice :: "bytes \<Rightarrow> nat \<Rightarrow> bytes cresult" where
  "secret_vec_from_slice bs limit = (if length bs > limit then Err InputTooLarge else Ok bs)"

definition secret_vec_input :: "bytes \<Rightarrow> bytes cresult" where
  "secret_vec_input bs = secret_vec_from_slice bs MAX_INPUT_BYTES"

definition secret_vec_password :: "bytes \<Rightarrow> bytes cresult" where
  "secret_vec_password bs = secret_vec_from_slice bs MAX_PASSWORD_BYTES"

lemmas bounded_defs =
  bounded_bytes_new_def secret_vec_from_vec_def secret_vec_from_slice_def
  secret_vec_input_def secret_vec_password_def

section \<open>Entropy\<close>

text \<open>
  The entropy source is the sequence of bytes it will hand out, as in the source's
  \<^verbatim>\<open>FixedRandomProvider\<close>; a request it cannot meet fails with \<^const>\<open>EntropyUnavailable\<close>, the error
  a failing \<^verbatim>\<open>getrandom\<close> call is mapped to.
\<close>

type_synonym 'a ent = "(bytes, crypto_error, 'a) sr"

definition fill :: "nat \<Rightarrow> bytes ent" where
  "fill n tape =
     (if length tape < n then Err EntropyUnavailable else Ok (take n tape, drop n tape))"

section \<open>Primitives\<close>

record prims =
  ed_public_of :: "bytes \<Rightarrow> bytes"
  ed_sign_raw :: "bytes \<Rightarrow> bytes \<Rightarrow> bytes"
  ed_key_valid :: "bytes \<Rightarrow> bool"
  ed_verify_strict :: "bytes \<Rightarrow> bytes \<Rightarrow> bytes \<Rightarrow> bool"
  x_public_of :: "bytes \<Rightarrow> bytes"
  x_diffie_hellman :: "bytes \<Rightarrow> bytes \<Rightarrow> bytes"
  kem_keypair_derand :: "bytes \<Rightarrow> (bytes \<times> bytes) option"
  kem_enc_derand :: "bytes \<Rightarrow> bytes \<Rightarrow> (bytes \<times> bytes) option"
  kem_dec :: "bytes \<Rightarrow> bytes \<Rightarrow> bytes option"
  argon2id_raw :: "bytes \<Rightarrow> bytes \<Rightarrow> bytes option"
  aead_seal :: "bytes \<Rightarrow> bytes \<Rightarrow> bytes \<Rightarrow> bytes \<Rightarrow> bytes option"
  aead_open :: "bytes \<Rightarrow> bytes \<Rightarrow> bytes \<Rightarrow> bytes \<Rightarrow> bytes option"
  sha256_raw :: "bytes \<Rightarrow> bytes"
  sha384_raw :: "bytes \<Rightarrow> bytes"
  hkdf256_raw :: "bytes \<Rightarrow> bytes \<Rightarrow> bytes \<Rightarrow> nat \<Rightarrow> bytes option"
  hkdf384_raw :: "bytes \<Rightarrow> bytes \<Rightarrow> bytes \<Rightarrow> nat \<Rightarrow> bytes option"
  hmac256_raw :: "bytes \<Rightarrow> bytes \<Rightarrow> bytes option"

definition XCHACHA_ABYTES :: nat where "XCHACHA_ABYTES = 16"
definition MLKEM768_PUBLIC_BYTES :: nat where "MLKEM768_PUBLIC_BYTES = 1184"
definition MLKEM768_SECRET_BYTES :: nat where "MLKEM768_SECRET_BYTES = 2400"
definition MLKEM768_CIPHERTEXT_BYTES :: nat where "MLKEM768_CIPHERTEXT_BYTES = 1088"
definition ED25519_SIGNATURE_BYTES :: nat where "ED25519_SIGNATURE_BYTES = 64"

lemmas size_defs =
  MAX_INPUT_BYTES_def XCHACHA_ABYTES_def MLKEM768_PUBLIC_BYTES_def MLKEM768_SECRET_BYTES_def
  MLKEM768_CIPHERTEXT_BYTES_def ED25519_SIGNATURE_BYTES_def

section \<open>Provider methods\<close>

definition random_bytes :: "nat \<Rightarrow> bytes ent" where
  "random_bytes n = (if n > MAX_INPUT_BYTES then slift (Err InputTooLarge) else fill n)"

definition ed25519_sign :: "prims \<Rightarrow> bytes \<Rightarrow> bytes \<Rightarrow> bytes cresult" where
  "ed25519_sign P secret message =
     rbind (bounded_bytes_new message MAX_INPUT_BYTES) (\<lambda>message.
     Ok (ed_sign_raw P secret message))"

definition ed25519_verify :: "prims \<Rightarrow> bytes \<Rightarrow> bytes \<Rightarrow> bytes \<Rightarrow> unit cresult" where
  "ed25519_verify P public_key message signature =
     rbind (bounded_bytes_new message MAX_INPUT_BYTES) (\<lambda>message.
     if \<not> ed_key_valid P public_key then Err MalformedInput
     else if ed_verify_strict P public_key message signature then Ok ()
     else Err AuthenticationFailed)"

definition x25519_public :: "prims \<Rightarrow> bytes \<Rightarrow> bytes cresult" where
  "x25519_public P secret = Ok (x_public_of P secret)"

definition x25519_shared :: "prims \<Rightarrow> bytes \<Rightarrow> bytes \<Rightarrow> bytes cresult" where
  "x25519_shared P secret peer_public =
     (let shared = x_diffie_hellman P secret peer_public in
      if shared = replicate 32 0 then Err AuthenticationFailed else Ok shared)"

definition mlkem768_keypair :: "prims \<Rightarrow> (bytes \<times> bytes) ent" where
  "mlkem768_keypair P =
     sbind (fill 64) (\<lambda>coins.
     slift (ok_or (kem_keypair_derand P coins) InternalFailure))"

definition mlkem768_encapsulate :: "prims \<Rightarrow> bytes \<Rightarrow> (bytes \<times> bytes) ent" where
  "mlkem768_encapsulate P public_key =
     sbind (fill 32) (\<lambda>coins.
     slift (ok_or (kem_enc_derand P public_key coins) MalformedInput))"

definition mlkem768_decapsulate :: "prims \<Rightarrow> bytes \<Rightarrow> bytes \<Rightarrow> bytes cresult" where
  "mlkem768_decapsulate P secret_key ciphertext =
     ok_or (kem_dec P secret_key ciphertext) MalformedInput"

definition argon2id :: "prims \<Rightarrow> bytes \<Rightarrow> bytes \<Rightarrow> bytes cresult" where
  "argon2id P password salt =
     rbind (bounded_bytes_new password MAX_PASSWORD_BYTES) (\<lambda>password.
     ok_or (argon2id_raw P password salt) InvalidArgument)"

definition xchacha20poly1305_encrypt ::
    "prims \<Rightarrow> bytes \<Rightarrow> bytes \<Rightarrow> bytes \<Rightarrow> bytes \<Rightarrow> bytes cresult" where
  "xchacha20poly1305_encrypt P key nonce plaintext associated_data =
     rbind (bounded_bytes_new plaintext MAX_INPUT_BYTES) (\<lambda>plaintext.
     rbind (bounded_bytes_new associated_data MAX_INPUT_BYTES) (\<lambda>associated_data.
     rbind (ok_or (usize_checked_add (length plaintext) XCHACHA_ABYTES) InputTooLarge) (\<lambda>output_len.
     if output_len > MAX_INPUT_BYTES then Err InputTooLarge
     else ok_or (aead_seal P key nonce associated_data plaintext) InternalFailure)))"

definition xchacha20poly1305_decrypt ::
    "prims \<Rightarrow> bytes \<Rightarrow> bytes \<Rightarrow> bytes \<Rightarrow> bytes \<Rightarrow> bytes cresult" where
  "xchacha20poly1305_decrypt P key nonce ciphertext associated_data =
     rbind (bounded_bytes_new ciphertext MAX_INPUT_BYTES) (\<lambda>ciphertext.
     rbind (bounded_bytes_new associated_data MAX_INPUT_BYTES) (\<lambda>associated_data.
     if length ciphertext < XCHACHA_ABYTES then Err MalformedInput
     else rbind (ok_or (aead_open P key nonce associated_data ciphertext) AuthenticationFailed)
       (\<lambda>plaintext. secret_vec_from_vec plaintext MAX_INPUT_BYTES)))"

definition sha256 :: "prims \<Rightarrow> bytes \<Rightarrow> bytes cresult" where
  "sha256 P input =
     rbind (bounded_bytes_new input MAX_INPUT_BYTES) (\<lambda>input. Ok (sha256_raw P input))"

definition sha384 :: "prims \<Rightarrow> bytes \<Rightarrow> bytes cresult" where
  "sha384 P input =
     rbind (bounded_bytes_new input MAX_INPUT_BYTES) (\<lambda>input. Ok (sha384_raw P input))"

definition provider_hkdf_sha256 :: "prims \<Rightarrow> bytes \<Rightarrow> bytes \<Rightarrow> bytes \<Rightarrow> bytes cresult" where
  "provider_hkdf_sha256 P salt input_key_material info =
     rbind (bounded_bytes_new salt MAX_INPUT_BYTES) (\<lambda>salt.
     rbind (bounded_bytes_new info MAX_INPUT_BYTES) (\<lambda>info.
     rbind (bounded_bytes_new input_key_material MAX_INPUT_BYTES) (\<lambda>ikm.
     rbind (ok_or (hkdf256_raw P salt ikm info 32) OutputTooSmall) (\<lambda>output.
     secret_vec_from_vec output MAX_INPUT_BYTES))))"

definition provider_hkdf_sha384 :: "prims \<Rightarrow> bytes \<Rightarrow> bytes \<Rightarrow> bytes \<Rightarrow> bytes cresult" where
  "provider_hkdf_sha384 P salt input_key_material info =
     rbind (bounded_bytes_new salt MAX_INPUT_BYTES) (\<lambda>salt.
     rbind (bounded_bytes_new info MAX_INPUT_BYTES) (\<lambda>info.
     rbind (bounded_bytes_new input_key_material MAX_INPUT_BYTES) (\<lambda>ikm.
     rbind (ok_or (hkdf384_raw P salt ikm info 48) OutputTooSmall) (\<lambda>output.
     secret_vec_from_vec output MAX_INPUT_BYTES))))"

section \<open>Documented behaviour of the primitives\<close>

text \<open>
  \<open>sized_prims\<close>: the output sizes, which the crates fix in their types (Ed25519, X25519, ML-KEM-768,
  SHA-2, HMAC) or document (HKDF up to 255 blocks, HMAC for every key length).
\<close>

definition sized_prims :: "prims \<Rightarrow> bool" where
  "sized_prims P \<longleftrightarrow>
     (\<forall>s. length (ed_public_of P s) = 32) \<and>
     (\<forall>s m. length (ed_sign_raw P s m) = 64) \<and>
     (\<forall>s. length (x_public_of P s) = 32) \<and>
     (\<forall>s p. length (x_diffie_hellman P s p) = 32) \<and>
     (\<forall>c pk sk. kem_keypair_derand P c = Some (pk, sk) \<longrightarrow> length pk = 1184 \<and> length sk = 2400) \<and>
     (\<forall>pk c ct ss. kem_enc_derand P pk c = Some (ct, ss) \<longrightarrow> length ct = 1088 \<and> length ss = 32) \<and>
     (\<forall>sk ct ss. kem_dec P sk ct = Some ss \<longrightarrow> length ss = 32) \<and>
     (\<forall>m. length (sha256_raw P m) = 32) \<and>
     (\<forall>salt ikm info n. n \<le> 255 * 32 \<longrightarrow>
        (\<exists>out. hkdf256_raw P salt ikm info n = Some out \<and> length out = n)) \<and>
     (\<forall>k m. \<exists>t. hmac256_raw P k m = Some t \<and> length t = 32)"

text \<open>FIPS 203: an ML-KEM-768 decapsulation key embeds its encapsulation key at offset 1152.\<close>

definition kem_embeds_public :: "prims \<Rightarrow> bool" where
  "kem_embeds_public P \<longleftrightarrow>
     (\<forall>c pk sk. kem_keypair_derand P c = Some (pk, sk) \<longrightarrow> take 1184 (drop 1152 sk) = pk)"

text \<open>FIPS 203: key generation from a 64-byte seed always returns a key pair.\<close>

definition kem_keypair_total :: "prims \<Rightarrow> bool" where
  "kem_keypair_total P \<longleftrightarrow>
     (\<forall>c. length c = 64 \<longrightarrow> (\<exists>pk sk. kem_keypair_derand P c = Some (pk, sk)))"

text \<open>A signature made with a secret key verifies under its public key, which is a valid point.\<close>

definition signatures_verify :: "prims \<Rightarrow> bool" where
  "signatures_verify P \<longleftrightarrow>
     (\<forall>s m. ed_key_valid P (ed_public_of P s)
            \<and> ed_verify_strict P (ed_public_of P s) m (ed_sign_raw P s m))"

text \<open>X25519 agreement: both sides of an exchange compute the same shared value.\<close>

definition dh_agrees :: "prims \<Rightarrow> bool" where
  "dh_agrees P \<longleftrightarrow>
     (\<forall>a b. x_diffie_hellman P a (x_public_of P b) = x_diffie_hellman P b (x_public_of P a))"

text \<open>ML-KEM correctness: decapsulating with the matching key returns the encapsulated secret.\<close>

definition kem_correct :: "prims \<Rightarrow> bool" where
  "kem_correct P \<longleftrightarrow>
     (\<forall>c pk sk d ct ss. kem_keypair_derand P c = Some (pk, sk) \<longrightarrow>
        kem_enc_derand P pk d = Some (ct, ss) \<longrightarrow> kem_dec P sk ct = Some ss)"

text \<open>XChaCha20-Poly1305: sealing adds a 16-byte tag, and opening a sealed text returns it.\<close>

definition aead_correct :: "prims \<Rightarrow> bool" where
  "aead_correct P \<longleftrightarrow>
     (\<forall>k n ad pt. \<exists>ct. aead_seal P k n ad pt = Some ct \<and> length ct = length pt + 16
        \<and> aead_open P k n ad ct = Some pt)"

lemma sized_primsD:
  assumes "sized_prims P"
  shows "length (ed_public_of P s) = 32"
    and "length (ed_sign_raw P s m) = 64"
    and "length (x_public_of P s) = 32"
    and "length (x_diffie_hellman P s p) = 32"
    and "kem_keypair_derand P c = Some (pk, sk) \<Longrightarrow> length pk = 1184"
    and "kem_keypair_derand P c = Some (pk, sk) \<Longrightarrow> length sk = 2400"
    and "kem_enc_derand P pk c = Some (ct, ss) \<Longrightarrow> length ct = 1088"
    and "kem_enc_derand P pk c = Some (ct, ss) \<Longrightarrow> length ss = 32"
    and "kem_dec P sk ct = Some ss \<Longrightarrow> length ss = 32"
    and "length (sha256_raw P msg) = 32"
  using assms by (auto simp: sized_prims_def)

lemma sized_prims_hkdf:
  assumes "sized_prims P" and "n \<le> 255 * 32"
  obtains out where "hkdf256_raw P salt ikm info n = Some out" and "length out = n"
proof -
  from assms have "\<exists>out. hkdf256_raw P salt ikm info n = Some out \<and> length out = n"
    by (simp add: sized_prims_def)
  then show thesis using that by blast
qed

lemma sized_prims_hmac:
  assumes "sized_prims P"
  obtains t where "hmac256_raw P k m = Some t" and "length t = 32"
proof -
  from assms have "\<exists>t. hmac256_raw P k m = Some t \<and> length t = 32"
    by (simp add: sized_prims_def)
  then show thesis using that by blast
qed

section \<open>Facts about the provider\<close>

text \<open>The ABI codes are pairwise distinct and cover 0 to 14.\<close>

lemma error_code_inj: "error_code a = error_code b \<Longrightarrow> a = b"
  by (cases a; cases b) simp_all

lemma error_code_range: "error_code e \<in> {0..14}"
  by (cases e) simp_all

lemma bounded_bytes_new_Ok_iff:
  "bounded_bytes_new bs n = Ok x \<longleftrightarrow> x = bs \<and> length bs \<le> n"
  by (auto simp: bounded_bytes_new_def)

lemma secret_vec_Ok_iff:
  "secret_vec_input bs = Ok x \<longleftrightarrow> x = bs \<and> length bs \<le> MAX_INPUT_BYTES"
  "secret_vec_from_vec bs n = Ok x \<longleftrightarrow> x = bs \<and> length bs \<le> n"
  by (auto simp: bounded_defs)

lemma fill_Ok_iff:
  "fill n tape = Ok (bs, rest) \<longleftrightarrow> length bs = n \<and> tape = bs @ rest"
  by (auto simp: fill_def split: if_splits)

lemma random_bytes_Ok_iff:
  "random_bytes n tape = Ok (bs, rest) \<longleftrightarrow> n \<le> MAX_INPUT_BYTES \<and> length bs = n \<and> tape = bs @ rest"
  by (auto simp: random_bytes_def fill_Ok_iff monad_simps)

lemma x25519_shared_nonzero:
  "x25519_shared P s p = Ok k \<Longrightarrow> k \<noteq> replicate 32 0 \<and> k = x_diffie_hellman P s p"
  by (auto simp: x25519_shared_def Let_def split: if_splits)

lemma ed25519_sign_Ok_iff:
  "ed25519_sign P s m = Ok sig \<longleftrightarrow> length m \<le> MAX_INPUT_BYTES \<and> sig = ed_sign_raw P s m"
  by (auto simp: ed25519_sign_def bounded_bytes_new_def)

lemma ed25519_verify_Ok_iff:
  "ed25519_verify P k m sig = Ok u \<longleftrightarrow>
     length m \<le> MAX_INPUT_BYTES \<and> ed_key_valid P k \<and> ed_verify_strict P k m sig"
  by (auto simp: ed25519_verify_def bounded_bytes_new_def)

lemma xchacha_round_trip:
  assumes "aead_correct P" and "length pt + 16 \<le> MAX_INPUT_BYTES" and "length ad \<le> MAX_INPUT_BYTES"
  obtains ct where "xchacha20poly1305_encrypt P k n pt ad = Ok ct"
    and "length ct = length pt + 16"
    and "xchacha20poly1305_decrypt P k n ct ad = Ok pt"
proof -
  from assms(1) obtain ct where ct: "aead_seal P k n ad pt = Some ct" "length ct = length pt + 16"
    "aead_open P k n ad ct = Some pt"
    unfolding aead_correct_def by blast
  show ?thesis
  proof
    show "xchacha20poly1305_encrypt P k n pt ad = Ok ct"
      using assms ct by (simp add: xchacha20poly1305_encrypt_def bounded_defs usize_checked_add_def
          size_defs)
    show "length ct = length pt + 16" by (rule ct(2))
    show "xchacha20poly1305_decrypt P k n ct ad = Ok pt"
      using assms ct by (simp add: xchacha20poly1305_decrypt_def bounded_defs size_defs)
  qed
qed

end
