(* ===== verification/Protocol.thy ===== *)
theory Protocol
  imports Crypto_Provider
begin

text \<open>
  \<^verbatim>\<open>protocol.rs\<close>: the strict byte reader, the writers, and the keyed derivation helpers.

  The interface between a wire format's writer and its reader is the locale \<open>codec\<close>: the parser
  accepts exactly the encodings of well-formed values and consumes exactly those bytes. It is
  interpreted for every field format of \<^verbatim>\<open>protocol.rs\<close> here and for the compound formats in the
  theories of their components. Its two composition rules, collected in \<open>reads_intros\<close> and
  \<open>sound_intros\<close>, reduce a round trip or a canonicity proof of a long decoder to the fields it reads.
\<close>

named_theorems reads_intros "composition rules: a parser reads back what an encoder wrote"
named_theorems ends_intros "composition rules: a parser that must reach the end of its input"
named_theorems sound_end_intros "composition rules: what a successful parser of a whole input read"
named_theorems sound_intros "composition rules: what a successful parser consumed"

section \<open>Reader\<close>

record reader =
  rd_input :: bytes
  rd_position :: nat

type_synonym 'a parser = "(reader, crypto_error, 'a) sr"

definition reader_new :: "bytes \<Rightarrow> reader" where
  "reader_new inp = \<lparr>rd_input = inp, rd_position = 0\<rparr>"

definition reader_take :: "nat \<Rightarrow> bytes parser" where
  "reader_take n r =
     (case usize_checked_add (rd_position r) n of
        None \<Rightarrow> Err MalformedInput
      | Some stop \<Rightarrow>
          if stop \<le> length (rd_input r)
          then Ok (take n (drop (rd_position r) (rd_input r)), r\<lparr>rd_position := stop\<rparr>)
          else Err MalformedInput)"

definition reader_expect :: "bytes \<Rightarrow> unit parser" where
  "reader_expect expected =
     sbind (reader_take (length expected)) (\<lambda>got.
     slift (if got = expected then Ok () else Err MalformedInput))"

definition reader_remaining :: "reader \<Rightarrow> nat" where
  "reader_remaining r = length (rd_input r) - rd_position r"

text \<open>\<^verbatim>\<open>[u8; LENGTH]::try_from\<close> fails on any other length; \<^const>\<open>reader_take\<close> returns the length it is asked for.\<close>

definition fixed :: "nat \<Rightarrow> bytes \<Rightarrow> bytes cresult" where
  "fixed n value = (if length value = n then Ok value else Err MalformedInput)"

definition reader_array :: "nat \<Rightarrow> bytes parser" where
  "reader_array n = sbind (reader_take n) (\<lambda>value. slift (fixed n value))"

definition reader_u8 :: "u8 parser" where
  "reader_u8 = sbind (reader_take 1) (\<lambda>value. ret (value ! 0))"

definition reader_boolean :: "bool parser" where
  "reader_boolean =
     sbind reader_u8 (\<lambda>b.
     slift (if b = 0 then Ok False else if b = 1 then Ok True else Err MalformedInput))"

definition reader_u16 :: "u16 parser" where
  "reader_u16 = sbind (reader_array 2) (\<lambda>value. ret (word_of_nat (be_value value)))"

definition reader_u32 :: "u32 parser" where
  "reader_u32 = sbind (reader_array 4) (\<lambda>value. ret (word_of_nat (be_value value)))"

definition reader_u64 :: "u64 parser" where
  "reader_u64 = sbind (reader_array 8) (\<lambda>value. ret (word_of_nat (be_value value)))"

definition reader_framed :: "bytes parser" where
  "reader_framed =
     sbind reader_u32 (\<lambda>len.
     if unat len > MAX_INPUT_BYTES then slift (Err InputTooLarge)
     else reader_take (unat len))"

definition reader_is_finished :: "reader \<Rightarrow> bool" where
  "reader_is_finished r \<longleftrightarrow> rd_position r = length (rd_input r)"

definition reader_position :: "reader \<Rightarrow> nat" where
  "reader_position r = rd_position r"

text \<open>The reader's \<^verbatim>\<open>is_finished\<close> as an observation inside a parser.\<close>

definition finished :: "bool parser" where
  "finished r = Ok (reader_is_finished r, r)"

section \<open>Writers\<close>

definition u16_bytes :: "u16 \<Rightarrow> bytes" where "u16_bytes v = be_bytes 2 (unat v)"
definition u32_bytes :: "u32 \<Rightarrow> bytes" where "u32_bytes v = be_bytes 4 (unat v)"
definition u64_bytes :: "u64 \<Rightarrow> bytes" where "u64_bytes v = be_bytes 8 (unat v)"

definition push_u16 :: "bytes \<Rightarrow> u16 \<Rightarrow> bytes" where
  "push_u16 output v = output @ u16_bytes v"

definition push_u32 :: "bytes \<Rightarrow> u32 \<Rightarrow> bytes" where
  "push_u32 output v = output @ u32_bytes v"

definition push_u64 :: "bytes \<Rightarrow> u64 \<Rightarrow> bytes" where
  "push_u64 output v = output @ u64_bytes v"

definition push_frame :: "bytes \<Rightarrow> bytes \<Rightarrow> bytes cresult" where
  "push_frame output value =
     rbind (ok_or (try_from_usize (length value)) InputTooLarge) (\<lambda>len.
     Ok (push_u32 output len @ value))"

definition reserve :: "bytes \<Rightarrow> nat \<Rightarrow> unit cresult" where
  "reserve output additional =
     rbind (ok_or (usize_checked_add (length output) additional) InputTooLarge) (\<lambda>final_len.
     reject_if (final_len > MAX_INPUT_BYTES) InputTooLarge)"

section \<open>Keyed derivation\<close>

definition hkdf_sha256 :: "prims \<Rightarrow> bytes \<Rightarrow> bytes \<Rightarrow> bytes \<Rightarrow> nat \<Rightarrow> bytes cresult" where
  "hkdf_sha256 P salt input_key_material info output_len =
     (if length salt > MAX_INPUT_BYTES \<or> length input_key_material > MAX_INPUT_BYTES
         \<or> length info > MAX_INPUT_BYTES \<or> output_len > MAX_INPUT_BYTES
      then Err InputTooLarge
      else ok_or (hkdf256_raw P salt input_key_material info output_len) OutputTooSmall)"

definition hmac_sha256 :: "prims \<Rightarrow> bytes \<Rightarrow> bytes \<Rightarrow> bytes cresult" where
  "hmac_sha256 P key message =
     (if length key > MAX_INPUT_BYTES \<or> length message > MAX_INPUT_BYTES
      then Err InputTooLarge
      else ok_or (hmac256_raw P key message) InvalidArgument)"

section \<open>What a parser has left, reads and consumes\<close>

definition reader_ok :: "reader \<Rightarrow> bool" where
  "reader_ok r \<longleftrightarrow> rd_position r \<le> length (rd_input r) \<and> length (rd_input r) < 2 ^ 64"

definition unread :: "reader \<Rightarrow> bytes" where
  "unread r = drop (rd_position r) (rd_input r)"

definition advance :: "nat \<Rightarrow> reader \<Rightarrow> reader" where
  "advance n r = r\<lparr>rd_position := rd_position r + n\<rparr>"

text \<open>\<open>reads p bs x\<close>: in front of \<open>bs\<close>, whatever follows, \<open>p\<close> returns \<open>x\<close> and moves past \<open>bs\<close>.\<close>

definition reads :: "'a parser \<Rightarrow> bytes \<Rightarrow> 'a \<Rightarrow> bool" where
  "reads p bs x \<longleftrightarrow>
     (\<forall>r tail. reader_ok r \<longrightarrow> unread r = bs @ tail \<longrightarrow> p r = Ok (x, advance (length bs) r))"

text \<open>\<open>sound p Q\<close>: whenever \<open>p\<close> succeeds, the bytes it consumed and its result are related by \<open>Q\<close>.\<close>

definition sound :: "'a parser \<Rightarrow> (bytes \<Rightarrow> 'a \<Rightarrow> bool) \<Rightarrow> bool" where
  "sound p Q \<longleftrightarrow>
     (\<forall>r x r'. reader_ok r \<longrightarrow> p r = Ok (x, r') \<longrightarrow>
        (\<exists>bs. unread r = bs @ unread r' \<and> r' = advance (length bs) r \<and> Q bs x))"

lemma reader_ok_new [simp]: "length bs < 2 ^ 64 \<Longrightarrow> reader_ok (reader_new bs)"
  by (simp add: reader_ok_def reader_new_def)

lemma unread_new [simp]: "unread (reader_new bs) = bs"
  by (simp add: unread_def reader_new_def)

lemma unread_advance:
  "unread r = bs @ tail \<Longrightarrow> unread (advance (length bs) r) = tail"
  by (simp add: unread_def advance_def drop_drop [symmetric] add.commute del: drop_drop)

lemma reader_ok_advance:
  assumes "reader_ok r" and "unread r = bs @ tail"
  shows "reader_ok (advance (length bs) r)"
proof -
  from assms(2) have "length (rd_input r) - rd_position r = length bs + length tail"
    unfolding unread_def by (metis length_append length_drop)
  with assms(1) show ?thesis by (auto simp: reader_ok_def advance_def)
qed

lemma advance_0 [simp]: "advance 0 r = r"
  by (simp add: advance_def)

lemma advance_advance [simp]: "advance m (advance n r) = advance (n + m) r"
  by (simp add: advance_def)

lemma reader_is_finished_iff: "reader_ok r \<Longrightarrow> reader_is_finished r \<longleftrightarrow> unread r = []"
  by (auto simp: reader_is_finished_def reader_ok_def unread_def)

lemma readsD:
  "reads p bs x \<Longrightarrow> reader_ok r \<Longrightarrow> unread r = bs @ tail \<Longrightarrow> p r = Ok (x, advance (length bs) r)"
  by (simp add: reads_def)

lemma reads_ret: "reads (ret x) [] x"
  by (simp add: reads_def ret_apply)

lemma reads_ret_eq [reads_intros]: "x = y \<Longrightarrow> reads (ret x) [] y"
  by (simp add: reads_ret)

lemma reads_bind:
  assumes p: "reads p a x" and f: "reads (f x) b y"
  shows "reads (sbind p f) (a @ b) y"
  unfolding reads_def
proof (intro allI impI)
  fix r tail
  assume ok: "reader_ok r" and r: "unread r = (a @ b) @ tail"
  then have "p r = Ok (x, advance (length a) r)"
    by (intro readsD [OF p, of r "b @ tail"]) simp_all
  moreover have "f x (advance (length a) r) = Ok (y, advance (length b) (advance (length a) r))"
  proof (rule readsD [OF f])
    show "reader_ok (advance (length a) r)"
      using ok r by (intro reader_ok_advance [where tail = "b @ tail"]) simp_all
    show "unread (advance (length a) r) = b @ tail"
      using r by (intro unread_advance) simp
  qed
  ultimately show "sbind p f r = Ok (y, advance (length (a @ b)) r)"
    by (simp add: sbind_Ok)
qed

lemma reads_slift [reads_intros]: "m = Ok x \<Longrightarrow> reads (slift m) [] x"
  by (simp add: reads_def monad_simps)

lemma reads_bind_slift [reads_intros]:
  "m = Ok x \<Longrightarrow> reads (f x) bs y \<Longrightarrow> reads (sbind (slift m) f) bs y"
  by simp

lemma reads_if [reads_intros]:
  "(c \<Longrightarrow> reads p bs x) \<Longrightarrow> (\<not> c \<Longrightarrow> reads q bs x) \<Longrightarrow> reads (if c then p else q) bs x"
  by simp

lemma reads_last: "reads p (bs @ []) x \<Longrightarrow> reads p bs x"
  by simp

lemma soundD:
  assumes "sound p Q" and "reader_ok r" and "p r = Ok (x, r')"
  obtains bs where "unread r = bs @ unread r'" and "r' = advance (length bs) r" and "Q bs x"
  using assms unfolding sound_def by blast

lemma sound_conseq: "sound p Q \<Longrightarrow> (\<And>bs x. Q bs x \<Longrightarrow> R bs x) \<Longrightarrow> sound p R"
  unfolding sound_def by blast

lemma sound_ret [sound_intros]: "Q [] x \<Longrightarrow> sound (ret x) Q"
  by (auto simp: sound_def ret_apply)

lemma sound_slift [sound_intros]: "(\<And>x. m = Ok x \<Longrightarrow> Q [] x) \<Longrightarrow> sound (slift m) Q"
  by (auto simp: sound_def)

lemma sound_bind:
  assumes p: "sound p Q" and f: "\<And>a x. Q a x \<Longrightarrow> sound (f x) (\<lambda>bs y. R (a @ bs) y)"
  shows "sound (sbind p f) R"
  unfolding sound_def
proof (intro allI impI)
  fix r y r''
  assume ok: "reader_ok r" and run: "sbind p f r = Ok (y, r'')"
  from run obtain x r' where px: "p r = Ok (x, r')" and fx: "f x r' = Ok (y, r'')"
    by (rule sbind_OkE)
  from p ok px obtain a where a: "unread r = a @ unread r'" "r' = advance (length a) r" "Q a x"
    by (rule soundD)
  from ok a(1) have "reader_ok r'"
    unfolding a(2) by (rule reader_ok_advance)
  from f [OF a(3)] this fx obtain b where
    b: "unread r' = b @ unread r''" "r'' = advance (length b) r'" "R (a @ b) y"
    by (rule soundD)
  from a b show "\<exists>bs. unread r = bs @ unread r'' \<and> r'' = advance (length bs) r \<and> R bs y"
    by (intro exI [of _ "a @ b"]) simp
qed

lemma sound_bind_slift [sound_intros]:
  "(\<And>x. m = Ok x \<Longrightarrow> sound (f x) R) \<Longrightarrow> sound (sbind (slift m) f) R"
  by (cases m) (auto simp: sound_def)

lemma sound_if [sound_intros]:
  "(c \<Longrightarrow> sound p Q) \<Longrightarrow> (\<not> c \<Longrightarrow> sound q Q) \<Longrightarrow> sound (if c then p else q) Q"
  by simp

lemma sound_bind_finished [sound_intros]:
  assumes "\<And>fin. sound (f fin) R"
  shows "sound (sbind finished f) R"
  using assms by (auto simp: sound_def finished_def sbind_def)

text \<open>
  \<open>reads_to_end p bs x\<close>: when exactly \<open>bs\<close> is left, \<open>p\<close> returns \<open>x\<close> and has read all of it. It is for the
  parsers that check \<^verbatim>\<open>is_finished\<close> before they return.
\<close>

definition reads_to_end :: "'a parser \<Rightarrow> bytes \<Rightarrow> 'a \<Rightarrow> bool" where
  "reads_to_end p bs x \<longleftrightarrow>
     (\<forall>r. reader_ok r \<longrightarrow> unread r = bs \<longrightarrow> p r = Ok (x, advance (length bs) r))"

lemma reads_to_end_new:
  "reads_to_end p bs x \<Longrightarrow> length bs < 2 ^ 64 \<Longrightarrow> p (reader_new bs) = Ok (x, advance (length bs) (reader_new bs))"
  by (simp add: reads_to_end_def)

lemma reads_to_end_ret [ends_intros]: "x = y \<Longrightarrow> reads_to_end (ret x) [] y"
  by (simp add: reads_to_end_def ret_apply)

lemma reads_to_end_bind_slift [ends_intros]:
  "m = Ok x \<Longrightarrow> reads_to_end (f x) bs y \<Longrightarrow> reads_to_end (sbind (slift m) f) bs y"
  by simp

lemma reads_to_end_bind_finished [ends_intros]:
  "reads_to_end (f True) [] y \<Longrightarrow> reads_to_end (sbind finished f) [] y"
  by (simp add: reads_to_end_def sbind_def finished_def reader_is_finished_iff)

lemma reads_to_end_if [ends_intros]:
  "(c \<Longrightarrow> reads_to_end p bs x) \<Longrightarrow> (\<not> c \<Longrightarrow> reads_to_end q bs x) \<Longrightarrow> reads_to_end (if c then p else q) bs x"
  by simp

lemma reads_to_end_last: "reads_to_end p (bs @ []) x \<Longrightarrow> reads_to_end p bs x"
  by simp

lemma reads_to_end_bind:
  assumes p: "reads p a x" and f: "reads_to_end (f x) b y"
  shows "reads_to_end (sbind p f) (a @ b) y"
  unfolding reads_to_end_def
proof (intro allI impI)
  fix r
  assume ok: "reader_ok r" and r: "unread r = a @ b"
  have "p r = Ok (x, advance (length a) r)" by (rule readsD [OF p ok r])
  moreover have "f x (advance (length a) r) = Ok (y, advance (length b) (advance (length a) r))"
    using f reader_ok_advance [OF ok r] unread_advance [OF r] by (simp add: reads_to_end_def)
  ultimately show "sbind p f r = Ok (y, advance (length (a @ b)) r)"
    by (simp add: sbind_Ok)
qed

text \<open>\<open>sound_to_end p Q\<close>: whenever \<open>p\<close> succeeds, all that was left and its result are related by \<open>Q\<close>.\<close>

definition sound_to_end :: "'a parser \<Rightarrow> (bytes \<Rightarrow> 'a \<Rightarrow> bool) \<Rightarrow> bool" where
  "sound_to_end p Q \<longleftrightarrow> (\<forall>r x r'. reader_ok r \<longrightarrow> p r = Ok (x, r') \<longrightarrow> Q (unread r) x)"

lemma sound_to_end_ret [sound_end_intros]: "(\<And>bs. Q bs x) \<Longrightarrow> sound_to_end (ret x) Q"
  by (simp add: sound_to_end_def ret_apply)

lemma sound_to_end_bind_slift [sound_end_intros]:
  "(\<And>x. m = Ok x \<Longrightarrow> sound_to_end (f x) R) \<Longrightarrow> sound_to_end (sbind (slift m) f) R"
  by (cases m) (auto simp: sound_to_end_def)

lemma sound_to_end_if [sound_end_intros]:
  "(c \<Longrightarrow> sound_to_end p Q) \<Longrightarrow> (\<not> c \<Longrightarrow> sound_to_end q Q) \<Longrightarrow> sound_to_end (if c then p else q) Q"
  by simp

lemma sound_to_end_bind_finished [sound_end_intros]:
  assumes "\<And>fin. sound_to_end (f fin) (\<lambda>bs y. fin = (bs = []) \<longrightarrow> R bs y)"
  shows "sound_to_end (sbind finished f) R"
  using assms by (auto simp: sound_to_end_def sbind_def finished_def reader_is_finished_iff)

lemma sound_to_end_bind:
  assumes p: "sound p Q" and f: "\<And>a x. Q a x \<Longrightarrow> sound_to_end (f x) (\<lambda>bs y. R (a @ bs) y)"
  shows "sound_to_end (sbind p f) R"
  unfolding sound_to_end_def
proof (intro allI impI)
  fix r y r''
  assume ok: "reader_ok r" and run: "sbind p f r = Ok (y, r'')"
  from run obtain x r' where px: "p r = Ok (x, r')" and fx: "f x r' = Ok (y, r'')"
    by (rule sbind_OkE)
  from p ok px obtain a where a: "unread r = a @ unread r'" "r' = advance (length a) r" "Q a x"
    by (rule soundD)
  from ok a(1) have "reader_ok r'"
    unfolding a(2) by (rule reader_ok_advance)
  with f [OF a(3)] fx have "R (a @ unread r') y" by (auto simp: sound_to_end_def)
  with a(1) show "R (unread r) y" by simp
qed

section \<open>The codec interface\<close>

locale codec =
  fixes parse :: "'a parser"
    and enc :: "'a \<Rightarrow> bytes"
    and wf :: "'a \<Rightarrow> bool"
  assumes parse_enc: "wf x \<Longrightarrow> reads parse (enc x) x"
    and parse_sound: "sound parse (\<lambda>bs x. wf x \<and> bs = enc x)"
begin

lemma bind_reads [reads_intros]:
  "wf x \<Longrightarrow> reads (f x) bs y \<Longrightarrow> reads (sbind parse f) (enc x @ bs) y"
  by (rule reads_bind [OF parse_enc])

lemma bind_reads_to_end [ends_intros]:
  "wf x \<Longrightarrow> reads_to_end (f x) bs y \<Longrightarrow> reads_to_end (sbind parse f) (enc x @ bs) y"
  by (rule reads_to_end_bind [OF parse_enc])

lemma final_reads [reads_intros]: "wf x \<Longrightarrow> reads parse (enc x @ []) x"
  by (simp add: parse_enc)

lemma bind_sound [sound_intros]:
  assumes "\<And>x. wf x \<Longrightarrow> sound (f x) (\<lambda>bs y. R (enc x @ bs) y)"
  shows "sound (sbind parse f) R"
  by (rule sound_bind [OF parse_sound]) (use assms in auto)

lemma bind_sound_to_end [sound_end_intros]:
  assumes "\<And>x. wf x \<Longrightarrow> sound_to_end (f x) (\<lambda>bs y. R (enc x @ bs) y)"
  shows "sound_to_end (sbind parse f) R"
  by (rule sound_to_end_bind [OF parse_sound]) (use assms in auto)

lemma final_sound [sound_intros]: "(\<And>x. wf x \<Longrightarrow> R (enc x) x) \<Longrightarrow> sound parse R"
  by (rule sound_conseq [OF parse_sound]) auto

text \<open>No encoding is a prefix of another: what follows a field never changes how it is read.\<close>

lemma prefix_free:
  assumes "wf x" and "wf y" and eq: "enc x @ u = enc y @ v" and "length (enc x @ u) < 2 ^ 64"
  shows "x = y \<and> u = v"
proof -
  let ?r = "reader_new (enc x @ u)"
  have "parse ?r = Ok (x, advance (length (enc x)) ?r)"
    using assms by (intro readsD [OF parse_enc, where tail = u]) simp_all
  moreover have "parse ?r = Ok (y, advance (length (enc y)) ?r)"
    using assms by (intro readsD [OF parse_enc, where tail = v]) simp_all
  ultimately have "x = y" by simp
  with eq show ?thesis by simp
qed

lemma repeat_reads: "list_all wf xs \<Longrightarrow> n = length xs \<Longrightarrow> reads (repeat_s n parse) (concat (map enc xs)) xs"
proof (induction xs arbitrary: n)
  case Nil
  then show ?case by (simp add: reads_ret)
next
  case (Cons x xs)
  then have "reads (repeat_s (length xs) parse) (concat (map enc xs)) xs" by simp
  then have "reads (sbind (repeat_s (length xs) parse) (\<lambda>ys. ret (x # ys)))
       (concat (map enc xs) @ []) (x # xs)"
    by (rule reads_bind) (rule reads_ret)
  with Cons.prems show ?case by (auto intro: bind_reads)
qed

lemma repeat_sound:
  "sound (repeat_s n parse) (\<lambda>bs xs. (list_all wf xs \<and> length xs = n) \<and> bs = concat (map enc xs))"
proof (induction n)
  case 0
  show ?case by (simp add: sound_ret)
next
  case (Suc n)
  show ?case
    by (simp del: append_assoc, intro bind_sound sound_bind [OF Suc.IH] sound_ret) auto
qed

lemma repeat_codec:
  "codec (repeat_s n parse) (\<lambda>xs. concat (map enc xs)) (\<lambda>xs. list_all wf xs \<and> length xs = n)"
  by unfold_locales (use repeat_reads repeat_sound in auto)

end

section \<open>The field formats are codecs\<close>

lemma reads_take: "length bs = n \<Longrightarrow> reads (reader_take n) bs bs"
  unfolding reads_def
proof (intro allI impI)
  fix r tail
  assume n: "length bs = n" and ok: "reader_ok r" and r: "unread r = bs @ tail"
  have "rd_position r + n \<le> length (rd_input r)"
    using ok r n reader_ok_advance [OF ok r] by (simp add: reader_ok_def advance_def)
  with ok r n show "reader_take n r = Ok (bs, advance (length bs) r)"
    by (simp add: reader_take_def usize_checked_add_def reader_ok_def unread_def advance_def)
qed

lemma sound_take: "sound (reader_take n) (\<lambda>bs x. length x = n \<and> bs = x)"
  unfolding sound_def
proof (intro allI impI)
  fix r x r'
  assume "reader_ok r" and "reader_take n r = Ok (x, r')"
  then have "rd_position r + n \<le> length (rd_input r)" and x: "x = take n (unread r)"
    and r': "r' = r\<lparr>rd_position := rd_position r + n\<rparr>"
    by (auto simp: reader_take_def usize_checked_add_def unread_def split: option.splits if_splits)
  moreover from this have "length x = n" by (simp add: unread_def)
  moreover have "unread r = x @ unread r'"
    by (simp add: x r' unread_def) (metis add.commute append_take_drop_id drop_drop)
  ultimately show "\<exists>bs. unread r = bs @ unread r' \<and> r' = advance (length bs) r \<and> length x = n \<and> bs = x"
    by (simp add: advance_def)
qed

interpretation take_codec: codec "reader_take n" "\<lambda>x. x" "\<lambda>x. length x = n" for n
  by unfold_locales (auto intro: reads_take sound_take)


lemma fixed_Ok_iff [simp]: "fixed n v = Ok x \<longleftrightarrow> x = v \<and> length v = n"
  by (auto simp: fixed_def)

interpretation array_codec: codec "reader_array n" "\<lambda>x. x" "\<lambda>x. length x = n" for n
proof unfold_locales
  show "reads (reader_array n) x x" if "length x = n" for x
    unfolding reader_array_def
    by (rule reads_last, intro take_codec.bind_reads reads_slift) (simp_all add: that)
  show "sound (reader_array n) (\<lambda>bs x. length x = n \<and> bs = x)"
    unfolding reader_array_def by (intro sound_intros) simp
qed

lemma length_uN_bytes [simp]:
  "length (u16_bytes a) = 2" "length (u32_bytes b) = 4" "length (u64_bytes c) = 8"
  by (simp_all add: u16_bytes_def u32_bytes_def u64_bytes_def)

text \<open>A big-endian integer field of \<open>n\<close> bytes, for the word of the same width.\<close>

lemma be_word_codec:
  fixes enc :: "'a::len word \<Rightarrow> bytes"
  assumes width: "256 ^ n = (2 :: nat) ^ LENGTH('a)" and enc: "\<And>v. enc v = be_bytes n (unat v)"
  shows "codec (sbind (reader_array n) (\<lambda>value. ret (word_of_nat (be_value value)))) enc (\<lambda>_. True)"
proof
  have inverse: "word_of_nat (be_value (be_bytes n (unat v))) = v" for v :: "'a word"
    using unsigned_less [of v] by (simp add: be_value_be_bytes width)
  show "reads (sbind (reader_array n) (\<lambda>value. ret (word_of_nat (be_value value)))) (enc v) v" for v
    by (rule reads_last, intro array_codec.bind_reads) (simp_all add: enc inverse reads_ret)
  have fwd: "bs = be_bytes n (unat (word_of_nat (be_value bs) :: 'a word))" if "length bs = n" for bs
    using be_value_less [of bs] be_bytes_be_value [of bs] that
    by (simp add: width unat_of_nat)
  show "sound (sbind (reader_array n) (\<lambda>value. ret (word_of_nat (be_value value))))
      (\<lambda>bs v. True \<and> bs = enc v)"
    by (intro sound_intros) (simp add: enc fwd [symmetric])
qed

interpretation u16_codec: codec reader_u16 u16_bytes "\<lambda>_. True"
  unfolding reader_u16_def by (rule be_word_codec) (simp_all add: u16_bytes_def)

interpretation u32_codec: codec reader_u32 u32_bytes "\<lambda>_. True"
  unfolding reader_u32_def by (rule be_word_codec) (simp_all add: u32_bytes_def)

interpretation u64_codec: codec reader_u64 u64_bytes "\<lambda>_. True"
  unfolding reader_u64_def by (rule be_word_codec) (simp_all add: u64_bytes_def)

interpretation u8_codec: codec reader_u8 "\<lambda>b. [b]" "\<lambda>_. True"
proof unfold_locales
  show "reads reader_u8 [b] b" for b
    unfolding reader_u8_def
    using reads_bind [OF reads_take [of "[b]" 1] reads_ret [of b]] take_codec.bind_reads [of "[b]" 1]
    by (metis append_Nil2 length_Cons list.size(3) nth_Cons_0 One_nat_def reads_ret)
  show "sound reader_u8 (\<lambda>bs b. True \<and> bs = [b])"
    unfolding reader_u8_def by (intro sound_intros) (auto simp: length_Suc_conv)
qed

text \<open>A flag byte is 0 or 1; every other value is refused.\<close>

definition bool_bytes :: "bool \<Rightarrow> bytes" where
  "bool_bytes b = [if b then 1 else 0]"

interpretation bool_codec: codec reader_boolean bool_bytes "\<lambda>_. True"
proof unfold_locales
  show "reads reader_boolean (bool_bytes b) b" for b
    unfolding reader_boolean_def bool_bytes_def
    by (rule reads_last, intro u8_codec.bind_reads reads_slift) simp_all
  show "sound reader_boolean (\<lambda>bs b. True \<and> bs = bool_bytes b)"
    unfolding reader_boolean_def bool_bytes_def by (intro sound_intros) (auto split: if_splits)
qed

text \<open>A length-prefixed frame, refused above the input limit.\<close>

definition frame :: "bytes \<Rightarrow> bytes" where
  "frame v = u32_bytes (word_of_nat (length v)) @ v"

lemma length_frame [simp]: "length (frame v) = 4 + length v"
  by (simp add: frame_def)

lemma push_frame_eq:
  "push_frame output v = (if length v < 2 ^ 32 then Ok (output @ frame v) else Err InputTooLarge)"
  by (simp add: push_frame_def push_u32_def frame_def)

interpretation frame_codec: codec reader_framed frame "\<lambda>v. length v \<le> MAX_INPUT_BYTES"
proof unfold_locales
  show "reads reader_framed (frame v) v" if "length v \<le> MAX_INPUT_BYTES" for v
  proof -
    have "length v < 2 ^ LENGTH(32)" using that by (simp add: MAX_INPUT_BYTES_def)
    then show ?thesis
      unfolding reader_framed_def frame_def using that
      by (intro u32_codec.bind_reads) (simp_all add: reads_take)
  qed
  show "sound reader_framed (\<lambda>bs v. length v \<le> MAX_INPUT_BYTES \<and> bs = frame v)"
    unfolding reader_framed_def frame_def by (intro sound_intros) auto
qed

section \<open>Whole-input parsing\<close>

text \<open>Run a parser over a whole input and require that nothing is left.\<close>

definition parse_all :: "'a parser \<Rightarrow> bytes \<Rightarrow> 'a cresult" where
  "parse_all p bs =
     rbind (p (reader_new bs)) (\<lambda>(x, r).
     if reader_is_finished r then Ok x else Err MalformedInput)"

context codec
begin

lemma parse_all_enc: "wf x \<Longrightarrow> length (enc x) < 2 ^ 64 \<Longrightarrow> parse_all parse (enc x) = Ok x"
proof -
  assume "wf x" and len: "length (enc x) < 2 ^ 64"
  then have "parse (reader_new (enc x)) = Ok (x, advance (length (enc x)) (reader_new (enc x)))"
    by (intro readsD [OF parse_enc, where tail = "[]"]) simp_all
  then show ?thesis
    by (simp add: parse_all_def reader_is_finished_def advance_def reader_new_def)
qed

lemma parse_all_sound: "length bs < 2 ^ 64 \<Longrightarrow> parse_all parse bs = Ok x \<Longrightarrow> wf x \<and> bs = enc x"
proof -
  assume len: "length bs < 2 ^ 64" and run: "parse_all parse bs = Ok x"
  from run obtain r where p: "parse (reader_new bs) = Ok (x, r)" and fin: "reader_is_finished r"
    by (auto simp: parse_all_def elim!: monad_elims split: if_splits prod.splits)
  from parse_sound reader_ok_new [OF len] p obtain cs where
    cs: "unread (reader_new bs) = cs @ unread r" "r = advance (length cs) (reader_new bs)"
      "wf x \<and> cs = enc x"
    by (rule soundD)
  from fin cs len have "unread r = []"
    by (simp add: reader_is_finished_def unread_def)
  with cs show ?thesis by simp
qed

end

section \<open>Formats that fill their input\<close>

text \<open>\<^verbatim>\<open>let mut reader = Reader::new(input); ...\<close>, without a further use of the reader.\<close>

definition run_parser :: "'a parser \<Rightarrow> bytes \<Rightarrow> 'a cresult" where
  "run_parser p bs = rbind (p (reader_new bs)) (\<lambda>(x, _). Ok x)"

text \<open>
  The contract of a format whose parser checks itself that nothing follows: it accepts exactly the
  encodings of well-formed values.
\<close>

locale whole_codec =
  fixes parse :: "'a parser"
    and enc :: "'a \<Rightarrow> bytes"
    and wf :: "'a \<Rightarrow> bool"
  assumes parse_enc: "wf x \<Longrightarrow> reads_to_end parse (enc x) x"
    and parse_sound: "sound_to_end parse (\<lambda>bs x. wf x \<and> bs = enc x)"
begin

lemma run_iff:
  assumes "length bs < 2 ^ 64"
  shows "run_parser parse bs = Ok x \<longleftrightarrow> wf x \<and> bs = enc x"
proof
  assume "run_parser parse bs = Ok x"
  then obtain r where "parse (reader_new bs) = Ok (x, r)"
    by (auto simp: run_parser_def elim!: monad_elims)
  with parse_sound reader_ok_new [OF assms] show "wf x \<and> bs = enc x"
    by (fastforce simp: sound_to_end_def)
next
  assume "wf x \<and> bs = enc x"
  with assms reads_to_end_new [OF parse_enc, of x] show "run_parser parse bs = Ok x"
    by (simp add: run_parser_def)
qed

lemma enc_inj: "wf x \<Longrightarrow> wf y \<Longrightarrow> enc x = enc y \<Longrightarrow> length (enc x) < 2 ^ 64 \<Longrightarrow> x = y"
  using run_iff [of "enc x" x] run_iff [of "enc x" y] by simp

end

text \<open>A codec followed by the end-of-input check.\<close>

definition ending :: "'a parser \<Rightarrow> crypto_error \<Rightarrow> 'a parser" where
  "ending p e = sbind p (\<lambda>x. sbind finished (\<lambda>fin. sbind (slift (reject_if (\<not> fin) e)) (\<lambda>_. ret x)))"

context codec
begin

lemma ending_whole_codec: "whole_codec (ending parse e) enc wf"
proof
  show "reads_to_end (ending parse e) (enc x) x" if "wf x" for x
    using reads_to_end_bind [OF parse_enc [OF that],
        of "\<lambda>x. sbind finished (\<lambda>fin. sbind (slift (reject_if (\<not> fin) e)) (\<lambda>_. ret x))" "[]" x]
    by (simp add: ending_def reads_to_end_bind_finished reads_to_end_ret)
  show "sound_to_end (ending parse e) (\<lambda>bs x. wf x \<and> bs = enc x)"
    unfolding ending_def by (intro sound_end_intros) auto
qed

end

lemmas reader_defs =
  reader_take_def reader_array_def reader_u8_def reader_boolean_def reader_u16_def reader_u32_def
  reader_u64_def reader_framed_def reader_is_finished_def reader_new_def finished_def

end
