(* ===== verification/Device_Signatures.thy ===== *)
theory Device_Signatures
  imports Protocol
begin

text \<open>
  \<^verbatim>\<open>device_signatures.rs\<close>: the canonical byte strings that devices and accounts sign, and their
  verification. The encodings are proved injective and mutually disjoint (domain separation), so
  a signature over one kind of statement never verifies as a signature over another value or kind.
\<close>

section \<open>Identifiers, keys and signed values\<close>

definition ascii :: "string \<Rightarrow> bytes" where
  "ascii s = map of_char s"

definition CROSS_SIGNATURE_DOMAIN :: bytes where
  "CROSS_SIGNATURE_DOMAIN = ascii ''chat:v1:device-bundle''"
definition MASTER_SIGNATURE_DOMAIN :: bytes where
  "MASTER_SIGNATURE_DOMAIN = ascii ''chat:v1:cross-signing-keys''"
definition SIGNED_PREKEY_DOMAIN :: bytes where
  "SIGNED_PREKEY_DOMAIN = ascii ''chat:v1:signed-prekey''"
definition PQ_SIGNED_PREKEY_DOMAIN :: bytes where
  "PQ_SIGNED_PREKEY_DOMAIN = ascii ''chat:v1:pq-signed-prekey''"

text \<open>
  \<^verbatim>\<open>IkPublic\<close> is the 64-byte concatenation of the Ed25519 and the X25519 half.
\<close>

definition ik_from_halves :: "bytes \<Rightarrow> bytes \<Rightarrow> bytes" where
  "ik_from_halves device_signing_public identity_public = device_signing_public @ identity_public"

definition ik_try_from_bytes :: "bytes \<Rightarrow> bytes cresult" where
  "ik_try_from_bytes bs = fixed 64 bs"

definition ik_device_signing_public :: "bytes \<Rightarrow> bytes" where
  "ik_device_signing_public ik = take 32 ik"

definition ik_identity_public :: "bytes \<Rightarrow> bytes" where
  "ik_identity_public ik = drop 32 ik"

record public_prekey =
  pk_id :: u32
  pk_public :: bytes

record device_bundle =
  db_user_id :: bytes
  db_device_id :: bytes
  db_ik_public :: bytes
  db_spk_id :: u32
  db_spk_public :: bytes
  db_pq_signed_prekey :: "public_prekey option"
  db_registration_id :: u32
  db_bundle_version :: u32

record cross_signing_identity =
  ci_user_id :: bytes
  ci_self_signing_public :: bytes
  ci_user_signing_public :: bytes

record signed_prekey =
  sp_user_id :: bytes
  sp_prekey :: public_prekey

section \<open>The framed encoder\<close>

definition encoder_new :: "bytes \<Rightarrow> bytes cresult" where
  "encoder_new domain = (if length domain > MAX_INPUT_BYTES then Err InputTooLarge else Ok domain)"

definition encoder_field :: "bytes \<Rightarrow> bytes \<Rightarrow> bytes cresult" where
  "encoder_field encoded field =
     rbind (ok_or (try_from_usize (length field)) InputTooLarge) (\<lambda>field_length.
     rbind (ok_or (usize_checked_add 4 (length field)) InputTooLarge) (\<lambda>appended.
     rbind (ok_or (usize_checked_add (length encoded) appended) InputTooLarge) (\<lambda>encoded_length.
     if encoded_length > MAX_INPUT_BYTES then Err InputTooLarge
     else Ok (encoded @ u32_bytes field_length @ field))))"

definition encode_cross_signature :: "device_bundle \<Rightarrow> bytes cresult" where
  "encode_cross_signature bundle =
     rbind (encoder_new CROSS_SIGNATURE_DOMAIN) (\<lambda>e.
     rbind (encoder_field e (db_user_id bundle)) (\<lambda>e.
     rbind (encoder_field e (db_device_id bundle)) (\<lambda>e.
     rbind (encoder_field e (db_ik_public bundle)) (\<lambda>e.
     rbind (encoder_field e (u32_bytes (db_spk_id bundle))) (\<lambda>e.
     rbind (encoder_field e (db_spk_public bundle)) (\<lambda>e.
     rbind (case db_pq_signed_prekey bundle of
              Some prekey \<Rightarrow>
                rbind (encoder_field e (u32_bytes (pk_id prekey))) (\<lambda>e.
                encoder_field e (pk_public prekey))
            | None \<Rightarrow> rbind (encoder_field e []) (\<lambda>e. encoder_field e [])) (\<lambda>e.
     rbind (encoder_field e (u32_bytes (db_registration_id bundle))) (\<lambda>e.
     encoder_field e (u32_bytes (db_bundle_version bundle))))))))))"

definition encode_master_signature :: "cross_signing_identity \<Rightarrow> bytes cresult" where
  "encode_master_signature identity =
     rbind (encoder_new MASTER_SIGNATURE_DOMAIN) (\<lambda>e.
     rbind (encoder_field e (ci_user_id identity)) (\<lambda>e.
     rbind (encoder_field e (ci_self_signing_public identity)) (\<lambda>e.
     encoder_field e (ci_user_signing_public identity))))"

definition encode_prekey :: "bytes \<Rightarrow> signed_prekey \<Rightarrow> bytes cresult" where
  "encode_prekey domain prekey =
     rbind (encoder_new domain) (\<lambda>e.
     rbind (encoder_field e (sp_user_id prekey)) (\<lambda>e.
     rbind (encoder_field e (u32_bytes (pk_id (sp_prekey prekey)))) (\<lambda>e.
     encoder_field e (pk_public (sp_prekey prekey)))))"

definition encode_signed_prekey :: "signed_prekey \<Rightarrow> bytes cresult" where
  "encode_signed_prekey prekey = encode_prekey SIGNED_PREKEY_DOMAIN prekey"

definition encode_pq_signed_prekey :: "signed_prekey \<Rightarrow> bytes cresult" where
  "encode_pq_signed_prekey prekey = encode_prekey PQ_SIGNED_PREKEY_DOMAIN prekey"

section \<open>Verification\<close>

definition verify :: "prims \<Rightarrow> bytes \<Rightarrow> bytes \<Rightarrow> bytes \<Rightarrow> unit cresult" where
  "verify P signer signed_bytes signature = ed25519_verify P signer signed_bytes signature"

definition verify_cross_signature ::
    "prims \<Rightarrow> device_bundle \<Rightarrow> bytes \<Rightarrow> bytes \<Rightarrow> unit cresult" where
  "verify_cross_signature P bundle self_signing_public signature =
     rbind (encode_cross_signature bundle) (\<lambda>signed_bytes.
     verify P self_signing_public signed_bytes signature)"

definition verify_master_signature ::
    "prims \<Rightarrow> cross_signing_identity \<Rightarrow> bytes \<Rightarrow> bytes \<Rightarrow> unit cresult" where
  "verify_master_signature P identity master_public signature =
     rbind (encode_master_signature identity) (\<lambda>signed_bytes.
     verify P master_public signed_bytes signature)"

definition verify_signed_prekey ::
    "prims \<Rightarrow> signed_prekey \<Rightarrow> bytes \<Rightarrow> bytes \<Rightarrow> unit cresult" where
  "verify_signed_prekey P prekey ik_public signature =
     rbind (encode_signed_prekey prekey) (\<lambda>signed_bytes.
     verify P (ik_device_signing_public ik_public) signed_bytes signature)"

definition verify_pq_signed_prekey ::
    "prims \<Rightarrow> signed_prekey \<Rightarrow> bytes \<Rightarrow> bytes \<Rightarrow> unit cresult" where
  "verify_pq_signed_prekey P prekey ik_public signature =
     rbind (encode_pq_signed_prekey prekey) (\<lambda>signed_bytes.
     verify P (ik_device_signing_public ik_public) signed_bytes signature)"

section \<open>Closed forms of the encodings\<close>

text \<open>
  Every encoding is its domain followed by the frames of a list of fields. An absent post-quantum
  prekey is two empty fields.
\<close>

definition frames :: "bytes list \<Rightarrow> bytes" where
  "frames fs = concat (map frame fs)"

definition cross_fields :: "device_bundle \<Rightarrow> bytes list" where
  "cross_fields b =
     [db_user_id b, db_device_id b, db_ik_public b, u32_bytes (db_spk_id b), db_spk_public b]
     @ (case db_pq_signed_prekey b of
          Some prekey \<Rightarrow> [u32_bytes (pk_id prekey), pk_public prekey]
        | None \<Rightarrow> [[], []])
     @ [u32_bytes (db_registration_id b), u32_bytes (db_bundle_version b)]"

definition master_fields :: "cross_signing_identity \<Rightarrow> bytes list" where
  "master_fields i = [ci_user_id i, ci_self_signing_public i, ci_user_signing_public i]"

definition prekey_fields :: "signed_prekey \<Rightarrow> bytes list" where
  "prekey_fields p = [sp_user_id p, u32_bytes (pk_id (sp_prekey p)), pk_public (sp_prekey p)]"

lemma length_ascii [simp]: "length (ascii s) = length s"
  by (simp add: ascii_def)

lemma frames_simps [simp]:
  "frames [] = []"
  "frames (f # fs) = frame f @ frames fs"
  by (simp_all add: frames_def)

lemma encoder_field_Ok_iff:
  "encoder_field e f = Ok e' \<longleftrightarrow> length e + 4 + length f \<le> MAX_INPUT_BYTES \<and> e' = e @ frame f"
  by (auto simp: encoder_field_def usize_checked_add_def frame_def MAX_INPUT_BYTES_def
      try_from_usize_def rbind_Ok_iff split: if_splits)

lemma encoder_new_Ok_iff: "encoder_new d = Ok e \<longleftrightarrow> length d \<le> MAX_INPUT_BYTES \<and> e = d"
  by (auto simp: encoder_new_def)

lemma encode_cross_signature_Ok:
  "encode_cross_signature b = Ok bs \<Longrightarrow>
     bs = CROSS_SIGNATURE_DOMAIN @ frames (cross_fields b) \<and> length bs \<le> MAX_INPUT_BYTES"
  unfolding encode_cross_signature_def cross_fields_def
  by (elim rbind_OkE) (auto simp: encoder_field_Ok_iff encoder_new_Ok_iff
      split: option.splits elim!: rbind_OkE)

lemma encode_master_signature_Ok:
  "encode_master_signature i = Ok bs \<Longrightarrow>
     bs = MASTER_SIGNATURE_DOMAIN @ frames (master_fields i) \<and> length bs \<le> MAX_INPUT_BYTES"
  unfolding encode_master_signature_def master_fields_def
  by (elim rbind_OkE) (simp add: encoder_field_Ok_iff encoder_new_Ok_iff)

lemma encode_prekey_Ok:
  "encode_prekey d p = Ok bs \<Longrightarrow>
     bs = d @ frames (prekey_fields p) \<and> length bs \<le> MAX_INPUT_BYTES"
  unfolding encode_prekey_def prekey_fields_def
  by (elim rbind_OkE) (simp add: encoder_field_Ok_iff encoder_new_Ok_iff)

lemma encode_prekey_total:
  assumes "length d + length (sp_user_id p) + length (pk_public (sp_prekey p)) + 16 \<le> MAX_INPUT_BYTES"
  shows "encode_prekey d p = Ok (d @ frames (prekey_fields p))"
proof -
  have "encoder_field d (sp_user_id p) = Ok (d @ frame (sp_user_id p))"
    using assms by (simp add: encoder_field_Ok_iff)
  moreover have "encoder_field (d @ frame (sp_user_id p)) (u32_bytes (pk_id (sp_prekey p))) =
      Ok ((d @ frame (sp_user_id p)) @ frame (u32_bytes (pk_id (sp_prekey p))))"
    using assms by (simp add: encoder_field_Ok_iff)
  moreover have "encoder_field ((d @ frame (sp_user_id p)) @ frame (u32_bytes (pk_id (sp_prekey p))))
      (pk_public (sp_prekey p)) = Ok (d @ frames (prekey_fields p))"
    using assms by (simp add: encoder_field_Ok_iff prekey_fields_def)
  ultimately show ?thesis
    using assms by (simp add: encode_prekey_def encoder_new_def)
qed

lemma encode_cross_signature_total:
  assumes "db_pq_signed_prekey b = Some q"
    and "length (db_user_id b) + length (db_device_id b) + length (db_ik_public b) + length (db_spk_public b)
      + length (pk_public q) \<le> 1000000"
  shows "encode_cross_signature b = Ok (CROSS_SIGNATURE_DOMAIN @ frames (cross_fields b))"
  using assms
  by (simp add: encode_cross_signature_def encoder_new_def encoder_field_def usize_checked_add_def
      try_from_usize_def MAX_INPUT_BYTES_def CROSS_SIGNATURE_DOMAIN_def cross_fields_def frame_def)

section \<open>Injectivity\<close>

lemma u32_bytes_eq_iff [simp]: "u32_bytes a = u32_bytes b \<longleftrightarrow> a = b"
  using u32_codec.prefix_free [where x = a and y = b and u = "[]" and v = "[]"] by auto

lemma u32_bytes_not_Nil [simp]: "u32_bytes a \<noteq> []" "[] \<noteq> u32_bytes a"
  using length_uN_bytes(2) [of a] by fastforce+

text \<open>A frame that fits the limit is determined by what it starts, and so is the remainder.\<close>

lemma frame_append_inj:
  assumes eq: "frame a @ u = frame b @ v" and len: "length (frame a @ u) \<le> MAX_INPUT_BYTES"
  shows "a = b \<and> u = v"
proof (rule frame_codec.prefix_free [OF _ _ eq])
  show "length a \<le> MAX_INPUT_BYTES" using len by (simp del: eq)
  show "length b \<le> MAX_INPUT_BYTES" using len unfolding eq by simp
  show "length (frame a @ u) < 2 ^ 64" using len by (simp add: MAX_INPUT_BYTES_def del: length_append)
qed

lemma frames_inj:
  "frames xs = frames ys \<Longrightarrow> length xs = length ys \<Longrightarrow> length (frames xs) \<le> MAX_INPUT_BYTES \<Longrightarrow> xs = ys"
proof (induction xs ys rule: list_induct2')
  case (4 x xs y ys)
  then have "x = y \<and> frames xs = frames ys"
    by (intro frame_append_inj) simp_all
  with 4 show ?case by simp
qed simp_all

lemma cross_fields_inj: "cross_fields a = cross_fields b \<Longrightarrow> a = b"
  by (cases a; cases b; cases "db_pq_signed_prekey a"; cases "db_pq_signed_prekey b")
    (auto simp: cross_fields_def)

lemma length_cross_fields: "length (cross_fields b) = 9"
  by (simp add: cross_fields_def split: option.splits)

lemma master_fields_inj: "master_fields a = master_fields b \<Longrightarrow> a = b"
  by (cases a; cases b) (simp add: master_fields_def)

lemma prekey_fields_inj: "prekey_fields a = prekey_fields b \<Longrightarrow> a = b"
  by (cases a; cases b; cases "sp_prekey a"; cases "sp_prekey b") (simp add: prekey_fields_def)

section \<open>Domain separation\<close>

text \<open>
  The part of a domain after the shared \<^verbatim>\<open>chat:v1:\<close> prefix starts with a different letter in each
  of the four domains, so no signed string of one kind equals one of another kind.
\<close>

lemma domain_byte_8:
  "(CROSS_SIGNATURE_DOMAIN @ x) ! 8 = 100"
  "(MASTER_SIGNATURE_DOMAIN @ x) ! 8 = 99"
  "(SIGNED_PREKEY_DOMAIN @ x) ! 8 = 115"
  "(PQ_SIGNED_PREKEY_DOMAIN @ x) ! 8 = 112"
  by (simp_all add: CROSS_SIGNATURE_DOMAIN_def MASTER_SIGNATURE_DOMAIN_def SIGNED_PREKEY_DOMAIN_def
      PQ_SIGNED_PREKEY_DOMAIN_def ascii_def)


text \<open>The statements a device or account key signs, and the bytes each is signed as.\<close>

datatype signed_statement =
    BundleStatement device_bundle
  | IdentityStatement cross_signing_identity
  | PrekeyStatement signed_prekey
  | PqPrekeyStatement signed_prekey

fun encode_statement :: "signed_statement \<Rightarrow> bytes cresult" where
  "encode_statement (BundleStatement b) = encode_cross_signature b"
| "encode_statement (IdentityStatement i) = encode_master_signature i"
| "encode_statement (PrekeyStatement p) = encode_signed_prekey p"
| "encode_statement (PqPrekeyStatement p) = encode_pq_signed_prekey p"

fun statement_domain :: "signed_statement \<Rightarrow> bytes" where
  "statement_domain (BundleStatement b) = CROSS_SIGNATURE_DOMAIN"
| "statement_domain (IdentityStatement i) = MASTER_SIGNATURE_DOMAIN"
| "statement_domain (PrekeyStatement p) = SIGNED_PREKEY_DOMAIN"
| "statement_domain (PqPrekeyStatement p) = PQ_SIGNED_PREKEY_DOMAIN"

fun statement_fields :: "signed_statement \<Rightarrow> bytes list" where
  "statement_fields (BundleStatement b) = cross_fields b"
| "statement_fields (IdentityStatement i) = master_fields i"
| "statement_fields (PrekeyStatement p) = prekey_fields p"
| "statement_fields (PqPrekeyStatement p) = prekey_fields p"

lemma encode_statement_Ok:
  "encode_statement s = Ok bs \<Longrightarrow>
     bs = statement_domain s @ frames (statement_fields s) \<and> length bs \<le> MAX_INPUT_BYTES"
  by (cases s) (auto simp: encode_signed_prekey_def encode_pq_signed_prekey_def
      dest!: encode_cross_signature_Ok encode_master_signature_Ok encode_prekey_Ok)

lemma statement_domain_eq:
  assumes "statement_domain s @ x = statement_domain t @ y"
  shows "statement_domain s = statement_domain t
    \<and> length (statement_fields s) = length (statement_fields t)
    \<and> (statement_fields s = statement_fields t \<longrightarrow> s = t)"
proof -
  from assms have "(statement_domain s @ x) ! 8 = (statement_domain t @ y) ! 8" by simp
  then show ?thesis
    by (cases s; cases t)
      (auto simp: domain_byte_8 length_cross_fields master_fields_def prekey_fields_def
        dest: cross_fields_inj master_fields_inj [unfolded master_fields_def]
          prekey_fields_inj [unfolded prekey_fields_def])
qed

text \<open>
  Signed byte strings are unambiguous: two statements that encode to the same bytes are the same statement of the same
  kind.
\<close>

lemma signed_statement_unique:
  assumes "encode_statement s = Ok bs" and "encode_statement t = Ok bs"
  shows "s = t"
proof -
  note S = encode_statement_Ok [OF assms(1)] and T = encode_statement_Ok [OF assms(2)]
  from S T have "statement_domain s @ frames (statement_fields s)
      = statement_domain t @ frames (statement_fields t)" by simp
  note d = statement_domain_eq [OF this]
  with S T have "frames (statement_fields s) = frames (statement_fields t)" by auto
  then have "statement_fields s = statement_fields t"
    using d S by (intro frames_inj) auto
  with d show ?thesis by simp
qed

end
