(* ===== verification/Prekey_State.thy ===== *)
theory Prekey_State
  imports Device_Signatures
begin

text \<open>
  \<^verbatim>\<open>prekey_state.rs\<close>: the device's mutable key state, its two stored formats (\<^verbatim>\<open>CPDVV001\<close> is read for
  migration, \<^verbatim>\<open>CPDVV002\<close> is read and written), and the operations on it: lookup and consumption of
  one-time prekeys, replenishment, signed-prekey rotation, commit of a pending upload and pruning.
  This theory holds the definitions; the proofs about the stored format are in \<open>Prekey_Codec\<close>
  and those about the operations in \<open>Prekey_Operations\<close>.
\<close>

unbundle bit_operations_syntax

section \<open>Constants\<close>

definition DEVICE_V1_MAGIC :: bytes where "DEVICE_V1_MAGIC = ascii ''CPDVV001''"
definition DEVICE_V2_MAGIC :: bytes where "DEVICE_V2_MAGIC = ascii ''CPDVV002''"
definition UPLOAD_MAGIC :: bytes where "UPLOAD_MAGIC = ascii ''CPKUV001''"
definition IDENTITY_MAGIC :: bytes where "IDENTITY_MAGIC = ascii ''CPIDV001''"
definition DEVICE_STATE_AUTH_DOMAIN :: bytes where
  "DEVICE_STATE_AUTH_DOMAIN = ascii ''chat:v1:device-prekey-state-auth''"
definition STATE_AUTH_TAG_BYTES :: nat where "STATE_AUTH_TAG_BYTES = 32"
definition MAX_CLASSICAL_ONE_TIME :: nat where "MAX_CLASSICAL_ONE_TIME = 400"
definition MAX_PQ_ONE_TIME :: nat where "MAX_PQ_ONE_TIME = 240"
definition MAX_RETIRED_SIGNED_PAIRS :: nat where "MAX_RETIRED_SIGNED_PAIRS = 3"
definition MAX_BACKEND_CLASSICAL_ONE_TIME :: u16 where "MAX_BACKEND_CLASSICAL_ONE_TIME = 200"
definition MAX_BACKEND_PQ_ONE_TIME :: u16 where "MAX_BACKEND_PQ_ONE_TIME = 100"
definition KEY_ID_MAX :: u32 where "KEY_ID_MAX = 0x7fffffff"
definition UPLOAD_REPLENISH :: u8 where "UPLOAD_REPLENISH = 1"
definition UPLOAD_ROTATION :: u8 where "UPLOAD_ROTATION = 2"

lemmas prekey_limits =
  STATE_AUTH_TAG_BYTES_def MAX_CLASSICAL_ONE_TIME_def MAX_PQ_ONE_TIME_def
  MAX_RETIRED_SIGNED_PAIRS_def MAX_BACKEND_CLASSICAL_ONE_TIME_def MAX_BACKEND_PQ_ONE_TIME_def

section \<open>State\<close>

record classical_signed_key =
  cs_id :: u32
  cs_created_day :: u32
  cs_public :: bytes
  cs_signature :: bytes
  cs_secret :: bytes

record pq_signed_key =
  ps_id :: u32
  ps_created_day :: u32
  ps_public :: bytes
  ps_signature :: bytes
  ps_secret :: bytes

record retired_signed_pair =
  rp_retain_through_day :: u32
  rp_classical :: classical_signed_key
  rp_pq :: pq_signed_key

record classical_one_time_key =
  co_id :: u32
  co_public :: bytes
  co_secret :: bytes

record pq_one_time_key =
  po_id :: u32
  po_public :: bytes
  po_secret :: bytes

record pending_upload =
  pu_batch_id :: bytes
  pu_kind :: u8
  pu_exact_projection :: bytes

record device_state =
  ds_user_id :: bytes
  ds_registration_id :: u32
  ds_bundle_version :: u32
  ds_next_classical_one_time_id :: u32
  ds_next_pq_one_time_id :: u32
  ds_device_signing_public :: bytes
  ds_identity_public :: bytes
  ds_device_signing_secret :: bytes
  ds_identity_secret :: bytes
  ds_current_classical :: classical_signed_key
  ds_current_pq :: pq_signed_key
  ds_cross_signature :: bytes
  ds_retired :: "retired_signed_pair list"
  ds_classical_one_time :: "classical_one_time_key list"
  ds_pq_one_time :: "pq_one_time_key list"
  ds_pending :: "pending_upload option"

definition is_rotation :: "pending_upload \<Rightarrow> bool" where
  "is_rotation p \<longleftrightarrow> pu_kind p = UPLOAD_ROTATION"

definition state_ik_public :: "device_state \<Rightarrow> bytes" where
  "state_ik_public st = ik_from_halves (ds_device_signing_public st) (ds_identity_public st)"

section \<open>Lookup, consumption, pruning\<close>

definition signed_classical :: "device_state \<Rightarrow> u32 \<Rightarrow> classical_signed_key option" where
  "signed_classical st i =
     (if cs_id (ds_current_classical st) = i then Some (ds_current_classical st)
      else map_option rp_classical (find (\<lambda>pair. cs_id (rp_classical pair) = i) (ds_retired st)))"

definition signed_pq :: "device_state \<Rightarrow> u32 \<Rightarrow> pq_signed_key option" where
  "signed_pq st i =
     (if ps_id (ds_current_pq st) = i then Some (ds_current_pq st)
      else map_option rp_pq (find (\<lambda>pair. ps_id (rp_pq pair) = i) (ds_retired st)))"

definition find_classical_one_time :: "device_state \<Rightarrow> u32 \<Rightarrow> classical_one_time_key option" where
  "find_classical_one_time st i = find (\<lambda>key. co_id key = i) (ds_classical_one_time st)"

definition find_pq_one_time :: "device_state \<Rightarrow> u32 \<Rightarrow> pq_one_time_key option" where
  "find_pq_one_time st i = find (\<lambda>key. po_id key = i) (ds_pq_one_time st)"

definition consume_classical_one_time :: "device_state \<Rightarrow> u32 \<Rightarrow> device_state cresult" where
  "consume_classical_one_time st i =
     rbind (ok_or (remove_first (\<lambda>key. co_id key = i) (ds_classical_one_time st)) StateViolation)
       (\<lambda>keys. Ok (st\<lparr>ds_classical_one_time := keys\<rparr>))"

definition consume_pq_one_time :: "device_state \<Rightarrow> u32 \<Rightarrow> device_state cresult" where
  "consume_pq_one_time st i =
     rbind (ok_or (remove_first (\<lambda>key. po_id key = i) (ds_pq_one_time st)) StateViolation)
       (\<lambda>keys. Ok (st\<lparr>ds_pq_one_time := keys\<rparr>))"

definition prune_retired :: "device_state \<Rightarrow> u32 \<Rightarrow> device_state" where
  "prune_retired st coarse_day =
     st\<lparr>ds_retired := filter (\<lambda>pair. coarse_day \<le> rp_retain_through_day pair) (ds_retired st)\<rparr>"

section \<open>Key identifiers\<close>

definition initial_next_id :: "u32 list \<Rightarrow> u32 cresult" where
  "initial_next_id ids =
     (let current = fold max ids 0 in
      if current = KEY_ID_MAX then Ok (- 1)
      else ok_or (checked_add current 1) StateViolation)"

text \<open>Returns the identifier to use and the new high-water mark.\<close>

definition take_next_id :: "u32 \<Rightarrow> (u32 \<times> u32) cresult" where
  "take_next_id high_water =
     (if high_water > KEY_ID_MAX then Err StateViolation
      else if high_water = KEY_ID_MAX then Ok (high_water, - 1)
      else rbind (ok_or (checked_add high_water 1) StateViolation) (\<lambda>next. Ok (high_water, next)))"

definition valid_key_id :: "u32 \<Rightarrow> u32 cresult" where
  "valid_key_id i = (if i > KEY_ID_MAX then Err MalformedInput else Ok i)"

section \<open>Field codecs\<close>

definition encode_classical_signed :: "classical_signed_key \<Rightarrow> bytes" where
  "encode_classical_signed key =
     u32_bytes (cs_id key) @ u32_bytes (cs_created_day key) @ cs_public key @ cs_signature key
     @ cs_secret key"

definition decode_classical_signed :: "classical_signed_key parser" where
  "decode_classical_signed =
     sbind reader_u32 (\<lambda>i.
     sbind (slift (valid_key_id i)) (\<lambda>i.
     sbind reader_u32 (\<lambda>created_day.
     sbind (reader_array 32) (\<lambda>public.
     sbind (reader_array 64) (\<lambda>signature.
     sbind (reader_array 32) (\<lambda>secret.
     ret \<lparr>cs_id = i, cs_created_day = created_day, cs_public = public, cs_signature = signature,
          cs_secret = secret\<rparr>))))))"

definition encode_pq_signed :: "pq_signed_key \<Rightarrow> bytes" where
  "encode_pq_signed key =
     u32_bytes (ps_id key) @ u32_bytes (ps_created_day key) @ ps_public key @ ps_signature key
     @ ps_secret key"

definition decode_pq_signed :: "pq_signed_key parser" where
  "decode_pq_signed =
     sbind reader_u32 (\<lambda>i.
     sbind (slift (valid_key_id i)) (\<lambda>i.
     sbind reader_u32 (\<lambda>created_day.
     sbind (reader_array 1184) (\<lambda>public.
     sbind (reader_array 64) (\<lambda>signature.
     sbind (reader_array 2400) (\<lambda>secret.
     ret \<lparr>ps_id = i, ps_created_day = created_day, ps_public = public, ps_signature = signature,
          ps_secret = secret\<rparr>))))))"

definition encode_retired_pair :: "retired_signed_pair \<Rightarrow> bytes" where
  "encode_retired_pair pair =
     u32_bytes (rp_retain_through_day pair) @ encode_classical_signed (rp_classical pair)
     @ encode_pq_signed (rp_pq pair)"

definition decode_retired_pair :: "retired_signed_pair parser" where
  "decode_retired_pair =
     sbind reader_u32 (\<lambda>retain_through_day.
     sbind decode_classical_signed (\<lambda>classical.
     sbind decode_pq_signed (\<lambda>pq.
     ret \<lparr>rp_retain_through_day = retain_through_day, rp_classical = classical, rp_pq = pq\<rparr>)))"

definition encode_classical_one_time :: "classical_one_time_key \<Rightarrow> bytes" where
  "encode_classical_one_time key = u32_bytes (co_id key) @ co_public key @ co_secret key"

definition decode_classical_one_time :: "classical_one_time_key parser" where
  "decode_classical_one_time =
     sbind reader_u32 (\<lambda>i.
     sbind (slift (valid_key_id i)) (\<lambda>i.
     sbind (reader_array 32) (\<lambda>public.
     sbind (reader_array 32) (\<lambda>secret.
     ret \<lparr>co_id = i, co_public = public, co_secret = secret\<rparr>))))"

definition encode_pq_one_time :: "pq_one_time_key \<Rightarrow> bytes" where
  "encode_pq_one_time key = u32_bytes (po_id key) @ po_public key @ po_secret key"

definition decode_pq_one_time :: "pq_one_time_key parser" where
  "decode_pq_one_time =
     sbind reader_u32 (\<lambda>i.
     sbind (slift (valid_key_id i)) (\<lambda>i.
     sbind (reader_array 1184) (\<lambda>public.
     sbind (reader_array 2400) (\<lambda>secret.
     ret \<lparr>po_id = i, po_public = public, po_secret = secret\<rparr>))))"

definition decode_pending :: "pending_upload option parser" where
  "decode_pending =
     sbind reader_boolean (\<lambda>present.
     if present then
       sbind reader_u8 (\<lambda>kind.
       sbind (slift (reject_if (\<not> (kind = UPLOAD_REPLENISH \<or> kind = UPLOAD_ROTATION)) MalformedInput)) (\<lambda>_.
       sbind (reader_array 16) (\<lambda>batch_id.
       sbind reader_framed (\<lambda>exact_projection.
       ret (Some \<lparr>pu_batch_id = batch_id, pu_kind = kind, pu_exact_projection = exact_projection\<rparr>)))))
     else ret None)"

section \<open>Authentication and validation\<close>

definition device_auth_key :: "prims \<Rightarrow> bytes \<Rightarrow> bytes cresult" where
  "device_auth_key P identity_secret =
     rbind (hkdf_sha256 P (replicate 32 0) identity_secret DEVICE_STATE_AUTH_DOMAIN 32) (\<lambda>value.
     if length value = 32 then Ok value else Err InternalFailure)"

definition validate_sorted_classical :: "classical_one_time_key list \<Rightarrow> unit cresult" where
  "validate_sorted_classical keys =
     reject_if (windows2_any (\<lambda>a b. co_id a \<ge> co_id b) keys) MalformedInput"

definition validate_sorted_pq :: "pq_one_time_key list \<Rightarrow> unit cresult" where
  "validate_sorted_pq keys =
     reject_if (windows2_any (\<lambda>a b. po_id a \<ge> po_id b) keys) MalformedInput"

definition validate_pq_public_in_secret :: "bytes \<Rightarrow> bytes \<Rightarrow> unit cresult" where
  "validate_pq_public_in_secret secret public =
     (if length secret < 1152 + 1184 then Err MalformedInput
      else if take 1184 (drop 1152 secret) = public then Ok ()
      else Err AuthenticationFailed)"

definition validate_classical_signed ::
    "prims \<Rightarrow> bytes \<Rightarrow> bytes \<Rightarrow> classical_signed_key \<Rightarrow> unit cresult" where
  "validate_classical_signed P ik uid key =
     rbind (x25519_public P (cs_secret key)) (\<lambda>derived.
     if derived \<noteq> cs_public key then Err AuthenticationFailed
     else rbind (encode_signed_prekey
         \<lparr>sp_user_id = uid, sp_prekey = \<lparr>pk_id = cs_id key, pk_public = cs_public key\<rparr>\<rparr>) (\<lambda>signed_bytes.
       ed25519_verify P (ik_device_signing_public ik) signed_bytes (cs_signature key)))"

definition validate_pq_signed ::
    "prims \<Rightarrow> bytes \<Rightarrow> bytes \<Rightarrow> pq_signed_key \<Rightarrow> unit cresult" where
  "validate_pq_signed P ik uid key =
     rbind (validate_pq_public_in_secret (ps_secret key) (ps_public key)) (\<lambda>_.
     rbind (encode_pq_signed_prekey
         \<lparr>sp_user_id = uid, sp_prekey = \<lparr>pk_id = ps_id key, pk_public = ps_public key\<rparr>\<rparr>) (\<lambda>signed_bytes.
     ed25519_verify P (ik_device_signing_public ik) signed_bytes (ps_signature key)))"

definition validate_device_material :: "prims \<Rightarrow> device_state \<Rightarrow> unit cresult" where
  "validate_device_material P st =
     (let ik = state_ik_public st; uid = ds_user_id st in
      rbind (validate_classical_signed P ik uid (ds_current_classical st)) (\<lambda>_.
      rbind (validate_pq_signed P ik uid (ds_current_pq st)) (\<lambda>_.
      rbind (reject_if (windows2_any
          (\<lambda>a b. cs_id (rp_classical a) \<ge> cs_id (rp_classical b) \<or> ps_id (rp_pq a) \<ge> ps_id (rp_pq b))
          (ds_retired st)) MalformedInput) (\<lambda>_.
      rbind (each (\<lambda>pair.
          rbind (validate_classical_signed P ik uid (rp_classical pair)) (\<lambda>_.
          validate_pq_signed P ik uid (rp_pq pair))) (ds_retired st)) (\<lambda>_.
      rbind (each (\<lambda>key.
          rbind (x25519_public P (co_secret key)) (\<lambda>derived.
          reject_if (derived \<noteq> co_public key) AuthenticationFailed)) (ds_classical_one_time st)) (\<lambda>_.
      each (\<lambda>key. validate_pq_public_in_secret (po_secret key) (po_public key)) (ds_pq_one_time st)))))))"

definition is_zero :: "bytes \<Rightarrow> bool" where
  "is_zero value \<longleftrightarrow> list_all (\<lambda>b. b = 0) value"


section \<open>The stored format\<close>

text \<open>The optional pending upload at the end of the state.\<close>

definition encode_pending :: "pending_upload option \<Rightarrow> bytes cresult" where
  "encode_pending pending =
     (case pending of
        None \<Rightarrow> Ok [0]
      | Some upload \<Rightarrow>
          push_frame ([1] @ [pu_kind upload] @ pu_batch_id upload) (pu_exact_projection upload))"

definition encode_device_state :: "prims \<Rightarrow> device_state \<Rightarrow> bytes cresult" where
  "encode_device_state P st =
     rbind (reserve [] 512) (\<lambda>_.
     rbind (ok_or (try_from_usize (length (ds_retired st)) :: u8 option) ResourceExhausted) (\<lambda>retired_len.
     rbind (ok_or (try_from_usize (length (ds_classical_one_time st)) :: u16 option) ResourceExhausted)
       (\<lambda>classical_len.
     rbind (ok_or (try_from_usize (length (ds_pq_one_time st)) :: u16 option) ResourceExhausted) (\<lambda>pq_len.
     rbind (encode_pending (ds_pending st)) (\<lambda>pending.
     let encoded =
       DEVICE_V2_MAGIC @ ds_user_id st @ u32_bytes (ds_registration_id st)
       @ u32_bytes (ds_bundle_version st) @ u32_bytes (ds_next_classical_one_time_id st)
       @ u32_bytes (ds_next_pq_one_time_id st) @ ds_device_signing_public st
       @ ds_identity_public st @ ds_device_signing_secret st @ ds_identity_secret st
       @ encode_classical_signed (ds_current_classical st) @ encode_pq_signed (ds_current_pq st)
       @ ds_cross_signature st
       @ [retired_len] @ concat (map encode_retired_pair (ds_retired st))
       @ u16_bytes classical_len @ concat (map encode_classical_one_time (ds_classical_one_time st))
       @ u16_bytes pq_len @ concat (map encode_pq_one_time (ds_pq_one_time st))
       @ pending in
     rbind (device_auth_key P (ds_identity_secret st)) (\<lambda>auth_key.
     rbind (hmac_sha256 P auth_key encoded) (\<lambda>tag.
     let output = encoded @ tag in
     if length output > MAX_INPUT_BYTES then Err InputTooLarge else Ok output)))))))"

text \<open>The fields of a \<^verbatim>\<open>CPDVV002\<close> state, with the count limits checked as they are read.\<close>

definition parse_v2_fields :: "device_state parser" where
  "parse_v2_fields =
     sbind (reader_take 8) (\<lambda>magic.
     sbind (slift (reject_if (magic \<noteq> DEVICE_V2_MAGIC) UnsupportedVersion)) (\<lambda>_.
     sbind (reader_array 16) (\<lambda>uid.
     sbind reader_u32 (\<lambda>registration.
     sbind reader_u32 (\<lambda>version.
     sbind reader_u32 (\<lambda>next_classical.
     sbind reader_u32 (\<lambda>next_pq.
     sbind (reader_array 32) (\<lambda>signing_public.
     sbind (reader_array 32) (\<lambda>ident_public.
     sbind (reader_array 32) (\<lambda>signing_secret.
     sbind (reader_array 32) (\<lambda>ident_secret.
     sbind decode_classical_signed (\<lambda>classical.
     sbind decode_pq_signed (\<lambda>pq.
     sbind (reader_array 64) (\<lambda>cross.
     sbind reader_u8 (\<lambda>retired_count.
     sbind (slift (reject_if (unat retired_count > MAX_RETIRED_SIGNED_PAIRS) ResourceExhausted)) (\<lambda>_.
     sbind (repeat_s (unat retired_count) decode_retired_pair) (\<lambda>retired_pairs.
     sbind reader_u16 (\<lambda>classical_count.
     sbind (slift (reject_if (unat classical_count > MAX_CLASSICAL_ONE_TIME) ResourceExhausted)) (\<lambda>_.
     sbind (repeat_s (unat classical_count) decode_classical_one_time) (\<lambda>classical_keys.
     sbind reader_u16 (\<lambda>pq_count.
     sbind (slift (reject_if (unat pq_count > MAX_PQ_ONE_TIME) ResourceExhausted)) (\<lambda>_.
     sbind (repeat_s (unat pq_count) decode_pq_one_time) (\<lambda>pq_keys.
     sbind decode_pending (\<lambda>upload.
     ret \<lparr>ds_user_id = uid, ds_registration_id = registration, ds_bundle_version = version,
          ds_next_classical_one_time_id = next_classical, ds_next_pq_one_time_id = next_pq,
          ds_device_signing_public = signing_public, ds_identity_public = ident_public,
          ds_device_signing_secret = signing_secret, ds_identity_secret = ident_secret,
          ds_current_classical = classical, ds_current_pq = pq, ds_cross_signature = cross,
          ds_retired = retired_pairs, ds_classical_one_time = classical_keys,
          ds_pq_one_time = pq_keys, ds_pending = upload\<rparr>))))))))))))))))))))))))"

definition decode_v2 :: "prims \<Rightarrow> bytes \<Rightarrow> device_state cresult" where
  "decode_v2 P bs =
     (if length bs < STATE_AUTH_TAG_BYTES + 8 then Err MalformedInput
      else
        let authenticated_len = length bs - STATE_AUTH_TAG_BYTES;
            encoded = take authenticated_len bs;
            supplied_tag = drop authenticated_len bs in
        rbind (parse_v2_fields (reader_new encoded)) (\<lambda>(st, r).
        rbind (reject_if
            (\<not> reader_is_finished r
             \<or> ds_bundle_version st = 0
             \<or> is_zero (ds_user_id st)
             \<or> (ds_next_classical_one_time_id st \<noteq> - 1 \<and> ds_next_classical_one_time_id st > KEY_ID_MAX)
             \<or> (ds_next_pq_one_time_id st \<noteq> - 1 \<and> ds_next_pq_one_time_id st > KEY_ID_MAX)
             \<or> list_ex (\<lambda>key. ds_next_classical_one_time_id st \<le> co_id key) (ds_classical_one_time st)
             \<or> list_ex (\<lambda>key. ds_next_pq_one_time_id st \<le> po_id key) (ds_pq_one_time st))
            MalformedInput) (\<lambda>_.
        rbind (device_auth_key P (ds_identity_secret st)) (\<lambda>auth_key.
        rbind (hmac_sha256 P auth_key encoded) (\<lambda>expected_tag.
        rbind (reject_if (expected_tag \<noteq> supplied_tag) AuthenticationFailed) (\<lambda>_.
        rbind (reject_if (ed_public_of P (ds_device_signing_secret st) \<noteq> ds_device_signing_public st)
                 AuthenticationFailed) (\<lambda>_.
        rbind (x25519_public P (ds_identity_secret st)) (\<lambda>derived_identity.
        rbind (reject_if (derived_identity \<noteq> ds_identity_public st) AuthenticationFailed) (\<lambda>_.
        rbind (x25519_public P (cs_secret (ds_current_classical st))) (\<lambda>derived_prekey.
        rbind (reject_if (derived_prekey \<noteq> cs_public (ds_current_classical st)) AuthenticationFailed) (\<lambda>_.
        rbind (validate_sorted_classical (ds_classical_one_time st)) (\<lambda>_.
        rbind (validate_sorted_pq (ds_pq_one_time st)) (\<lambda>_.
        rbind (validate_device_material P st) (\<lambda>_.
        Ok st))))))))))))))"

text \<open>A public one-time key of the \<^verbatim>\<open>CPDVV001\<close> format: identifier, then \<open>n\<close> key bytes.\<close>

definition parse_v1_public :: "nat \<Rightarrow> (u32 \<times> bytes) parser" where
  "parse_v1_public n =
     sbind reader_u32 (\<lambda>i.
     sbind (slift (valid_key_id i)) (\<lambda>i.
     sbind (reader_array n) (\<lambda>public.
     ret (i, public))))"

definition parse_v1 :: "prims \<Rightarrow> u32 \<Rightarrow> device_state parser" where
  "parse_v1 P migration_day =
     (let migrated_created_day = saturating_sub migration_day 7 in
     sbind (reader_take 8) (\<lambda>magic.
     sbind (slift (reject_if (magic \<noteq> DEVICE_V1_MAGIC) UnsupportedVersion)) (\<lambda>_.
     sbind (reader_array 16) (\<lambda>uid.
     sbind reader_u32 (\<lambda>registration.
     sbind reader_u32 (\<lambda>spk_raw.
     sbind (slift (valid_key_id spk_raw)) (\<lambda>spk_id.
     sbind reader_u32 (\<lambda>pq_spk_raw.
     sbind (slift (valid_key_id pq_spk_raw)) (\<lambda>pq_spk_id.
     sbind reader_u16 (\<lambda>classical_count.
     sbind reader_u16 (\<lambda>pq_count.
     sbind (slift (reject_if
         (unat classical_count = 0 \<or> unat classical_count > 8 \<or> unat pq_count = 0 \<or> unat pq_count > 4
          \<or> is_zero uid) MalformedInput)) (\<lambda>_.
     sbind (reader_array 32) (\<lambda>signing_public.
     sbind (reader_array 32) (\<lambda>ident_public.
     sbind (reader_array 32) (\<lambda>spk_public.
     sbind (reader_array 64) (\<lambda>spk_signature.
     sbind (reader_array 1184) (\<lambda>pq_spk_public.
     sbind (reader_array 64) (\<lambda>pq_spk_signature.
     sbind (reader_array 32) (\<lambda>fingerprint.
     sbind (repeat_s (unat classical_count) (parse_v1_public 32)) (\<lambda>classical_public.
     sbind (repeat_s (unat pq_count) (parse_v1_public 1184)) (\<lambda>pq_public.
     sbind (reader_array 32) (\<lambda>signing_secret.
     sbind (reader_array 32) (\<lambda>ident_secret.
     sbind (reader_array 32) (\<lambda>spk_secret.
     sbind (reader_array 2400) (\<lambda>pq_spk_secret.
     sbind (map_s (\<lambda>(i, public). sbind (reader_array 32) (\<lambda>secret.
         ret \<lparr>co_id = i, co_public = public, co_secret = secret\<rparr>)) classical_public) (\<lambda>classical_keys.
     sbind (map_s (\<lambda>(i, public). sbind (reader_array 2400) (\<lambda>secret.
         ret \<lparr>po_id = i, po_public = public, po_secret = secret\<rparr>)) pq_public) (\<lambda>pq_keys.
     sbind finished (\<lambda>fin.
     sbind (slift (reject_if (\<not> fin \<or> ed_public_of P signing_secret \<noteq> signing_public)
         AuthenticationFailed)) (\<lambda>_.
     sbind (slift (x25519_public P ident_secret)) (\<lambda>derived_identity.
     sbind (slift (reject_if (derived_identity \<noteq> ident_public) AuthenticationFailed)) (\<lambda>_.
     sbind (slift (x25519_public P spk_secret)) (\<lambda>derived_prekey.
     sbind (slift (reject_if (derived_prekey \<noteq> spk_public) AuthenticationFailed)) (\<lambda>_.
     sbind (slift (sha256 P (signing_public @ ident_public))) (\<lambda>digest.
     sbind (slift (reject_if (digest \<noteq> fingerprint) AuthenticationFailed)) (\<lambda>_.
     sbind (slift (validate_sorted_classical classical_keys)) (\<lambda>_.
     sbind (slift (validate_sorted_pq pq_keys)) (\<lambda>_.
     sbind (slift (encode_signed_prekey
         \<lparr>sp_user_id = uid, sp_prekey = \<lparr>pk_id = spk_id, pk_public = spk_public\<rparr>\<rparr>)) (\<lambda>spk_bytes.
     sbind (slift (ed25519_verify P signing_public spk_bytes spk_signature)) (\<lambda>_.
     sbind (slift (encode_pq_signed_prekey
         \<lparr>sp_user_id = uid, sp_prekey = \<lparr>pk_id = pq_spk_id, pk_public = pq_spk_public\<rparr>\<rparr>)) (\<lambda>pq_bytes.
     sbind (slift (ed25519_verify P
         (ik_device_signing_public (ik_from_halves signing_public ident_public))
         pq_bytes pq_spk_signature)) (\<lambda>_.
     sbind (slift (initial_next_id (map co_id classical_keys))) (\<lambda>next_classical.
     sbind (slift (initial_next_id (map po_id pq_keys))) (\<lambda>next_pq.
     let st = \<lparr>ds_user_id = uid, ds_registration_id = registration, ds_bundle_version = 1,
          ds_next_classical_one_time_id = next_classical, ds_next_pq_one_time_id = next_pq,
          ds_device_signing_public = signing_public, ds_identity_public = ident_public,
          ds_device_signing_secret = signing_secret, ds_identity_secret = ident_secret,
          ds_current_classical =
            \<lparr>cs_id = spk_id, cs_created_day = migrated_created_day, cs_public = spk_public,
             cs_signature = spk_signature, cs_secret = spk_secret\<rparr>,
          ds_current_pq =
            \<lparr>ps_id = pq_spk_id, ps_created_day = migrated_created_day, ps_public = pq_spk_public,
             ps_signature = pq_spk_signature, ps_secret = pq_spk_secret\<rparr>,
          ds_cross_signature = replicate 64 0, ds_retired = [],
          ds_classical_one_time = classical_keys, ds_pq_one_time = pq_keys, ds_pending = None\<rparr> in
     sbind (slift (validate_device_material P st)) (\<lambda>_.
     ret st))))))))))))))))))))))))))))))))))))))))))))"

definition decode_v1 :: "prims \<Rightarrow> bytes \<Rightarrow> u32 \<Rightarrow> device_state cresult" where
  "decode_v1 P bs migration_day =
     rbind (parse_v1 P migration_day (reader_new bs)) (\<lambda>(st, _). Ok st)"

definition decode_device_state :: "prims \<Rightarrow> bytes \<Rightarrow> u32 \<Rightarrow> device_state cresult" where
  "decode_device_state P bs migration_day =
     (if length bs \<ge> 8 \<and> take 8 bs = DEVICE_V1_MAGIC then decode_v1 P bs migration_day
      else if length bs \<ge> 8 \<and> take 8 bs = DEVICE_V2_MAGIC then decode_v2 P bs
      else Err UnsupportedVersion)"


section \<open>Replenishment\<close>

text \<open>One pass of the classical key loop, and the loop. The generated public keys are collected in order.\<close>

definition generate_classical ::
    "prims \<Rightarrow> device_state \<Rightarrow> (device_state \<times> u32 \<times> bytes) ent" where
  "generate_classical P st =
     sbind (slift (take_next_id (ds_next_classical_one_time_id st))) (\<lambda>(i, high_water).
     sbind (random_bytes 32) (\<lambda>secret.
     sbind (slift (x25519_public P secret)) (\<lambda>public.
     ret (st\<lparr>ds_next_classical_one_time_id := high_water,
             ds_classical_one_time := ds_classical_one_time st
               @ [\<lparr>co_id = i, co_public = public, co_secret = secret\<rparr>]\<rparr>, i, public))))"

primrec generate_classical_keys ::
    "prims \<Rightarrow> nat \<Rightarrow> device_state \<Rightarrow> (device_state \<times> (u32 \<times> bytes) list) ent" where
  "generate_classical_keys P 0 st = ret (st, [])"
| "generate_classical_keys P (Suc n) st =
     sbind (generate_classical P st) (\<lambda>(st, i, public).
     sbind (generate_classical_keys P n st) (\<lambda>(st, generated).
     ret (st, (i, public) # generated)))"

definition generate_pq :: "prims \<Rightarrow> device_state \<Rightarrow> (device_state \<times> u32 \<times> bytes) ent" where
  "generate_pq P st =
     sbind (slift (take_next_id (ds_next_pq_one_time_id st))) (\<lambda>(i, high_water).
     sbind (mlkem768_keypair P) (\<lambda>(public, secret).
     ret (st\<lparr>ds_next_pq_one_time_id := high_water,
             ds_pq_one_time := ds_pq_one_time st
               @ [\<lparr>po_id = i, po_public = public, po_secret = secret\<rparr>]\<rparr>, i, public)))"

primrec generate_pq_keys ::
    "prims \<Rightarrow> nat \<Rightarrow> device_state \<Rightarrow> (device_state \<times> (u32 \<times> bytes) list) ent" where
  "generate_pq_keys P 0 st = ret (st, [])"
| "generate_pq_keys P (Suc n) st =
     sbind (generate_pq P st) (\<lambda>(st, i, public).
     sbind (generate_pq_keys P n st) (\<lambda>(st, generated).
     ret (st, (i, public) # generated)))"

definition public_entry :: "u32 \<times> bytes \<Rightarrow> bytes" where
  "public_entry entry = u32_bytes (fst entry) @ snd entry"

definition prepare_replenishment ::
    "prims \<Rightarrow> device_state \<Rightarrow> u16 \<Rightarrow> u16 \<Rightarrow> u16 \<Rightarrow> u16 \<Rightarrow> (device_state \<times> bytes \<times> bytes) ent" where
  "prepare_replenishment P st server_classical_count server_pq_count target_classical target_pq =
     (case ds_pending st of
        Some upload \<Rightarrow> ret (st, pu_batch_id upload, pu_exact_projection upload)
      | None \<Rightarrow>
     sbind (slift (reject_if
         (target_classical > MAX_BACKEND_CLASSICAL_ONE_TIME
          \<or> target_pq > MAX_BACKEND_PQ_ONE_TIME
          \<or> server_classical_count > MAX_BACKEND_CLASSICAL_ONE_TIME
          \<or> server_pq_count > MAX_BACKEND_PQ_ONE_TIME) InvalidArgument)) (\<lambda>_.
     let add_classical = unat (saturating_sub target_classical server_classical_count);
         add_pq = unat (saturating_sub target_pq server_pq_count) in
     sbind (slift (reject_if
         (length (ds_classical_one_time st) + add_classical > MAX_CLASSICAL_ONE_TIME
          \<or> length (ds_pq_one_time st) + add_pq > MAX_PQ_ONE_TIME) ResourceExhausted)) (\<lambda>_.
     sbind (random_bytes 16) (\<lambda>batch_id.
     sbind (generate_classical_keys P add_classical st) (\<lambda>(st, generated_classical).
     sbind (generate_pq_keys P add_pq st) (\<lambda>(st, generated_pq).
     let st = st\<lparr>ds_classical_one_time := sort_key co_id (ds_classical_one_time st),
                 ds_pq_one_time := sort_key po_id (ds_pq_one_time st)\<rparr> in
     sbind (slift (ok_or (try_from_usize (length generated_classical) :: u16 option) ResourceExhausted))
       (\<lambda>classical_len.
     sbind (slift (ok_or (try_from_usize (length generated_pq) :: u16 option) ResourceExhausted))
       (\<lambda>pq_len.
     let projection =
         UPLOAD_MAGIC @ batch_id @ [UPLOAD_REPLENISH] @ u32_bytes (ds_bundle_version st)
         @ u16_bytes classical_len @ concat (map public_entry generated_classical)
         @ u16_bytes pq_len @ concat (map public_entry generated_pq) in
     ret (st\<lparr>ds_pending := Some \<lparr>pu_batch_id = batch_id, pu_kind = UPLOAD_REPLENISH,
               pu_exact_projection = projection\<rparr>\<rparr>, batch_id, projection)))))))))"

definition commit_pending_upload :: "device_state \<Rightarrow> bytes \<Rightarrow> device_state cresult" where
  "commit_pending_upload st batch_id =
     rbind (ok_or (ds_pending st) StateViolation) (\<lambda>upload.
     if pu_batch_id upload \<noteq> batch_id then Err StateViolation
     else Ok (st\<lparr>ds_pending := None\<rparr>))"

section \<open>Rotation\<close>

text \<open>The identity package: only its self-signing secret is used, after its consistency is checked.\<close>

definition parse_identity_secret :: "prims \<Rightarrow> bytes \<Rightarrow> bytes parser" where
  "parse_identity_secret P expected_user_id =
     sbind (reader_take 8) (\<lambda>magic.
     sbind (slift (reject_if (magic \<noteq> IDENTITY_MAGIC) UnsupportedVersion)) (\<lambda>_.
     sbind reader_u8 (\<lambda>flags.
     sbind (slift (reject_if (flags AND NOT 3 \<noteq> 0) AuthenticationFailed)) (\<lambda>_.
     sbind (reader_take 16) (\<lambda>uid.
     sbind (slift (reject_if (uid \<noteq> expected_user_id) AuthenticationFailed)) (\<lambda>_.
     sbind (reader_array 32) (\<lambda>master_public.
     sbind (reader_array 32) (\<lambda>self_signing_public.
     sbind (reader_array 32) (\<lambda>user_signing_public.
     sbind (reader_array 64) (\<lambda>master_signature.
     sbind reader_u16 (\<lambda>recovery_len.
     sbind reader_u32 (\<lambda>backup_len.
     sbind (reader_array 32) (\<lambda>master_secret.
     sbind (reader_array 32) (\<lambda>self_signing_secret.
     sbind (reader_array 32) (\<lambda>user_signing_secret.
     sbind (reader_take (unat recovery_len)) (\<lambda>recovery_secret.
     sbind (reader_take (unat backup_len)) (\<lambda>backup.
     sbind finished (\<lambda>fin.
     sbind (slift (reject_if
         (\<not> fin
          \<or> ((flags AND 1 \<noteq> 0) = (recovery_secret = []))
          \<or> ((flags AND 2 \<noteq> 0) = (backup = []))
          \<or> ed_public_of P master_secret \<noteq> master_public
          \<or> ed_public_of P self_signing_secret \<noteq> self_signing_public
          \<or> ed_public_of P user_signing_secret \<noteq> user_signing_public) AuthenticationFailed)) (\<lambda>_.
     sbind (slift (encode_master_signature
         \<lparr>ci_user_id = expected_user_id, ci_self_signing_public = self_signing_public,
          ci_user_signing_public = user_signing_public\<rparr>)) (\<lambda>signed_bytes.
     sbind (slift (ed25519_verify P master_public signed_bytes master_signature)) (\<lambda>_.
     ret self_signing_secret)))))))))))))))))))))"

definition parse_self_signing_secret :: "prims \<Rightarrow> bytes \<Rightarrow> bytes \<Rightarrow> bytes cresult" where
  "parse_self_signing_secret P package expected_user_id =
     rbind (parse_identity_secret P expected_user_id (reader_new package)) (\<lambda>(secret, _). Ok secret)"

text \<open>\<^verbatim>\<open>id.checked_add(1).filter(|id| *id <= KEY_ID_MAX).ok_or(StateViolation)\<close>\<close>

definition next_signed_id :: "u32 \<Rightarrow> u32 cresult" where
  "next_signed_id i =
     ok_or (case checked_add i 1 of
              Some n \<Rightarrow> if n \<le> KEY_ID_MAX then Some n else None
            | None \<Rightarrow> None) StateViolation"

definition prepare_rotation ::
    "prims \<Rightarrow> device_state \<Rightarrow> bytes \<Rightarrow> bytes \<Rightarrow> u32 \<Rightarrow> (device_state \<times> bytes \<times> bytes) ent" where
  "prepare_rotation P st identity_package device_id coarse_day =
     (case ds_pending st of
        Some upload \<Rightarrow>
          if is_rotation upload then ret (st, pu_batch_id upload, pu_exact_projection upload)
          else slift (Err StateViolation)
      | None \<Rightarrow>
     sbind (slift (reject_if
         (coarse_day < saturating_add (cs_created_day (ds_current_classical st)) 7
          \<or> coarse_day < saturating_add (ps_created_day (ds_current_pq st)) 7) StateViolation)) (\<lambda>_.
     let st = prune_retired st coarse_day in
     sbind (slift (reject_if (length (ds_retired st) \<ge> MAX_RETIRED_SIGNED_PAIRS) ResourceExhausted)) (\<lambda>_.
     sbind (slift (parse_self_signing_secret P identity_package (ds_user_id st))) (\<lambda>self_signing_secret.
     sbind (slift (next_signed_id (cs_id (ds_current_classical st)))) (\<lambda>next_spk_id.
     sbind (slift (next_signed_id (ps_id (ds_current_pq st)))) (\<lambda>next_pq_id.
     sbind (slift (ok_or (checked_add (ds_bundle_version st) 1) StateViolation)) (\<lambda>next_bundle_version.
     sbind (random_bytes 32) (\<lambda>spk_secret.
     sbind (slift (x25519_public P spk_secret)) (\<lambda>spk_public.
     sbind (slift (encode_signed_prekey \<lparr>sp_user_id = ds_user_id st,
         sp_prekey = \<lparr>pk_id = next_spk_id, pk_public = spk_public\<rparr>\<rparr>)) (\<lambda>spk_bytes.
     sbind (slift (ed25519_sign P (ds_device_signing_secret st) spk_bytes)) (\<lambda>spk_signature.
     sbind (mlkem768_keypair P) (\<lambda>(pq_public, pq_secret).
     sbind (slift (encode_pq_signed_prekey \<lparr>sp_user_id = ds_user_id st,
         sp_prekey = \<lparr>pk_id = next_pq_id, pk_public = pq_public\<rparr>\<rparr>)) (\<lambda>pq_bytes.
     sbind (slift (ed25519_sign P (ds_device_signing_secret st) pq_bytes)) (\<lambda>pq_signature.
     sbind (slift (encode_cross_signature
         \<lparr>db_user_id = ds_user_id st, db_device_id = device_id, db_ik_public = state_ik_public st,
          db_spk_id = next_spk_id, db_spk_public = spk_public,
          db_pq_signed_prekey = Some \<lparr>pk_id = next_pq_id, pk_public = pq_public\<rparr>,
          db_registration_id = ds_registration_id st, db_bundle_version = next_bundle_version\<rparr>))
       (\<lambda>cross_bytes.
     sbind (slift (ed25519_sign P self_signing_secret cross_bytes)) (\<lambda>cross.
     let old_classical = ds_current_classical st;
         old_pq = ds_current_pq st;
         st = st\<lparr>
           ds_current_classical := \<lparr>cs_id = next_spk_id, cs_created_day = coarse_day,
             cs_public = spk_public, cs_signature = spk_signature, cs_secret = spk_secret\<rparr>,
           ds_current_pq := \<lparr>ps_id = next_pq_id, ps_created_day = coarse_day,
             ps_public = pq_public, ps_signature = pq_signature, ps_secret = pq_secret\<rparr>,
           ds_retired := ds_retired st @ [\<lparr>rp_retain_through_day = saturating_add coarse_day 8,
             rp_classical = old_classical, rp_pq = old_pq\<rparr>],
           ds_bundle_version := next_bundle_version,
           ds_cross_signature := cross\<rparr> in
     sbind (random_bytes 16) (\<lambda>batch_id.
     let projection =
         UPLOAD_MAGIC @ batch_id @ [UPLOAD_ROTATION] @ u32_bytes next_bundle_version
         @ u32_bytes next_spk_id @ cs_public (ds_current_classical st)
         @ cs_signature (ds_current_classical st)
         @ u32_bytes next_pq_id @ ps_public (ds_current_pq st) @ ps_signature (ds_current_pq st)
         @ cross in
     ret (st\<lparr>ds_pending := Some \<lparr>pu_batch_id = batch_id, pu_kind = UPLOAD_ROTATION,
               pu_exact_projection = projection\<rparr>\<rparr>, batch_id, projection))))))))))))))))))"

end
