(* ===== verification/Sealed_State.thy ===== *)
theory Sealed_State
  imports Protocol
begin

text \<open>
  The contract between a state that is kept as an authenticated byte string and the operations that
  load it, change it and store it again (\<^verbatim>\<open>DeviceState\<close> of \<^verbatim>\<open>prekey_state.rs\<close> and
  \<^verbatim>\<open>RatchetState\<close> of \<^verbatim>\<open>pairwise.rs\<close>). \<open>documented\<close> stands for the documented behaviour of the
  primitives that a provider of the contract needs.
\<close>

definition load_store_step ::
    "(bytes \<Rightarrow> 'st cresult) \<Rightarrow> ('st \<Rightarrow> bytes cresult) \<Rightarrow> ('st \<Rightarrow> 'st cresult) \<Rightarrow> bytes \<Rightarrow> bytes cresult" where
  "load_store_step load store f bs = rbind (load bs) (\<lambda>st. rbind (f st) store)"

primrec in_sequence :: "('a \<Rightarrow> 'a cresult) list \<Rightarrow> 'a \<Rightarrow> 'a cresult" where
  "in_sequence [] x = Ok x"
| "in_sequence (f # fs) x = rbind (f x) (in_sequence fs)"

definition preserves :: "('a \<Rightarrow> bool) \<Rightarrow> ('a \<Rightarrow> 'a cresult) \<Rightarrow> bool" where
  "preserves good f \<longleftrightarrow> (\<forall>s t. good s \<longrightarrow> f s = Ok t \<longrightarrow> good t)"

lemma preservesI: "(\<And>s t. good s \<Longrightarrow> f s = Ok t \<Longrightarrow> good t) \<Longrightarrow> preserves good f"
  unfolding preserves_def by blast

lemma preservesD: "preserves good f \<Longrightarrow> good s \<Longrightarrow> f s = Ok t \<Longrightarrow> good t"
  unfolding preserves_def by blast

locale sealed_state =
  fixes documented :: bool
    and store :: "'st \<Rightarrow> bytes cresult"
    and load :: "bytes \<Rightarrow> 'st cresult"
    and valid :: "'st \<Rightarrow> bool"
  assumes load_store: "documented \<Longrightarrow> valid st \<Longrightarrow> store st = Ok bs \<Longrightarrow> load bs = Ok st"
    and load_valid: "length bs \<le> MAX_INPUT_BYTES \<Longrightarrow> load bs = Ok st \<Longrightarrow> valid st"
    and store_load: "length bs \<le> MAX_INPUT_BYTES \<Longrightarrow> load bs = Ok st \<Longrightarrow> store st = Ok bs"
begin

lemma store_inj:
  assumes "documented" and "valid s" and "valid t" and "store s = Ok bs" and "store t = Ok bs"
  shows "s = t"
  using load_store [OF assms(1,2,4)] load_store [OF assms(1,3,5)] by simp

lemma load_inj:
  assumes "length a \<le> MAX_INPUT_BYTES" and "length b \<le> MAX_INPUT_BYTES"
    and "load a = Ok st" and "load b = Ok st"
  shows "a = b"
  using store_load [OF assms(1,3)] store_load [OF assms(2,4)] by simp

text \<open>
  Working on the stored bytes is working on the state: if the operations keep validity and every
  state they pass through can be stored, the stored result is the encoding of the in-memory result,
  and the two fail together.
\<close>

lemma load_store_step_eq:
  assumes "documented" and "valid st" and "store st = Ok bs"
  shows "load_store_step load store f bs = rbind (f st) store"
  using load_store [OF assms] by (simp add: load_store_step_def)

lemma in_sequence_stored:
  assumes documented
    and storable: "\<And>s. good s \<Longrightarrow> valid s \<and> (\<exists>bs. store s = Ok bs)"
    and keeps: "list_all (preserves good) fs"
    and "good st" and "store st = Ok bs"
  shows "in_sequence (map (load_store_step load store) fs) bs = rbind (in_sequence fs st) store"
  using keeps assms(4,5)
proof (induction fs arbitrary: st bs)
  case Nil
  from Nil(3) show ?case by simp
next
  case (Cons f fs)
  have "valid st" using storable [OF Cons.prems(2)] by (rule conjunct1)
  with \<open>documented\<close> have step: "load_store_step load store f bs = rbind (f st) store"
    using Cons.prems(3) by (rule load_store_step_eq)
  show ?case
  proof (cases "f st")
    case (Inl e)
    then show ?thesis by (simp add: step)
  next
    case (Inr t)
    with Cons.prems(1,2) have "good t" by (auto intro: preservesD)
    from storable [OF this] obtain cs where cs: "store t = Ok cs" by blast
    from Cons.prems(1) have "list_all (preserves good) fs" by simp
    then have
      "in_sequence (map (load_store_step load store) fs) cs = rbind (in_sequence fs t) store"
      using \<open>good t\<close> cs by (rule Cons.IH)
    with Inr cs show ?thesis by (simp add: step)
  qed
qed

end

end
