(* ===== verification/Example_Primitives.thy ===== *)
theory Example_Primitives
  imports Crypto_Provider
begin

text \<open>
  A concrete choice of primitives that has every documented behaviour named in
  \<open>Crypto_Provider\<close>. It has no secrecy; it shows that the hypotheses of the theorems
  can hold together, and the witnesses of those theorems evaluate with it.
\<close>

definition fit :: "nat \<Rightarrow> bytes \<Rightarrow> bytes" where
  "fit n bs = take n (bs @ replicate n 0)"

lemma length_fit [simp]: "length (fit n bs) = n"
  by (simp add: fit_def)

lemma fit_exact [simp]: "length bs = n \<Longrightarrow> fit n bs = bs"
  by (simp add: fit_def)

lemma fit_fit: "m \<le> n \<Longrightarrow> fit m (fit n bs) = fit m bs"
  by (simp add: fit_def min_def not_le take_replicate flip: replicate_add) arith

definition example_prims :: prims where
  "example_prims =
     \<lparr>ed_public_of = fit 32,
      ed_sign_raw = (\<lambda>s m. fit 32 s @ replicate 32 7),
      ed_key_valid = (\<lambda>k. length k = 32),
      ed_verify_strict = (\<lambda>k m sig. take 32 sig = k),
      x_public_of = fit 32,
      x_diffie_hellman = (\<lambda>s p. 1 # map2 (+) (fit 31 s) (fit 31 p)),
      kem_keypair_derand = (\<lambda>c. Some (fit 1184 c, replicate 1152 0 @ fit 1184 c @ replicate 64 0)),
      kem_enc_derand = (\<lambda>k c. Some (fit 1088 c, fit 32 c)),
      kem_dec = (\<lambda>k ct. Some (fit 32 ct)),
      argon2id_raw = (\<lambda>p s. Some (fit 32 p)),
      aead_seal = (\<lambda>k n ad pt. Some (pt @ fit 16 k)),
      aead_open = (\<lambda>k n ad ct. if length ct < 16 \<or> drop (length ct - 16) ct \<noteq> fit 16 k then None
                              else Some (take (length ct - 16) ct)),
      sha256_raw = fit 32,
      sha384_raw = fit 48,
      hkdf256_raw = (\<lambda>salt ikm info n. if n \<le> 255 * 32 then Some (fit n ikm) else None),
      hkdf384_raw = (\<lambda>salt ikm info n. if n \<le> 255 * 48 then Some (fit n ikm) else None),
      hmac256_raw = (\<lambda>k m. Some (fit 32 k))\<rparr>"

lemmas example_simps = example_prims_def prims.simps

lemma example_sized: "sized_prims example_prims"
  by (simp add: sized_prims_def example_prims_def)

lemma example_embeds: "kem_embeds_public example_prims"
  by (simp add: kem_embeds_public_def example_prims_def)

lemma example_kem_total: "kem_keypair_total example_prims"
  by (simp add: kem_keypair_total_def example_prims_def)

lemma example_signatures: "signatures_verify example_prims"
  by (simp add: signatures_verify_def example_prims_def)

lemma example_dh: "dh_agrees example_prims"
proof -
  have comm: "map2 (+) xs ys = map2 (+) ys xs" for xs ys :: bytes
    by (rule nth_equalityI) (simp_all add: add.commute)
  show ?thesis
    by (simp add: dh_agrees_def example_prims_def fit_fit) (metis comm)
qed

lemma example_kem: "kem_correct example_prims"
  by (simp add: kem_correct_def example_prims_def fit_fit)

lemma example_aead: "aead_correct example_prims"
  by (simp add: aead_correct_def example_prims_def)

lemmas example_laws =
  example_sized example_embeds example_signatures example_dh example_kem example_kem_total example_aead

lemma replicate_32: "replicate 32 x = x # replicate 31 x"
  using replicate_Suc [of 31 x] by simp

lemma example_shared:
  "x25519_shared example_prims s p = Ok (1 # map2 (+) (fit 31 s) (fit 31 p))"
  by (simp add: x25519_shared_def example_prims_def replicate_32)

lemma example_shared_replicate:
  "x25519_shared example_prims (replicate 32 a) (replicate 32 b) = Ok (1 # replicate 31 (a + b))"
  by (simp add: example_shared fit_def)

end
