(* ===== verification/Prekey_Codec.thy ===== *)
theory Prekey_Codec
  imports Prekey_State Sealed_State Example_Primitives
begin

text \<open>
  The stored device-state format: every record of it is a codec, the body of a \<^verbatim>\<open>CPDVV002\<close> state is a
  codec, and with the authentication tag the encoder and the decoder are inverse to each
  other on valid states. \<open>device_valid\<close> is what the decoder guarantees of a state it returns.
\<close>

section \<open>Well-formed records\<close>

definition classical_signed_wf :: "classical_signed_key \<Rightarrow> bool" where
  "classical_signed_wf k \<longleftrightarrow> cs_id k \<le> KEY_ID_MAX \<and> length (cs_public k) = 32
     \<and> length (cs_signature k) = 64 \<and> length (cs_secret k) = 32"

definition pq_signed_wf :: "pq_signed_key \<Rightarrow> bool" where
  "pq_signed_wf k \<longleftrightarrow> ps_id k \<le> KEY_ID_MAX \<and> length (ps_public k) = 1184
     \<and> length (ps_signature k) = 64 \<and> length (ps_secret k) = 2400"

definition retired_pair_wf :: "retired_signed_pair \<Rightarrow> bool" where
  "retired_pair_wf p \<longleftrightarrow> classical_signed_wf (rp_classical p) \<and> pq_signed_wf (rp_pq p)"

definition classical_one_time_wf :: "classical_one_time_key \<Rightarrow> bool" where
  "classical_one_time_wf k \<longleftrightarrow> co_id k \<le> KEY_ID_MAX \<and> length (co_public k) = 32
     \<and> length (co_secret k) = 32"

definition pq_one_time_wf :: "pq_one_time_key \<Rightarrow> bool" where
  "pq_one_time_wf k \<longleftrightarrow> po_id k \<le> KEY_ID_MAX \<and> length (po_public k) = 1184
     \<and> length (po_secret k) = 2400"

definition upload_wf :: "pending_upload \<Rightarrow> bool" where
  "upload_wf u \<longleftrightarrow> (pu_kind u = UPLOAD_REPLENISH \<or> pu_kind u = UPLOAD_ROTATION)
     \<and> length (pu_batch_id u) = 16 \<and> length (pu_exact_projection u) \<le> MAX_INPUT_BYTES"

lemmas record_wf_defs =
  classical_signed_wf_def pq_signed_wf_def retired_pair_wf_def classical_one_time_wf_def
  pq_one_time_wf_def upload_wf_def

lemma valid_key_id_Ok_iff [simp]: "valid_key_id i = Ok j \<longleftrightarrow> j = i \<and> i \<le> KEY_ID_MAX"
  by (auto simp: valid_key_id_def)

interpretation classical_signed_codec:
  codec decode_classical_signed encode_classical_signed classical_signed_wf
proof unfold_locales
  show "reads decode_classical_signed (encode_classical_signed k) k" if "classical_signed_wf k" for k
    unfolding decode_classical_signed_def encode_classical_signed_def
    by (rule reads_last, simp only: append_assoc, intro reads_intros)
      (use that in \<open>auto simp: classical_signed_wf_def\<close>)
  show "sound decode_classical_signed (\<lambda>bs k. classical_signed_wf k \<and> bs = encode_classical_signed k)"
    unfolding decode_classical_signed_def encode_classical_signed_def
    by (intro sound_intros) (simp add: classical_signed_wf_def)
qed

interpretation pq_signed_codec:
  codec decode_pq_signed encode_pq_signed pq_signed_wf
proof unfold_locales
  show "reads decode_pq_signed (encode_pq_signed k) k" if "pq_signed_wf k" for k
    unfolding decode_pq_signed_def encode_pq_signed_def
    by (rule reads_last, simp only: append_assoc, intro reads_intros)
      (use that in \<open>auto simp: pq_signed_wf_def\<close>)
  show "sound decode_pq_signed (\<lambda>bs k. pq_signed_wf k \<and> bs = encode_pq_signed k)"
    unfolding decode_pq_signed_def encode_pq_signed_def
    by (intro sound_intros) (simp add: pq_signed_wf_def)
qed

interpretation retired_pair_codec:
  codec decode_retired_pair encode_retired_pair retired_pair_wf
proof unfold_locales
  show "reads decode_retired_pair (encode_retired_pair k) k" if "retired_pair_wf k" for k
    unfolding decode_retired_pair_def encode_retired_pair_def
    by (rule reads_last, simp only: append_assoc, intro reads_intros)
      (use that in \<open>auto simp: retired_pair_wf_def\<close>)
  show "sound decode_retired_pair (\<lambda>bs k. retired_pair_wf k \<and> bs = encode_retired_pair k)"
    unfolding decode_retired_pair_def encode_retired_pair_def
    by (intro sound_intros) (simp add: retired_pair_wf_def)
qed

interpretation classical_one_time_codec:
  codec decode_classical_one_time encode_classical_one_time classical_one_time_wf
proof unfold_locales
  show "reads decode_classical_one_time (encode_classical_one_time k) k" if "classical_one_time_wf k" for k
    unfolding decode_classical_one_time_def encode_classical_one_time_def
    by (rule reads_last, simp only: append_assoc, intro reads_intros)
      (use that in \<open>auto simp: classical_one_time_wf_def\<close>)
  show "sound decode_classical_one_time (\<lambda>bs k. classical_one_time_wf k \<and> bs = encode_classical_one_time k)"
    unfolding decode_classical_one_time_def encode_classical_one_time_def
    by (intro sound_intros) (simp add: classical_one_time_wf_def)
qed

interpretation pq_one_time_codec:
  codec decode_pq_one_time encode_pq_one_time pq_one_time_wf
proof unfold_locales
  show "reads decode_pq_one_time (encode_pq_one_time k) k" if "pq_one_time_wf k" for k
    unfolding decode_pq_one_time_def encode_pq_one_time_def
    by (rule reads_last, simp only: append_assoc, intro reads_intros)
      (use that in \<open>auto simp: pq_one_time_wf_def\<close>)
  show "sound decode_pq_one_time (\<lambda>bs k. pq_one_time_wf k \<and> bs = encode_pq_one_time k)"
    unfolding decode_pq_one_time_def encode_pq_one_time_def
    by (intro sound_intros) (simp add: pq_one_time_wf_def)
qed

text \<open>The pending upload, as the bytes the encoder writes when it succeeds.\<close>

definition pending_bytes :: "pending_upload option \<Rightarrow> bytes" where
  "pending_bytes v = (case v of
     None \<Rightarrow> bool_bytes False
   | Some u \<Rightarrow> bool_bytes True @ [pu_kind u] @ pu_batch_id u @ frame (pu_exact_projection u))"

definition pending_wf :: "pending_upload option \<Rightarrow> bool" where
  "pending_wf v \<longleftrightarrow> (\<forall>u. v = Some u \<longrightarrow> upload_wf u)"

lemma encode_pending_eq:
  "encode_pending v =
     (if \<forall>u. v = Some u \<longrightarrow> length (pu_exact_projection u) < 2 ^ 32 then Ok (pending_bytes v)
      else Err InputTooLarge)"
  by (cases v) (auto simp: encode_pending_def pending_bytes_def push_frame_eq bool_bytes_def)

interpretation pending_codec: codec decode_pending pending_bytes pending_wf
proof unfold_locales
  show "reads decode_pending (pending_bytes v) v" if "pending_wf v" for v
  proof (cases v)
    case None
    show ?thesis
      unfolding decode_pending_def pending_bytes_def None option.case
      by (rule reads_last, intro reads_intros) auto
  next
    case (Some u)
    with that have "upload_wf u" by (simp add: pending_wf_def)
    then show ?thesis
      unfolding decode_pending_def pending_bytes_def Some option.case
      by (intro bool_codec.bind_reads, simp_all only: if_True append_assoc)
        (rule reads_last, simp only: append_assoc, intro reads_intros, auto simp: upload_wf_def)
  qed
  show "sound decode_pending (\<lambda>bs v. pending_wf v \<and> bs = pending_bytes v)"
    unfolding decode_pending_def
    by (intro sound_intros) (auto simp: pending_wf_def pending_bytes_def upload_wf_def)
qed


interpretation retired_pairs_codec:
  codec "repeat_s n decode_retired_pair" "\<lambda>xs. concat (map encode_retired_pair xs)"
    "\<lambda>xs. list_all retired_pair_wf xs \<and> length xs = n" for n
  by (rule retired_pair_codec.repeat_codec)

interpretation classical_one_times_codec:
  codec "repeat_s n decode_classical_one_time" "\<lambda>xs. concat (map encode_classical_one_time xs)"
    "\<lambda>xs. list_all classical_one_time_wf xs \<and> length xs = n" for n
  by (rule classical_one_time_codec.repeat_codec)

interpretation pq_one_times_codec:
  codec "repeat_s n decode_pq_one_time" "\<lambda>xs. concat (map encode_pq_one_time xs)"
    "\<lambda>xs. list_all pq_one_time_wf xs \<and> length xs = n" for n
  by (rule pq_one_time_codec.repeat_codec)

section \<open>The body of a stored state\<close>

definition device_body :: "device_state \<Rightarrow> bytes" where
  "device_body st =
     DEVICE_V2_MAGIC @ ds_user_id st @ u32_bytes (ds_registration_id st)
       @ u32_bytes (ds_bundle_version st) @ u32_bytes (ds_next_classical_one_time_id st)
       @ u32_bytes (ds_next_pq_one_time_id st) @ ds_device_signing_public st
       @ ds_identity_public st @ ds_device_signing_secret st @ ds_identity_secret st
       @ encode_classical_signed (ds_current_classical st) @ encode_pq_signed (ds_current_pq st)
       @ ds_cross_signature st
       @ [word_of_nat (length (ds_retired st))] @ concat (map encode_retired_pair (ds_retired st))
       @ u16_bytes (word_of_nat (length (ds_classical_one_time st)))
       @ concat (map encode_classical_one_time (ds_classical_one_time st))
       @ u16_bytes (word_of_nat (length (ds_pq_one_time st)))
       @ concat (map encode_pq_one_time (ds_pq_one_time st))
       @ pending_bytes (ds_pending st)"

definition device_fields_wf :: "device_state \<Rightarrow> bool" where
  "device_fields_wf st \<longleftrightarrow>
     length (ds_user_id st) = 16 \<and> length (ds_device_signing_public st) = 32
     \<and> length (ds_identity_public st) = 32 \<and> length (ds_device_signing_secret st) = 32
     \<and> length (ds_identity_secret st) = 32 \<and> length (ds_cross_signature st) = 64
     \<and> classical_signed_wf (ds_current_classical st) \<and> pq_signed_wf (ds_current_pq st)
     \<and> list_all retired_pair_wf (ds_retired st)
     \<and> length (ds_retired st) \<le> MAX_RETIRED_SIGNED_PAIRS
     \<and> list_all classical_one_time_wf (ds_classical_one_time st)
     \<and> length (ds_classical_one_time st) \<le> MAX_CLASSICAL_ONE_TIME
     \<and> list_all pq_one_time_wf (ds_pq_one_time st)
     \<and> length (ds_pq_one_time st) \<le> MAX_PQ_ONE_TIME
     \<and> pending_wf (ds_pending st)"

lemma length_magic [simp]:
  "length DEVICE_V1_MAGIC = 8" "length DEVICE_V2_MAGIC = 8" "length UPLOAD_MAGIC = 8"
  "length IDENTITY_MAGIC = 8"
  by (simp_all add: DEVICE_V1_MAGIC_def DEVICE_V2_MAGIC_def UPLOAD_MAGIC_def IDENTITY_MAGIC_def)

lemma count_word_exact:
  "n \<le> MAX_RETIRED_SIGNED_PAIRS \<Longrightarrow> unat (word_of_nat n :: u8) = n"
  "n \<le> MAX_CLASSICAL_ONE_TIME \<Longrightarrow> unat (word_of_nat n :: u16) = n"
  "n \<le> MAX_PQ_ONE_TIME \<Longrightarrow> unat (word_of_nat n :: u16) = n"
  by (simp_all add: prekey_limits)

lemma word_of_nat_unat_count:
  "n = unat (w :: u8) \<Longrightarrow> word_of_nat n = w"
  "n = unat (v :: u16) \<Longrightarrow> word_of_nat n = v"
  by simp_all

interpretation device_codec: codec parse_v2_fields device_body device_fields_wf
proof unfold_locales
  show "reads parse_v2_fields (device_body st) st" if "device_fields_wf st" for st
    unfolding parse_v2_fields_def device_body_def
    by (rule reads_last, simp only: append_assoc, intro reads_intros)
      (use that in \<open>auto simp: device_fields_wf_def count_word_exact\<close>)
  show "sound parse_v2_fields (\<lambda>bs st. device_fields_wf st \<and> bs = device_body st)"
    unfolding parse_v2_fields_def device_body_def
    by (intro sound_intros) (simp add: device_fields_wf_def)
qed


section \<open>Valid states\<close>

text \<open>A signed prekey whose secret matches and whose signature verifies under the device's signing key.\<close>

definition classical_authentic :: "prims \<Rightarrow> device_state \<Rightarrow> classical_signed_key \<Rightarrow> bool" where
  "classical_authentic P st k \<longleftrightarrow>
     x_public_of P (cs_secret k) = cs_public k
     \<and> (\<exists>bs. encode_signed_prekey \<lparr>sp_user_id = ds_user_id st,
               sp_prekey = \<lparr>pk_id = cs_id k, pk_public = cs_public k\<rparr>\<rparr> = Ok bs
          \<and> ed25519_verify P (ds_device_signing_public st) bs (cs_signature k) = Ok ())"

definition pq_embedded :: "bytes \<Rightarrow> bytes \<Rightarrow> bool" where
  "pq_embedded secret public \<longleftrightarrow> take 1184 (drop 1152 secret) = public"

definition pq_authentic :: "prims \<Rightarrow> device_state \<Rightarrow> pq_signed_key \<Rightarrow> bool" where
  "pq_authentic P st k \<longleftrightarrow>
     pq_embedded (ps_secret k) (ps_public k)
     \<and> (\<exists>bs. encode_pq_signed_prekey \<lparr>sp_user_id = ds_user_id st,
               sp_prekey = \<lparr>pk_id = ps_id k, pk_public = ps_public k\<rparr>\<rparr> = Ok bs
          \<and> ed25519_verify P (ds_device_signing_public st) bs (ps_signature k) = Ok ())"

definition retired_before :: "retired_signed_pair \<Rightarrow> retired_signed_pair \<Rightarrow> bool" where
  "retired_before a b \<longleftrightarrow>
     cs_id (rp_classical a) < cs_id (rp_classical b) \<and> ps_id (rp_pq a) < ps_id (rp_pq b)"

definition device_material :: "prims \<Rightarrow> device_state \<Rightarrow> bool" where
  "device_material P st \<longleftrightarrow>
     classical_authentic P st (ds_current_classical st) \<and> pq_authentic P st (ds_current_pq st)
     \<and> sorted_wrt retired_before (ds_retired st)
     \<and> (\<forall>pair \<in> set (ds_retired st).
          classical_authentic P st (rp_classical pair) \<and> pq_authentic P st (rp_pq pair))
     \<and> (\<forall>k \<in> set (ds_classical_one_time st). x_public_of P (co_secret k) = co_public k)
     \<and> (\<forall>k \<in> set (ds_pq_one_time st). pq_embedded (po_secret k) (po_public k))"

text \<open>A high-water mark is a usable identifier or the exhausted mark.\<close>

definition high_water_ok :: "u32 \<Rightarrow> bool" where
  "high_water_ok n \<longleftrightarrow> n = - 1 \<or> n \<le> KEY_ID_MAX"

definition device_valid :: "prims \<Rightarrow> device_state \<Rightarrow> bool" where
  "device_valid P st \<longleftrightarrow>
     device_fields_wf st \<and> ds_bundle_version st \<noteq> 0 \<and> \<not> is_zero (ds_user_id st)
     \<and> high_water_ok (ds_next_classical_one_time_id st) \<and> high_water_ok (ds_next_pq_one_time_id st)
     \<and> (\<forall>k \<in> set (ds_classical_one_time st). co_id k < ds_next_classical_one_time_id st)
     \<and> (\<forall>k \<in> set (ds_pq_one_time st). po_id k < ds_next_pq_one_time_id st)
     \<and> sorted_wrt (\<lambda>a b. co_id a < co_id b) (ds_classical_one_time st)
     \<and> sorted_wrt (\<lambda>a b. po_id a < po_id b) (ds_pq_one_time st)
     \<and> ed_public_of P (ds_device_signing_secret st) = ds_device_signing_public st
     \<and> x_public_of P (ds_identity_secret st) = ds_identity_public st
     \<and> device_material P st"

lemma validate_sorted_Ok_iff:
  "validate_sorted_classical ks = Ok u \<longleftrightarrow> sorted_wrt (\<lambda>a b. co_id a < co_id b) ks"
  "validate_sorted_pq qs = Ok u \<longleftrightarrow> sorted_wrt (\<lambda>a b. po_id a < po_id b) qs"
  unfolding validate_sorted_classical_def validate_sorted_pq_def reject_if_Ok_iff
  by (rule windows2_any_sorted_wrt; auto simp: transp_def not_le)+

lemma retired_scan_iff:
  "\<not> windows2_any (\<lambda>a b. cs_id (rp_classical a) \<ge> cs_id (rp_classical b) \<or> ps_id (rp_pq a) \<ge> ps_id (rp_pq b)) ps
     \<longleftrightarrow> sorted_wrt retired_before ps"
  by (rule windows2_any_sorted_wrt) (auto simp: transp_def retired_before_def not_le)

lemma validate_pq_public_in_secret_Ok_iff:
  "length s = 2400 \<Longrightarrow> validate_pq_public_in_secret s p = Ok u \<longleftrightarrow> pq_embedded s p"
  by (simp add: validate_pq_public_in_secret_def pq_embedded_def)

lemma ik_signing_half:
  "length (ds_device_signing_public st) = 32 \<Longrightarrow>
     ik_device_signing_public (state_ik_public st) = ds_device_signing_public st"
  by (simp add: ik_device_signing_public_def state_ik_public_def ik_from_halves_def)

lemma validate_classical_signed_Ok_iff:
  "length (ds_device_signing_public st) = 32 \<Longrightarrow>
     validate_classical_signed P (state_ik_public st) (ds_user_id st) k = Ok u
     \<longleftrightarrow> classical_authentic P st k"
  by (auto simp: validate_classical_signed_def classical_authentic_def x25519_public_def
      ik_signing_half rbind_Ok_iff)

lemma validate_pq_signed_Ok_iff:
  "length (ds_device_signing_public st) = 32 \<Longrightarrow> length (ps_secret k) = 2400 \<Longrightarrow>
     validate_pq_signed P (state_ik_public st) (ds_user_id st) k = Ok u
     \<longleftrightarrow> pq_authentic P st k"
  by (auto simp: validate_pq_signed_def pq_authentic_def validate_pq_public_in_secret_Ok_iff
      ik_signing_half rbind_Ok_iff)

lemma validate_device_material_Ok_iff:
  assumes "device_fields_wf st"
  shows "validate_device_material P st = Ok u \<longleftrightarrow> device_material P st"
proof -
  have len: "length (ds_device_signing_public st) = 32" "length (ps_secret (ds_current_pq st)) = 2400"
    and ret: "\<And>p. p \<in> set (ds_retired st) \<Longrightarrow> length (ps_secret (rp_pq p)) = 2400"
    and pq: "\<And>k. k \<in> set (ds_pq_one_time st) \<Longrightarrow> length (po_secret k) = 2400"
    using assms by (auto simp: device_fields_wf_def record_wf_defs list_all_iff)
  show ?thesis
    by (auto simp: validate_device_material_def device_material_def Let_def rbind_Ok_iff each_Ok_iff
        validate_classical_signed_Ok_iff validate_pq_signed_Ok_iff len ret pq retired_scan_iff
        validate_pq_public_in_secret_Ok_iff x25519_public_def)
qed

section \<open>The authenticated format\<close>

definition device_tag :: "prims \<Rightarrow> device_state \<Rightarrow> bytes cresult" where
  "device_tag P st =
     rbind (device_auth_key P (ds_identity_secret st)) (\<lambda>k. hmac_sha256 P k (device_body st))"

lemma encode_device_state_eq:
  assumes "device_fields_wf st"
  shows "encode_device_state P st = rbind (device_tag P st) (\<lambda>tag.
     if length (device_body st @ tag) > MAX_INPUT_BYTES then Err InputTooLarge
     else Ok (device_body st @ tag))"
proof -
  have "encode_pending (ds_pending st) = Ok (pending_bytes (ds_pending st))"
    using assms by (auto simp: encode_pending_eq device_fields_wf_def pending_wf_def upload_wf_def
        MAX_INPUT_BYTES_def)
  moreover have "reserve [] 512 = Ok ()"
    by (simp add: reserve_def usize_checked_add_def MAX_INPUT_BYTES_def)
  moreover have "length (ds_retired st) < 256" "length (ds_classical_one_time st) < 65536"
    "length (ds_pq_one_time st) < 65536"
    using assms by (auto simp: device_fields_wf_def prekey_limits)
  ultimately show ?thesis
    by (simp add: encode_device_state_def device_tag_def device_body_def Let_def rbind_assoc
        cong: if_cong del: length_append length_Cons)
qed

lemma device_tag_length:
  assumes "sized_prims P" and "device_tag P st = Ok tag"
  shows "length tag = 32"
proof -
  from assms(2) obtain k where "hmac256_raw P k (device_body st) = Some tag"
    by (auto simp: device_tag_def hmac_sha256_def elim!: monad_elims split: if_splits)
  then show ?thesis
    using sized_prims_hmac [OF assms(1), of k "device_body st"] by auto
qed

lemma device_auth_key_total:
  assumes "sized_prims P" and "length s = 32"
  obtains k where "device_auth_key P s = Ok k" and "length k = 32"
proof -
  obtain k where "hkdf256_raw P (replicate 32 0) s DEVICE_STATE_AUTH_DOMAIN 32 = Some k" "length k = 32"
    by (rule sized_prims_hkdf [OF assms(1), of 32 "replicate 32 0" s DEVICE_STATE_AUTH_DOMAIN]) auto
  with assms(2) show thesis
    by (intro that [of k]) (simp_all add: device_auth_key_def hkdf_sha256_def MAX_INPUT_BYTES_def
        DEVICE_STATE_AUTH_DOMAIN_def)
qed


text \<open>
  What the version 2 decoder accepts, exactly: the encoding of a valid state, followed by the tag
  computed over it with the key derived from the identity secret inside it.
\<close>

lemma is_authenticated_split:
  assumes "32 \<le> length (bs :: bytes)"
  shows "(\<exists>b t. bs = b @ t \<and> length t = 32 \<and> Q b t) \<longleftrightarrow> Q (take (length bs - 32) bs) (drop (length bs - 32) bs)"
proof
  assume "\<exists>b t. bs = b @ t \<and> length t = 32 \<and> Q b t"
  then show "Q (take (length bs - 32) bs) (drop (length bs - 32) bs)" by auto
next
  assume "Q (take (length bs - 32) bs) (drop (length bs - 32) bs)"
  with assms show "\<exists>b t. bs = b @ t \<and> length t = 32 \<and> Q b t"
    by (intro exI [of _ "take (length bs - 32) bs"] exI [of _ "drop (length bs - 32) bs"]) simp
qed

lemma parse_v2_fields_Ok_iff:
  assumes "length bs < 2 ^ 64"
  shows "(\<exists>r. parse_v2_fields (reader_new bs) = Ok (st, r) \<and> reader_is_finished r)
     \<longleftrightarrow> device_fields_wf st \<and> bs = device_body st"
proof -
  have "(\<exists>r. parse_v2_fields (reader_new bs) = Ok (st, r) \<and> reader_is_finished r)
     \<longleftrightarrow> parse_all parse_v2_fields bs = Ok st"
    by (auto simp: parse_all_def rbind_Ok_iff)
  also have "\<dots> \<longleftrightarrow> device_fields_wf st \<and> bs = device_body st"
    using assms device_codec.parse_all_enc device_codec.parse_all_sound by blast
  finally show ?thesis .
qed

lemma device_body_length:
  assumes "device_fields_wf st"
  shows "length (device_body st) = 4029 + 3796 * length (ds_retired st)
     + 68 * length (ds_classical_one_time st) + 3588 * length (ds_pq_one_time st)
     + length (pending_bytes (ds_pending st))"
proof -
  have len_concat: "length (concat (map f xs)) = k * length xs"
    if "list_all w xs" "\<And>x. w x \<Longrightarrow> length (f x) = k" for f :: "'z \<Rightarrow> bytes" and w k xs
    using that by (induction xs) auto
  have "length (concat (map encode_retired_pair (ds_retired st))) = 3796 * length (ds_retired st)"
    by (rule len_concat [of retired_pair_wf])
      (use assms in \<open>auto simp: device_fields_wf_def record_wf_defs encode_retired_pair_def
         encode_classical_signed_def encode_pq_signed_def\<close>)
  moreover have "length (concat (map encode_classical_one_time (ds_classical_one_time st)))
      = 68 * length (ds_classical_one_time st)"
    by (rule len_concat [of classical_one_time_wf])
      (use assms in \<open>auto simp: device_fields_wf_def record_wf_defs encode_classical_one_time_def\<close>)
  moreover have "length (concat (map encode_pq_one_time (ds_pq_one_time st)))
      = 3588 * length (ds_pq_one_time st)"
    by (rule len_concat [of pq_one_time_wf])
      (use assms in \<open>auto simp: device_fields_wf_def record_wf_defs encode_pq_one_time_def\<close>)
  ultimately show ?thesis
    using assms by (simp add: device_body_def device_fields_wf_def record_wf_defs
        encode_classical_signed_def encode_pq_signed_def)
qed

lemma decode_v2_Ok_iff:
  assumes "length bs < 2 ^ 64"
  shows "decode_v2 P bs = Ok st \<longleftrightarrow>
    (\<exists>tag. bs = device_body st @ tag \<and> length tag = 32 \<and> device_tag P st = Ok tag \<and> device_valid P st)"
proof (cases "length bs < 40")
  case True
  have "8 \<le> length (device_body st)" by (simp add: device_body_def)
  with True show ?thesis
    by (auto simp: decode_v2_def STATE_AUTH_TAG_BYTES_def)
next
  case False
  let ?b = "take (length bs - 32) bs" and ?t = "drop (length bs - 32) bs"
  have wf: "(\<exists>r. parse_v2_fields (reader_new ?b) = Ok (st, r) \<and> reader_is_finished r)
     \<longleftrightarrow> device_fields_wf st \<and> ?b = device_body st"
    using assms by (intro parse_v2_fields_Ok_iff) simp
  have "decode_v2 P bs = Ok st \<longleftrightarrow>
      (\<exists>r. parse_v2_fields (reader_new ?b) = Ok (st, r) \<and> reader_is_finished r)
      \<and> (\<exists>k. device_auth_key P (ds_identity_secret st) = Ok k \<and> hmac_sha256 P k ?b = Ok ?t)
      \<and> validate_device_material P st = Ok () \<and> device_valid P st"
    using False wf
    by (auto simp: decode_v2_def STATE_AUTH_TAG_BYTES_def rbind_Ok_iff Let_def validate_sorted_Ok_iff
        x25519_public_def device_valid_def high_water_ok_def list_ex_iff not_le not_less
        validate_device_material_Ok_iff device_material_def classical_authentic_def)
  also have "\<dots> \<longleftrightarrow> ?b = device_body st \<and> device_tag P st = Ok ?t \<and> device_valid P st"
    unfolding wf device_tag_def
    by (auto simp: rbind_Ok_iff validate_device_material_Ok_iff device_valid_def)
  also have "\<dots> \<longleftrightarrow> (\<exists>b tag. bs = b @ tag \<and> length tag = 32
       \<and> b = device_body st \<and> device_tag P st = Ok tag \<and> device_valid P st)"
    using False by (intro is_authenticated_split [symmetric]) simp
  finally show ?thesis by blast
qed


lemma magic_distinct: "DEVICE_V1_MAGIC \<noteq> DEVICE_V2_MAGIC"
  by (simp add: DEVICE_V1_MAGIC_def DEVICE_V2_MAGIC_def ascii_def)

lemma take_device_body: "take 8 (device_body st @ tag) = DEVICE_V2_MAGIC"
  by (simp add: device_body_def)

lemma device_tag_total:
  assumes "sized_prims P" and "device_fields_wf st" and "length (device_body st) \<le> MAX_INPUT_BYTES"
  obtains tag where "device_tag P st = Ok tag" and "length tag = 32"
proof -
  obtain k where k: "device_auth_key P (ds_identity_secret st) = Ok k" "length k = 32"
    by (rule device_auth_key_total [OF assms(1), of "ds_identity_secret st"])
      (use assms(2) in \<open>auto simp: device_fields_wf_def\<close>)
  obtain t where "hmac256_raw P k (device_body st) = Some t" "length t = 32"
    by (rule sized_prims_hmac [OF assms(1)])
  with k assms(3) show thesis
    by (intro that [of t]) (simp_all add: device_tag_def hmac_sha256_def MAX_INPUT_BYTES_def)
qed

lemma encode_device_state_Ok_iff:
  assumes "device_fields_wf st"
  shows "encode_device_state P st = Ok bs \<longleftrightarrow>
     (\<exists>tag. device_tag P st = Ok tag \<and> bs = device_body st @ tag \<and> length bs \<le> MAX_INPUT_BYTES)"
  unfolding encode_device_state_eq [OF assms] by (cases "device_tag P st") auto

text \<open>The storage bound: with its key lists full, a state still leaves 144785 bytes for a pending upload.\<close>

definition projection_fits :: "device_state \<Rightarrow> bool" where
  "projection_fits st \<longleftrightarrow>
     (\<forall>u. ds_pending st = Some u \<longrightarrow> length (pu_exact_projection u) \<le> 144785)"

lemma device_body_fits:
  assumes "device_fields_wf st" and "projection_fits st"
  shows "length (device_body st) + 32 \<le> MAX_INPUT_BYTES"
proof -
  have "length (pending_bytes (ds_pending st)) \<le> 144807"
    using assms by (cases "ds_pending st")
      (auto simp: pending_bytes_def projection_fits_def bool_bytes_def device_fields_wf_def
        pending_wf_def upload_wf_def)
  moreover have "length (ds_retired st) \<le> 3" "length (ds_classical_one_time st) \<le> 400"
    "length (ds_pq_one_time st) \<le> 240"
    using assms(1) by (simp_all add: device_fields_wf_def prekey_limits)
  ultimately show ?thesis
    unfolding device_body_length [OF assms(1)] MAX_INPUT_BYTES_def by linarith
qed

lemma encode_device_state_total:
  assumes "sized_prims P" and "device_fields_wf st" and "projection_fits st"
  obtains bs where "encode_device_state P st = Ok bs"
proof -
  note fits = device_body_fits [OF assms(2,3)]
  obtain tag where "device_tag P st = Ok tag" "length tag = 32"
    by (rule device_tag_total [OF assms(1,2)]) (use fits in auto)
  with fits that show thesis
    by (simp add: encode_device_state_Ok_iff [OF assms(2)])
qed

lemma decode_v2_encode:
  assumes "sized_prims P" and "device_valid P st" and "encode_device_state P st = Ok bs"
  shows "decode_v2 P bs = Ok st"
proof -
  have wf: "device_fields_wf st" using assms(2) by (simp add: device_valid_def)
  from assms(3) obtain tag where tag: "device_tag P st = Ok tag" "bs = device_body st @ tag"
    "length bs \<le> MAX_INPUT_BYTES"
    by (auto simp: encode_device_state_Ok_iff [OF wf])
  then show ?thesis
    using assms(2) device_tag_length [OF assms(1) tag(1)]
    by (subst decode_v2_Ok_iff) (auto simp: MAX_INPUT_BYTES_def)
qed

interpretation device_store:
  sealed_state "sized_prims P" "encode_device_state P" "decode_v2 P" "device_valid P" for P
proof unfold_locales
  show "decode_v2 P bs = Ok st"
    if "sized_prims P" and "device_valid P st" and "encode_device_state P st = Ok bs" for st bs
    using that by (rule decode_v2_encode)
  fix bs st
  assume len: "length bs \<le> MAX_INPUT_BYTES" and "decode_v2 P bs = Ok st"
  then obtain tag where tag: "bs = device_body st @ tag" "device_tag P st = Ok tag" "device_valid P st"
    using decode_v2_Ok_iff [of bs P st] by (auto simp: MAX_INPUT_BYTES_def)
  then show "device_valid P st" by simp
  then have "device_fields_wf st" by (simp add: device_valid_def)
  with tag len show "encode_device_state P st = Ok bs"
    by (simp add: encode_device_state_Ok_iff del: length_append)
qed

lemma encode_device_state_starts:
  assumes "device_fields_wf st" and "encode_device_state P st = Ok bs"
  shows "8 \<le> length bs \<and> take 8 bs = DEVICE_V2_MAGIC"
  using assms by (auto simp: encode_device_state_Ok_iff device_body_def)

lemma decode_encode_device_state:
  assumes "sized_prims P" and "device_valid P st" and "encode_device_state P st = Ok bs"
  shows "decode_device_state P bs day = Ok st"
  using device_store.load_store [OF assms] encode_device_state_starts [OF _ assms(3)] assms(2)
    magic_distinct
  by (simp add: decode_device_state_def device_valid_def)

section \<open>Migration of the version 1 format\<close>

interpretation v1_public_codec:
  codec "parse_v1_public n" public_entry "\<lambda>e. fst e \<le> KEY_ID_MAX \<and> length (snd e) = n" for n
proof unfold_locales
  show "reads (parse_v1_public n) (public_entry e) e" if "fst e \<le> KEY_ID_MAX \<and> length (snd e) = n" for e
    unfolding parse_v1_public_def public_entry_def
    by (rule reads_last, simp only: append_assoc, intro reads_intros) (use that in auto)
  show "sound (parse_v1_public n) (\<lambda>bs e. (fst e \<le> KEY_ID_MAX \<and> length (snd e) = n) \<and> bs = public_entry e)"
    unfolding parse_v1_public_def public_entry_def by (intro sound_intros) simp
qed

interpretation v1_publics_codec:
  codec "repeat_s k (parse_v1_public n)" "\<lambda>xs. concat (map public_entry xs)"
    "\<lambda>xs. list_all (\<lambda>e. fst e \<le> KEY_ID_MAX \<and> length (snd e) = n) xs \<and> length xs = k" for k n
  by (rule v1_public_codec.repeat_codec)

lemma sound_map_s:
  assumes "\<And>x. sound (f x) (\<lambda>_ y. Q x y)"
  shows "sound (map_s f xs) (\<lambda>_ ys. list_all2 Q xs ys)"
proof (induction xs)
  case Nil
  show ?case by (simp add: sound_ret)
next
  case (Cons x xs)
  have "sound (sbind (map_s f xs) (\<lambda>ys. ret (y # ys))) (\<lambda>_ ys. list_all2 Q (x # xs) ys)" if "Q x y" for y
    by (rule sound_bind [OF Cons.IH]) (rule sound_ret, simp add: that)
  then show ?case
    by (simp only: map_s.simps) (rule sound_bind [OF assms], simp)
qed

lemma fold_max_bound:
  "(\<forall>i \<in> set ids. i \<le> fold max ids a) \<and> a \<le> fold max ids a \<and> fold max ids a \<in> insert a (set ids)"
  for a :: "'a::linorder"
proof (induction ids arbitrary: a)
  case (Cons i ids)
  from Cons [of "max i a"] show ?case by (auto simp: max_def split: if_splits)
qed simp

lemma initial_next_id_Ok:
  assumes "initial_next_id ids = Ok n" and "\<forall>i \<in> set ids. i \<le> KEY_ID_MAX"
  shows "high_water_ok n \<and> (\<forall>i \<in> set ids. i < n)"
proof -
  define m where "m = fold max ids 0"
  have le: "\<forall>i \<in> set ids. i \<le> m" and mem: "m \<in> insert 0 (set ids)"
    unfolding m_def using fold_max_bound [of ids 0] by blast+
  have bound: "m \<le> KEY_ID_MAX"
    using mem assms(2) by auto
  show ?thesis
  proof (cases "m = KEY_ID_MAX")
    case True
    then have "n = - 1" using assms(1) by (simp add: initial_next_id_def m_def [symmetric])
    moreover have "m < - 1" using True by (simp add: KEY_ID_MAX_def)
    ultimately show ?thesis using le by (auto simp: high_water_ok_def)
  next
    case False
    then have "checked_add m 1 = Some n"
      using assms(1) by (simp add: initial_next_id_def m_def [symmetric])
    then have n: "unat n = unat m + 1" by (simp add: checked_add_unat)
    have "m < KEY_ID_MAX" using bound False by (simp add: order_less_le)
    then have "unat m < unat KEY_ID_MAX" by (simp add: word_less_nat_alt)
    then have "n \<le> KEY_ID_MAX" "m < n" using n by (simp_all add: word_le_nat_alt word_less_nat_alt)
    then show ?thesis using le by (auto simp: high_water_ok_def)
  qed
qed


lemma sound_parse_v1_keys:
  "sound (map_s (\<lambda>(i, public). sbind (reader_array 32) (\<lambda>secret.
       ret \<lparr>co_id = i, co_public = public, co_secret = secret\<rparr>)) publics)
     (\<lambda>_ ks. list_all2 (\<lambda>e k. co_id k = fst e \<and> co_public k = snd e \<and> length (co_secret k) = 32) publics ks)"
  "sound (map_s (\<lambda>(i, public). sbind (reader_array 2400) (\<lambda>secret.
       ret \<lparr>po_id = i, po_public = public, po_secret = secret\<rparr>)) publics)
     (\<lambda>_ ks. list_all2 (\<lambda>e k. po_id k = fst e \<and> po_public k = snd e \<and> length (po_secret k) = 2400) publics ks)"
  by (rule sound_map_s, simp add: case_prod_beta, intro sound_intros, simp)+

lemma v1_keys_wf:
  "list_all2 (\<lambda>e k. co_id k = fst e \<and> co_public k = snd e \<and> length (co_secret k) = 32) es ks \<Longrightarrow>
     list_all (\<lambda>e. fst e \<le> KEY_ID_MAX \<and> length (snd e) = 32) es \<Longrightarrow>
     list_all classical_one_time_wf ks \<and> length ks = length es"
  "list_all2 (\<lambda>e k. po_id k = fst e \<and> po_public k = snd e \<and> length (po_secret k) = 2400) es qs \<Longrightarrow>
     list_all (\<lambda>e. fst e \<le> KEY_ID_MAX \<and> length (snd e) = 1184) es \<Longrightarrow>
     list_all pq_one_time_wf qs \<and> length qs = length es"
  by (auto simp: list_all2_conv_all_nth list_all_length record_wf_defs)


text \<open>Every state that the migration returns is valid, is version 1 and has nothing retired or pending.\<close>

definition freshly_migrated :: "prims \<Rightarrow> u32 \<Rightarrow> device_state \<Rightarrow> bool" where
  "freshly_migrated P day st \<longleftrightarrow>
     device_valid P st \<and> ds_bundle_version st = 1 \<and> ds_retired st = [] \<and> ds_pending st = None
     \<and> cs_created_day (ds_current_classical st) = saturating_sub day 7
     \<and> ps_created_day (ds_current_pq st) = saturating_sub day 7"

lemma freshly_migratedI:
  assumes "validate_device_material P st = Ok u" and wf: "device_fields_wf st"
    and next_c: "initial_next_id (map co_id (ds_classical_one_time st)) = Ok (ds_next_classical_one_time_id st)"
    and next_pq: "initial_next_id (map po_id (ds_pq_one_time st)) = Ok (ds_next_pq_one_time_id st)"
    and "validate_sorted_classical (ds_classical_one_time st) = Ok v"
    and "validate_sorted_pq (ds_pq_one_time st) = Ok w"
    and "ds_bundle_version st = 1" and "\<not> is_zero (ds_user_id st)"
    and "ed_public_of P (ds_device_signing_secret st) = ds_device_signing_public st"
    and "x_public_of P (ds_identity_secret st) = ds_identity_public st"
    and "ds_retired st = []" and "ds_pending st = None"
    and "cs_created_day (ds_current_classical st) = saturating_sub day 7"
    and "ps_created_day (ds_current_pq st) = saturating_sub day 7"
  shows "freshly_migrated P day st"
proof -
  have "\<forall>i \<in> set (map co_id (ds_classical_one_time st)). i \<le> KEY_ID_MAX"
    and "\<forall>i \<in> set (map po_id (ds_pq_one_time st)). i \<le> KEY_ID_MAX"
    using wf by (auto simp: device_fields_wf_def record_wf_defs list_all_iff)
  from initial_next_id_Ok [OF next_c this(1)] initial_next_id_Ok [OF next_pq this(2)]
  show ?thesis
    using assms by (simp add: freshly_migrated_def device_valid_def validate_device_material_Ok_iff
        validate_sorted_Ok_iff)
qed

lemma parse_v1_sound: "sound (parse_v1 P day) (\<lambda>_ st. freshly_migrated P day st)"
  unfolding parse_v1_def Let_def
proof (intro sound_intros sound_bind [OF sound_parse_v1_keys(1)] sound_bind [OF sound_parse_v1_keys(2)],
    drule (1) v1_keys_wf [OF _ conjunct1], drule (1) v1_keys_wf [OF _ conjunct1],
    rule freshly_migratedI)
qed (auto simp: device_fields_wf_def record_wf_defs prekey_limits pending_wf_def x25519_public_def)

lemma decode_v1_migrated:
  assumes "length bs < 2 ^ 64" and "decode_v1 P bs day = Ok st"
  shows "freshly_migrated P day st"
proof -
  from assms(2) obtain r where "parse_v1 P day (reader_new bs) = Ok (st, r)"
    by (auto simp: decode_v1_def elim!: monad_elims)
  with parse_v1_sound reader_ok_new [OF assms(1)] show ?thesis by (blast elim: soundD)
qed


section \<open>A valid state\<close>

text \<open>In a well-formed state the signed statement of a prekey always encodes, so only the signature decides.\<close>

lemma encode_signed_prekey_total:
  assumes "length uid = 16" and "length public \<le> 1184"
  shows "encode_signed_prekey \<lparr>sp_user_id = uid, sp_prekey = \<lparr>pk_id = i, pk_public = public\<rparr>\<rparr>
      = Ok (SIGNED_PREKEY_DOMAIN @ frames [uid, u32_bytes i, public])"
    and "encode_pq_signed_prekey \<lparr>sp_user_id = uid, sp_prekey = \<lparr>pk_id = i, pk_public = public\<rparr>\<rparr>
      = Ok (PQ_SIGNED_PREKEY_DOMAIN @ frames [uid, u32_bytes i, public])"
  using assms unfolding encode_signed_prekey_def encode_pq_signed_prekey_def
  by (subst encode_prekey_total; simp add: prekey_fields_def SIGNED_PREKEY_DOMAIN_def
      PQ_SIGNED_PREKEY_DOMAIN_def MAX_INPUT_BYTES_def)+

lemma signed_prekey_bytes_fit:
  assumes "length uid = 16" and "length public \<le> 1184"
  shows "length (SIGNED_PREKEY_DOMAIN @ frames [uid, u32_bytes i, public]) \<le> MAX_INPUT_BYTES"
    and "length (PQ_SIGNED_PREKEY_DOMAIN @ frames [uid, u32_bytes i, public]) \<le> MAX_INPUT_BYTES"
  using assms by (simp_all add: SIGNED_PREKEY_DOMAIN_def PQ_SIGNED_PREKEY_DOMAIN_def MAX_INPUT_BYTES_def)

definition sample_classical :: "u32 \<Rightarrow> classical_signed_key" where
  "sample_classical i = \<lparr>cs_id = i, cs_created_day = 100, cs_public = replicate 32 5,
     cs_signature = replicate 32 3 @ replicate 32 7, cs_secret = replicate 32 5\<rparr>"

definition sample_pq :: "u32 \<Rightarrow> pq_signed_key" where
  "sample_pq i = \<lparr>ps_id = i, ps_created_day = 100, ps_public = replicate 1184 6,
     ps_signature = replicate 32 3 @ replicate 32 7,
     ps_secret = replicate 1152 0 @ replicate 1184 6 @ replicate 64 0\<rparr>"

definition sample_device :: device_state where
  "sample_device =
     \<lparr>ds_user_id = replicate 16 1, ds_registration_id = 9, ds_bundle_version = 2,
      ds_next_classical_one_time_id = 12, ds_next_pq_one_time_id = 22,
      ds_device_signing_public = replicate 32 3, ds_identity_public = replicate 32 4,
      ds_device_signing_secret = replicate 32 3, ds_identity_secret = replicate 32 4,
      ds_current_classical = sample_classical 2, ds_current_pq = sample_pq 2,
      ds_cross_signature = replicate 64 8,
      ds_retired = [\<lparr>rp_retain_through_day = 108, rp_classical = sample_classical 1, rp_pq = sample_pq 1\<rparr>],
      ds_classical_one_time =
        [\<lparr>co_id = 10, co_public = replicate 32 2, co_secret = replicate 32 2\<rparr>,
         \<lparr>co_id = 11, co_public = replicate 32 3, co_secret = replicate 32 3\<rparr>],
      ds_pq_one_time =
        [\<lparr>po_id = 21, po_public = replicate 1184 7,
          po_secret = replicate 1152 0 @ replicate 1184 7 @ replicate 64 0\<rparr>],
      ds_pending = None\<rparr>"

lemma sample_authentic:
  "ds_user_id st = replicate 16 1 \<Longrightarrow> ds_device_signing_public st = replicate 32 3 \<Longrightarrow>
     classical_authentic example_prims st (sample_classical i) \<and> pq_authentic example_prims st (sample_pq i)"
  by (simp add: classical_authentic_def pq_authentic_def pq_embedded_def sample_classical_def
      sample_pq_def encode_signed_prekey_total ed25519_verify_Ok_iff example_prims_def
      signed_prekey_bytes_fit del: length_append frames_simps)

lemma sample_fields_wf: "device_fields_wf sample_device"
  by (simp add: device_fields_wf_def record_wf_defs sample_device_def sample_classical_def sample_pq_def
      prekey_limits KEY_ID_MAX_def pending_wf_def)

lemma sample_device_valid: "device_valid example_prims sample_device"
  using sample_fields_wf sample_authentic [of sample_device]
  by (simp add: device_valid_def device_material_def high_water_ok_def is_zero_def pq_embedded_def
      sample_device_def sample_classical_def sample_pq_def KEY_ID_MAX_def example_prims_def
      list_all_iff)

lemma sample_device_fits: "projection_fits sample_device"
  by (simp add: projection_fits_def sample_device_def)

lemma sample_device_stored: "\<exists>bs. encode_device_state example_prims sample_device = Ok bs"
  by (rule encode_device_state_total [OF example_sized sample_fields_wf sample_device_fits]) blast


section \<open>Properties of the stored format\<close>

text \<open>
  C18: a valid device state whose pending projection is at most 144785 bytes can always be stored:
  the encoder succeeds within the 1 MiB input limit, whatever its key lists hold up to their limits,
  and the decoder returns exactly that state.
\<close>

theorem device_state_round_trip:
  assumes "sized_prims P" and "device_valid P st" and "projection_fits st"
  shows "\<exists>bs. encode_device_state P st = Ok bs \<and> length bs \<le> MAX_INPUT_BYTES
    \<and> decode_device_state P bs day = Ok st"
proof -
  have wf: "device_fields_wf st" using assms(2) by (simp add: device_valid_def)
  obtain bs where bs: "encode_device_state P st = Ok bs"
    by (rule encode_device_state_total [OF assms(1) wf assms(3)])
  then have "length bs \<le> MAX_INPUT_BYTES" by (auto simp: encode_device_state_Ok_iff [OF wf])
  with bs decode_encode_device_state [OF assms(1,2) bs] show ?thesis by blast
qed

theorem device_state_round_trip_witness:
  "sized_prims example_prims \<and> device_valid example_prims sample_device \<and> projection_fits sample_device
   \<and> (\<exists>bs. encode_device_state example_prims sample_device = Ok bs \<and> length bs \<le> MAX_INPUT_BYTES
         \<and> decode_device_state example_prims bs 120 = Ok sample_device)"
  using device_state_round_trip [OF example_sized sample_device_valid sample_device_fits]
    example_sized sample_device_valid sample_device_fits
  by blast

text \<open>
  The stored format is canonical. Whatever bytes the version 2 decoder accepts are the bytes
  the encoder writes for the state it returns: no second byte string loads as that state.
\<close>

theorem device_state_canonical:
  assumes "length bs \<le> MAX_INPUT_BYTES" and "decode_v2 P bs = Ok st"
  shows "encode_device_state P st = Ok bs"
  using assms by (rule device_store.store_load)

theorem device_state_canonical_witness:
  "\<exists>bs. length bs \<le> MAX_INPUT_BYTES \<and> decode_v2 example_prims bs = Ok sample_device
      \<and> encode_device_state example_prims sample_device = Ok bs"
proof -
  obtain bs where bs: "encode_device_state example_prims sample_device = Ok bs"
    using sample_device_stored by blast
  have load: "decode_v2 example_prims bs = Ok sample_device"
    using example_sized sample_device_valid bs by (rule device_store.load_store)
  have len: "length bs \<le> MAX_INPUT_BYTES"
    using bs by (auto simp: encode_device_state_Ok_iff [OF sample_fields_wf])
  show ?thesis using device_state_canonical [OF len load] len load by blast
qed

text \<open>
  C37: everything the loader returns is valid, from either format: field sizes and list limits,
  identifiers in range and below their high-water marks, strictly sorted one-time keys, public
  keys that match their secrets, and current and retired prekeys signed by the device key. A
  migrated version 1 state starts at bundle version 1 with nothing retired and nothing pending, and
  its prekeys count as seven days old. The version 2 format is canonical: the bytes that were loaded are the bytes
  the encoder writes for the state, so no second version 2 byte string loads as that state. The input
  is within the 1 MiB limit of every framed input.
\<close>

theorem decode_device_state_valid:
  assumes "length bs \<le> MAX_INPUT_BYTES" and "decode_device_state P bs day = Ok st"
  shows "device_valid P st \<and> (take 8 bs = DEVICE_V1_MAGIC \<longrightarrow> freshly_migrated P day st)
    \<and> (take 8 bs \<noteq> DEVICE_V1_MAGIC \<longrightarrow> encode_device_state P st = Ok bs)"
proof (cases "take 8 bs = DEVICE_V1_MAGIC")
  case True
  with assms have "decode_v1 P bs day = Ok st"
    by (auto simp: decode_device_state_def split: if_splits)
  then have "freshly_migrated P day st"
    using assms(1) by (intro decode_v1_migrated) (simp_all add: MAX_INPUT_BYTES_def)
  with True show ?thesis by (simp add: freshly_migrated_def)
next
  case False
  with assms have v2: "decode_v2 P bs = Ok st"
    by (auto simp: decode_device_state_def split: if_splits)
  with assms(1) have "device_valid P st" by (rule device_store.load_valid)
  with False device_store.store_load [OF assms(1) v2] show ?thesis by simp
qed

theorem decode_device_state_valid_witness:
  "\<exists>bs. length bs \<le> MAX_INPUT_BYTES \<and> decode_device_state example_prims bs 120 = Ok sample_device
      \<and> device_valid example_prims sample_device"
proof -
  obtain bs where bs: "encode_device_state example_prims sample_device = Ok bs"
    using sample_device_stored by blast
  have load: "decode_device_state example_prims bs 120 = Ok sample_device"
    using example_sized sample_device_valid bs by (rule decode_encode_device_state)
  have len: "length bs \<le> MAX_INPUT_BYTES"
    using bs by (auto simp: encode_device_state_Ok_iff [OF sample_fields_wf])
  show ?thesis using decode_device_state_valid [OF len load] len load by blast
qed

end
