(* ===== verification/One_Time_Keys.thy ===== *)
theory One_Time_Keys
  imports Prekey_Codec
begin

text \<open>
  The classical and the post-quantum one-time prekeys of a device behave alike: a list of keys
  with strictly increasing identifiers below a high-water mark, looked up and consumed by
  identifier, and extended with fresh identifiers. The locale \<open>one_time_store\<close> is that interface;
  it is interpreted for both lists of \<^const>\<open>ds_classical_one_time\<close> and \<^const>\<open>ds_pq_one_time\<close>.
\<close>

section \<open>Fresh identifiers\<close>

text \<open>\<open>fresh_ids h is h'\<close>: the identifiers \<open>is\<close> were handed out in order from mark \<open>h\<close>, leaving mark \<open>h'\<close>.\<close>

definition fresh_ids :: "u32 \<Rightarrow> u32 list \<Rightarrow> u32 \<Rightarrow> bool" where
  "fresh_ids h is h' \<longleftrightarrow> high_water_ok h' \<and> h \<le> h' \<and> sorted_wrt (<) is
     \<and> (\<forall>i \<in> set is. h \<le> i \<and> i < h' \<and> i \<le> KEY_ID_MAX)"

lemma take_next_id_Ok:
  assumes "take_next_id h = Ok (i, h')"
  shows "i = h \<and> h \<le> KEY_ID_MAX \<and> h < h' \<and> high_water_ok h'"
proof (cases "h = KEY_ID_MAX")
  case True
  with assms have "i = h" "h' = - 1" by (auto simp: take_next_id_def)
  with True show ?thesis by (simp add: KEY_ID_MAX_def high_water_ok_def)
next
  case False
  with assms have le: "h \<le> KEY_ID_MAX" and i: "i = h" and "checked_add h 1 = Some h'"
    by (auto simp: take_next_id_def rbind_Ok_iff split: if_splits)
  then have n: "unat h' = unat h + 1" by (simp add: checked_add_unat)
  have "h < KEY_ID_MAX" using le False by (simp add: order_less_le)
  then have "unat h < unat KEY_ID_MAX" by (simp add: word_less_nat_alt)
  with n le i show ?thesis by (simp add: high_water_ok_def word_less_nat_alt word_le_nat_alt)
qed

lemma take_next_id_exhausted: "take_next_id (- 1) = Err StateViolation"
  by (simp add: take_next_id_def KEY_ID_MAX_def)

lemma fresh_ids_Nil: "high_water_ok h \<Longrightarrow> fresh_ids h [] h"
  by (simp add: fresh_ids_def)

lemma fresh_ids_Cons:
  assumes "take_next_id h = Ok (i, h')" and "fresh_ids h' is h''"
  shows "fresh_ids h (i # is) h''"
proof -
  from take_next_id_Ok [OF assms(1)] have i: "i = h" "h \<le> KEY_ID_MAX" "h < h'" by auto
  from assms(2) have r: "high_water_ok h''" "h' \<le> h''" "sorted_wrt (<) is"
    and ids: "\<And>j. j \<in> set is \<Longrightarrow> h' \<le> j \<and> j < h'' \<and> j \<le> KEY_ID_MAX"
    by (auto simp: fresh_ids_def)
  have later: "h < j \<and> h \<le> j \<and> j < h'' \<and> j \<le> KEY_ID_MAX" if "j \<in> set is" for j
    using ids [OF that] i(3) by (meson order_less_imp_le order_less_le_trans)
  have "h < h''" using i(3) r(2) by (rule order_less_le_trans)
  with i r later show ?thesis by (auto simp: fresh_ids_def)
qed

text \<open>Keys sorted below a mark, followed by keys with fresh identifiers, are sorted below the new mark.\<close>

lemma sorted_extend:
  fixes f :: "'k \<Rightarrow> u32"
  assumes "sorted_wrt (\<lambda>a b. f a < f b) xs" and "\<forall>x \<in> set xs. f x < h"
    and "fresh_ids h (map f ys) h'"
  shows "sorted_wrt (\<lambda>a b. f a < f b) (xs @ ys) \<and> (\<forall>x \<in> set (xs @ ys). f x < h')"
proof -
  from assms(3) have ys: "sorted_wrt (\<lambda>a b. f a < f b) ys" "h \<le> h'"
    "\<And>y. y \<in> set ys \<Longrightarrow> h \<le> f y \<and> f y < h'"
    by (auto simp: fresh_ids_def sorted_wrt_map)
  have "f x < f y \<and> f x < h'" if "x \<in> set xs" "y \<in> set ys" for x y
    using assms(2) that ys(3) [OF that(2)] by (meson order_less_le_trans order_less_trans)
  moreover have "f x < h'" if "x \<in> set xs" for x
    using assms(2) that ys(2) by (meson order_less_le_trans)
  ultimately show ?thesis using assms(1) ys by (auto simp: sorted_wrt_append)
qed

section \<open>The interface\<close>

locale one_time_store =
  fixes key_id :: "'k \<Rightarrow> u32"
    and key_public :: "'k \<Rightarrow> bytes"
    and genuine :: "prims \<Rightarrow> 'k \<Rightarrow> bool"
    and keys :: "device_state \<Rightarrow> 'k list"
    and next_id :: "device_state \<Rightarrow> u32"
    and put :: "device_state \<Rightarrow> u32 \<Rightarrow> 'k list \<Rightarrow> device_state"
    and lookup :: "device_state \<Rightarrow> u32 \<Rightarrow> 'k option"
    and consume :: "device_state \<Rightarrow> u32 \<Rightarrow> device_state cresult"
    and generate :: "prims \<Rightarrow> device_state \<Rightarrow> (device_state \<times> u32 \<times> bytes) ent"
    and generate_all :: "prims \<Rightarrow> nat \<Rightarrow> device_state \<Rightarrow> (device_state \<times> (u32 \<times> bytes) list) ent"
  assumes keys_put [simp]: "keys (put st h ks) = ks"
    and next_put [simp]: "next_id (put st h ks) = h"
    and put_put [simp]: "put (put st h ks) h' ks' = put st h' ks'"
    and put_same: "put st (next_id st) (keys st) = st"
    and lookup_law: "lookup st i = find (\<lambda>k. key_id k = i) (keys st)"
    and consume_law: "consume st i =
          rbind (ok_or (remove_first (\<lambda>k. key_id k = i) (keys st)) StateViolation)
            (\<lambda>ks. Ok (put st (next_id st) ks))"
    and generate_law: "sized_prims P \<Longrightarrow> kem_embeds_public P \<Longrightarrow>
          generate P st tape = Ok ((st', i, public), tape') \<Longrightarrow>
          \<exists>k h. take_next_id (next_id st) = Ok (i, h) \<and> st' = put st h (keys st @ [k])
              \<and> key_id k = i \<and> key_public k = public \<and> genuine P k"
    and generate_all_0: "generate_all P 0 st = ret (st, [])"
    and generate_all_Suc: "generate_all P (Suc n) st =
          sbind (generate P st) (\<lambda>(st, i, public).
          sbind (generate_all P n st) (\<lambda>(st, generated). ret (st, (i, public) # generated)))"
begin

lemma lookup_SomeD: "lookup st i = Some k \<Longrightarrow> k \<in> set (keys st) \<and> key_id k = i"
  by (auto simp: lookup_law find_Some_iff)

lemma lookup_None_iff: "lookup st i = None \<longleftrightarrow> i \<notin> key_id ` set (keys st)"
  by (simp add: lookup_law find_None_iff_notin)

lemma lookup_iff:
  assumes "sorted_wrt (\<lambda>a b. key_id a < key_id b) (keys st)"
  shows "lookup st i = Some k \<longleftrightarrow> k \<in> set (keys st) \<and> key_id k = i"
proof
  show "k \<in> set (keys st) \<and> key_id k = i" if "lookup st i = Some k"
    using that by (rule lookup_SomeD)
  show "lookup st i = Some k" if "k \<in> set (keys st) \<and> key_id k = i"
    using that find_distinct_key [OF sorted_wrt_less_key_distinct [OF assms]] by (auto simp: lookup_law)
qed

lemma consume_cases:
  obtains (absent) "lookup st i = None" and "consume st i = Err StateViolation"
  | (present) k us vs where "lookup st i = Some k" and "keys st = us @ k # vs" and "key_id k = i"
      and "consume st i = Ok (put st (next_id st) (us @ vs))"
proof (cases "remove_first (\<lambda>k. key_id k = i) (keys st)")
  case None
  then show thesis
    by (intro absent) (simp_all add: consume_law lookup_law remove_first_find [symmetric])
next
  case (Some ks)
  from remove_first_SomeD [OF this] Some show thesis
    by (auto intro: present simp: consume_law lookup_law)
qed

lemma consume_Ok:
  assumes "consume st i = Ok st'"
  obtains k us vs where "lookup st i = Some k" and "keys st = us @ k # vs" and "key_id k = i"
    and "st' = put st (next_id st) (us @ vs)"
  using assms by (cases rule: consume_cases [of st i]) auto

text \<open>A consumed key is gone, the others are as before, and it cannot be consumed again.\<close>

lemma consume_lookup:
  assumes "sorted_wrt (\<lambda>a b. key_id a < key_id b) (keys st)" and "consume st i = Ok st'"
  shows "lookup st' j = (if j = i then None else lookup st j)"
proof -
  from assms(2) obtain k us vs where k: "keys st = us @ k # vs" "key_id k = i"
    and st': "keys st' = us @ vs"
    by (auto elim!: consume_Ok)
  from sorted_wrt_less_key_distinct [OF assms(1)] k
  have "find (\<lambda>k. key_id k = i) (us @ vs) = None"
    by (auto simp: find_None_iff_notin)
  moreover have "find (\<lambda>k. key_id k = j) (us @ vs) = find (\<lambda>k. key_id k = j) (us @ k # vs)" if "j \<noteq> i"
    using that k(2) by (induction us) auto
  ultimately show ?thesis by (simp add: lookup_law k st')
qed

lemma consume_sorted:
  "sorted_wrt R (keys st) \<Longrightarrow> consume st i = Ok st' \<Longrightarrow> sorted_wrt R (keys st')"
  by (auto simp: sorted_wrt_append elim!: consume_Ok)

lemma consume_again:
  assumes "sorted_wrt (\<lambda>a b. key_id a < key_id b) (keys st)" and "consume st i = Ok st'"
  shows "consume st' i = Err StateViolation"
  using consume_lookup [OF assms, of i] by (cases rule: consume_cases [of st' i]) auto

text \<open>A whole sequence of consumptions succeeds exactly when its identifiers are distinct and present.\<close>

lemma consume_sequence_iff:
  assumes "sorted_wrt (\<lambda>a b. key_id a < key_id b) (keys st)"
  shows "(\<exists>st'. in_sequence (map (\<lambda>i s. consume s i) is) st = Ok st')
     \<longleftrightarrow> distinct is \<and> (\<forall>i \<in> set is. lookup st i \<noteq> None)"
  using assms
proof (induction "is" arbitrary: st)
  case Nil
  show ?case by simp
next
  case (Cons i "is")
  show ?case
  proof (cases rule: consume_cases [of st i])
    case absent
    then show ?thesis by simp
  next
    case (present k us vs)
    let ?st = "put st (next_id st) (us @ vs)"
    have after: "lookup ?st j = (if j = i then None else lookup st j)" for j
      using Cons.prems present(4) by (rule consume_lookup)
    have "sorted_wrt (\<lambda>a b. key_id a < key_id b) (keys ?st)"
      using Cons.prems present(4) by (rule consume_sorted)
    then have "(\<exists>st'. in_sequence (map (\<lambda>i s. consume s i) is) ?st = Ok st')
        \<longleftrightarrow> distinct is \<and> (\<forall>j \<in> set is. lookup ?st j \<noteq> None)"
      by (rule Cons.IH)
    also have "\<dots> \<longleftrightarrow> distinct (i # is) \<and> (\<forall>j \<in> set (i # is). lookup st j \<noteq> None)"
      unfolding after using present(1) by auto
    finally show ?thesis using present(4) by simp
  qed
qed

text \<open>The generation loop appends genuine keys with fresh identifiers, and reports their public halves.\<close>

lemma generate_all_Ok:
  assumes "sized_prims P" and "kem_embeds_public P"
  shows "generate_all P n st tape = Ok ((st', generated), tape') \<Longrightarrow> high_water_ok (next_id st) \<Longrightarrow>
     \<exists>new h. st' = put st h (keys st @ new) \<and> length new = n \<and> list_all (genuine P) new
       \<and> fresh_ids (next_id st) (map key_id new) h
       \<and> generated = map (\<lambda>k. (key_id k, key_public k)) new"
proof (induction n arbitrary: st tape generated)
  case 0
  then have "st' = st" "generated = []" by (simp_all add: generate_all_0 ret_apply)
  with 0(2) show ?case
    by (intro exI [of _ "[]"] exI [of _ "next_id st"]) (simp add: put_same fresh_ids_Nil)
next
  case (Suc n)
  from Suc.prems(1) obtain st1 i public tape1 rest where
    one: "generate P st tape = Ok ((st1, i, public), tape1)"
    and all: "generate_all P n st1 tape1 = Ok ((st', rest), tape')"
    and generated: "generated = (i, public) # rest"
    by (auto simp: generate_all_Suc ret_apply elim!: monad_elims)
  from generate_law [OF assms one] obtain k h where
    k: "take_next_id (next_id st) = Ok (i, h)" "st1 = put st h (keys st @ [k])"
      "key_id k = i" "key_public k = public" "genuine P k"
    by blast
  have "high_water_ok (next_id st1)" using take_next_id_Ok [OF k(1)] k(2) by simp
  from Suc.IH [OF all this] obtain new h' where
    new: "st' = put st1 h' (keys st1 @ new)" "length new = n" "list_all (genuine P) new"
      "fresh_ids (next_id st1) (map key_id new) h'"
      "rest = map (\<lambda>k. (key_id k, key_public k)) new"
    by blast
  have "fresh_ids (next_id st) (map key_id (k # new)) h'"
    using fresh_ids_Cons [OF k(1)] new(4) k(2,3) by simp
  with new k generated show ?case
    by (intro exI [of _ "k # new"] exI [of _ h']) simp
qed

end

section \<open>The two stores of a device\<close>

definition genuine_classical :: "prims \<Rightarrow> classical_one_time_key \<Rightarrow> bool" where
  "genuine_classical P k \<longleftrightarrow> length (co_public k) = 32 \<and> length (co_secret k) = 32
     \<and> x_public_of P (co_secret k) = co_public k"

definition genuine_pq :: "prims \<Rightarrow> pq_one_time_key \<Rightarrow> bool" where
  "genuine_pq P k \<longleftrightarrow> length (po_public k) = 1184 \<and> length (po_secret k) = 2400
     \<and> pq_embedded (po_secret k) (po_public k)"

definition put_classical :: "device_state \<Rightarrow> u32 \<Rightarrow> classical_one_time_key list \<Rightarrow> device_state" where
  "put_classical st h ks = st\<lparr>ds_next_classical_one_time_id := h, ds_classical_one_time := ks\<rparr>"

definition put_pq :: "device_state \<Rightarrow> u32 \<Rightarrow> pq_one_time_key list \<Rightarrow> device_state" where
  "put_pq st h ks = st\<lparr>ds_next_pq_one_time_id := h, ds_pq_one_time := ks\<rparr>"

lemma generate_classical_Ok:
  assumes "sized_prims P" and "generate_classical P st tape = Ok ((st', i, public), tape')"
  shows "\<exists>k h. take_next_id (ds_next_classical_one_time_id st) = Ok (i, h)
     \<and> st' = put_classical st h (ds_classical_one_time st @ [k])
     \<and> co_id k = i \<and> co_public k = public \<and> genuine_classical P k"
proof -
  from assms(2) obtain h secret where
    "take_next_id (ds_next_classical_one_time_id st) = Ok (i, h)" "length secret = 32"
    "public = x_public_of P secret"
    "st' = put_classical st h (ds_classical_one_time st
       @ [\<lparr>co_id = i, co_public = public, co_secret = secret\<rparr>])"
    by (auto simp: generate_classical_def put_classical_def ret_apply x25519_public_def
        random_bytes_Ok_iff elim!: monad_elims)
  then show ?thesis
    using sized_primsD(3) [OF assms(1), of secret]
    by (intro exI [of _ "\<lparr>co_id = i, co_public = public, co_secret = secret\<rparr>"] exI [of _ h])
      (simp add: genuine_classical_def)
qed

lemma mlkem768_keypair_Ok:
  "mlkem768_keypair P tape = Ok ((public, secret), tape') \<Longrightarrow>
     \<exists>coins. kem_keypair_derand P coins = Some (public, secret) \<and> tape = coins @ tape' \<and> length coins = 64"
  by (auto simp: mlkem768_keypair_def fill_Ok_iff elim!: monad_elims)

lemma generate_pq_Ok:
  assumes "sized_prims P" and "kem_embeds_public P"
    and "generate_pq P st tape = Ok ((st', i, public), tape')"
  shows "\<exists>k h. take_next_id (ds_next_pq_one_time_id st) = Ok (i, h)
     \<and> st' = put_pq st h (ds_pq_one_time st @ [k])
     \<and> po_id k = i \<and> po_public k = public \<and> genuine_pq P k"
proof -
  from assms(3) obtain h secret coins where
    "take_next_id (ds_next_pq_one_time_id st) = Ok (i, h)"
    and kem: "kem_keypair_derand P coins = Some (public, secret)"
    and "st' = put_pq st h (ds_pq_one_time st @ [\<lparr>po_id = i, po_public = public, po_secret = secret\<rparr>])"
    by (auto simp: generate_pq_def put_pq_def ret_apply elim!: monad_elims dest!: mlkem768_keypair_Ok)
  moreover have "pq_embedded secret public"
    using assms(2) kem by (auto simp: kem_embeds_public_def pq_embedded_def)
  ultimately show ?thesis
    using sized_primsD(5,6) [OF assms(1) kem]
    by (intro exI [of _ "\<lparr>po_id = i, po_public = public, po_secret = secret\<rparr>"] exI [of _ h])
      (simp add: genuine_pq_def)
qed

interpretation classical_store:
  one_time_store co_id co_public genuine_classical ds_classical_one_time ds_next_classical_one_time_id
    put_classical find_classical_one_time consume_classical_one_time
    generate_classical generate_classical_keys
proof unfold_locales
  show "\<exists>k h. take_next_id (ds_next_classical_one_time_id st) = Ok (i, h)
     \<and> st' = put_classical st h (ds_classical_one_time st @ [k])
     \<and> co_id k = i \<and> co_public k = public \<and> genuine_classical P k"
    if "sized_prims P" "generate_classical P st tape = Ok ((st', i, public), tape')"
    for P st tape st' i public tape'
    using that by (rule generate_classical_Ok)
qed (simp_all add: put_classical_def find_classical_one_time_def consume_classical_one_time_def)

interpretation pq_store:
  one_time_store po_id po_public genuine_pq ds_pq_one_time ds_next_pq_one_time_id
    put_pq find_pq_one_time consume_pq_one_time generate_pq generate_pq_keys
proof unfold_locales
  show "\<exists>k h. take_next_id (ds_next_pq_one_time_id st) = Ok (i, h)
     \<and> st' = put_pq st h (ds_pq_one_time st @ [k])
     \<and> po_id k = i \<and> po_public k = public \<and> genuine_pq P k"
    if "sized_prims P" "kem_embeds_public P" "generate_pq P st tape = Ok ((st', i, public), tape')"
    for P st tape st' i public tape'
    using that by (rule generate_pq_Ok)
qed (simp_all add: put_pq_def find_pq_one_time_def consume_pq_one_time_def)

end
