(* ===== verification/Prekey_Operations.thy ===== *)
theory Prekey_Operations
  imports One_Time_Keys
begin

text \<open>
  The operations of \<^verbatim>\<open>prekey_state.rs\<close> on a device state: the invariant \<open>device_inv\<close>, that every
  operation keeps it, the step relation of a device and what holds in every reachable state, and
  the functional behaviour of replenishment, rotation, commit and pruning.
\<close>

section \<open>The invariant\<close>

text \<open>
  On top of \<^const>\<open>device_valid\<close>: every retired signed prekey is older than the current one, and a
  pending projection is no longer than the largest one that replenishment builds.
\<close>

definition signed_ids_ordered :: "device_state \<Rightarrow> bool" where
  "signed_ids_ordered st \<longleftrightarrow>
     (\<forall>pair \<in> set (ds_retired st). cs_id (rp_classical pair) < cs_id (ds_current_classical st)
        \<and> ps_id (rp_pq pair) < ps_id (ds_current_pq st))"

definition projection_small :: "device_state \<Rightarrow> bool" where
  "projection_small st \<longleftrightarrow>
     (\<forall>u. ds_pending st = Some u \<longrightarrow> length (pu_exact_projection u) \<le> 126033)"

definition device_inv :: "prims \<Rightarrow> device_state \<Rightarrow> bool" where
  "device_inv P st \<longleftrightarrow> device_valid P st \<and> signed_ids_ordered st \<and> projection_small st"

lemma device_invD:
  assumes "device_inv P st"
  shows "device_valid P st" and "device_fields_wf st" and "device_material P st"
    and "signed_ids_ordered st" and "projection_small st" and "projection_fits st"
  using assms by (auto simp: device_inv_def device_valid_def projection_small_def projection_fits_def
      intro: order_trans)

lemma freshly_migrated_inv: "freshly_migrated P day st \<Longrightarrow> device_inv P st"
  by (simp add: freshly_migrated_def device_inv_def signed_ids_ordered_def projection_small_def)

lemma device_inv_storable:
  assumes "sized_prims P" and "device_inv P st"
  obtains bs where "encode_device_state P st = Ok bs"
  using encode_device_state_total [OF assms(1) device_invD(2,6) [OF assms(2)]] by blast

section \<open>Changes of one part of the state\<close>

lemma device_inv_put_classical:
  assumes "device_inv P st" and "list_all (genuine_classical P) ks" and "length ks \<le> MAX_CLASSICAL_ONE_TIME"
    and "sorted_wrt (\<lambda>a b. co_id a < co_id b) ks" and "\<forall>k \<in> set ks. co_id k < h \<and> co_id k \<le> KEY_ID_MAX"
    and "high_water_ok h"
  shows "device_inv P (put_classical st h ks)"
  using assms
  by (auto simp: device_inv_def device_valid_def device_fields_wf_def device_material_def
      signed_ids_ordered_def projection_small_def put_classical_def genuine_classical_def
      classical_authentic_def pq_authentic_def classical_one_time_wf_def list_all_iff)

lemma device_inv_put_pq:
  assumes "device_inv P st" and "list_all (genuine_pq P) ks" and "length ks \<le> MAX_PQ_ONE_TIME"
    and "sorted_wrt (\<lambda>a b. po_id a < po_id b) ks" and "\<forall>k \<in> set ks. po_id k < h \<and> po_id k \<le> KEY_ID_MAX"
    and "high_water_ok h"
  shows "device_inv P (put_pq st h ks)"
  using assms
  by (auto simp: device_inv_def device_valid_def device_fields_wf_def device_material_def
      signed_ids_ordered_def projection_small_def put_pq_def genuine_pq_def
      classical_authentic_def pq_authentic_def pq_one_time_wf_def list_all_iff)

lemma device_inv_pending:
  assumes "device_inv P st" and "pending_wf v" and "\<forall>u. v = Some u \<longrightarrow> length (pu_exact_projection u) \<le> 126033"
  shows "device_inv P (st\<lparr>ds_pending := v\<rparr>)"
  using assms
  by (auto simp: device_inv_def device_valid_def device_fields_wf_def device_material_def
      signed_ids_ordered_def projection_small_def classical_authentic_def pq_authentic_def)

lemma device_inv_stores:
  assumes "device_inv P st"
  shows "sorted_wrt (\<lambda>a b. co_id a < co_id b) (ds_classical_one_time st)"
    and "sorted_wrt (\<lambda>a b. po_id a < po_id b) (ds_pq_one_time st)"
    and "\<forall>k \<in> set (ds_classical_one_time st). co_id k < ds_next_classical_one_time_id st \<and> co_id k \<le> KEY_ID_MAX"
    and "\<forall>k \<in> set (ds_pq_one_time st). po_id k < ds_next_pq_one_time_id st \<and> po_id k \<le> KEY_ID_MAX"
    and "list_all (genuine_classical P) (ds_classical_one_time st)"
    and "list_all (genuine_pq P) (ds_pq_one_time st)"
    and "high_water_ok (ds_next_classical_one_time_id st)" and "high_water_ok (ds_next_pq_one_time_id st)"
    and "length (ds_classical_one_time st) \<le> MAX_CLASSICAL_ONE_TIME"
    and "length (ds_pq_one_time st) \<le> MAX_PQ_ONE_TIME"
  using assms
  by (auto simp: device_inv_def device_valid_def device_fields_wf_def device_material_def
      genuine_classical_def genuine_pq_def record_wf_defs list_all_iff)

section \<open>Consumption, pruning, commit\<close>

lemma consume_classical_inv:
  assumes "device_inv P st" and "consume_classical_one_time st i = Ok st'"
  shows "device_inv P st'"
proof -
  from assms(2) obtain k us vs where ks: "ds_classical_one_time st = us @ k # vs"
    and st': "st' = put_classical st (ds_next_classical_one_time_id st) (us @ vs)"
    by (rule classical_store.consume_Ok)
  show ?thesis
    unfolding st' using device_inv_stores [OF assms(1)]
    by (intro device_inv_put_classical [OF assms(1)]) (auto simp: ks sorted_wrt_append)
qed

lemma consume_pq_inv:
  assumes "device_inv P st" and "consume_pq_one_time st i = Ok st'"
  shows "device_inv P st'"
proof -
  from assms(2) obtain k us vs where ks: "ds_pq_one_time st = us @ k # vs"
    and st': "st' = put_pq st (ds_next_pq_one_time_id st) (us @ vs)"
    by (rule pq_store.consume_Ok)
  show ?thesis
    unfolding st' using device_inv_stores [OF assms(1)]
    by (intro device_inv_put_pq [OF assms(1)]) (auto simp: ks sorted_wrt_append)
qed

lemma prune_retired_inv:
  assumes "device_inv P st"
  shows "device_inv P (prune_retired st day)"
  using assms
  by (auto simp: device_inv_def device_valid_def device_fields_wf_def device_material_def
      signed_ids_ordered_def projection_small_def prune_retired_def classical_authentic_def
      pq_authentic_def list_all_iff sorted_wrt_filter intro: order_trans [OF length_filter_le])

lemma commit_pending_upload_Ok_iff:
  "commit_pending_upload st b = Ok st' \<longleftrightarrow>
     (\<exists>u. ds_pending st = Some u \<and> pu_batch_id u = b \<and> st' = st\<lparr>ds_pending := None\<rparr>)"
  by (auto simp: commit_pending_upload_def rbind_Ok_iff)

lemma commit_pending_upload_inv:
  assumes "device_inv P st" and "commit_pending_upload st b = Ok st'"
  shows "device_inv P st'"
  using device_inv_pending [OF assms(1), of None] assms(2)
  by (auto simp: commit_pending_upload_Ok_iff pending_wf_def)

section \<open>Replenishment\<close>

text \<open>The projection of a batch: the public halves of the new keys, in order.\<close>

definition replenish_projection ::
    "bytes \<Rightarrow> u32 \<Rightarrow> classical_one_time_key list \<Rightarrow> pq_one_time_key list \<Rightarrow> bytes" where
  "replenish_projection batch version ks qs =
     UPLOAD_MAGIC @ batch @ [UPLOAD_REPLENISH] @ u32_bytes version
     @ u16_bytes (word_of_nat (length ks)) @ concat (map (\<lambda>k. u32_bytes (co_id k) @ co_public k) ks)
     @ u16_bytes (word_of_nat (length qs)) @ concat (map (\<lambda>k. u32_bytes (po_id k) @ po_public k) qs)"

lemma length_replenish_projection:
  assumes "length batch = 16" and "list_all (genuine_classical P) ks" and "list_all (genuine_pq P) qs"
  shows "length (replenish_projection batch v ks qs) = 33 + 36 * length ks + 1188 * length qs"
proof -
  have "length (concat (map (\<lambda>k. u32_bytes (co_id k) @ co_public k) ks)) = 36 * length ks"
    using assms(2) by (induction ks) (auto simp: genuine_classical_def)
  moreover have "length (concat (map (\<lambda>k. u32_bytes (po_id k) @ po_public k) qs)) = 1188 * length qs"
    using assms(3) by (induction qs) (auto simp: genuine_pq_def)
  ultimately show ?thesis using assms(1) by (simp add: replenish_projection_def)
qed

text \<open>\<open>replenished\<close>: the state after \<open>ks\<close> and \<open>qs\<close> were appended, with their batch pending.\<close>

definition replenished ::
    "device_state \<Rightarrow> u32 \<Rightarrow> classical_one_time_key list \<Rightarrow> u32 \<Rightarrow> pq_one_time_key list \<Rightarrow> bytes \<Rightarrow> device_state" where
  "replenished st h ks h' qs batch =
     (put_pq (put_classical st h (ds_classical_one_time st @ ks)) h' (ds_pq_one_time st @ qs))
       \<lparr>ds_pending := Some \<lparr>pu_batch_id = batch, pu_kind = UPLOAD_REPLENISH,
          pu_exact_projection = replenish_projection batch (ds_bundle_version st) ks qs\<rparr>\<rparr>"

lemma prepare_replenishment_Ok:
  assumes P: "sized_prims P" "kem_embeds_public P" and inv: "device_inv P st"
    and none: "ds_pending st = None"
    and run: "prepare_replenishment P st sc sp tc tp tape = Ok ((st', batch, projection), tape')"
  obtains h ks h' qs where
    "st' = replenished st h ks h' qs batch"
    and "projection = replenish_projection batch (ds_bundle_version st) ks qs"
    and "length batch = 16"
    and "length ks = unat tc - unat sc" and "length qs = unat tp - unat sp"
    and "unat tc \<le> 200" and "unat tp \<le> 100"
    and "length (ds_classical_one_time st) + length ks \<le> MAX_CLASSICAL_ONE_TIME"
    and "length (ds_pq_one_time st) + length qs \<le> MAX_PQ_ONE_TIME"
    and "list_all (genuine_classical P) ks" and "list_all (genuine_pq P) qs"
    and "fresh_ids (ds_next_classical_one_time_id st) (map co_id ks) h"
    and "fresh_ids (ds_next_pq_one_time_id st) (map po_id qs) h'"
proof -
  note stores = device_inv_stores [OF inv]
  from run none obtain tape1 st1 gen1 tape2 st2 gen2 where
    limits: "unat tc \<le> 200" "unat tp \<le> 100"
    and room: "length (ds_classical_one_time st) + unat (saturating_sub tc sc) \<le> MAX_CLASSICAL_ONE_TIME"
      "length (ds_pq_one_time st) + unat (saturating_sub tp sp) \<le> MAX_PQ_ONE_TIME"
    and batch: "length batch = 16"
    and gen_c: "generate_classical_keys P (unat (saturating_sub tc sc)) st tape1 = Ok ((st1, gen1), tape2)"
    and gen_pq: "generate_pq_keys P (unat (saturating_sub tp sp)) st1 tape2 = Ok ((st2, gen2), tape')"
    and lens: "length gen1 < 65536" "length gen2 < 65536"
    and st': "st' = st2\<lparr>ds_classical_one_time := sort_key co_id (ds_classical_one_time st2),
        ds_pq_one_time := sort_key po_id (ds_pq_one_time st2),
        ds_pending := Some \<lparr>pu_batch_id = batch, pu_kind = UPLOAD_REPLENISH, pu_exact_projection = projection\<rparr>\<rparr>"
    and projection: "projection = UPLOAD_MAGIC @ batch @ [UPLOAD_REPLENISH] @ u32_bytes (ds_bundle_version st2)
        @ u16_bytes (word_of_nat (length gen1)) @ concat (map public_entry gen1)
        @ u16_bytes (word_of_nat (length gen2)) @ concat (map public_entry gen2)"
    by (auto simp: prepare_replenishment_def Let_def ret_apply random_bytes_Ok_iff try_from_usize_def
        word_le_nat_alt MAX_BACKEND_CLASSICAL_ONE_TIME_def MAX_BACKEND_PQ_ONE_TIME_def not_less
        elim!: monad_elims split: prod.splits if_splits)
  from classical_store.generate_all_Ok [OF P gen_c stores(7)] obtain ks h where
    ks: "st1 = put_classical st h (ds_classical_one_time st @ ks)"
      "length ks = unat (saturating_sub tc sc)" "list_all (genuine_classical P) ks"
      "fresh_ids (ds_next_classical_one_time_id st) (map co_id ks) h"
      "gen1 = map (\<lambda>k. (co_id k, co_public k)) ks"
    by blast
  have "ds_next_pq_one_time_id st1 = ds_next_pq_one_time_id st" "ds_pq_one_time st1 = ds_pq_one_time st"
    by (simp_all add: ks(1) put_classical_def)
  with pq_store.generate_all_Ok [OF P gen_pq] stores(8) obtain qs h' where
    qs: "st2 = put_pq st1 h' (ds_pq_one_time st @ qs)"
      "length qs = unat (saturating_sub tp sp)" "list_all (genuine_pq P) qs"
      "fresh_ids (ds_next_pq_one_time_id st) (map po_id qs) h'"
      "gen2 = map (\<lambda>k. (po_id k, po_public k)) qs"
    by auto
  have sorted: "sort_key co_id (ds_classical_one_time st @ ks) = ds_classical_one_time st @ ks"
    "sort_key po_id (ds_pq_one_time st @ qs) = ds_pq_one_time st @ qs"
    using sorted_extend [OF stores(1) _ ks(4)] sorted_extend [OF stores(2) _ qs(4)] stores(3,4)
    by (auto intro!: sort_key_of_sorted)
  have proj: "projection = replenish_projection batch (ds_bundle_version st) ks qs"
    unfolding projection replenish_projection_def ks(5) qs(5)
    by (simp add: qs(1) ks(1) put_pq_def put_classical_def comp_def public_entry_def)
  moreover have "st' = replenished st h ks h' qs batch"
    unfolding st' qs(1) ks(1) replenished_def proj [symmetric] put_pq_def put_classical_def
    using sorted by simp
  ultimately show thesis
    using that ks qs batch limits room by (auto simp: unat_saturating_sub)
qed

lemma prepare_replenishment_inv:
  assumes P: "sized_prims P" "kem_embeds_public P" and inv: "device_inv P st"
    and run: "prepare_replenishment P st sc sp tc tp tape = Ok ((st', batch, projection), tape')"
  shows "device_inv P st'"
proof (cases "ds_pending st")
  case (Some u)
  with run inv show ?thesis by (auto simp: prepare_replenishment_def ret_apply)
next
  case None
  from prepare_replenishment_Ok [OF P inv None run] obtain h ks h' qs where
    st': "st' = replenished st h ks h' qs batch"
    and batch: "length batch = 16"
    and len: "length ks = unat tc - unat sc" "length qs = unat tp - unat sp"
      "unat tc \<le> 200" "unat tp \<le> 100"
      "length (ds_classical_one_time st) + length ks \<le> MAX_CLASSICAL_ONE_TIME"
      "length (ds_pq_one_time st) + length qs \<le> MAX_PQ_ONE_TIME"
    and gen: "list_all (genuine_classical P) ks" "list_all (genuine_pq P) qs"
    and fresh: "fresh_ids (ds_next_classical_one_time_id st) (map co_id ks) h"
      "fresh_ids (ds_next_pq_one_time_id st) (map po_id qs) h'"
    by metis
  note stores = device_inv_stores [OF inv]
  have c: "sorted_wrt (\<lambda>a b. co_id a < co_id b) (ds_classical_one_time st @ ks)"
    "\<forall>k \<in> set (ds_classical_one_time st @ ks). co_id k < h"
    using sorted_extend [OF stores(1) _ fresh(1)] stores(3) by auto
  have p: "sorted_wrt (\<lambda>a b. po_id a < po_id b) (ds_pq_one_time st @ qs)"
    "\<forall>k \<in> set (ds_pq_one_time st @ qs). po_id k < h'"
    using sorted_extend [OF stores(2) _ fresh(2)] stores(4) by auto
  have "device_inv P (put_classical st h (ds_classical_one_time st @ ks))"
    using inv c stores gen len fresh
    by (intro device_inv_put_classical) (auto simp: fresh_ids_def)
  then have "device_inv P (put_pq (put_classical st h (ds_classical_one_time st @ ks)) h' (ds_pq_one_time st @ qs))"
    using p stores gen len fresh by (intro device_inv_put_pq) (auto simp: fresh_ids_def)
  moreover have "length (replenish_projection batch (ds_bundle_version st) ks qs) \<le> 126033"
    using len unfolding length_replenish_projection [OF batch gen] by linarith
  ultimately show ?thesis
    unfolding st' replenished_def using batch
    by (intro device_inv_pending) (auto simp: pending_wf_def upload_wf_def MAX_INPUT_BYTES_def)
qed

section \<open>Rotation\<close>

lemma next_signed_id_Ok:
  assumes "next_signed_id i = Ok n"
  shows "n \<le> KEY_ID_MAX \<and> i < n \<and> unat n = unat i + 1"
proof -
  from assms have "checked_add i 1 = Some n" "n \<le> KEY_ID_MAX"
    by (auto simp: next_signed_id_def split: option.splits if_splits)
  then show ?thesis by (simp add: checked_add_unat word_less_nat_alt)
qed

text \<open>\<open>rotated\<close>: the state after \<open>k\<close> and \<open>q\<close> replaced the signed prekeys, with the upload pending.\<close>

definition rotated ::
    "device_state \<Rightarrow> u32 \<Rightarrow> classical_signed_key \<Rightarrow> pq_signed_key \<Rightarrow> u32 \<Rightarrow> bytes \<Rightarrow> pending_upload \<Rightarrow> device_state" where
  "rotated st day k q version cross u =
     st\<lparr>ds_current_classical := k, ds_current_pq := q,
        ds_retired := ds_retired (prune_retired st day)
          @ [\<lparr>rp_retain_through_day = saturating_add day 8,
              rp_classical = ds_current_classical st, rp_pq = ds_current_pq st\<rparr>],
        ds_bundle_version := version, ds_cross_signature := cross, ds_pending := Some u\<rparr>"

definition rotation_projection ::
    "bytes \<Rightarrow> u32 \<Rightarrow> classical_signed_key \<Rightarrow> pq_signed_key \<Rightarrow> bytes \<Rightarrow> bytes" where
  "rotation_projection batch version k q cross =
     UPLOAD_MAGIC @ batch @ [UPLOAD_ROTATION] @ u32_bytes version
     @ u32_bytes (cs_id k) @ cs_public k @ cs_signature k
     @ u32_bytes (ps_id q) @ ps_public q @ ps_signature q @ cross"

text \<open>What a new signed pair is: generated, signed by the device key, dated, with the next identifiers.\<close>

definition fresh_pair :: "prims \<Rightarrow> device_state \<Rightarrow> u32 \<Rightarrow> classical_signed_key \<Rightarrow> pq_signed_key \<Rightarrow> bool" where
  "fresh_pair P st day k q \<longleftrightarrow>
     next_signed_id (cs_id (ds_current_classical st)) = Ok (cs_id k)
     \<and> next_signed_id (ps_id (ds_current_pq st)) = Ok (ps_id q)
     \<and> cs_created_day k = day \<and> ps_created_day q = day
     \<and> length (cs_secret k) = 32 \<and> cs_public k = x_public_of P (cs_secret k)
     \<and> (\<exists>coins. kem_keypair_derand P coins = Some (ps_public q, ps_secret q))
     \<and> (\<exists>bs. encode_signed_prekey \<lparr>sp_user_id = ds_user_id st,
           sp_prekey = \<lparr>pk_id = cs_id k, pk_public = cs_public k\<rparr>\<rparr> = Ok bs
         \<and> ed25519_sign P (ds_device_signing_secret st) bs = Ok (cs_signature k))
     \<and> (\<exists>bs. encode_pq_signed_prekey \<lparr>sp_user_id = ds_user_id st,
           sp_prekey = \<lparr>pk_id = ps_id q, pk_public = ps_public q\<rparr>\<rparr> = Ok bs
         \<and> ed25519_sign P (ds_device_signing_secret st) bs = Ok (ps_signature q))"

text \<open>The cross signature made by the account's self-signing key over the new bundle.\<close>

definition cross_signed ::
    "prims \<Rightarrow> device_state \<Rightarrow> bytes \<Rightarrow> bytes \<Rightarrow> classical_signed_key \<Rightarrow> pq_signed_key \<Rightarrow> u32 \<Rightarrow> bytes \<Rightarrow> bool" where
  "cross_signed P st package device_id k q version cross \<longleftrightarrow>
     (\<exists>secret bs. parse_self_signing_secret P package (ds_user_id st) = Ok secret
        \<and> encode_cross_signature
            \<lparr>db_user_id = ds_user_id st, db_device_id = device_id, db_ik_public = state_ik_public st,
             db_spk_id = cs_id k, db_spk_public = cs_public k,
             db_pq_signed_prekey = Some \<lparr>pk_id = ps_id q, pk_public = ps_public q\<rparr>,
             db_registration_id = ds_registration_id st, db_bundle_version = version\<rparr> = Ok bs
        \<and> ed25519_sign P secret bs = Ok cross)"

lemma prepare_rotation_Ok:
  assumes none: "ds_pending st = None"
    and run: "prepare_rotation P st package device_id day tape = Ok ((st', batch, projection), tape')"
  obtains k q version cross where
    "st' = rotated st day k q version cross
       \<lparr>pu_batch_id = batch, pu_kind = UPLOAD_ROTATION, pu_exact_projection = projection\<rparr>"
    and "projection = rotation_projection batch version k q cross"
    and "length batch = 16"
    and "saturating_add (cs_created_day (ds_current_classical st)) 7 \<le> day"
    and "saturating_add (ps_created_day (ds_current_pq st)) 7 \<le> day"
    and "length (ds_retired (prune_retired st day)) < MAX_RETIRED_SIGNED_PAIRS"
    and "checked_add (ds_bundle_version st) 1 = Some version"
    and "fresh_pair P st day k q"
    and "cross_signed P st package device_id k q version cross"
proof -
  have same: "ds_user_id (prune_retired st day) = ds_user_id st"
    "ds_current_classical (prune_retired st day) = ds_current_classical st"
    "ds_current_pq (prune_retired st day) = ds_current_pq st"
    "ds_bundle_version (prune_retired st day) = ds_bundle_version st"
    "ds_registration_id (prune_retired st day) = ds_registration_id st"
    "ds_device_signing_secret (prune_retired st day) = ds_device_signing_secret st"
    "state_ik_public (prune_retired st day) = state_ik_public st"
    by (simp_all add: prune_retired_def state_ik_public_def)
  from run none obtain secret spk_id pq_id version spk_secret spk_bytes spk_sig
      pq_public pq_secret coins pq_bytes pq_sig cross_bytes cross where
    days: "saturating_add (cs_created_day (ds_current_classical st)) 7 \<le> day"
      "saturating_add (ps_created_day (ds_current_pq st)) 7 \<le> day"
    and room: "length (ds_retired (prune_retired st day)) < MAX_RETIRED_SIGNED_PAIRS"
    and secret: "parse_self_signing_secret P package (ds_user_id st) = Ok secret"
    and ids: "next_signed_id (cs_id (ds_current_classical st)) = Ok spk_id"
      "next_signed_id (ps_id (ds_current_pq st)) = Ok pq_id"
      "checked_add (ds_bundle_version st) 1 = Some version"
    and spk: "length spk_secret = 32"
      "encode_signed_prekey \<lparr>sp_user_id = ds_user_id st,
         sp_prekey = \<lparr>pk_id = spk_id, pk_public = x_public_of P spk_secret\<rparr>\<rparr> = Ok spk_bytes"
      "ed25519_sign P (ds_device_signing_secret st) spk_bytes = Ok spk_sig"
    and pq: "kem_keypair_derand P coins = Some (pq_public, pq_secret)"
      "encode_pq_signed_prekey \<lparr>sp_user_id = ds_user_id st,
         sp_prekey = \<lparr>pk_id = pq_id, pk_public = pq_public\<rparr>\<rparr> = Ok pq_bytes"
      "ed25519_sign P (ds_device_signing_secret st) pq_bytes = Ok pq_sig"
    and cross: "encode_cross_signature
         \<lparr>db_user_id = ds_user_id st, db_device_id = device_id, db_ik_public = state_ik_public st,
          db_spk_id = spk_id, db_spk_public = x_public_of P spk_secret,
          db_pq_signed_prekey = Some \<lparr>pk_id = pq_id, pk_public = pq_public\<rparr>,
          db_registration_id = ds_registration_id st, db_bundle_version = version\<rparr> = Ok cross_bytes"
      "ed25519_sign P secret cross_bytes = Ok cross"
    and batch: "length batch = 16"
    and projection: "projection = rotation_projection batch version
        \<lparr>cs_id = spk_id, cs_created_day = day, cs_public = x_public_of P spk_secret,
         cs_signature = spk_sig, cs_secret = spk_secret\<rparr>
        \<lparr>ps_id = pq_id, ps_created_day = day, ps_public = pq_public, ps_signature = pq_sig,
         ps_secret = pq_secret\<rparr> cross"
    and st': "st' = rotated st day
        \<lparr>cs_id = spk_id, cs_created_day = day, cs_public = x_public_of P spk_secret,
         cs_signature = spk_sig, cs_secret = spk_secret\<rparr>
        \<lparr>ps_id = pq_id, ps_created_day = day, ps_public = pq_public, ps_signature = pq_sig,
         ps_secret = pq_secret\<rparr> version cross
        \<lparr>pu_batch_id = batch, pu_kind = UPLOAD_ROTATION, pu_exact_projection = projection\<rparr>"
    by (auto simp: prepare_rotation_def Let_def ret_apply random_bytes_Ok_iff x25519_public_def
        not_less not_le same rotation_projection_def elim!: monad_elims dest!: mlkem768_keypair_Ok)
      (auto simp: rotated_def prune_retired_def)
  show thesis
    by (rule that [OF st' projection batch days room ids(3)])
      (use ids spk pq secret cross in \<open>auto simp: fresh_pair_def cross_signed_def\<close>)
qed

text \<open>A fresh pair is well formed and authentic for its device.\<close>

lemma fresh_pair_genuine:
  assumes P: "sized_prims P" "kem_embeds_public P" "signatures_verify P"
    and valid: "device_valid P st" and pair: "fresh_pair P st day k q"
  shows "classical_signed_wf k \<and> pq_signed_wf q \<and> classical_authentic P st k \<and> pq_authentic P st q"
proof -
  from pair obtain coins where kem: "kem_keypair_derand P coins = Some (ps_public q, ps_secret q)"
    by (auto simp: fresh_pair_def)
  have key: "ed_public_of P (ds_device_signing_secret st) = ds_device_signing_public st"
    using valid by (simp add: device_valid_def)
  have sig: "ed25519_verify P (ds_device_signing_public st) bs s = Ok () \<and> length s = 64"
    if "ed25519_sign P (ds_device_signing_secret st) bs = Ok s" for bs s
    using that P(3) sized_primsD(2) [OF P(1)]
    unfolding ed25519_sign_Ok_iff ed25519_verify_Ok_iff signatures_verify_def key [symmetric] by simp
  have "pq_embedded (ps_secret q) (ps_public q)"
    using P(2) kem by (auto simp: kem_embeds_public_def pq_embedded_def)
  then show ?thesis
    using pair next_signed_id_Ok sized_primsD(5,6) [OF P(1) kem] sized_primsD(3) [OF P(1)]
    unfolding fresh_pair_def classical_authentic_def pq_authentic_def record_wf_defs
    by (metis sig)
qed

lemma cross_signed_length:
  "sized_prims P \<Longrightarrow> cross_signed P st package device_id k q version cross \<Longrightarrow> length cross = 64"
  by (auto simp: cross_signed_def ed25519_sign_Ok_iff sized_primsD(2))

lemma rotated_inv:
  assumes inv: "device_inv P st"
    and new: "classical_signed_wf k" "pq_signed_wf q" "classical_authentic P st k" "pq_authentic P st q"
    and later: "cs_id (ds_current_classical st) < cs_id k" "ps_id (ds_current_pq st) < ps_id q"
    and room: "length (ds_retired (prune_retired st day)) < MAX_RETIRED_SIGNED_PAIRS"
    and "version \<noteq> 0" and "length cross = 64"
    and u: "upload_wf u" "length (pu_exact_projection u) \<le> 126033"
  shows "device_inv P (rotated st day k q version cross u)"
proof -
  let ?keep = "filter (\<lambda>pair. day \<le> rp_retain_through_day pair) (ds_retired st)"
  have ret: "sorted_wrt retired_before ?keep" "list_all retired_pair_wf ?keep"
    and current: "classical_signed_wf (ds_current_classical st)" "pq_signed_wf (ds_current_pq st)"
    using device_invD(2,3) [OF inv]
    by (auto simp: device_material_def device_fields_wf_def list_all_iff intro: sorted_wrt_filter)
  have older: "cs_id (rp_classical pair) < cs_id (ds_current_classical st)
      \<and> ps_id (rp_pq pair) < ps_id (ds_current_pq st)" if "pair \<in> set ?keep" for pair
    using that device_invD(4) [OF inv] by (auto simp: signed_ids_ordered_def)
  have "device_fields_wf (rotated st day k q version cross u)"
    using device_invD(2) [OF inv] ret current new room assms(9,10) u
    by (auto simp: rotated_def device_fields_wf_def prune_retired_def retired_pair_wf_def pending_wf_def)
  moreover have "device_material P (rotated st day k q version cross u)"
    using device_invD(3) [OF inv] ret older new
    by (auto simp: rotated_def device_material_def prune_retired_def sorted_wrt_append retired_before_def
        classical_authentic_def pq_authentic_def)
  moreover have "signed_ids_ordered (rotated st day k q version cross u)"
    using older later
    by (auto simp: rotated_def signed_ids_ordered_def prune_retired_def intro: order_less_trans)
  ultimately show ?thesis
    using device_invD(1) [OF inv] assms(9) u
    by (auto simp: device_inv_def device_valid_def rotated_def projection_small_def)
qed

lemma length_rotation_projection:
  "length batch = 16 \<Longrightarrow> classical_signed_wf k \<Longrightarrow> pq_signed_wf q \<Longrightarrow> length cross = 64 \<Longrightarrow>
     length (rotation_projection batch version k q cross) = 1445"
  by (simp add: rotation_projection_def record_wf_defs)

lemma prepare_rotation_inv:
  assumes P: "sized_prims P" "kem_embeds_public P" "signatures_verify P" and inv: "device_inv P st"
    and run: "prepare_rotation P st package device_id day tape = Ok ((st', batch, projection), tape')"
  shows "device_inv P st'"
proof (cases "ds_pending st")
  case (Some u)
  with run inv show ?thesis by (auto simp: prepare_rotation_def ret_apply split: if_splits)
next
  case None
  from prepare_rotation_Ok [OF None run] obtain k q version cross where
    st': "st' = rotated st day k q version cross
       \<lparr>pu_batch_id = batch, pu_kind = UPLOAD_ROTATION, pu_exact_projection = projection\<rparr>"
    and proj: "projection = rotation_projection batch version k q cross" "length batch = 16"
    and room: "length (ds_retired (prune_retired st day)) < MAX_RETIRED_SIGNED_PAIRS"
    and version: "checked_add (ds_bundle_version st) 1 = Some version"
    and pair: "fresh_pair P st day k q"
    and cross: "cross_signed P st package device_id k q version cross"
    by metis
  note new = fresh_pair_genuine [OF P device_invD(1) [OF inv] pair]
  note len = cross_signed_length [OF P(1) cross]
  have "version \<noteq> 0" using checked_add_unat [OF version] by auto
  moreover have "cs_id (ds_current_classical st) < cs_id k" "ps_id (ds_current_pq st) < ps_id q"
    using pair next_signed_id_Ok by (auto simp: fresh_pair_def)
  ultimately show ?thesis
    unfolding st' using new len room proj length_rotation_projection [of batch k q cross version]
    by (intro rotated_inv [OF inv]) (auto simp: upload_wf_def MAX_INPUT_BYTES_def)
qed

section \<open>The life of a device state\<close>

text \<open>
  One step is one operation that succeeds, with any arguments and any entropy, or a restart:
  the state is stored and loaded again.
\<close>

inductive device_step :: "prims \<Rightarrow> device_state \<Rightarrow> device_state \<Rightarrow> bool" for P where
  Consume_Classical: "consume_classical_one_time st i = Ok st' \<Longrightarrow> device_step P st st'"
| Consume_Pq: "consume_pq_one_time st i = Ok st' \<Longrightarrow> device_step P st st'"
| Prune: "device_step P st (prune_retired st day)"
| Replenish: "prepare_replenishment P st sc sp tc tp tape = Ok ((st', batch, projection), tape') \<Longrightarrow>
    device_step P st st'"
| Rotate: "prepare_rotation P st package device_id day tape = Ok ((st', batch, projection), tape') \<Longrightarrow>
    device_step P st st'"
| Commit: "commit_pending_upload st batch = Ok st' \<Longrightarrow> device_step P st st'"
| Restart: "encode_device_state P st = Ok bs \<Longrightarrow> decode_device_state P bs day = Ok st' \<Longrightarrow>
    device_step P st st'"

inductive device_reachable :: "prims \<Rightarrow> device_state \<Rightarrow> bool" for P where
  Migrated: "length bs \<le> MAX_INPUT_BYTES \<Longrightarrow> decode_v1 P bs day = Ok st \<Longrightarrow> device_reachable P st"
| Step: "device_reachable P st \<Longrightarrow> device_step P st st' \<Longrightarrow> device_reachable P st'"

inductive_cases device_stepE: "device_step P st st'"

lemma device_step_inv:
  assumes P: "sized_prims P" "kem_embeds_public P" "signatures_verify P"
    and inv: "device_inv P st" and step: "device_step P st st'"
  shows "device_inv P st'"
  using step
proof cases
  case (Restart bs day)
  with decode_encode_device_state [OF P(1) device_invD(1) [OF inv]] inv show ?thesis by simp
qed (use inv P in \<open>auto intro: consume_classical_inv consume_pq_inv prune_retired_inv
  prepare_replenishment_inv prepare_rotation_inv commit_pending_upload_inv\<close>)

lemma device_reachable_inv:
  assumes P: "sized_prims P" "kem_embeds_public P" "signatures_verify P" and "device_reachable P st"
  shows "device_inv P st"
  using assms(4)
proof (induction rule: device_reachable.induct)
  case (Migrated bs day st)
  then have "freshly_migrated P day st"
    by (intro decode_v1_migrated [of bs P day]) (auto simp: MAX_INPUT_BYTES_def)
  then show ?case by (rule freshly_migrated_inv)
next
  case (Step st st')
  then show ?case using P by (blast intro: device_step_inv)
qed

text \<open>How the one-time keys evolve: what is there was there before or has a new identifier.\<close>

definition ids_evolve :: "device_state \<Rightarrow> device_state \<Rightarrow> bool" where
  "ids_evolve st st' \<longleftrightarrow>
     ds_next_classical_one_time_id st \<le> ds_next_classical_one_time_id st'
     \<and> ds_next_pq_one_time_id st \<le> ds_next_pq_one_time_id st'
     \<and> (\<forall>k \<in> set (ds_classical_one_time st').
          k \<in> set (ds_classical_one_time st) \<or> ds_next_classical_one_time_id st \<le> co_id k)
     \<and> (\<forall>k \<in> set (ds_pq_one_time st').
          k \<in> set (ds_pq_one_time st) \<or> ds_next_pq_one_time_id st \<le> po_id k)"

lemma ids_evolve_refl: "ids_evolve st st"
  by (simp add: ids_evolve_def)

lemma ids_evolve_trans: "ids_evolve s t \<Longrightarrow> ids_evolve t u \<Longrightarrow> ids_evolve s u"
  unfolding ids_evolve_def by (meson order_trans)

lemma device_step_ids_evolve:
  assumes P: "sized_prims P" "kem_embeds_public P" and inv: "device_inv P st"
    and step: "device_step P st st'"
  shows "ids_evolve st st'"
  using step
proof cases
  case (Consume_Classical i)
  then show ?thesis by (auto simp: ids_evolve_def put_classical_def elim!: classical_store.consume_Ok)
next
  case (Consume_Pq i)
  then show ?thesis by (auto simp: ids_evolve_def put_pq_def elim!: pq_store.consume_Ok)
next
  case (Prune day)
  then show ?thesis by (simp add: ids_evolve_def prune_retired_def)
next
  case (Replenish sc sp tc tp tape batch projection tape')
  show ?thesis
  proof (cases "ds_pending st")
    case None
    from prepare_replenishment_Ok [OF P inv None Replenish] obtain h ks h' qs where
      "st' = replenished st h ks h' qs batch"
      "fresh_ids (ds_next_classical_one_time_id st) (map co_id ks) h"
      "fresh_ids (ds_next_pq_one_time_id st) (map po_id qs) h'" by metis
    then show ?thesis
      by (auto simp: ids_evolve_def replenished_def put_classical_def put_pq_def fresh_ids_def)
  qed (use Replenish in \<open>auto simp: prepare_replenishment_def ret_apply ids_evolve_refl\<close>)
next
  case (Rotate package device_id day tape batch projection tape')
  show ?thesis
  proof (cases "ds_pending st")
    case None
    from prepare_rotation_Ok [OF None Rotate] obtain k q version cross u where
      "st' = rotated st day k q version cross u" by metis
    then show ?thesis by (simp add: ids_evolve_def rotated_def)
  qed (use Rotate in \<open>auto simp: prepare_rotation_def ret_apply ids_evolve_refl split: if_splits\<close>)
next
  case (Commit batch)
  then show ?thesis by (auto simp: ids_evolve_def commit_pending_upload_Ok_iff)
next
  case (Restart bs day)
  with decode_encode_device_state [OF P(1) device_invD(1) [OF inv]] show ?thesis
    by (simp add: ids_evolve_refl)
qed

lemma device_steps_evolve:
  assumes P: "sized_prims P" "kem_embeds_public P" "signatures_verify P"
    and inv: "device_inv P st" and steps: "(device_step P)\<^sup>*\<^sup>* st st'"
  shows "device_inv P st' \<and> ids_evolve st st'"
  using steps
proof (induction rule: rtranclp_induct)
  case base
  show ?case by (simp add: inv ids_evolve_refl)
next
  case (step t u)
  then have t: "device_inv P t" and e: "ids_evolve st t" by simp_all
  have "device_inv P u" using P t step(2) by (rule device_step_inv)
  moreover have "ids_evolve t u" using P(1,2) t step(2) by (rule device_step_ids_evolve)
  with e have "ids_evolve st u" by (rule ids_evolve_trans)
  ultimately show ?case ..
qed

section \<open>When rotation succeeds\<close>

lemma random_bytes_append: "length a = n \<Longrightarrow> n \<le> MAX_INPUT_BYTES \<Longrightarrow> random_bytes n (a @ rest) = Ok (a, rest)"
  by (simp add: random_bytes_Ok_iff)

lemma mlkem768_keypair_append:
  "length a = 64 \<Longrightarrow> kem_keypair_derand P a = Some kp \<Longrightarrow> mlkem768_keypair P (a @ rest) = Ok (kp, rest)"
  by (simp add: mlkem768_keypair_def sbind_def fill_def monad_simps)

lemma next_signed_id_total: "i < KEY_ID_MAX \<Longrightarrow> next_signed_id i = Ok (i + 1)"
proof -
  assume "i < KEY_ID_MAX"
  then have "unat i < unat KEY_ID_MAX" by (simp add: word_less_nat_alt)
  then have "unat i < 2147483647" by (simp add: KEY_ID_MAX_def)
  then have "checked_add i 1 = Some (i + 1)" and "unat (i + 1) = unat i + 1"
    by (auto simp: checked_add_def unat_word_ariths)
  then show ?thesis
    using \<open>unat i < 2147483647\<close> by (simp add: next_signed_id_def word_le_nat_alt KEY_ID_MAX_def)
qed

definition may_rotate :: "prims \<Rightarrow> device_state \<Rightarrow> bytes \<Rightarrow> u32 \<Rightarrow> bool" where
  "may_rotate P st package day \<longleftrightarrow>
     ds_pending st = None
     \<and> saturating_add (cs_created_day (ds_current_classical st)) 7 \<le> day
     \<and> saturating_add (ps_created_day (ds_current_pq st)) 7 \<le> day
     \<and> length (ds_retired (prune_retired st day)) < MAX_RETIRED_SIGNED_PAIRS
     \<and> cs_id (ds_current_classical st) < KEY_ID_MAX \<and> ps_id (ds_current_pq st) < KEY_ID_MAX
     \<and> ds_bundle_version st \<noteq> - 1
     \<and> (\<exists>secret. parse_self_signing_secret P package (ds_user_id st) = Ok secret)"

lemma prepare_rotation_total:
  assumes P: "sized_prims P" "kem_keypair_total P" and wf: "device_fields_wf st"
    and may: "may_rotate P st package day"
    and len: "length device_id = 16" "112 \<le> length tape"
  shows "\<exists>result. prepare_rotation P st package device_id day tape = Ok result"
proof -
  obtain a r1 where a: "tape = a @ r1" "length a = 32"
    by (rule split_atE [of 32 tape]) (use len in auto)
  obtain b r2 where b: "r1 = b @ r2" "length b = 64"
    by (rule split_atE [of 64 r1]) (use len a in auto)
  obtain c rest where c: "r2 = c @ rest" "length c = 16"
    by (rule split_atE [of 16 r2]) (use len a b in auto)
  obtain pk sk where kem: "kem_keypair_derand P b = Some (pk, sk)"
    using P(2) b(2) by (auto simp: kem_keypair_total_def)
  obtain secret where secret: "parse_self_signing_secret P package (ds_user_id st) = Ok secret"
    using may by (auto simp: may_rotate_def)
  note lens = wf [unfolded device_fields_wf_def] sized_primsD(3,5) [OF P(1)]
  let ?st = "prune_retired st day"
  have "ds_current_classical ?st = ds_current_classical st" "ds_current_pq ?st = ds_current_pq st"
    "ds_user_id ?st = ds_user_id st" "ds_bundle_version ?st = ds_bundle_version st"
    "length (state_ik_public ?st) = 64"
    using lens by (simp_all add: prune_retired_def state_ik_public_def ik_from_halves_def)
  moreover have "length pk = 1184" by (rule sized_primsD(5) [OF P(1) kem])
  ultimately show ?thesis
    using may lens secret len
    by (simp add: prepare_rotation_def may_rotate_def Let_def a b c sbind_Ok random_bytes_append
        mlkem768_keypair_append [OF _ kem] MAX_INPUT_BYTES_def next_signed_id_total checked_add_one
        x25519_public_def encode_signed_prekey_total ed25519_sign_def bounded_bytes_new_def
        encode_cross_signature_total ret_apply not_less not_le reject_if_def cross_fields_def
        SIGNED_PREKEY_DOMAIN_def PQ_SIGNED_PREKEY_DOMAIN_def CROSS_SIGNATURE_DOMAIN_def)
qed

section \<open>Concrete runs\<close>

text \<open>The sample device of \<open>Prekey_Codec\<close> with the example primitives, used by the witnesses below.\<close>

lemma sample_device_inv: "device_inv example_prims sample_device"
  using sample_device_valid
  by (simp add: device_inv_def signed_ids_ordered_def projection_small_def sample_device_def
      sample_classical_def sample_pq_def)

definition sample_package :: bytes where
  "sample_package = IDENTITY_MAGIC @ [0] @ replicate 16 1 @ replicate 32 10 @ replicate 32 11
     @ replicate 32 12 @ (replicate 32 10 @ replicate 32 7) @ u16_bytes 0 @ u32_bytes 0
     @ replicate 32 10 @ replicate 32 11 @ replicate 32 12 @ [] @ [] @ []"

lemma sample_master_statement:
  "encode_master_signature \<lparr>ci_user_id = replicate 16 1, ci_self_signing_public = replicate 32 11,
     ci_user_signing_public = replicate 32 12\<rparr>
   = Ok (MASTER_SIGNATURE_DOMAIN @ frames [replicate 16 1, replicate 32 11, replicate 32 12])"
  by (simp add: encode_master_signature_def encoder_new_def encoder_field_def usize_checked_add_def
      try_from_usize_def MAX_INPUT_BYTES_def MASTER_SIGNATURE_DOMAIN_def frame_def)

lemma sample_master_fits:
  "length (MASTER_SIGNATURE_DOMAIN @ frames [replicate 16 1, replicate 32 11, replicate 32 12]) \<le> MAX_INPUT_BYTES"
  by (simp add: MAX_INPUT_BYTES_def MASTER_SIGNATURE_DOMAIN_def)

lemma sample_package_reads:
  "reads_to_end (parse_identity_secret example_prims (replicate 16 1)) sample_package (replicate 32 11)"
  unfolding parse_identity_secret_def sample_package_def
  by (intro ends_intros, (rule sample_master_statement | simp add: example_prims_def
      ed25519_verify_Ok_iff sample_master_fits [simplified])+)

lemma sample_package_parses:
  "parse_self_signing_secret example_prims sample_package (replicate 16 1) = Ok (replicate 32 11)"
  using reads_to_end_new [OF sample_package_reads]
  by (simp add: parse_self_signing_secret_def sample_package_def)

lemma sample_may_rotate: "may_rotate example_prims sample_device sample_package 120"
  using sample_package_parses
  by (simp add: may_rotate_def sample_device_def sample_classical_def sample_pq_def prune_retired_def
      saturating_add_def KEY_ID_MAX_def prekey_limits)

lemma sample_rotates:
  obtains st batch projection rest where
    "prepare_rotation example_prims sample_device sample_package (replicate 16 2) 120 (replicate 112 1)
       = Ok ((st, batch, projection), rest)"
  using prepare_rotation_total [OF example_sized example_kem_total sample_fields_wf sample_may_rotate,
      of "replicate 16 2" "replicate 112 1"]
  by force

lemma sample_replenishes:
  obtains st batch projection rest where
    "prepare_replenishment example_prims sample_device 0 0 1 1
       (replicate 16 1 @ replicate 32 2 @ replicate 64 3) = Ok ((st, batch, projection), rest)"
proof -
  have "take_next_id 12 = Ok (12, 13)" "take_next_id 22 = Ok (22, 23)"
    by (simp_all add: take_next_id_def KEY_ID_MAX_def checked_add_def)
  moreover have "kem_keypair_derand example_prims (replicate 64 3) =
      Some (fit 1184 (replicate 64 3), replicate 1152 0 @ fit 1184 (replicate 64 3) @ replicate 64 0)"
    by (simp add: example_prims_def)
  note mlkem768_keypair_append [OF _ this, of "[]"]
  ultimately have "\<exists>r. prepare_replenishment example_prims sample_device 0 0 1 1
       (replicate 16 1 @ replicate 32 2 @ replicate 64 3) = Ok r"
    by (simp add: prepare_replenishment_def sample_device_def Let_def MAX_BACKEND_CLASSICAL_ONE_TIME_def
        MAX_BACKEND_PQ_ONE_TIME_def saturating_sub_def prekey_limits sbind_Ok random_bytes_append
        MAX_INPUT_BYTES_def generate_classical_def generate_pq_def x25519_public_def ret_apply)
  then show thesis using that by force
qed

lemma sample_consumes:
  obtains st where "consume_classical_one_time sample_device 10 = Ok st"
  by (simp add: consume_classical_one_time_def sample_device_def)

lemma sample_consumes_pq:
  obtains st where "consume_pq_one_time sample_device 21 = Ok st"
  by (simp add: consume_pq_one_time_def sample_device_def)

section \<open>Properties of the operations\<close>

text \<open>
  C8: the device invariant survives every sequence of operations and restarts, whatever their
  arguments and entropy, and in every state reached the state can be stored and loads back
  unchanged. A device can therefore never reach a state that it cannot persist.
\<close>

theorem device_steps_storable:
  assumes "sized_prims P" and "kem_embeds_public P" and "signatures_verify P"
    and "device_inv P st" and "(device_step P)\<^sup>*\<^sup>* st st'"
  shows "device_inv P st'
    \<and> (\<exists>bs. encode_device_state P st' = Ok bs \<and> decode_device_state P bs day = Ok st')"
proof -
  have inv: "device_inv P st'" using device_steps_evolve [OF assms] by simp
  obtain bs where bs: "encode_device_state P st' = Ok bs"
    by (rule device_inv_storable [OF assms(1) inv])
  with decode_encode_device_state [OF assms(1) device_invD(1) [OF inv] bs] inv show ?thesis by blast
qed

theorem device_steps_storable_witness:
  "\<exists>st. (device_step example_prims)\<^sup>*\<^sup>* sample_device st \<and> st \<noteq> sample_device
     \<and> device_inv example_prims st
     \<and> (\<exists>bs. encode_device_state example_prims st = Ok bs \<and> decode_device_state example_prims bs 120 = Ok st)"
proof -
  obtain st where st: "consume_classical_one_time sample_device 10 = Ok st" by (rule sample_consumes)
  then have "st \<noteq> sample_device" by (auto simp: consume_classical_one_time_def sample_device_def)
  moreover have "(device_step example_prims)\<^sup>*\<^sup>* sample_device st"
    using st by (auto intro: device_step.intros)
  moreover note device_steps_storable [OF example_sized example_embeds example_signatures
      sample_device_inv this, of 120]
  ultimately show ?thesis by blast
qed

lemma consumed_classical_gone:
  assumes "sized_prims P" and "kem_embeds_public P" and "signatures_verify P" and "device_inv P st"
    and run: "consume_classical_one_time st i = Ok st1" and steps: "(device_step P)\<^sup>*\<^sup>* st1 st2"
  shows "find_classical_one_time st2 i = None \<and> consume_classical_one_time st2 i = Err StateViolation"
proof -
  note stores = device_inv_stores [OF assms(4)]
  have "ids_evolve st1 st2"
    using device_steps_evolve [OF assms(1-3) consume_classical_inv [OF assms(4) run] steps] by simp
  moreover have "find_classical_one_time st1 i = None"
    using classical_store.consume_lookup [OF stores(1) run, of i] by simp
  moreover have "i < ds_next_classical_one_time_id st1"
    using run stores(3) by (auto elim!: classical_store.consume_Ok)
  ultimately have "find_classical_one_time st2 i = None"
    by (force simp: classical_store.lookup_None_iff ids_evolve_def)
  then show ?thesis by (cases rule: classical_store.consume_cases [of st2 i]) auto
qed

lemma consumed_pq_gone:
  assumes "sized_prims P" and "kem_embeds_public P" and "signatures_verify P" and "device_inv P st"
    and run: "consume_pq_one_time st i = Ok st1" and steps: "(device_step P)\<^sup>*\<^sup>* st1 st2"
  shows "find_pq_one_time st2 i = None \<and> consume_pq_one_time st2 i = Err StateViolation"
proof -
  note stores = device_inv_stores [OF assms(4)]
  have "ids_evolve st1 st2"
    using device_steps_evolve [OF assms(1-3) consume_pq_inv [OF assms(4) run] steps] by simp
  moreover have "find_pq_one_time st1 i = None"
    using pq_store.consume_lookup [OF stores(2) run, of i] by simp
  moreover have "i < ds_next_pq_one_time_id st1"
    using run stores(4) by (auto elim!: pq_store.consume_Ok)
  ultimately have "find_pq_one_time st2 i = None"
    by (force simp: pq_store.lookup_None_iff ids_evolve_def)
  then show ?thesis by (cases rule: pq_store.consume_cases [of st2 i]) auto
qed

text \<open>
  C4: a consumed one-time prekey never comes back. Once an identifier was consumed, no sequence
  of later operations and restarts (replenishment included) brings a key with that identifier
  back, and consuming it again is refused with a state violation; likewise for post-quantum keys.
\<close>

theorem consumed_never_returns:
  assumes "sized_prims P" and "kem_embeds_public P" and "signatures_verify P" and "device_inv P st"
    and "(device_step P)\<^sup>*\<^sup>* st1 st2"
  shows "(consume_classical_one_time st i = Ok st1 \<longrightarrow>
      find_classical_one_time st2 i = None \<and> consume_classical_one_time st2 i = Err StateViolation)
    \<and> (consume_pq_one_time st i = Ok st1 \<longrightarrow>
      find_pq_one_time st2 i = None \<and> consume_pq_one_time st2 i = Err StateViolation)"
  using consumed_classical_gone [OF assms(1-4) _ assms(5)] consumed_pq_gone [OF assms(1-4) _ assms(5)]
  by blast

theorem consumed_never_returns_witness:
  "\<exists>st1 st2. consume_classical_one_time sample_device 10 = Ok st1
     \<and> (device_step example_prims)\<^sup>*\<^sup>* st1 st2 \<and> st1 \<noteq> st2
     \<and> find_classical_one_time st2 10 = None \<and> consume_classical_one_time st2 10 = Err StateViolation"
proof -
  obtain st where st: "consume_classical_one_time sample_device 10 = Ok st" by (rule sample_consumes)
  have steps: "(device_step example_prims)\<^sup>*\<^sup>* st (prune_retired st 120)"
    by (auto intro: device_step.intros)
  moreover have "st \<noteq> prune_retired st 120"
    using st by (auto simp: consume_classical_one_time_def sample_device_def prune_retired_def)
  ultimately show ?thesis
    using consumed_never_returns [OF example_sized example_embeds example_signatures
        sample_device_inv steps, of 10] st
    by blast
qed

text \<open>
  A sequence of consumptions succeeds exactly when its identifiers are distinct and all present
  at the start, whatever the order; for both kinds of one-time prekeys.
\<close>

theorem consumption_sequence:
  assumes "device_valid P st"
  shows "((\<exists>st'. in_sequence (map (\<lambda>i s. consume_classical_one_time s i) is) st = Ok st')
       \<longleftrightarrow> distinct is \<and> (\<forall>i \<in> set is. find_classical_one_time st i \<noteq> None))
    \<and> ((\<exists>st'. in_sequence (map (\<lambda>i s. consume_pq_one_time s i) is) st = Ok st')
       \<longleftrightarrow> distinct is \<and> (\<forall>i \<in> set is. find_pq_one_time st i \<noteq> None))"
  using assms classical_store.consume_sequence_iff pq_store.consume_sequence_iff
  by (simp add: device_valid_def)

theorem consumption_sequence_witness:
  "device_valid example_prims sample_device
   \<and> (\<exists>st'. in_sequence (map (\<lambda>i s. consume_classical_one_time s i) [11, 10]) sample_device = Ok st')
   \<and> \<not> (\<exists>st'. in_sequence (map (\<lambda>i s. consume_classical_one_time s i) [10, 10]) sample_device = Ok st')"
proof -
  have "find_classical_one_time sample_device 10 \<noteq> None" "find_classical_one_time sample_device 11 \<noteq> None"
    by (simp_all add: find_classical_one_time_def sample_device_def)
  then show ?thesis
    using consumption_sequence [OF sample_device_valid, of "[11, 10]"]
      consumption_sequence [OF sample_device_valid, of "[10, 10]"] sample_device_valid
    by simp
qed

lemma replenishment_repeats:
  "ds_pending st = Some u \<Longrightarrow>
     prepare_replenishment P st sc sp tc tp tape = Ok ((st, pu_batch_id u, pu_exact_projection u), tape)"
  by (simp add: prepare_replenishment_def ret_apply)

text \<open>
  C34: a replenishment adds exactly the keys the server lacks, and nothing else changes. The old keys
  stay in front, the new ones have identifiers from the old high-water mark up (so never used before),
  are genuine key pairs, and the projection to upload lists the public halves of exactly the new keys.
  Asking again, with any arguments, before the upload is committed returns the same batch and
  leaves the state alone.
\<close>

theorem replenishment_adds_missing_keys:
  assumes "sized_prims P" and "kem_embeds_public P" and "device_inv P st" and "ds_pending st = None"
    and "prepare_replenishment P st sc sp tc tp tape = Ok ((st', batch, projection), tape')"
  shows "(\<exists>ks qs. ds_classical_one_time st' = ds_classical_one_time st @ ks
        \<and> ds_pq_one_time st' = ds_pq_one_time st @ qs
        \<and> length ks = unat tc - unat sc \<and> length qs = unat tp - unat sp
        \<and> list_all (genuine_classical P) ks \<and> list_all (genuine_pq P) qs
        \<and> fresh_ids (ds_next_classical_one_time_id st) (map co_id ks) (ds_next_classical_one_time_id st')
        \<and> fresh_ids (ds_next_pq_one_time_id st) (map po_id qs) (ds_next_pq_one_time_id st')
        \<and> projection = replenish_projection batch (ds_bundle_version st) ks qs
        \<and> st' = replenished st (ds_next_classical_one_time_id st') ks (ds_next_pq_one_time_id st') qs batch)
    \<and> prepare_replenishment P st' sc' sp' tc' tp' tape'' = Ok ((st', batch, projection), tape'')"
proof -
  from prepare_replenishment_Ok [OF assms] obtain h ks h' qs where
    st': "st' = replenished st h ks h' qs batch"
    and facts: "projection = replenish_projection batch (ds_bundle_version st) ks qs"
      "length ks = unat tc - unat sc" "length qs = unat tp - unat sp"
      "list_all (genuine_classical P) ks" "list_all (genuine_pq P) qs"
      "fresh_ids (ds_next_classical_one_time_id st) (map co_id ks) h"
      "fresh_ids (ds_next_pq_one_time_id st) (map po_id qs) h'"
    by metis
  have fields: "ds_next_classical_one_time_id st' = h" "ds_next_pq_one_time_id st' = h'"
    "ds_classical_one_time st' = ds_classical_one_time st @ ks"
    "ds_pq_one_time st' = ds_pq_one_time st @ qs"
    "ds_pending st' = Some \<lparr>pu_batch_id = batch, pu_kind = UPLOAD_REPLENISH, pu_exact_projection = projection\<rparr>"
    by (simp_all add: st' replenished_def put_classical_def put_pq_def facts(1))
  from replenishment_repeats [OF fields(5), of P sc' sp' tc' tp' tape'']
  have "prepare_replenishment P st' sc' sp' tc' tp' tape'' = Ok ((st', batch, projection), tape'')" by simp
  with facts fields st' show ?thesis by (intro conjI exI [of _ ks] exI [of _ qs]) simp_all
qed

theorem replenishment_adds_missing_keys_witness:
  "\<exists>st' batch projection rest.
     prepare_replenishment example_prims sample_device 0 0 1 1
       (replicate 16 1 @ replicate 32 2 @ replicate 64 3) = Ok ((st', batch, projection), rest)
     \<and> length (ds_classical_one_time st') = 3 \<and> length (ds_pq_one_time st') = 2
     \<and> prepare_replenishment example_prims st' 5 6 7 8 [] = Ok ((st', batch, projection), [])"
proof -
  obtain st' batch projection rest where
    run: "prepare_replenishment example_prims sample_device 0 0 1 1
       (replicate 16 1 @ replicate 32 2 @ replicate 64 3) = Ok ((st', batch, projection), rest)"
    by (rule sample_replenishes)
  have none: "ds_pending sample_device = None" by (simp add: sample_device_def)
  from replenishment_adds_missing_keys [OF example_sized example_embeds sample_device_inv none run,
      of 5 6 7 8 "[]"]
  obtain ks qs where "ds_classical_one_time st' = ds_classical_one_time sample_device @ ks"
    "ds_pq_one_time st' = ds_pq_one_time sample_device @ qs" "length ks = 1" "length qs = 1"
    "prepare_replenishment example_prims st' 5 6 7 8 [] = Ok ((st', batch, projection), [])"
    by auto
  with run show ?thesis
    by (intro exI [of _ st'] exI [of _ batch] exI [of _ projection] exI [of _ rest])
      (simp add: sample_device_def)
qed

text \<open>
  C33: with nothing pending and enough entropy, rotation succeeds exactly when both signed prekeys are
  at least seven days old, fewer than three retired pairs are still retained, neither identifier nor
  the bundle version is exhausted, and the identity package checks out for this user.
\<close>

theorem rotation_succeeds_iff:
  assumes "sized_prims P" and "kem_keypair_total P" and "device_fields_wf st" and "ds_pending st = None"
    and "length device_id = 16" and "112 \<le> length tape"
  shows "(\<exists>result. prepare_rotation P st package device_id day tape = Ok result)
     \<longleftrightarrow> may_rotate P st package day"
proof
  assume "may_rotate P st package day"
  then show "\<exists>result. prepare_rotation P st package device_id day tape = Ok result"
    using assms by (intro prepare_rotation_total)
next
  assume "\<exists>result. prepare_rotation P st package device_id day tape = Ok result"
  then obtain st' batch projection rest where
    run: "prepare_rotation P st package device_id day tape = Ok ((st', batch, projection), rest)"
    by force
  from prepare_rotation_Ok [OF assms(4) run] obtain k q version cross where
    facts: "saturating_add (cs_created_day (ds_current_classical st)) 7 \<le> day"
      "saturating_add (ps_created_day (ds_current_pq st)) 7 \<le> day"
      "length (ds_retired (prune_retired st day)) < MAX_RETIRED_SIGNED_PAIRS"
      "checked_add (ds_bundle_version st) 1 = Some version"
      "fresh_pair P st day k q" "cross_signed P st package device_id k q version cross"
    by metis
  from facts(5) have "cs_id (ds_current_classical st) < KEY_ID_MAX" "ps_id (ds_current_pq st) < KEY_ID_MAX"
    by (auto simp: fresh_pair_def dest!: next_signed_id_Ok intro: order_less_le_trans)
  moreover have "ds_bundle_version st \<noteq> - 1"
    using facts(4) by (auto simp: checked_add_def unsigned_minus_1_eq_mask mask_eq_exp_minus_1)
  ultimately show "may_rotate P st package day"
    using facts assms(4) by (auto simp: may_rotate_def cross_signed_def)
qed

theorem rotation_succeeds_iff_witness:
  "(\<exists>result. prepare_rotation example_prims sample_device sample_package (replicate 16 2) 120
       (replicate 112 1) = Ok result)
   \<and> \<not> (\<exists>result. prepare_rotation example_prims sample_device sample_package (replicate 16 2) 106
       (replicate 112 1) = Ok result)"
proof -
  have "\<not> may_rotate example_prims sample_device sample_package 106"
    by (simp add: may_rotate_def sample_device_def sample_classical_def saturating_add_def)
  moreover have "ds_pending sample_device = None" by (simp add: sample_device_def)
  ultimately show ?thesis
    using rotation_succeeds_iff [OF example_sized example_kem_total sample_fields_wf,
        of "replicate 16 2" "replicate 112 1" sample_package] sample_may_rotate
    by simp
qed

text \<open>
  C32: what a rotation does. The bundle version and both signed identifiers go up by one, the new pair
  is dated with the given day, matches its secrets and is signed by the device key, the account's
  self-signing key signs the new bundle, the replaced pair is retired until eight days later while
  expired pairs are dropped, the one-time keys are untouched, and the projection to upload is pending.
\<close>

theorem rotation_replaces_signed_pair:
  assumes "sized_prims P" and "kem_embeds_public P" and "signatures_verify P" and "device_inv P st"
    and "ds_pending st = None"
    and "prepare_rotation P st package device_id day tape = Ok ((st', batch, projection), tape')"
  shows "unat (ds_bundle_version st') = unat (ds_bundle_version st) + 1
    \<and> unat (cs_id (ds_current_classical st')) = unat (cs_id (ds_current_classical st)) + 1
    \<and> unat (ps_id (ds_current_pq st')) = unat (ps_id (ds_current_pq st)) + 1
    \<and> cs_created_day (ds_current_classical st') = day \<and> ps_created_day (ds_current_pq st') = day
    \<and> classical_authentic P st' (ds_current_classical st') \<and> pq_authentic P st' (ds_current_pq st')
    \<and> cross_signed P st' package device_id (ds_current_classical st') (ds_current_pq st')
        (ds_bundle_version st') (ds_cross_signature st')
    \<and> ds_retired st' = filter (\<lambda>pair. day \<le> rp_retain_through_day pair) (ds_retired st)
        @ [\<lparr>rp_retain_through_day = saturating_add day 8, rp_classical = ds_current_classical st,
            rp_pq = ds_current_pq st\<rparr>]
    \<and> ds_classical_one_time st' = ds_classical_one_time st \<and> ds_pq_one_time st' = ds_pq_one_time st
    \<and> ds_pending st' = Some \<lparr>pu_batch_id = batch, pu_kind = UPLOAD_ROTATION, pu_exact_projection = projection\<rparr>
    \<and> projection = rotation_projection batch (ds_bundle_version st') (ds_current_classical st')
        (ds_current_pq st') (ds_cross_signature st')"
proof -
  from prepare_rotation_Ok [OF assms(5,6)] obtain k q version cross where
    st': "st' = rotated st day k q version cross
       \<lparr>pu_batch_id = batch, pu_kind = UPLOAD_ROTATION, pu_exact_projection = projection\<rparr>"
    and facts: "projection = rotation_projection batch version k q cross"
      "checked_add (ds_bundle_version st) 1 = Some version" "fresh_pair P st day k q"
      "cross_signed P st package device_id k q version cross"
    by metis
  have "cross_signed P st' package device_id k q version cross"
    using facts(4) by (simp add: cross_signed_def st' rotated_def state_ik_public_def)
  moreover have "classical_authentic P st' k" "pq_authentic P st' q"
    using fresh_pair_genuine [OF assms(1-3) device_invD(1) [OF assms(4)] facts(3)]
    by (simp_all add: classical_authentic_def pq_authentic_def st' rotated_def)
  moreover have "unat (cs_id k) = unat (cs_id (ds_current_classical st)) + 1"
    "unat (ps_id q) = unat (ps_id (ds_current_pq st)) + 1" "cs_created_day k = day" "ps_created_day q = day"
    using facts(3) next_signed_id_Ok by (auto simp: fresh_pair_def)
  moreover have "unat version = unat (ds_bundle_version st) + 1"
    using checked_add_unat [OF facts(2)] by simp
  ultimately show ?thesis
    using facts(1) by (simp add: st' rotated_def prune_retired_def)
qed

theorem rotation_replaces_signed_pair_witness:
  "\<exists>st' batch projection rest.
     prepare_rotation example_prims sample_device sample_package (replicate 16 2) 120 (replicate 112 1)
       = Ok ((st', batch, projection), rest)
     \<and> unat (ds_bundle_version st') = 3 \<and> length (ds_retired st') = 1
     \<and> cs_created_day (ds_current_classical st') = 120"
proof -
  obtain st' batch projection rest where
    run: "prepare_rotation example_prims sample_device sample_package (replicate 16 2) 120 (replicate 112 1)
       = Ok ((st', batch, projection), rest)"
    by (rule sample_rotates)
  have none: "ds_pending sample_device = None" by (simp add: sample_device_def)
  from rotation_replaces_signed_pair [OF example_sized example_embeds example_signatures
      sample_device_inv none run] run
  show ?thesis
    by (intro exI [of _ st'] exI [of _ batch] exI [of _ projection] exI [of _ rest])
      (simp add: sample_device_def)
qed

text \<open>
  Steps in which no pruning and no rotation is asked for with a day after \<open>limit\<close>. All other operations and
  restarts are unrestricted: none of them is told the day.
\<close>

inductive early_step :: "prims \<Rightarrow> u32 \<Rightarrow> device_state \<Rightarrow> device_state \<Rightarrow> bool" for P limit where
  Early_Prune: "day \<le> limit \<Longrightarrow> early_step P limit st (prune_retired st day)"
| Early_Rotate: "day \<le> limit \<Longrightarrow> prepare_rotation P st package device_id day tape = Ok ((st', batch, projection), tape') \<Longrightarrow>
    early_step P limit st st'"
| Early_Consume_Classical: "consume_classical_one_time st i = Ok st' \<Longrightarrow> early_step P limit st st'"
| Early_Consume_Pq: "consume_pq_one_time st i = Ok st' \<Longrightarrow> early_step P limit st st'"
| Early_Replenish: "prepare_replenishment P st sc sp tc tp tape = Ok ((st', batch, projection), tape') \<Longrightarrow>
    early_step P limit st st'"
| Early_Commit: "commit_pending_upload st batch = Ok st' \<Longrightarrow> early_step P limit st st'"
| Early_Restart: "encode_device_state P st = Ok bs \<Longrightarrow> decode_device_state P bs day = Ok st' \<Longrightarrow>
    early_step P limit st st'"

lemma early_step_device_step: "early_step P limit st st' \<Longrightarrow> device_step P st st'"
  by (auto elim!: early_step.cases intro: device_step.intros)

lemma rotation_retires:
  assumes "prepare_rotation P st package device_id day tape = Ok ((st', batch, projection), tape')" and "ds_pending st = None"
  shows "ds_retired st' = ds_retired (prune_retired st day)
    @ [\<lparr>rp_retain_through_day = saturating_add day 8, rp_classical = ds_current_classical st, rp_pq = ds_current_pq st\<rparr>]"
proof -
  from prepare_rotation_Ok [OF assms(2,1)] obtain k q version cross u where "st' = rotated st day k q version cross u" by metis
  then show ?thesis by (simp add: rotated_def)
qed

lemma early_step_keeps:
  assumes P: "sized_prims P" "kem_embeds_public P" and inv: "device_inv P st"
    and pair: "pair \<in> set (ds_retired st)" "limit \<le> rp_retain_through_day pair" and step: "early_step P limit st st'"
  shows "pair \<in> set (ds_retired st')"
  using step
proof cases
  case (Early_Restart bs day)
  with decode_encode_device_state [OF P(1) device_invD(1) [OF inv]] pair show ?thesis by simp
next
  case (Early_Rotate day package device_id tape batch projection tape')
  show ?thesis
  proof (cases "ds_pending st")
    case None
    with rotation_retires [OF Early_Rotate(2)] Early_Rotate(1) pair show ?thesis by (auto simp: prune_retired_def)
  next
    case (Some u)
    with Early_Rotate(2) pair show ?thesis by (auto simp: prepare_rotation_def ret_apply split: if_splits)
  qed
next
  case (Early_Replenish sc sp tc tp tape batch projection tape')
  show ?thesis
  proof (cases "ds_pending st")
    case None
    from prepare_replenishment_Ok [OF P inv None Early_Replenish] obtain h ks h' qs where
      "st' = replenished st h ks h' qs batch" by metis
    with pair(1) show ?thesis by (simp add: replenished_def put_classical_def put_pq_def)
  next
    case (Some u)
    with Early_Replenish pair show ?thesis by (simp add: prepare_replenishment_def ret_apply)
  qed
next
  case (Early_Prune day)
  with pair show ?thesis by (auto simp: prune_retired_def)
next
  case (Early_Commit batch)
  with pair(1) show ?thesis by (auto simp: commit_pending_upload_Ok_iff)
next
  case (Early_Consume_Classical i)
  then show ?thesis using pair(1) by (auto simp: put_classical_def elim!: classical_store.consume_Ok)
next
  case (Early_Consume_Pq i)
  then show ?thesis using pair(1) by (auto simp: put_pq_def elim!: pq_store.consume_Ok)
qed

text \<open>In a valid state a retired pair is found by its identifiers, and no longer when it is not among the pairs kept.\<close>

lemma retired_distinct:
  assumes "device_inv P st"
  shows "distinct (map (\<lambda>p. cs_id (rp_classical p)) (ds_retired st))" and "distinct (map (\<lambda>p. ps_id (rp_pq p)) (ds_retired st))"
proof -
  have "sorted_wrt retired_before (ds_retired st)" using device_invD(3) [OF assms] by (simp add: device_material_def)
  then have "sorted_wrt (\<lambda>a b. cs_id (rp_classical a) < cs_id (rp_classical b)) (ds_retired st)"
    and "sorted_wrt (\<lambda>a b. ps_id (rp_pq a) < ps_id (rp_pq b)) (ds_retired st)"
    by (auto simp: retired_before_def intro: sorted_wrt_mono_rel [where P = retired_before])
  then show "distinct (map (\<lambda>p. cs_id (rp_classical p)) (ds_retired st))" "distinct (map (\<lambda>p. ps_id (rp_pq p)) (ds_retired st))"
    by (simp_all only: sorted_wrt_less_key_distinct)
qed

lemma find_filtered_key:
  assumes "distinct (map f xs)" and "x \<in> set xs"
  shows "find (\<lambda>y. f y = f x) (filter q xs) = (if q x then Some x else None)"
proof (cases "q x")
  case True
  with assms find_distinct_key [of f "filter q xs" x] show ?thesis by (simp add: distinct_map_filter)
next
  case False
  with assms have "f x \<notin> f ` set (filter q xs)" by (auto simp: distinct_map dest: inj_onD)
  with False find_None_iff_notin [of f "f x" "filter q xs"] show ?thesis by simp
qed

lemma retired_lookup:
  assumes inv: "device_inv P st" and pair: "pair \<in> set (ds_retired st)"
  shows "signed_classical (prune_retired st d) (cs_id (rp_classical pair)) =
      (if d \<le> rp_retain_through_day pair then Some (rp_classical pair) else None)"
    and "signed_pq (prune_retired st d) (ps_id (rp_pq pair)) =
      (if d \<le> rp_retain_through_day pair then Some (rp_pq pair) else None)"
    and "signed_classical st (cs_id (rp_classical pair)) = Some (rp_classical pair)"
    and "signed_pq st (ps_id (rp_pq pair)) = Some (rp_pq pair)"
proof -
  have current: "cs_id (ds_current_classical st) \<noteq> cs_id (rp_classical pair)" "ps_id (ds_current_pq st) \<noteq> ps_id (rp_pq pair)"
    using device_invD(4) [OF inv] pair by (auto simp: signed_ids_ordered_def)
  then show "signed_classical (prune_retired st d) (cs_id (rp_classical pair)) =
      (if d \<le> rp_retain_through_day pair then Some (rp_classical pair) else None)"
    "signed_pq (prune_retired st d) (ps_id (rp_pq pair)) =
      (if d \<le> rp_retain_through_day pair then Some (rp_pq pair) else None)"
    using find_filtered_key [OF retired_distinct(1) [OF inv] pair] find_filtered_key [OF retired_distinct(2) [OF inv] pair]
    by (simp_all add: signed_classical_def signed_pq_def prune_retired_def)
  show "signed_classical st (cs_id (rp_classical pair)) = Some (rp_classical pair)"
    "signed_pq st (ps_id (rp_pq pair)) = Some (rp_pq pair)"
    using current find_distinct_key [OF retired_distinct(1) [OF inv] pair] find_distinct_key [OF retired_distinct(2) [OF inv] pair]
    by (simp_all add: signed_classical_def signed_pq_def)
qed

lemma rotation_lookup:
  assumes inv: "device_inv P st" and none: "ds_pending st = None"
    and run: "prepare_rotation P st package device_id d tape = Ok ((st', batch, projection), tape')"
    and pair: "pair \<in> set (ds_retired st)" "rp_retain_through_day pair < d"
  shows "signed_classical st' (cs_id (rp_classical pair)) = None" and "signed_pq st' (ps_id (rp_pq pair)) = None"
proof -
  from prepare_rotation_Ok [OF none run] obtain k q version cross u where
    st': "st' = rotated st d k q version cross u" and "fresh_pair P st d k q" by metis
  then have "cs_id (ds_current_classical st) < cs_id k" "ps_id (ds_current_pq st) < ps_id q"
    using next_signed_id_Ok by (fastforce simp: fresh_pair_def)+
  moreover have "cs_id (rp_classical pair) < cs_id (ds_current_classical st)" "ps_id (rp_pq pair) < ps_id (ds_current_pq st)"
    using device_invD(4) [OF inv] pair(1) by (auto simp: signed_ids_ordered_def)
  moreover have "signed_classical (prune_retired st d) (cs_id (rp_classical pair)) = None"
    "signed_pq (prune_retired st d) (ps_id (rp_pq pair)) = None"
    using retired_lookup(1,2) [OF inv pair(1), of d] pair(2) by simp_all
  ultimately show "signed_classical st' (cs_id (rp_classical pair)) = None" "signed_pq st' (ps_id (rp_pq pair)) = None"
    by (auto simp: st' rotated_def signed_classical_def signed_pq_def find_None_iff split: if_splits)
qed

lemma early_steps_keep:
  assumes P: "sized_prims P" "kem_embeds_public P" "signatures_verify P"
    and steps: "(early_step P limit)\<^sup>*\<^sup>* st st'" and inv: "device_inv P st"
    and pair: "pair \<in> set (ds_retired st)" "limit \<le> rp_retain_through_day pair"
  shows "device_inv P st' \<and> pair \<in> set (ds_retired st')"
  using steps
proof (induction rule: rtranclp_induct)
  case base
  show ?case using inv pair(1) by simp
next
  case (step x y)
  then show ?case using device_step_inv [OF P _ early_step_device_step] early_step_keeps [OF P(1,2) _ _ pair(2)] by blast
qed

text \<open>
  C35: a replaced signed pair is kept for its retention time and erased by the first pruning after it. Let a rotation on day
  \<open>day\<close> replace the signed pair, and let any operations and restarts follow in which no pruning or rotation is asked for with
  a day after \<open>day + 8\<close> (saturating). Then the replaced keys are still found by their identifiers, whatever
  time has passed, and pruning with a day \<open>d\<close> keeps them exactly when \<open>d \<le> day + 8\<close>. A further rotation with a
  later day, which prunes first, erases them too.
\<close>

theorem replaced_pair_retention:
  assumes P: "sized_prims P" "kem_embeds_public P" "signatures_verify P" and inv: "device_inv P st"
    and none: "ds_pending st = None"
    and run: "prepare_rotation P st package device_id day tape = Ok ((st', batch, projection), tape')"
    and steps: "(early_step P (saturating_add day 8))\<^sup>*\<^sup>* st' st''"
  shows "signed_classical st'' (cs_id (ds_current_classical st)) = Some (ds_current_classical st)
    \<and> signed_pq st'' (ps_id (ds_current_pq st)) = Some (ds_current_pq st)
    \<and> signed_classical (prune_retired st'' d) (cs_id (ds_current_classical st)) =
      (if d \<le> saturating_add day 8 then Some (ds_current_classical st) else None)
    \<and> signed_pq (prune_retired st'' d) (ps_id (ds_current_pq st)) =
      (if d \<le> saturating_add day 8 then Some (ds_current_pq st) else None)
    \<and> (saturating_add day 8 < d \<and> ds_pending st'' = None
       \<and> prepare_rotation P st'' package' device_id' d tape'' = Ok ((later, batch', projection'), tape3) \<longrightarrow>
       signed_classical later (cs_id (ds_current_classical st)) = None \<and> signed_pq later (ps_id (ds_current_pq st)) = None)"
proof -
  let ?pair = "\<lparr>rp_retain_through_day = saturating_add day 8, rp_classical = ds_current_classical st, rp_pq = ds_current_pq st\<rparr>"
  have "device_inv P st'" using prepare_rotation_inv [OF P inv run] .
  moreover have "?pair \<in> set (ds_retired st')" using rotation_retires [OF run none] by simp
  ultimately have later: "device_inv P st''" "?pair \<in> set (ds_retired st'')"
    using early_steps_keep [OF P steps, of ?pair] by simp_all
  show ?thesis using retired_lookup [OF later, simplified] rotation_lookup [OF later(1) _ _ later(2), simplified] by auto
qed

theorem replaced_pair_retention_witness:
  "\<exists>st' batch projection rest.
     prepare_rotation example_prims sample_device sample_package (replicate 16 2) 120 (replicate 112 1)
       = Ok ((st', batch, projection), rest)
     \<and> (early_step example_prims 128)\<^sup>*\<^sup>* st' (st'\<lparr>ds_pending := None\<rparr>) \<and> st' \<noteq> st'\<lparr>ds_pending := None\<rparr>
     \<and> signed_classical (st'\<lparr>ds_pending := None\<rparr>) 2 = Some (sample_classical 2)
     \<and> signed_classical (prune_retired (st'\<lparr>ds_pending := None\<rparr>) 128) 2 = Some (sample_classical 2)
     \<and> signed_classical (prune_retired (st'\<lparr>ds_pending := None\<rparr>) 129) 2 = None"
proof -
  obtain st' batch projection rest where
    run: "prepare_rotation example_prims sample_device sample_package (replicate 16 2) 120 (replicate 112 1)
       = Ok ((st', batch, projection), rest)"
    by (rule sample_rotates)
  have none: "ds_pending sample_device = None" by (simp add: sample_device_def)
  have limit: "saturating_add 120 8 = (128 :: u32)" by (simp add: saturating_add_def)
  obtain u where u: "ds_pending st' = Some u" by (rule prepare_rotation_Ok [OF none run]) (simp add: rotated_def)
  then have commit: "commit_pending_upload st' (pu_batch_id u) = Ok (st'\<lparr>ds_pending := None\<rparr>)"
    by (simp add: commit_pending_upload_Ok_iff)
  have steps: "(early_step example_prims 128)\<^sup>*\<^sup>* st' (st'\<lparr>ds_pending := None\<rparr>)"
    by (rule r_into_rtranclp, rule Early_Commit [OF commit])
  have changed: "st' \<noteq> st'\<lparr>ds_pending := None\<rparr>"
  proof
    assume "st' = st'\<lparr>ds_pending := None\<rparr>"
    from arg_cong [OF this, of ds_pending] u show False by simp
  qed
  note retention = replaced_pair_retention [OF example_sized example_embeds example_signatures
      sample_device_inv none run, unfolded limit, OF steps]
  have id: "ds_current_classical sample_device = sample_classical 2" "cs_id (sample_classical 2) = 2"
    by (simp_all add: sample_device_def sample_classical_def)
  show ?thesis using retention [of 128] retention [of 129] run steps changed unfolding id by auto
qed


text \<open>
  C36: an upload in flight is never lost or replaced. From a state with a pending upload, every operation
  and every restart keeps that upload and the bundle version it was made for, except a commit that
  names exactly its batch identifier, which clears it and changes nothing else.
\<close>

theorem pending_upload_only_committed:
  assumes "sized_prims P" and "device_inv P st" and "ds_pending st = Some u" and "device_step P st st'"
  shows "(ds_pending st' = Some u \<and> ds_bundle_version st' = ds_bundle_version st)
    \<or> (commit_pending_upload st (pu_batch_id u) = Ok st' \<and> st' = st\<lparr>ds_pending := None\<rparr>)"
  using assms(4)
proof cases
  case (Restart bs day)
  with decode_encode_device_state [OF assms(1) device_invD(1) [OF assms(2)]] assms(3) show ?thesis
    by simp
next
  case (Replenish sc sp tc tp tape batch projection tape')
  with assms(3) show ?thesis by (simp add: prepare_replenishment_def ret_apply)
next
  case (Rotate package device_id day tape batch projection tape')
  with assms(3) show ?thesis by (auto simp: prepare_rotation_def ret_apply split: if_splits)
qed (use assms(3) in \<open>auto simp: commit_pending_upload_Ok_iff prune_retired_def put_classical_def put_pq_def
  elim!: classical_store.consume_Ok pq_store.consume_Ok\<close>)

theorem pending_upload_only_committed_witness:
  "\<exists>st u st'. ds_pending st = Some u \<and> device_step example_prims st st'
     \<and> commit_pending_upload st (pu_batch_id u) = Ok st' \<and> ds_pending st' = None"
proof -
  obtain st batch projection rest where
    run: "prepare_rotation example_prims sample_device sample_package (replicate 16 2) 120 (replicate 112 1)
       = Ok ((st, batch, projection), rest)"
    by (rule sample_rotates)
  have none: "ds_pending sample_device = None" by (simp add: sample_device_def)
  from prepare_rotation_Ok [OF none run] obtain u where u: "ds_pending st = Some u"
    by (metis (no_types, lifting) rotated_def device_state.select_convs(16) device_state.surjective
        device_state.update_convs(16))
  have inv: "device_inv example_prims st"
    using example_sized example_embeds example_signatures sample_device_inv run
    by (rule prepare_rotation_inv)
  have step: "device_step example_prims st (st\<lparr>ds_pending := None\<rparr>)"
    by (rule device_step.Commit [of st "pu_batch_id u"]) (simp add: commit_pending_upload_Ok_iff u)
  from pending_upload_only_committed [OF example_sized inv u step] u step show ?thesis
    by (intro exI [of _ st] exI [of _ u] exI [of _ "st\<lparr>ds_pending := None\<rparr>"]) simp
qed

end
