(* ===== verification/Pairwise_Wire.thy ===== *)
theory Pairwise_Wire
  imports Prekey_Codec
begin

text \<open>
  The wire format of \<^verbatim>\<open>pairwise.rs\<close>: constants, the two ratchet headers and their parser, the envelope
  and its size buckets, the key schedule (root, chain and message keys), the associated data, and
  the sealing and opening of an envelope.
\<close>

unbundle bit_operations_syntax

section \<open>Constants\<close>

definition VERIFY_BUNDLE_MAGIC :: bytes where "VERIFY_BUNDLE_MAGIC = ascii ''CPBRV001''"
definition SENDER_PROJECTION_MAGIC :: bytes where "SENDER_PROJECTION_MAGIC = ascii ''CPSAV001''"
definition STATE_MAGIC :: bytes where "STATE_MAGIC = ascii ''CPRSV001''"
definition REPAIR_CONTROL_MAGIC :: bytes where "REPAIR_CONTROL_MAGIC = ascii ''CPRRV001''"
definition REPAIR_AUTH_MAGIC :: bytes where "REPAIR_AUTH_MAGIC = ascii ''CPRAV001''"
definition PROBE_MAGIC :: bytes where "PROBE_MAGIC = ascii ''CPPBV001''"
definition REQUEST_MAGIC :: bytes where "REQUEST_MAGIC = ascii ''CPPWR001''"
definition OUTPUT_MAGIC :: bytes where "OUTPUT_MAGIC = ascii ''CPPWO001''"

definition PROTOCOL_VERSION :: u8 where "PROTOCOL_VERSION = 1"
definition SUITE :: u8 where "SUITE = 1"
definition HEADER_VERSION :: u8 where "HEADER_VERSION = 1"
definition FLAG_INITIAL :: u8 where "FLAG_INITIAL = 0x01"
definition FLAG_CLASSICAL_ONE_TIME :: u8 where "FLAG_CLASSICAL_ONE_TIME = 0x02"
definition FLAG_PQ_ONE_TIME :: u8 where "FLAG_PQ_ONE_TIME = 0x04"
definition FLAG_REPAIR_REPLACEMENT :: u8 where "FLAG_REPAIR_REPLACEMENT = 0x08"
definition KNOWN_HEADER_FLAGS :: u8 where
  "KNOWN_HEADER_FLAGS = FLAG_INITIAL OR FLAG_CLASSICAL_ONE_TIME OR FLAG_PQ_ONE_TIME OR FLAG_REPAIR_REPLACEMENT"
definition ABSENT_PREKEY_ID :: u32 where "ABSENT_PREKEY_ID = 0xffffffff"

definition PURPOSE :: bytes where "PURPOSE = ascii ''pairwise-transport-v1''"
definition PQXDH_DOMAIN :: bytes where "PQXDH_DOMAIN = ascii ''chat:v1:pqxdh-x25519-mlkem768-sha256''"
definition SEALED_SENDER_DOMAIN :: bytes where "SEALED_SENDER_DOMAIN = ascii ''chat:v1:pqxdh-sealed-sender''"
definition INIT_AUTH_DOMAIN :: bytes where "INIT_AUTH_DOMAIN = ascii ''chat:v1:pqxdh-init-auth''"
definition ROOT_DOMAIN :: bytes where "ROOT_DOMAIN = ascii ''chat:v1:double-ratchet-root''"
definition AEAD_DOMAIN :: bytes where "AEAD_DOMAIN = ascii ''chat:v1:double-ratchet-aead''"
definition STATE_AUTH_DOMAIN :: bytes where "STATE_AUTH_DOMAIN = ascii ''chat:v1:pairwise-state-auth''"
definition REPAIR_DOMAIN :: bytes where "REPAIR_DOMAIN = ascii ''chat:v1:session-repair''"

definition REGULAR_HEADER_BYTES :: nat where "REGULAR_HEADER_BYTES = 58"
definition MAX_SKIPPED_PER_SESSION :: nat where "MAX_SKIPPED_PER_SESSION = 2000"
definition MAX_SKIPPED_ACCOUNT :: nat where "MAX_SKIPPED_ACCOUNT = 20000"
definition SENDER_BLOCK_WITHOUT_REPAIR_BYTES :: nat where "SENDER_BLOCK_WITHOUT_REPAIR_BYTES = 170"
definition SENDER_BLOCK_REPAIR_BYTES :: nat where "SENDER_BLOCK_REPAIR_BYTES = 218"
definition REPAIR_CONTROL_BYTES :: nat where "REPAIR_CONTROL_BYTES = 58"
definition REPAIR_REASON_SKIPPED_LIMIT :: u8 where "REPAIR_REASON_SKIPPED_LIMIT = 1"
definition ALLOWED_BUCKETS :: "nat list" where "ALLOWED_BUCKETS = [1024, 4096, 16384, 65536, 262144]"
definition ENVELOPE_KIND_REGULAR :: u8 where "ENVELOPE_KIND_REGULAR = 0"
definition ENVELOPE_KIND_INITIAL :: u8 where "ENVELOPE_KIND_INITIAL = 1"

lemmas pairwise_magic_defs =
  VERIFY_BUNDLE_MAGIC_def SENDER_PROJECTION_MAGIC_def STATE_MAGIC_def REPAIR_CONTROL_MAGIC_def
  REPAIR_AUTH_MAGIC_def PROBE_MAGIC_def REQUEST_MAGIC_def OUTPUT_MAGIC_def

lemmas pairwise_domain_defs =
  PURPOSE_def PQXDH_DOMAIN_def SEALED_SENDER_DOMAIN_def INIT_AUTH_DOMAIN_def ROOT_DOMAIN_def
  AEAD_DOMAIN_def STATE_AUTH_DOMAIN_def REPAIR_DOMAIN_def

lemmas pairwise_size_defs =
  REGULAR_HEADER_BYTES_def MAX_SKIPPED_PER_SESSION_def MAX_SKIPPED_ACCOUNT_def
  SENDER_BLOCK_WITHOUT_REPAIR_BYTES_def SENDER_BLOCK_REPAIR_BYTES_def REPAIR_CONTROL_BYTES_def

lemmas header_flag_defs =
  KNOWN_HEADER_FLAGS_def FLAG_INITIAL_def FLAG_CLASSICAL_ONE_TIME_def FLAG_PQ_ONE_TIME_def
  FLAG_REPAIR_REPLACEMENT_def

lemma length_pairwise_magic [simp]:
  "length VERIFY_BUNDLE_MAGIC = 8" "length SENDER_PROJECTION_MAGIC = 8" "length STATE_MAGIC = 8"
  "length REPAIR_CONTROL_MAGIC = 8" "length REPAIR_AUTH_MAGIC = 8" "length PROBE_MAGIC = 8"
  "length REQUEST_MAGIC = 8" "length OUTPUT_MAGIC = 8"
  by (simp_all add: pairwise_magic_defs)

lemma length_pairwise_domain [simp]:
  "length PURPOSE = 21" "length PQXDH_DOMAIN = 36" "length SEALED_SENDER_DOMAIN = 27"
  "length INIT_AUTH_DOMAIN = 23" "length ROOT_DOMAIN = 27" "length AEAD_DOMAIN = 27"
  "length STATE_AUTH_DOMAIN = 27" "length REPAIR_DOMAIN = 22"
  by (simp_all add: pairwise_domain_defs)

section \<open>Headers\<close>

record initial_header =
  ih_flags :: u8
  ih_session_id :: bytes
  ih_ratchet_public :: bytes
  ih_signed_prekey_id :: u32
  ih_one_time_prekey_id :: u32
  ih_pq_signed_prekey_id :: u32
  ih_pq_one_time_prekey_id :: u32
  ih_ephemeral_public :: bytes
  ih_pq_signed_ciphertext :: bytes
  ih_pq_one_time_ciphertext :: "bytes option"
  ih_sender_seal :: bytes

record regular_header =
  rh_session_id :: bytes
  rh_ratchet_public :: bytes
  rh_previous_chain_length :: u32
  rh_message_number :: u32

datatype ratchet_header =
    Initial initial_header
  | Regular regular_header

definition validate_optional_id :: "bool \<Rightarrow> u32 \<Rightarrow> unit cresult" where
  "validate_optional_id present i =
     (if (present \<and> i > KEY_ID_MAX) \<or> (\<not> present \<and> i \<noteq> ABSENT_PREKEY_ID) then Err MalformedInput
      else Ok ())"

text \<open>\<^verbatim>\<open>if present { Some(reader.array()?) } else { None }\<close>\<close>

definition reader_array_if :: "bool \<Rightarrow> nat \<Rightarrow> bytes option parser" where
  "reader_array_if present n =
     (if present then sbind (reader_array n) (\<lambda>value. ret (Some value)) else ret None)"

definition ratchet_header_fields :: "ratchet_header parser" where
  "ratchet_header_fields =
     sbind reader_u8 (\<lambda>version.
     sbind (slift (reject_if (version \<noteq> HEADER_VERSION) UnsupportedVersion)) (\<lambda>_.
     sbind reader_u8 (\<lambda>flags.
     sbind (slift (reject_if (flags AND NOT KNOWN_HEADER_FLAGS \<noteq> 0) MalformedInput)) (\<lambda>_.
     sbind (reader_array 16) (\<lambda>session_id.
     sbind (slift (reject_if (is_zero session_id) MalformedInput)) (\<lambda>_.
     sbind (reader_array 32) (\<lambda>ratchet_public.
     sbind reader_u32 (\<lambda>previous_chain_length.
     sbind reader_u32 (\<lambda>message_number.
     if flags = 0 then
       sbind finished (\<lambda>fin.
       sbind (slift (reject_if (\<not> fin) MalformedInput)) (\<lambda>_.
       ret (Regular \<lparr>rh_session_id = session_id, rh_ratchet_public = ratchet_public,
                     rh_previous_chain_length = previous_chain_length,
                     rh_message_number = message_number\<rparr>)))
     else
       sbind (slift (reject_if (flags AND FLAG_INITIAL = 0) MalformedInput)) (\<lambda>_.
       sbind reader_u32 (\<lambda>spk_raw.
       sbind (slift (valid_key_id spk_raw)) (\<lambda>signed_prekey_id.
       sbind reader_u32 (\<lambda>one_time_prekey_id.
       sbind reader_u32 (\<lambda>pq_spk_raw.
       sbind (slift (valid_key_id pq_spk_raw)) (\<lambda>pq_signed_prekey_id.
       sbind reader_u32 (\<lambda>pq_one_time_prekey_id.
       sbind (slift (validate_optional_id (flags AND FLAG_CLASSICAL_ONE_TIME \<noteq> 0) one_time_prekey_id)) (\<lambda>_.
       sbind (slift (validate_optional_id (flags AND FLAG_PQ_ONE_TIME \<noteq> 0) pq_one_time_prekey_id)) (\<lambda>_.
       sbind (slift (reject_if (flags AND FLAG_REPAIR_REPLACEMENT \<noteq> 0 \<and> flags AND FLAG_INITIAL = 0)
           MalformedInput)) (\<lambda>_.
       sbind (reader_array 32) (\<lambda>ephemeral_public.
       sbind (reader_array 1088) (\<lambda>pq_signed_ciphertext.
       sbind (reader_array_if (flags AND FLAG_PQ_ONE_TIME \<noteq> 0) 1088) (\<lambda>pq_one_time_ciphertext.
       sbind reader_u16 (\<lambda>sender_seal_length.
       sbind (reader_take (unat sender_seal_length)) (\<lambda>sender_seal.
       sbind finished (\<lambda>fin.
       sbind (slift (reject_if
           (\<not> fin \<or> previous_chain_length \<noteq> 0 \<or> message_number \<noteq> 0
            \<or> unat sender_seal_length \<noteq>
                (if flags AND FLAG_REPAIR_REPLACEMENT \<noteq> 0 then SENDER_BLOCK_REPAIR_BYTES + XCHACHA_ABYTES
                 else SENDER_BLOCK_WITHOUT_REPAIR_BYTES + XCHACHA_ABYTES)) MalformedInput)) (\<lambda>_.
       ret (Initial \<lparr>ih_flags = flags, ih_session_id = session_id, ih_ratchet_public = ratchet_public,
              ih_signed_prekey_id = signed_prekey_id, ih_one_time_prekey_id = one_time_prekey_id,
              ih_pq_signed_prekey_id = pq_signed_prekey_id, ih_pq_one_time_prekey_id = pq_one_time_prekey_id,
              ih_ephemeral_public = ephemeral_public, ih_pq_signed_ciphertext = pq_signed_ciphertext,
              ih_pq_one_time_ciphertext = pq_one_time_ciphertext, ih_sender_seal = sender_seal\<rparr>)))))))))))))))))))))))))))"

definition parse_ratchet_header :: "bytes \<Rightarrow> ratchet_header cresult" where
  "parse_ratchet_header encoded = run_parser ratchet_header_fields encoded"

definition initial_header_prefix ::
    "u8 \<Rightarrow> bytes \<Rightarrow> bytes \<Rightarrow> u32 \<Rightarrow> u32 \<Rightarrow> u32 \<Rightarrow> u32 \<Rightarrow> bytes \<Rightarrow> bytes \<Rightarrow> bytes option \<Rightarrow> bytes" where
  "initial_header_prefix flags session_id ratchet_public spk_id otk_id pq_spk_id pq_otk_id
     ephemeral_public pq_signed_ciphertext pq_one_time_ciphertext =
     [HEADER_VERSION] @ [flags] @ session_id @ ratchet_public @ u32_bytes 0 @ u32_bytes 0
     @ u32_bytes spk_id @ u32_bytes otk_id @ u32_bytes pq_spk_id @ u32_bytes pq_otk_id
     @ ephemeral_public @ pq_signed_ciphertext
     @ (case pq_one_time_ciphertext of Some ciphertext \<Rightarrow> ciphertext | None \<Rightarrow> [])"

section \<open>Envelopes\<close>

record envelope =
  en_header_bytes :: bytes
  en_header :: ratchet_header
  en_ciphertext :: bytes

text \<open>The part of the envelope up to the header; \<open>input_len\<close> is the length of the whole input.\<close>

definition envelope_header_bytes :: "nat \<Rightarrow> bytes parser" where
  "envelope_header_bytes input_len =
     sbind reader_u8 (\<lambda>version.
     sbind (slift (reject_if (version \<noteq> PROTOCOL_VERSION) UnsupportedVersion)) (\<lambda>_.
     sbind reader_u8 (\<lambda>suite.
     sbind (slift (reject_if (suite \<noteq> SUITE) UnsupportedVersion)) (\<lambda>_.
     sbind reader_u16 (\<lambda>header_len.
     sbind (slift (reject_if
         (unat header_len < REGULAR_HEADER_BYTES
          \<or> (case usize_checked_add (unat header_len) (4 + XCHACHA_ABYTES + 4) of
               None \<Rightarrow> True | Some minimum \<Rightarrow> minimum > input_len)) MalformedInput)) (\<lambda>_.
     reader_take (unat header_len)))))))"

definition parse_envelope :: "bytes \<Rightarrow> envelope cresult" where
  "parse_envelope input =
     (if length input \<notin> set ALLOWED_BUCKETS then Err MalformedInput
      else
        rbind (envelope_header_bytes (length input) (reader_new input)) (\<lambda>(header_bytes, r).
        rbind (reader_take (length input - reader_position r) r) (\<lambda>(ciphertext, r).
        rbind (parse_ratchet_header header_bytes) (\<lambda>header.
        Ok \<lparr>en_header_bytes = header_bytes, en_header = header, en_ciphertext = ciphertext\<rparr>))))"

definition inspect_public_header :: "bytes \<Rightarrow> (u8 \<times> bytes) cresult" where
  "inspect_public_header input =
     rbind (parse_envelope input) (\<lambda>envelope.
     Ok (case en_header envelope of
           Initial header \<Rightarrow> (ENVELOPE_KIND_INITIAL, ih_session_id header)
         | Regular header \<Rightarrow> (ENVELOPE_KIND_REGULAR, rh_session_id header)))"

section \<open>Key schedule\<close>

definition kdf_root :: "prims \<Rightarrow> bytes \<Rightarrow> bytes \<Rightarrow> (bytes \<times> bytes) cresult" where
  "kdf_root P root_key dh_output =
     rbind (hkdf_sha256 P root_key dh_output ROOT_DOMAIN 64) (\<lambda>output.
     rbind (fixed 32 (take 32 output)) (\<lambda>next_root.
     rbind (fixed 32 (drop 32 output)) (\<lambda>chain.
     Ok (next_root, chain))))"

definition chain_step :: "prims \<Rightarrow> bytes \<Rightarrow> (bytes \<times> bytes) cresult" where
  "chain_step P chain_key =
     rbind (hmac_sha256 P chain_key [0x01]) (\<lambda>message_key.
     rbind (hmac_sha256 P chain_key [0x02]) (\<lambda>next_chain.
     Ok (message_key, next_chain)))"

definition aead_material :: "prims \<Rightarrow> bytes \<Rightarrow> (bytes \<times> bytes) cresult" where
  "aead_material P message_key =
     rbind (hkdf_sha256 P (replicate 32 0) message_key AEAD_DOMAIN 56) (\<lambda>material.
     rbind (fixed 32 (take 32 material)) (\<lambda>key.
     rbind (fixed 24 (drop 32 material)) (\<lambda>nonce.
     Ok (key, nonce))))"

definition pqxdh_secret :: "prims \<Rightarrow> bytes \<Rightarrow> bytes cresult" where
  "pqxdh_secret P ikm =
     rbind (hkdf_sha256 P (replicate 32 0) ikm PQXDH_DOMAIN 32) (fixed 32)"

definition anonymous_material :: "prims \<Rightarrow> bytes \<Rightarrow> (bytes \<times> bytes) cresult" where
  "anonymous_material P ikm =
     rbind (hkdf_sha256 P (replicate 32 0) ikm SEALED_SENDER_DOMAIN 56) (\<lambda>material.
     rbind (fixed 32 (take 32 material)) (\<lambda>key.
     rbind (fixed 24 (drop 32 material)) (\<lambda>nonce.
     Ok (key, nonce))))"

definition device_probe_key :: "prims \<Rightarrow> bytes \<Rightarrow> bytes cresult" where
  "device_probe_key P identity_secret =
     rbind (hkdf_sha256 P (replicate 32 0) identity_secret SEALED_SENDER_DOMAIN 32) (fixed 32)"

section \<open>Associated data and signed input\<close>

definition envelope_aad :: "bytes \<Rightarrow> bytes \<Rightarrow> bytes cresult" where
  "envelope_aad recipient_device_id header =
     rbind (reserve [] (length PURPOSE + 1 + 1 + 16 + 2 + length header)) (\<lambda>_.
     rbind (ok_or (try_from_usize (length header)) InputTooLarge) (\<lambda>len.
     Ok (PURPOSE @ [PROTOCOL_VERSION] @ [SUITE] @ recipient_device_id @ u16_bytes len @ header)))"

definition sender_aad :: "bytes \<Rightarrow> bytes \<Rightarrow> nat \<Rightarrow> bytes cresult" where
  "sender_aad recipient_device_id header_prefix final_header_length =
     rbind (reserve [] (1 + 1 + 2 + length header_prefix + 16 + length PURPOSE)) (\<lambda>_.
     rbind (ok_or (try_from_usize final_header_length) InputTooLarge) (\<lambda>len.
     Ok ([PROTOCOL_VERSION] @ [SUITE] @ u16_bytes len @ header_prefix @ recipient_device_id @ PURPOSE)))"

definition init_signature_input :: "bytes \<Rightarrow> bytes \<Rightarrow> bytes \<Rightarrow> bytes cresult" where
  "init_signature_input recipient_device_id header_prefix sender_block_prefix =
     rbind (push_frame INIT_AUTH_DOMAIN [PROTOCOL_VERSION]) (\<lambda>output.
     rbind (push_frame output [SUITE]) (\<lambda>output.
     rbind (push_frame output PURPOSE) (\<lambda>output.
     rbind (push_frame output recipient_device_id) (\<lambda>output.
     rbind (push_frame output header_prefix) (\<lambda>output.
     push_frame output sender_block_prefix)))))"

section \<open>Sealing and opening an envelope\<close>

definition choose_bucket :: "nat \<Rightarrow> nat \<Rightarrow> nat cresult" where
  "choose_bucket header_len inner_len =
     rbind (ok_or (case usize_checked_add 4 header_len of
                     None \<Rightarrow> None
                   | Some v \<Rightarrow> (case usize_checked_add v (XCHACHA_ABYTES + 4) of
                       None \<Rightarrow> None
                     | Some v \<Rightarrow> usize_checked_add v inner_len)) InputTooLarge) (\<lambda>minimum.
     ok_or (find (\<lambda>bucket. bucket \<ge> minimum) ALLOWED_BUCKETS) InputTooLarge)"

definition encrypt_envelope :: "prims \<Rightarrow> bytes \<Rightarrow> bytes \<Rightarrow> bytes \<Rightarrow> bytes \<Rightarrow> bytes ent" where
  "encrypt_envelope P recipient_device_id header message_key inner =
     sbind (slift (choose_bucket (length header) (length inner))) (\<lambda>bucket.
     sbind (slift (ok_or (if 4 + length header + XCHACHA_ABYTES \<le> bucket
                          then Some (bucket - (4 + length header + XCHACHA_ABYTES)) else None)
              InternalFailure)) (\<lambda>plaintext_len.
     sbind (slift (ok_or (try_from_usize (length inner)) InputTooLarge)) (\<lambda>inner_len.
     sbind (random_bytes (plaintext_len - (4 + length inner))) (\<lambda>padding.
     let plaintext = u32_bytes inner_len @ inner @ padding in
     sbind (slift (aead_material P message_key)) (\<lambda>(key, nonce).
     sbind (slift (envelope_aad recipient_device_id header)) (\<lambda>aad.
     sbind (slift (secret_vec_input plaintext)) (\<lambda>plaintext.
     sbind (slift (xchacha20poly1305_encrypt P key nonce plaintext aad)) (\<lambda>ciphertext.
     sbind (slift (ok_or (try_from_usize (length header)) InputTooLarge)) (\<lambda>header_len.
     let output = [PROTOCOL_VERSION] @ [SUITE] @ u16_bytes header_len @ header @ ciphertext in
     if length output \<noteq> bucket then slift (Err InternalFailure) else ret output)))))))))"

definition decrypt_envelope :: "prims \<Rightarrow> bytes \<Rightarrow> envelope \<Rightarrow> bytes \<Rightarrow> bytes cresult" where
  "decrypt_envelope P recipient_device_id envelope message_key =
     rbind (aead_material P message_key) (\<lambda>(key, nonce).
     rbind (envelope_aad recipient_device_id (en_header_bytes envelope)) (\<lambda>aad.
     rbind (xchacha20poly1305_decrypt P key nonce (en_ciphertext envelope) aad) (\<lambda>plaintext.
     if length plaintext < 4 then Err AuthenticationFailed
     else
       rbind (fixed 4 (take 4 plaintext)) (\<lambda>prefix.
       rbind (ok_or (usize_checked_add 4 (unat (word_of_nat (be_value prefix) :: u32))) AuthenticationFailed)
         (\<lambda>stop.
       ok_or (if stop \<le> length plaintext then Some (take (stop - 4) (drop 4 plaintext)) else None)
         AuthenticationFailed)))))"

section \<open>The header format\<close>

definition flag_set :: "u8 \<Rightarrow> u8 \<Rightarrow> bool" where
  "flag_set flags flag \<longleftrightarrow> flags AND flag \<noteq> 0"

definition seal_length :: "u8 \<Rightarrow> nat" where
  "seal_length flags = (if flag_set flags FLAG_REPAIR_REPLACEMENT then 234 else 186)"

text \<open>The bytes of a header, and what the parser demands of one.\<close>

definition initial_prefix_of :: "initial_header \<Rightarrow> bytes" where
  "initial_prefix_of h =
     initial_header_prefix (ih_flags h) (ih_session_id h) (ih_ratchet_public h) (ih_signed_prekey_id h)
       (ih_one_time_prekey_id h) (ih_pq_signed_prekey_id h) (ih_pq_one_time_prekey_id h)
       (ih_ephemeral_public h) (ih_pq_signed_ciphertext h) (ih_pq_one_time_ciphertext h)"

fun header_bytes :: "ratchet_header \<Rightarrow> bytes" where
  "header_bytes (Initial h) =
     initial_prefix_of h @ u16_bytes (word_of_nat (length (ih_sender_seal h))) @ ih_sender_seal h"
| "header_bytes (Regular h) =
     [HEADER_VERSION] @ [0] @ rh_session_id h @ rh_ratchet_public h
     @ u32_bytes (rh_previous_chain_length h) @ u32_bytes (rh_message_number h)"

definition regular_header_wf :: "regular_header \<Rightarrow> bool" where
  "regular_header_wf h \<longleftrightarrow>
     length (rh_session_id h) = 16 \<and> \<not> is_zero (rh_session_id h) \<and> length (rh_ratchet_public h) = 32"

definition optional_id_wf :: "bool \<Rightarrow> u32 \<Rightarrow> bool" where
  "optional_id_wf present i \<longleftrightarrow> (if present then i \<le> KEY_ID_MAX else i = ABSENT_PREKEY_ID)"

definition initial_header_wf :: "initial_header \<Rightarrow> bool" where
  "initial_header_wf h \<longleftrightarrow>
     ih_flags h AND NOT KNOWN_HEADER_FLAGS = 0 \<and> flag_set (ih_flags h) FLAG_INITIAL
     \<and> length (ih_session_id h) = 16 \<and> \<not> is_zero (ih_session_id h)
     \<and> length (ih_ratchet_public h) = 32
     \<and> ih_signed_prekey_id h \<le> KEY_ID_MAX \<and> ih_pq_signed_prekey_id h \<le> KEY_ID_MAX
     \<and> optional_id_wf (flag_set (ih_flags h) FLAG_CLASSICAL_ONE_TIME) (ih_one_time_prekey_id h)
     \<and> optional_id_wf (flag_set (ih_flags h) FLAG_PQ_ONE_TIME) (ih_pq_one_time_prekey_id h)
     \<and> length (ih_ephemeral_public h) = 32 \<and> length (ih_pq_signed_ciphertext h) = 1088
     \<and> (ih_pq_one_time_ciphertext h \<noteq> None \<longleftrightarrow> flag_set (ih_flags h) FLAG_PQ_ONE_TIME)
     \<and> (\<forall>c. ih_pq_one_time_ciphertext h = Some c \<longrightarrow> length c = 1088)
     \<and> length (ih_sender_seal h) = seal_length (ih_flags h)"

fun header_wf :: "ratchet_header \<Rightarrow> bool" where
  "header_wf (Initial h) = initial_header_wf h"
| "header_wf (Regular h) = regular_header_wf h"

lemma validate_optional_id_Ok_iff [simp]:
  "validate_optional_id present i = Ok u \<longleftrightarrow> optional_id_wf present i"
  by (auto simp: validate_optional_id_def optional_id_wf_def)

definition optional_bytes :: "bytes option \<Rightarrow> bytes" where
  "optional_bytes v = (case v of Some b \<Rightarrow> b | None \<Rightarrow> [])"

interpretation array_if_codec:
  codec "reader_array_if present n" optional_bytes
    "\<lambda>v. (v \<noteq> None \<longleftrightarrow> present) \<and> (\<forall>b. v = Some b \<longrightarrow> length b = n)" for present n
proof unfold_locales
  show "reads (reader_array_if present n) (optional_bytes v) v"
    if "(v \<noteq> None \<longleftrightarrow> present) \<and> (\<forall>b. v = Some b \<longrightarrow> length b = n)" for v
    unfolding reader_array_if_def optional_bytes_def
    by (cases v) (use that in \<open>auto intro!: reads_last [OF array_codec.bind_reads] reads_ret\<close>)
  show "sound (reader_array_if present n)
      (\<lambda>bs v. ((v \<noteq> None \<longleftrightarrow> present) \<and> (\<forall>b. v = Some b \<longrightarrow> length b = n)) \<and> bs = optional_bytes v)"
    unfolding reader_array_if_def optional_bytes_def by (intro sound_intros) auto
qed

lemma known_flags_zero: "flags AND FLAG_INITIAL \<noteq> 0 \<Longrightarrow> flags \<noteq> 0"
  by auto

lemma seal_length_u16: "unat (word_of_nat (seal_length flags) :: u16) = seal_length flags"
  by (simp add: seal_length_def)

interpretation header_codec: whole_codec ratchet_header_fields header_bytes header_wf
proof unfold_locales
  show "reads_to_end ratchet_header_fields (header_bytes h) h" if "header_wf h" for h
  proof (cases h)
    case (Regular r)
    with that have wf: "regular_header_wf r" by simp
    show ?thesis
      unfolding ratchet_header_fields_def Regular header_bytes.simps
      by (rule reads_to_end_last, simp only: append_assoc, intro ends_intros)
        (use wf in \<open>auto simp: regular_header_wf_def intro!: ends_intros\<close>)
  next
    case (Initial i)
    have prefix: "header_bytes h = [HEADER_VERSION] @ [ih_flags i] @ ih_session_id i @ ih_ratchet_public i
      @ u32_bytes 0 @ u32_bytes 0 @ u32_bytes (ih_signed_prekey_id i) @ u32_bytes (ih_one_time_prekey_id i)
      @ u32_bytes (ih_pq_signed_prekey_id i) @ u32_bytes (ih_pq_one_time_prekey_id i)
      @ ih_ephemeral_public i @ ih_pq_signed_ciphertext i @ optional_bytes (ih_pq_one_time_ciphertext i)
      @ u16_bytes (word_of_nat (length (ih_sender_seal i))) @ ih_sender_seal i @ []"
      by (simp add: Initial initial_prefix_of_def initial_header_prefix_def optional_bytes_def)
    have wf: "initial_header_wf i" "ih_flags i \<noteq> 0" "length (ih_sender_seal i) < 65536"
      using that by (auto simp: Initial initial_header_wf_def flag_set_def seal_length_def)
    show ?thesis
      unfolding ratchet_header_fields_def prefix unfolding Initial
      by (intro ends_intros)
        (use wf in \<open>auto simp: initial_header_wf_def flag_set_def seal_length_def pairwise_size_defs
          XCHACHA_ABYTES_def\<close>)
  qed
  show "sound_to_end ratchet_header_fields (\<lambda>bs h. header_wf h \<and> bs = header_bytes h)"
    unfolding ratchet_header_fields_def
    by (intro sound_end_intros)
      (auto simp: regular_header_wf_def initial_header_wf_def initial_prefix_of_def
        initial_header_prefix_def flag_set_def seal_length_def pairwise_size_defs XCHACHA_ABYTES_def
        optional_bytes_def u16_bytes_def)
qed

section \<open>The envelope format\<close>

definition envelope_wire :: "bytes \<Rightarrow> bytes \<Rightarrow> bytes" where
  "envelope_wire header ciphertext =
     [PROTOCOL_VERSION] @ [SUITE] @ u16_bytes (word_of_nat (length header)) @ header @ ciphertext"

lemma length_envelope_wire [simp]: "length (envelope_wire h c) = 4 + length h + length c"
  by (simp add: envelope_wire_def)

definition envelope_header_wf :: "nat \<Rightarrow> bytes \<Rightarrow> bool" where
  "envelope_header_wf n h \<longleftrightarrow> 58 \<le> length h \<and> length h < 65536 \<and> length h + 24 \<le> n"

interpretation envelope_header_codec:
  codec "envelope_header_bytes n"
    "\<lambda>h. [PROTOCOL_VERSION] @ [SUITE] @ u16_bytes (word_of_nat (length h)) @ h" "envelope_header_wf n" for n
proof unfold_locales
  show "reads (envelope_header_bytes n)
      ([PROTOCOL_VERSION] @ [SUITE] @ u16_bytes (word_of_nat (length h)) @ h) h"
    if "envelope_header_wf n h" for h
    unfolding envelope_header_bytes_def
    by (rule reads_last, simp only: append_assoc, intro reads_intros)
      (use that in \<open>auto simp: envelope_header_wf_def REGULAR_HEADER_BYTES_def XCHACHA_ABYTES_def
        usize_checked_add_def\<close>)
  have wf: "envelope_header_wf n h" if "length h = unat len" and
      "\<not> (unat len < REGULAR_HEADER_BYTES \<or> (case usize_checked_add (unat len) (4 + XCHACHA_ABYTES + 4) of
         None \<Rightarrow> True | Some minimum \<Rightarrow> minimum > n))" for h :: bytes and len :: u16
    using that unat_u16_bound [of len]
    by (auto simp: envelope_header_wf_def REGULAR_HEADER_BYTES_def XCHACHA_ABYTES_def
        usize_checked_add_def split: if_splits)
  show "sound (envelope_header_bytes n)
      (\<lambda>bs h. envelope_header_wf n h \<and> bs = [PROTOCOL_VERSION] @ [SUITE] @ u16_bytes (word_of_nat (length h)) @ h)"
    unfolding envelope_header_bytes_def
    by (intro sound_intros) (auto intro: wf)
qed

text \<open>What an accepted envelope is: its bytes are determined by the header and the ciphertext, and back.\<close>

lemma parse_envelope_Ok_iff:
  "parse_envelope bs = Ok e \<longleftrightarrow>
     length bs \<in> set ALLOWED_BUCKETS \<and> bs = envelope_wire (en_header_bytes e) (en_ciphertext e)
     \<and> envelope_header_wf (length bs) (en_header_bytes e)
     \<and> header_wf (en_header e) \<and> en_header_bytes e = header_bytes (en_header e)"
  (is "_ \<longleftrightarrow> ?rhs")
proof
  assume "parse_envelope bs = Ok e"
  then obtain hb r ct r' where bucket: "length bs \<in> set ALLOWED_BUCKETS"
    and hb: "envelope_header_bytes (length bs) (reader_new bs) = Ok (hb, r)"
    and ct: "reader_take (length bs - reader_position r) r = Ok (ct, r')"
    and h: "parse_ratchet_header hb = Ok (en_header e)"
    and e: "en_header_bytes e = hb" "en_ciphertext e = ct"
    by (auto simp: parse_envelope_def elim!: monad_elims split: if_splits)
  have len: "length bs < 2 ^ 64" using bucket by (auto simp: ALLOWED_BUCKETS_def)
  obtain pre where "unread (reader_new bs) = pre @ unread r" "r = advance (length pre) (reader_new bs)"
      "envelope_header_wf (length bs) hb
       \<and> pre = [PROTOCOL_VERSION] @ [SUITE] @ u16_bytes (word_of_nat (length hb)) @ hb"
    by (rule soundD [OF envelope_header_codec.parse_sound reader_ok_new [OF len] hb])
  then have pre: "bs = pre @ unread r" "r = advance (length pre) (reader_new bs)"
      "envelope_header_wf (length bs) hb"
      "pre = [PROTOCOL_VERSION] @ [SUITE] @ u16_bytes (word_of_nat (length hb)) @ hb"
    by simp_all
  have "reader_position r = length pre"
    by (simp add: pre(2) advance_def reader_new_def reader_position_def)
  moreover have "length (unread r) = length bs - length pre"
    by (subst pre(1)) simp
  ultimately have "ct = unread r"
    using ct by (auto simp: reader_take_def unread_def reader_position_def split: option.splits if_splits)
  moreover have "length hb < 2 ^ 64" using pre(3) by (simp add: envelope_header_wf_def)
  from header_codec.run_iff [OF this] h have "header_wf (en_header e) \<and> hb = header_bytes (en_header e)"
    by (simp add: parse_ratchet_header_def)
  ultimately show ?rhs
    using bucket pre(1,3,4) by (simp add: e envelope_wire_def)
next
  assume r: ?rhs
  then have len: "length bs < 2 ^ 64" by (auto simp: ALLOWED_BUCKETS_def)
  let ?hb = "en_header_bytes e"
  let ?pre = "[PROTOCOL_VERSION] @ [SUITE] @ u16_bytes (word_of_nat (length ?hb)) @ ?hb"
  let ?r = "advance (length ?pre) (reader_new bs)"
  have bs: "bs = ?pre @ en_ciphertext e" and wf: "envelope_header_wf (length bs) ?hb"
    using r unfolding envelope_wire_def append_assoc by blast+
  have "unread (reader_new bs) = ?pre @ en_ciphertext e"
    unfolding unread_new by (rule bs)
  from readsD [OF envelope_header_codec.parse_enc [OF wf] reader_ok_new [OF len] this]
  have "envelope_header_bytes (length bs) (reader_new bs) = Ok (?hb, ?r)" .
  moreover from bs have "length bs = length ?pre + length (en_ciphertext e)"
    and "drop (length ?pre) bs = en_ciphertext e"
    by (metis length_append, metis append_eq_conv_conj)
  then have "\<exists>r'. reader_take (length bs - reader_position ?r) ?r = Ok (en_ciphertext e, r')"
    using len by (simp add: reader_take_def advance_def reader_new_def reader_position_def usize_checked_add_def)
  moreover have "length ?hb < 2 ^ 64" using wf by (simp add: envelope_header_wf_def)
  then have "parse_ratchet_header ?hb = Ok (en_header e)"
    using r header_codec.run_iff by (simp add: parse_ratchet_header_def)
  ultimately show "parse_envelope bs = Ok e"
    using r by (auto simp: parse_envelope_def)
qed

section \<open>The key schedule is total\<close>

lemma hkdf_total:
  assumes "sized_prims P" and "length salt \<le> MAX_INPUT_BYTES" and "length ikm \<le> MAX_INPUT_BYTES"
    and "length info \<le> MAX_INPUT_BYTES" and "n \<le> 8160"
  obtains out where "hkdf_sha256 P salt ikm info n = Ok out" and "length out = n"
proof -
  obtain out where "hkdf256_raw P salt ikm info n = Some out" "length out = n"
    by (rule sized_prims_hkdf [OF assms(1), of n]) (use assms(5) in auto)
  with assms that show thesis by (simp add: hkdf_sha256_def MAX_INPUT_BYTES_def)
qed

lemma hmac_total:
  assumes "sized_prims P" and "length k \<le> MAX_INPUT_BYTES" and "length m \<le> MAX_INPUT_BYTES"
  obtains t where "hmac_sha256 P k m = Ok t" and "length t = 32"
proof -
  obtain t where "hmac256_raw P k m = Some t" "length t = 32" by (rule sized_prims_hmac [OF assms(1)])
  with assms that show thesis by (simp add: hmac_sha256_def)
qed

lemma hmac_length: "sized_prims P \<Longrightarrow> hmac_sha256 P k m = Ok t \<Longrightarrow> length t = 32"
  using sized_prims_hmac [of P k m] by (auto simp: hmac_sha256_def split: if_splits)

lemma kdf_root_total:
  assumes "sized_prims P" and "length root = 32" and "length dh = 32"
  obtains r c where "kdf_root P root dh = Ok (r, c)" and "length r = 32" and "length c = 32"
proof -
  obtain out where "hkdf_sha256 P root dh ROOT_DOMAIN 64 = Ok out" "length out = 64"
    by (rule hkdf_total [OF assms(1), of root dh ROOT_DOMAIN 64])
      (simp_all add: assms MAX_INPUT_BYTES_def)
  with that show thesis by (simp add: kdf_root_def fixed_def)
qed

lemma kdf_root_lengths: "kdf_root P root dh = Ok (r, c) \<Longrightarrow> length r = 32 \<and> length c = 32"
  by (auto simp: kdf_root_def elim!: monad_elims)

lemma chain_step_total:
  assumes "sized_prims P" and "length k = 32"
  obtains m c where "chain_step P k = Ok (m, c)" and "length m = 32" and "length c = 32"
proof -
  obtain m where "hmac_sha256 P k [1] = Ok m" "length m = 32"
    by (rule hmac_total [OF assms(1), of k "[1]"]) (simp_all add: assms MAX_INPUT_BYTES_def)
  moreover obtain c where "hmac_sha256 P k [2] = Ok c" "length c = 32"
    by (rule hmac_total [OF assms(1), of k "[2]"]) (simp_all add: assms MAX_INPUT_BYTES_def)
  ultimately show thesis using that by (simp add: chain_step_def)
qed

lemma chain_step_lengths:
  "sized_prims P \<Longrightarrow> chain_step P k = Ok (m, c) \<Longrightarrow> length m = 32 \<and> length c = 32"
  by (auto simp: chain_step_def hmac_length elim!: monad_elims)

lemma aead_material_total:
  assumes "sized_prims P" and "length k = 32"
  obtains key nonce where "aead_material P k = Ok (key, nonce)"
proof -
  obtain out where "hkdf_sha256 P (replicate 32 0) k AEAD_DOMAIN 56 = Ok out" "length out = 56"
    by (rule hkdf_total [OF assms(1), of "replicate 32 0" k AEAD_DOMAIN 56])
      (simp_all add: assms MAX_INPUT_BYTES_def)
  with that show thesis by (simp add: aead_material_def fixed_def)
qed

lemma anonymous_material_total:
  assumes "sized_prims P" and "length ikm \<le> MAX_INPUT_BYTES"
  obtains key nonce where "anonymous_material P ikm = Ok (key, nonce)"
proof -
  obtain out where "hkdf_sha256 P (replicate 32 0) ikm SEALED_SENDER_DOMAIN 56 = Ok out" "length out = 56"
    by (rule hkdf_total [OF assms(1), of "replicate 32 0" ikm SEALED_SENDER_DOMAIN 56])
      (use assms in \<open>simp_all add: MAX_INPUT_BYTES_def\<close>)
  with that show thesis by (simp add: anonymous_material_def fixed_def)
qed

lemma pqxdh_secret_total:
  assumes "sized_prims P" and "length ikm \<le> MAX_INPUT_BYTES"
  obtains k where "pqxdh_secret P ikm = Ok k" and "length k = 32"
proof -
  obtain out where "hkdf_sha256 P (replicate 32 0) ikm PQXDH_DOMAIN 32 = Ok out" "length out = 32"
    by (rule hkdf_total [OF assms(1), of "replicate 32 0" ikm PQXDH_DOMAIN 32])
      (use assms in \<open>simp_all add: MAX_INPUT_BYTES_def\<close>)
  with that show thesis by (simp add: pqxdh_secret_def fixed_def)
qed

lemma device_probe_key_total:
  assumes "sized_prims P" and "length s = 32"
  obtains k where "device_probe_key P s = Ok k" and "length k = 32"
proof -
  obtain out where "hkdf_sha256 P (replicate 32 0) s SEALED_SENDER_DOMAIN 32 = Ok out" "length out = 32"
    by (rule hkdf_total [OF assms(1), of "replicate 32 0" s SEALED_SENDER_DOMAIN 32])
      (use assms in \<open>simp_all add: MAX_INPUT_BYTES_def\<close>)
  with that show thesis by (simp add: device_probe_key_def fixed_def)
qed

section \<open>Buckets\<close>

lemma choose_bucket_Ok_iff:
  assumes "h < 2 ^ 32" and "i < 2 ^ 32"
  shows "choose_bucket h i = Ok b \<longleftrightarrow>
     b \<in> set ALLOWED_BUCKETS \<and> 24 + h + i \<le> b \<and> (\<forall>b' \<in> set ALLOWED_BUCKETS. 24 + h + i \<le> b' \<longrightarrow> b \<le> b')"
proof -
  have "choose_bucket h i = ok_or (find (\<lambda>bucket. bucket \<ge> 24 + h + i) ALLOWED_BUCKETS) InputTooLarge"
    using assms by (simp add: choose_bucket_def usize_checked_add_def XCHACHA_ABYTES_def algebra_simps)
  then show ?thesis by (auto simp: ALLOWED_BUCKETS_def split: if_splits)
qed

lemma choose_bucket_total:
  assumes "24 + h + i \<le> 262144"
  obtains b where "choose_bucket h i = Ok b" and "b \<in> set ALLOWED_BUCKETS" and "24 + h + i \<le> b"
proof -
  have "choose_bucket h i = ok_or (find (\<lambda>bucket. bucket \<ge> 24 + h + i) ALLOWED_BUCKETS) InputTooLarge"
    using assms by (simp add: choose_bucket_def usize_checked_add_def XCHACHA_ABYTES_def algebra_simps)
  with assms that show thesis by (auto simp: ALLOWED_BUCKETS_def split: if_splits)
qed

section \<open>Sealing and opening\<close>

lemma envelope_aad_total:
  assumes "length header < 65536"
  shows "envelope_aad recipient header =
     Ok (PURPOSE @ [PROTOCOL_VERSION] @ [SUITE] @ recipient @ u16_bytes (word_of_nat (length header)) @ header)"
  using assms by (simp add: envelope_aad_def reserve_def usize_checked_add_def MAX_INPUT_BYTES_def)

text \<open>What a sealed envelope looks like and that it opens to the sealed text.\<close>

lemma encrypt_envelope_Ok:
  assumes P: "sized_prims P" "aead_correct P" and key: "length message_key = 32"
    and recipient: "length recipient = 16"
    and run: "encrypt_envelope P recipient header message_key inner tape = Ok (out, tape')"
  obtains ct where "out = envelope_wire header ct" and "length header < 65536"
    and "choose_bucket (length header) (length inner) = Ok (length out)"
    and "\<And>e. en_header_bytes e = header \<Longrightarrow> en_ciphertext e = ct \<Longrightarrow>
          decrypt_envelope P recipient e message_key = Ok inner"
proof -
  from run obtain bucket inner_len padding k n aad ct header_len where
    bucket: "choose_bucket (length header) (length inner) = Ok bucket"
    and inner_len: "try_from_usize (length inner) = Some inner_len"
    and material: "aead_material P message_key = Ok (k, n)"
    and aad: "envelope_aad recipient header = Ok aad"
    and len: "length (u32_bytes inner_len @ inner @ padding) \<le> MAX_INPUT_BYTES"
    and ct: "xchacha20poly1305_encrypt P k n (u32_bytes inner_len @ inner @ padding) aad = Ok ct"
    and header_len: "try_from_usize (length header) = Some header_len"
    and out: "out = [PROTOCOL_VERSION] @ [SUITE] @ u16_bytes header_len @ header @ ct" "length out = bucket"
    by (auto simp: encrypt_envelope_def Let_def ret_apply secret_vec_Ok_iff elim!: monad_elims
        split: if_splits)
  have h: "length header < 65536" "header_len = word_of_nat (length header)"
    using header_len by (auto simp: try_from_usize_def split: if_splits)
  let ?pt = "u32_bytes inner_len @ inner @ padding"
  have pt: "length ?pt + 16 \<le> MAX_INPUT_BYTES" "length aad \<le> MAX_INPUT_BYTES"
    using ct by (auto simp: xchacha20poly1305_encrypt_def bounded_bytes_new_Ok_iff usize_checked_add_def
        XCHACHA_ABYTES_def elim!: monad_elims split: if_splits)
  obtain ct' where "xchacha20poly1305_encrypt P k n ?pt aad = Ok ct'"
      and dec: "xchacha20poly1305_decrypt P k n ct' aad = Ok ?pt"
    by (rule xchacha_round_trip [OF P(2) pt])
  with ct have "ct' = ct" by simp
  have unat_len: "unat inner_len = length inner" by (rule try_from_usize_unat [OF inner_len])
  have "word_of_nat (be_value (u32_bytes inner_len)) = inner_len"
    using unat_u32_bound [of inner_len] by (simp add: u32_bytes_def be_value_be_bytes)
  then have "decrypt_envelope P recipient e message_key = Ok inner"
    if "en_header_bytes e = header" "en_ciphertext e = ct" for e
    using that material aad dec pt(1) unat_len
    by (simp add: decrypt_envelope_def \<open>ct' = ct\<close> usize_checked_add_def MAX_INPUT_BYTES_def fixed_def)
  then show thesis
    using h out bucket by (intro that) (auto simp: envelope_wire_def)
qed

lemma encrypt_envelope_total:
  assumes P: "sized_prims P" "aead_correct P" and key: "length message_key = 32"
    and recipient: "length recipient = 16"
    and fits: "24 + length header + length inner \<le> 262144" and header: "length header < 65536"
    and tape: "262144 \<le> length tape"
  shows "\<exists>out tape'. encrypt_envelope P recipient header message_key inner tape = Ok (out, tape')"
proof -
  obtain bucket where bucket: "choose_bucket (length header) (length inner) = Ok bucket"
    "bucket \<in> set ALLOWED_BUCKETS" "24 + length header + length inner \<le> bucket"
    by (rule choose_bucket_total [OF fits])
  obtain k n where material: "aead_material P message_key = Ok (k, n)"
    by (rule aead_material_total [OF P(1) key])
  let ?aad = "PURPOSE @ [PROTOCOL_VERSION] @ [SUITE] @ recipient @ u16_bytes (word_of_nat (length header)) @ header"
  have aad: "envelope_aad recipient header = Ok ?aad" by (rule envelope_aad_total [OF header])
  have le: "bucket \<le> 262144" using bucket(2) by (auto simp: ALLOWED_BUCKETS_def)
  let ?pad = "bucket - (4 + length header + 16) - (4 + length inner)"
  obtain padding rest where pad: "tape = padding @ rest" "length padding = ?pad"
    by (rule split_atE [of ?pad tape]) (use tape le in linarith)
  let ?pt = "u32_bytes (word_of_nat (length inner)) @ inner @ padding"
  have len: "length ?pt + 16 \<le> MAX_INPUT_BYTES" "length ?aad \<le> MAX_INPUT_BYTES"
    using bucket(3) le pad(2) header recipient by (simp_all add: MAX_INPUT_BYTES_def)
  obtain ct where "xchacha20poly1305_encrypt P k n ?pt ?aad = Ok ct" "length ct = length ?pt + 16"
    by (rule xchacha_round_trip [OF P(2) len])
  moreover have "random_bytes ?pad tape = Ok (padding, rest)"
    using pad le by (simp add: random_bytes_Ok_iff MAX_INPUT_BYTES_def)
  ultimately show ?thesis
    using bucket material aad len fits header pad
    by (simp add: encrypt_envelope_def Let_def XCHACHA_ABYTES_def sbind_Ok secret_vec_input_def
        secret_vec_from_slice_def ret_apply) arith
qed

lemma encrypt_envelope_tape:
  assumes "encrypt_envelope P recipient header message_key inner tape = Ok (out, tape')"
  shows "length tape \<le> length tape' + 262144"
proof -
  from assms have "\<exists>bucket n padding. choose_bucket (length header) (length inner) = Ok bucket
      \<and> random_bytes n tape = Ok (padding, tape') \<and> n \<le> bucket"
    by (auto simp: encrypt_envelope_def Let_def ret_apply elim!: monad_elims split: if_splits)
      (rule exI, rule conjI, rule exI, assumption, simp)
  then obtain bucket n padding where bucket: "choose_bucket (length header) (length inner) = Ok bucket"
    and pad: "random_bytes n tape = Ok (padding, tape')" "n \<le> bucket" by blast
  have "bucket \<in> set ALLOWED_BUCKETS"
    using bucket by (auto simp: choose_bucket_def find_Some_iff elim!: monad_elims split: option.splits if_splits)
  then have "bucket \<le> 262144" by (auto simp: ALLOWED_BUCKETS_def)
  with pad show ?thesis by (auto simp: random_bytes_Ok_iff)
qed

lemma header_length:
  assumes "header_wf h"
  shows "58 \<le> length (header_bytes h) \<and> length (header_bytes h) \<le> 2560"
    and "h = Regular r \<Longrightarrow> length (header_bytes h) = 58"
proof -
  show "58 \<le> length (header_bytes h) \<and> length (header_bytes h) \<le> 2560"
    using assms
    by (cases h) (auto simp: regular_header_wf_def initial_header_wf_def initial_prefix_of_def
        initial_header_prefix_def seal_length_def split: option.splits)
  show "h = Regular r \<Longrightarrow> length (header_bytes h) = 58"
    using assms by (simp add: regular_header_wf_def)
qed

lemma sealed_envelope_parses:
  assumes P: "sized_prims P" "aead_correct P" and key: "length message_key = 32" "length recipient = 16"
    and h: "header_wf h"
    and run: "encrypt_envelope P recipient (header_bytes h) message_key inner tape = Ok (out, tape')"
  obtains ct where "parse_envelope out =
      Ok \<lparr>en_header_bytes = header_bytes h, en_header = h, en_ciphertext = ct\<rparr>"
    and "decrypt_envelope P recipient \<lparr>en_header_bytes = header_bytes h, en_header = h, en_ciphertext = ct\<rparr>
      message_key = Ok inner"
    and "choose_bucket (length (header_bytes h)) (length inner) = Ok (length out)"
    and "length out \<in> set ALLOWED_BUCKETS"
proof -
  from encrypt_envelope_Ok [OF P key run] obtain ct where
    out: "out = envelope_wire (header_bytes h) ct" "length (header_bytes h) < 65536"
      "choose_bucket (length (header_bytes h)) (length inner) = Ok (length out)"
    and dec: "\<And>e. en_header_bytes e = header_bytes h \<Longrightarrow> en_ciphertext e = ct \<Longrightarrow>
        decrypt_envelope P recipient e message_key = Ok inner"
    by metis
  have "length out \<in> set ALLOWED_BUCKETS \<and> 24 + length (header_bytes h) \<le> length out"
    using out(3) by (auto simp: choose_bucket_def usize_checked_add_def XCHACHA_ABYTES_def find_Some_iff
        elim!: monad_elims split: option.splits if_splits)
  then have "parse_envelope out = Ok \<lparr>en_header_bytes = header_bytes h, en_header = h, en_ciphertext = ct\<rparr>"
    using header_length(1) [OF h] h out(1)
    unfolding parse_envelope_Ok_iff envelope_header_wf_def by simp
  with that dec out(3) \<open>length out \<in> set ALLOWED_BUCKETS \<and> _\<close> show thesis by simp
qed

section \<open>Properties of the wire format\<close>

text \<open>
  The envelope format is exact. The parser accepts a byte string exactly when it is the framing of
  a well-formed header and a ciphertext whose total is one of the five bucket sizes, and it returns
  that header and ciphertext; every field constraint of both header kinds (known flags,
  identifiers in range or absent, ciphertext present exactly when flagged, seal length) is part of
  the well-formedness.
\<close>

theorem envelope_format_exact:
  "parse_envelope bs = Ok e \<longleftrightarrow>
     (\<exists>h ct. header_wf h \<and> bs = envelope_wire (header_bytes h) ct
        \<and> length bs \<in> set ALLOWED_BUCKETS \<and> length (header_bytes h) + 24 \<le> length bs
        \<and> e = \<lparr>en_header_bytes = header_bytes h, en_header = h, en_ciphertext = ct\<rparr>)"
proof -
  have "envelope_header_wf n (header_bytes h) \<longleftrightarrow> length (header_bytes h) + 24 \<le> n" if "header_wf h" for h n
    using header_length(1) [OF that] by (auto simp: envelope_header_wf_def)
  then show ?thesis
    unfolding parse_envelope_Ok_iff by (cases e) auto
qed

text \<open>
  C26: sealing and opening are inverse. An envelope sealed under a message key for a recipient parses
  back to the same header, opens under the same key to exactly the sealed bytes, and its
  length is the smallest bucket that holds header, text, tag and framing.
\<close>

theorem sealed_envelope_opens:
  assumes "sized_prims P" and "aead_correct P" and "length message_key = 32" and "length recipient = 16"
    and "header_wf h" and "length inner < 2 ^ 32"
    and "encrypt_envelope P recipient (header_bytes h) message_key inner tape = Ok (out, tape')"
  shows "(\<exists>e. parse_envelope out = Ok e \<and> en_header e = h
        \<and> decrypt_envelope P recipient e message_key = Ok inner)
     \<and> length out \<in> set ALLOWED_BUCKETS \<and> 24 + length (header_bytes h) + length inner \<le> length out
     \<and> (\<forall>b \<in> set ALLOWED_BUCKETS. 24 + length (header_bytes h) + length inner \<le> b \<longrightarrow> length out \<le> b)"
proof -
  have h: "length (header_bytes h) < 2 ^ 32" using header_length(1) [OF assms(5)] by simp
  obtain ct where "parse_envelope out =
      Ok \<lparr>en_header_bytes = header_bytes h, en_header = h, en_ciphertext = ct\<rparr>"
    "decrypt_envelope P recipient \<lparr>en_header_bytes = header_bytes h, en_header = h, en_ciphertext = ct\<rparr>
      message_key = Ok inner"
    "choose_bucket (length (header_bytes h)) (length inner) = Ok (length out)"
    by (rule sealed_envelope_parses [OF assms(1-5,7)])
  then show ?thesis
    unfolding choose_bucket_Ok_iff [OF h assms(6)] by auto
qed

definition sample_header :: ratchet_header where
  "sample_header = Regular \<lparr>rh_session_id = replicate 16 1, rh_ratchet_public = replicate 32 2,
     rh_previous_chain_length = 0, rh_message_number = 5\<rparr>"

lemma sample_header_wf: "header_wf sample_header"
  by (simp add: sample_header_def regular_header_wf_def is_zero_def list_all_iff)

theorem sealed_envelope_opens_witness:
  "\<exists>out rest e. encrypt_envelope example_prims (replicate 16 9) (header_bytes sample_header) (replicate 32 3)
       [1, 2, 3] (replicate 262144 0) = Ok (out, rest)
     \<and> length out = 1024 \<and> parse_envelope out = Ok e
     \<and> decrypt_envelope example_prims (replicate 16 9) e (replicate 32 3) = Ok [1, 2, 3]"
proof -
  have len: "length (header_bytes sample_header) = 58"
    by (simp add: sample_header_def)
  obtain out rest where
    run: "encrypt_envelope example_prims (replicate 16 9) (header_bytes sample_header) (replicate 32 3)
       [1, 2, 3] (replicate 262144 0) = Ok (out, rest)"
    using encrypt_envelope_total [OF example_sized example_aead, of "replicate 32 3" "replicate 16 9"
        "header_bytes sample_header" "[1, 2, 3]" "replicate 262144 0"] len
    by auto
  from sealed_envelope_opens [OF example_sized example_aead _ _ sample_header_wf _ run]
  obtain e where "parse_envelope out = Ok e"
    "decrypt_envelope example_prims (replicate 16 9) e (replicate 32 3) = Ok [1, 2, 3]"
    "length out \<in> set ALLOWED_BUCKETS" "\<forall>b \<in> set ALLOWED_BUCKETS. 85 \<le> b \<longrightarrow> length out \<le> b"
    by (auto simp: len)
  moreover from this have "length out = 1024" by (auto simp: ALLOWED_BUCKETS_def)
  ultimately show ?thesis using run by blast
qed

end
