(* ===== verification/Pairwise_Ratchet.thy ===== *)
theory Pairwise_Ratchet
  imports Pairwise_Wire
begin

text \<open>
  The double ratchet of \<^verbatim>\<open>pairwise.rs\<close>: the session state and its stored format, encryption, the
  bounded skipping of message keys, decryption in and out of order, and the repair control
  messages. The proofs about the stored format are here; those about the conversation of two
  sessions are in \<open>Ratchet_Conversation\<close>.
\<close>

unbundle bit_operations_syntax

section \<open>State\<close>

record skipped_key =
  sk_ratchet_public :: bytes
  sk_message_number :: u32
  sk_message_key :: bytes

record ratchet_state =
  rs_session_id :: bytes
  rs_local_device_id :: bytes
  rs_remote_device_id :: bytes
  rs_initiator_device_id :: bytes
  rs_transcript_hash :: bytes
  rs_primary :: bool
  rs_receive_only :: bool
  rs_root_key :: bytes
  rs_sending_chain :: "bytes option"
  rs_receiving_chain :: "bytes option"
  rs_local_ratchet_secret :: bytes
  rs_local_ratchet_public :: bytes
  rs_remote_ratchet_public :: bytes
  rs_send_count :: u32
  rs_receive_count :: u32
  rs_previous_send_count :: u32
  rs_skipped :: "skipped_key list"
  rs_issued_repair_token :: "bytes option"
  rs_received_repair_token :: "bytes option"

text \<open>\<^verbatim>\<open>skipped_order\<close> compares the ratchet key first, then the message number.\<close>

definition skipped_index :: "skipped_key \<Rightarrow> bytes \<times> u32" where
  "skipped_index k = (sk_ratchet_public k, sk_message_number k)"

definition skipped_count :: "ratchet_state \<Rightarrow> u32" where
  "skipped_count st = word_of_nat (length (rs_skipped st))"

section \<open>The stored format\<close>

definition encode_optional_secret :: "bytes option \<Rightarrow> bytes" where
  "encode_optional_secret v = (case v of Some bytes \<Rightarrow> [1] @ bytes | None \<Rightarrow> [0])"

definition decode_optional_secret :: "bytes option parser" where
  "decode_optional_secret =
     sbind reader_boolean (\<lambda>present.
     if present then sbind (reader_array 32) (\<lambda>value. ret (Some value)) else ret None)"

definition encode_skipped :: "skipped_key \<Rightarrow> bytes" where
  "encode_skipped k = sk_ratchet_public k @ u32_bytes (sk_message_number k) @ sk_message_key k"

definition decode_skipped :: "skipped_key parser" where
  "decode_skipped =
     sbind (reader_array 32) (\<lambda>ratchet_public.
     sbind reader_u32 (\<lambda>message_number.
     sbind (reader_array 32) (\<lambda>message_key.
     ret \<lparr>sk_ratchet_public = ratchet_public, sk_message_number = message_number,
          sk_message_key = message_key\<rparr>)))"

definition state_auth_key :: "prims \<Rightarrow> bytes \<Rightarrow> bytes \<Rightarrow> bytes cresult" where
  "state_auth_key P root_key device_identity_secret =
     rbind (hkdf_sha256 P device_identity_secret root_key STATE_AUTH_DOMAIN 32) (fixed 32)"

definition state_flags :: "bool \<Rightarrow> bool \<Rightarrow> u8" where
  "state_flags primary receive_only =
     (if primary then 1 else 0) OR push_bit 1 (if receive_only then 1 else 0)"

definition encode_ratchet_state :: "prims \<Rightarrow> device_state \<Rightarrow> ratchet_state \<Rightarrow> bytes cresult" where
  "encode_ratchet_state P device st =
     rbind (reject_if
         (length (rs_skipped st) > MAX_SKIPPED_PER_SESSION
          \<or> windows2_any (\<lambda>a b. \<not> skipped_index a < skipped_index b) (rs_skipped st)) StateViolation) (\<lambda>_.
     rbind (ok_or (try_from_usize (length (rs_skipped st)) :: u16 option) ResourceExhausted) (\<lambda>skipped_len.
     let output =
       STATE_MAGIC @ [state_flags (rs_primary st) (rs_receive_only st)]
       @ rs_session_id st @ rs_local_device_id st @ rs_remote_device_id st @ rs_initiator_device_id st
       @ rs_transcript_hash st @ rs_root_key st
       @ encode_optional_secret (rs_sending_chain st) @ encode_optional_secret (rs_receiving_chain st)
       @ rs_local_ratchet_secret st @ rs_local_ratchet_public st @ rs_remote_ratchet_public st
       @ u32_bytes (rs_send_count st) @ u32_bytes (rs_receive_count st)
       @ u32_bytes (rs_previous_send_count st)
       @ u16_bytes skipped_len @ concat (map encode_skipped (rs_skipped st))
       @ encode_optional_secret (rs_issued_repair_token st)
       @ encode_optional_secret (rs_received_repair_token st) in
     rbind (state_auth_key P (rs_root_key st) (ds_identity_secret device)) (\<lambda>auth_key.
     rbind (hmac_sha256 P auth_key output) (\<lambda>tag.
     Ok (output @ tag)))))"

definition ROOT_OFFSET :: nat where "ROOT_OFFSET = 8 + 1 + 16 * 4 + 32"

definition parse_ratchet_fields :: "ratchet_state parser" where
  "parse_ratchet_fields =
     sbind (reader_take 8) (\<lambda>magic.
     sbind (slift (reject_if (magic \<noteq> STATE_MAGIC) UnsupportedVersion)) (\<lambda>_.
     sbind reader_u8 (\<lambda>flags.
     sbind (slift (reject_if (flags AND NOT 0x03 \<noteq> 0) MalformedInput)) (\<lambda>_.
     sbind (reader_array 16) (\<lambda>session_id.
     sbind (reader_array 16) (\<lambda>local_device_id.
     sbind (reader_array 16) (\<lambda>remote_device_id.
     sbind (reader_array 16) (\<lambda>initiator_device_id.
     sbind (reader_array 32) (\<lambda>transcript_hash.
     sbind (reader_array 32) (\<lambda>decoded_root.
     sbind decode_optional_secret (\<lambda>sending_chain.
     sbind decode_optional_secret (\<lambda>receiving_chain.
     sbind (reader_array 32) (\<lambda>local_ratchet_secret.
     sbind (reader_array 32) (\<lambda>local_ratchet_public.
     sbind (reader_array 32) (\<lambda>remote_ratchet_public.
     sbind reader_u32 (\<lambda>send_count.
     sbind reader_u32 (\<lambda>receive_count.
     sbind reader_u32 (\<lambda>previous_send_count.
     sbind reader_u16 (\<lambda>count.
     sbind (slift (reject_if (unat count > MAX_SKIPPED_PER_SESSION) ResourceExhausted)) (\<lambda>_.
     sbind (repeat_s (unat count) decode_skipped) (\<lambda>skipped.
     sbind decode_optional_secret (\<lambda>issued_repair_token.
     sbind decode_optional_secret (\<lambda>received_repair_token.
     ret \<lparr>rs_session_id = session_id, rs_local_device_id = local_device_id,
          rs_remote_device_id = remote_device_id, rs_initiator_device_id = initiator_device_id,
          rs_transcript_hash = transcript_hash, rs_primary = (flags AND 1 \<noteq> 0),
          rs_receive_only = (flags AND 2 \<noteq> 0), rs_root_key = decoded_root,
          rs_sending_chain = sending_chain, rs_receiving_chain = receiving_chain,
          rs_local_ratchet_secret = local_ratchet_secret, rs_local_ratchet_public = local_ratchet_public,
          rs_remote_ratchet_public = remote_ratchet_public, rs_send_count = send_count,
          rs_receive_count = receive_count, rs_previous_send_count = previous_send_count,
          rs_skipped = skipped, rs_issued_repair_token = issued_repair_token,
          rs_received_repair_token = received_repair_token\<rparr>)))))))))))))))))))))))"

definition decode_ratchet_state :: "prims \<Rightarrow> device_state \<Rightarrow> bytes \<Rightarrow> ratchet_state cresult" where
  "decode_ratchet_state P device input =
     (if length input < ROOT_OFFSET + 32 + STATE_AUTH_TAG_BYTES \<or> take 8 input \<noteq> STATE_MAGIC
      then Err UnsupportedVersion
      else
        let authenticated_len = length input - STATE_AUTH_TAG_BYTES in
        rbind (fixed 32 (take 32 (drop ROOT_OFFSET input))) (\<lambda>root_key.
        rbind (state_auth_key P root_key (ds_identity_secret device)) (\<lambda>auth_key.
        rbind (hmac_sha256 P auth_key (take authenticated_len input)) (\<lambda>expected.
        rbind (reject_if (expected \<noteq> drop authenticated_len input) AuthenticationFailed) (\<lambda>_.
        rbind (parse_ratchet_fields (reader_new (take authenticated_len input))) (\<lambda>(st, r).
        rbind (reject_if
            (\<not> reader_is_finished r \<or> rs_root_key st \<noteq> root_key
             \<or> windows2_any (\<lambda>a b. \<not> skipped_index a < skipped_index b) (rs_skipped st)) MalformedInput) (\<lambda>_.
        rbind (x25519_public P (rs_local_ratchet_secret st)) (\<lambda>derived_public.
        rbind (reject_if
            (is_zero (rs_session_id st) \<or> is_zero (rs_local_device_id st) \<or> is_zero (rs_remote_device_id st)
             \<or> rs_local_device_id st = rs_remote_device_id st
             \<or> rs_primary st = rs_receive_only st
             \<or> (rs_receive_only st \<and> rs_sending_chain st \<noteq> None)
             \<or> (rs_send_count st > 0 \<and> rs_sending_chain st = None)
             \<or> (rs_receive_count st > 0 \<and> rs_receiving_chain st = None)
             \<or> (rs_issued_repair_token st \<noteq> None \<and> rs_received_repair_token st \<noteq> None)
             \<or> derived_public \<noteq> rs_local_ratchet_public st) StateViolation) (\<lambda>_.
        Ok st)))))))))"

section \<open>Encryption\<close>

definition regular_header_bytes :: "ratchet_state \<Rightarrow> bytes" where
  "regular_header_bytes st =
     [HEADER_VERSION] @ [0] @ rs_session_id st @ rs_local_ratchet_public st
     @ u32_bytes (rs_previous_send_count st) @ u32_bytes (rs_send_count st)"

text \<open>The fresh sending chain of a session that has none: a new ratchet key and a root step.\<close>

definition start_sending_chain :: "prims \<Rightarrow> ratchet_state \<Rightarrow> ratchet_state ent" where
  "start_sending_chain P st =
     sbind (random_bytes 32) (\<lambda>new_secret.
     sbind (slift (x25519_public P new_secret)) (\<lambda>new_public.
     sbind (slift (x25519_shared P new_secret (rs_remote_ratchet_public st))) (\<lambda>dh.
     sbind (slift (kdf_root P (rs_root_key st) dh)) (\<lambda>(new_root, new_chain).
     ret (st\<lparr>rs_root_key := new_root, rs_sending_chain := Some new_chain,
             rs_local_ratchet_secret := new_secret, rs_local_ratchet_public := new_public,
             rs_previous_send_count := rs_send_count st, rs_send_count := 0\<rparr>)))))"

definition usize_saturating_add :: "nat \<Rightarrow> nat \<Rightarrow> nat" where
  "usize_saturating_add a b = min (a + b) (2 ^ 64 - 1)"

definition ratchet_encrypt ::
    "prims \<Rightarrow> ratchet_state \<Rightarrow> bytes \<Rightarrow> bytes \<Rightarrow> u32 \<Rightarrow> (ratchet_state \<times> bytes) ent" where
  "ratchet_encrypt P st recipient_device_id inner other_sessions_skipped =
     sbind (slift (reject_if
         (rs_receive_only st \<or> rs_remote_device_id st \<noteq> recipient_device_id
          \<or> usize_saturating_add (unat other_sessions_skipped) (length (rs_skipped st)) > MAX_SKIPPED_ACCOUNT)
         StateViolation)) (\<lambda>_.
     sbind (if rs_sending_chain st = None then start_sending_chain P st else ret st) (\<lambda>st.
     sbind (slift (ok_or (rs_sending_chain st) StateViolation)) (\<lambda>chain.
     sbind (slift (chain_step P chain)) (\<lambda>(message_key, next_chain).
     sbind (encrypt_envelope P recipient_device_id (regular_header_bytes st) message_key inner) (\<lambda>envelope.
     sbind (slift (ok_or (checked_add (rs_send_count st) 1) StateViolation)) (\<lambda>count.
     ret (st\<lparr>rs_sending_chain := Some next_chain, rs_send_count := count\<rparr>, envelope)))))))"

section \<open>Decryption\<close>

definition projected_skip_within_bounds :: "ratchet_state \<Rightarrow> nat \<Rightarrow> u32 \<Rightarrow> bool cresult" where
  "projected_skip_within_bounds st additional other_sessions_skipped =
     rbind (ok_or (usize_checked_add (length (rs_skipped st)) additional) ResourceExhausted)
       (\<lambda>projected_session.
     rbind (ok_or (usize_checked_add (unat other_sessions_skipped) projected_session) ResourceExhausted)
       (\<lambda>projected_account.
     Ok (projected_session \<le> MAX_SKIPPED_PER_SESSION \<and> projected_account \<le> MAX_SKIPPED_ACCOUNT)))"

text \<open>One turn of the skip loop: store the key of the next message and advance the chain.\<close>

definition skip_one :: "prims \<Rightarrow> ratchet_state \<Rightarrow> ratchet_state cresult" where
  "skip_one P st =
     rbind (ok_or (rs_receiving_chain st) StateViolation) (\<lambda>chain.
     rbind (chain_step P chain) (\<lambda>(message_key, next_chain).
     rbind (ok_or (checked_add (rs_receive_count st) 1) StateViolation) (\<lambda>count.
     Ok (st\<lparr>rs_skipped := rs_skipped st
               @ [\<lparr>sk_ratchet_public = rs_remote_ratchet_public st, sk_message_number = rs_receive_count st,
                   sk_message_key = message_key\<rparr>],
            rs_receiving_chain := Some next_chain, rs_receive_count := count\<rparr>))))"

lemma skip_one_count: "skip_one P st = Ok st' \<Longrightarrow> unat (rs_receive_count st') = unat (rs_receive_count st) + 1"
  by (auto simp: skip_one_def checked_add_unat elim!: monad_elims)

function skip_loop :: "prims \<Rightarrow> ratchet_state \<Rightarrow> u32 \<Rightarrow> ratchet_state cresult" where
  "skip_loop P st until =
     (if rs_receive_count st < until then rbind (skip_one P st) (\<lambda>st. skip_loop P st until) else Ok st)"
  by pat_completeness auto

termination
  by (relation "measure (\<lambda>(P, st, until). unat until - unat (rs_receive_count st))")
    (auto dest!: skip_one_count simp: word_less_nat_alt)

declare skip_loop.simps [simp del]

definition skip_receiving_keys :: "prims \<Rightarrow> ratchet_state \<Rightarrow> u32 \<Rightarrow> ratchet_state cresult" where
  "skip_receiving_keys P st until =
     (if until < rs_receive_count st then Err StateViolation
      else rbind (skip_loop P st until) (\<lambda>st.
        Ok (st\<lparr>rs_skipped := sort_key skipped_index (rs_skipped st)\<rparr>)))"

text \<open>The repair control message of the peer is recorded in the session; the result is the payload kind.\<close>

definition parse_repair_control :: "(bytes \<times> bytes) parser" where
  "parse_repair_control =
     sbind (reader_take 8) (\<lambda>magic.
     sbind (slift (reject_if (magic \<noteq> REPAIR_CONTROL_MAGIC) MalformedInput)) (\<lambda>_.
     sbind reader_u8 (\<lambda>version.
     sbind (slift (reject_if (version \<noteq> 1) MalformedInput)) (\<lambda>_.
     sbind (reader_array 16) (\<lambda>old_session_id.
     sbind (reader_array 32) (\<lambda>token.
     sbind reader_u8 (\<lambda>reason.
     sbind finished (\<lambda>fin.
     sbind (slift (reject_if (reason \<noteq> REPAIR_REASON_SKIPPED_LIMIT \<or> \<not> fin) MalformedInput)) (\<lambda>_.
     ret (old_session_id, token))))))))))"

definition inspect_repair_control :: "ratchet_state \<Rightarrow> bytes \<Rightarrow> (u8 \<times> ratchet_state) cresult" where
  "inspect_repair_control st inner =
     (if take 8 inner \<noteq> REPAIR_CONTROL_MAGIC then Ok (0, st)
      else if length inner \<noteq> REPAIR_CONTROL_BYTES then Err MalformedInput
      else
        rbind (run_parser parse_repair_control inner) (\<lambda>(old_session_id, token).
        if old_session_id \<noteq> rs_session_id st \<or> rs_received_repair_token st \<noteq> None then Err StateViolation
        else Ok (1, st\<lparr>rs_received_repair_token := Some token\<rparr>)))"

record decrypted_transition =
  dt_state :: ratchet_state
  dt_inner :: bytes
  dt_replay_marker :: bytes
  dt_payload_kind :: u8

datatype receive_outcome =
    Prepared decrypted_transition
  | RepairRequired

text \<open>The end of both receive paths: look at the payload and hash the envelope for the replay marker.\<close>

definition finish_receive ::
    "prims \<Rightarrow> ratchet_state \<Rightarrow> bytes \<Rightarrow> bytes \<Rightarrow> receive_outcome cresult" where
  "finish_receive P st inner envelope_bytes =
     rbind (inspect_repair_control st inner) (\<lambda>(payload_kind, st).
     rbind (sha256 P envelope_bytes) (\<lambda>replay_marker.
     Ok (Prepared \<lparr>dt_state = st, dt_inner = inner, dt_replay_marker = replay_marker,
                   dt_payload_kind = payload_kind\<rparr>)))"

definition is_skipped_key :: "regular_header \<Rightarrow> skipped_key \<Rightarrow> bool" where
  "is_skipped_key header key \<longleftrightarrow>
     sk_ratchet_public key = rh_ratchet_public header \<and> sk_message_number key = rh_message_number header"

definition receive_skipped ::
    "prims \<Rightarrow> ratchet_state \<Rightarrow> bytes \<Rightarrow> bytes \<Rightarrow> envelope \<Rightarrow> regular_header \<Rightarrow> receive_outcome cresult" where
  "receive_skipped P st recipient_device_id envelope_bytes envelope header =
     rbind (ok_or (find (is_skipped_key header) (rs_skipped st)) StateViolation) (\<lambda>key.
     rbind (decrypt_envelope P recipient_device_id envelope (sk_message_key key)) (\<lambda>inner.
     rbind (ok_or (remove_first (is_skipped_key header) (rs_skipped st)) StateViolation) (\<lambda>skipped.
     finish_receive P (st\<lparr>rs_skipped := skipped\<rparr>) inner envelope_bytes)))"

text \<open>The ratchet step on a new key of the peer: a receiving chain, a new local key and a sending chain.\<close>

definition ratchet_step :: "prims \<Rightarrow> ratchet_state \<Rightarrow> bytes \<Rightarrow> ratchet_state ent" where
  "ratchet_step P st ratchet_public =
     (let st = st\<lparr>rs_previous_send_count := rs_send_count st, rs_send_count := 0, rs_receive_count := 0,
                  rs_remote_ratchet_public := ratchet_public\<rparr> in
      sbind (slift (x25519_shared P (rs_local_ratchet_secret st) (rs_remote_ratchet_public st))) (\<lambda>receiving_dh.
      sbind (slift (kdf_root P (rs_root_key st) receiving_dh)) (\<lambda>(root_after_receive, receiving_chain).
      sbind (random_bytes 32) (\<lambda>new_local_secret.
      sbind (slift (x25519_public P new_local_secret)) (\<lambda>new_local_public.
      sbind (slift (x25519_shared P new_local_secret (rs_remote_ratchet_public st))) (\<lambda>sending_dh.
      sbind (slift (kdf_root P root_after_receive sending_dh)) (\<lambda>(root_after_send, sending_chain).
      ret (st\<lparr>rs_root_key := root_after_send, rs_receiving_chain := Some receiving_chain,
              rs_sending_chain := Some sending_chain, rs_local_ratchet_secret := new_local_secret,
              rs_local_ratchet_public := new_local_public\<rparr>))))))))"

text \<open>
  What happens before the message itself is opened: a ratchet step or the gap check in the current
  chain. The result is \<open>None\<close> when the skip limits require a repair.
\<close>

definition prepare_chain :: "prims \<Rightarrow> ratchet_state \<Rightarrow> regular_header \<Rightarrow> u32 \<Rightarrow> ratchet_state option ent" where
  "prepare_chain P st header other_sessions_skipped =
     (if rh_ratchet_public header \<noteq> rs_remote_ratchet_public st then
        if rh_previous_chain_length header < rs_receive_count st then slift (Err StateViolation)
        else
          let old_gap = unat (rh_previous_chain_length header - rs_receive_count st);
              new_gap = unat (rh_message_number header) in
          sbind (slift (ok_or (usize_checked_add old_gap new_gap) ResourceExhausted)) (\<lambda>additional.
          sbind (slift (projected_skip_within_bounds st additional other_sessions_skipped)) (\<lambda>within.
          if \<not> within then ret None
          else
            sbind (slift (skip_receiving_keys P st (rh_previous_chain_length header))) (\<lambda>st.
            sbind (ratchet_step P st (rh_ratchet_public header)) (\<lambda>st.
            ret (Some st)))))
      else if rh_message_number header < rs_receive_count st then slift (Err StateViolation)
      else
        sbind (slift (projected_skip_within_bounds st
            (unat (rh_message_number header - rs_receive_count st)) other_sessions_skipped)) (\<lambda>within.
        if \<not> within then ret None else ret (Some st)))"

definition receive_next ::
    "prims \<Rightarrow> ratchet_state \<Rightarrow> bytes \<Rightarrow> bytes \<Rightarrow> envelope \<Rightarrow> regular_header \<Rightarrow> receive_outcome cresult" where
  "receive_next P st recipient_device_id envelope_bytes envelope header =
     rbind (skip_receiving_keys P st (rh_message_number header)) (\<lambda>st.
     rbind (ok_or (rs_receiving_chain st) StateViolation) (\<lambda>chain.
     rbind (chain_step P chain) (\<lambda>(message_key, next_chain).
     rbind (decrypt_envelope P recipient_device_id envelope message_key) (\<lambda>inner.
     rbind (ok_or (checked_add (rs_receive_count st) 1) StateViolation) (\<lambda>count.
     finish_receive P (st\<lparr>rs_receiving_chain := Some next_chain, rs_receive_count := count\<rparr>)
       inner envelope_bytes)))))"

definition ratchet_decrypt ::
    "prims \<Rightarrow> ratchet_state \<Rightarrow> bytes \<Rightarrow> bytes \<Rightarrow> u32 \<Rightarrow> receive_outcome ent" where
  "ratchet_decrypt P st recipient_device_id envelope_bytes other_sessions_skipped =
     (if rs_local_device_id st \<noteq> recipient_device_id then slift (Err AuthenticationFailed)
      else
        sbind (slift (parse_envelope envelope_bytes)) (\<lambda>envelope.
        case en_header envelope of
          Initial _ \<Rightarrow> slift (Err StateViolation)
        | Regular header \<Rightarrow>
            if rh_session_id header \<noteq> rs_session_id st then slift (Err AuthenticationFailed)
            else if rh_ratchet_public header = rs_remote_ratchet_public st
                    \<and> rh_message_number header < rs_receive_count st
            then slift (receive_skipped P st recipient_device_id envelope_bytes envelope header)
            else
              sbind (prepare_chain P st header other_sessions_skipped) (\<lambda>prepared.
              case prepared of
                None \<Rightarrow> ret RepairRequired
              | Some st \<Rightarrow> slift (receive_next P st recipient_device_id envelope_bytes envelope header))))"

section \<open>Repair\<close>

definition repair_control :: "ratchet_state \<Rightarrow> bytes \<Rightarrow> bytes" where
  "repair_control st token =
     REPAIR_CONTROL_MAGIC @ [1] @ rs_session_id st @ token @ [REPAIR_REASON_SKIPPED_LIMIT]"

definition create_repair :: "prims \<Rightarrow> ratchet_state \<Rightarrow> bytes \<Rightarrow> u32 \<Rightarrow> (ratchet_state \<times> bytes) ent" where
  "create_repair P st recipient_device_id other_sessions_skipped =
     sbind (slift (reject_if (rs_issued_repair_token st \<noteq> None) StateViolation)) (\<lambda>_.
     sbind (random_bytes 32) (\<lambda>token.
     let control = repair_control st token in
     sbind (slift (reject_if (length control \<noteq> REPAIR_CONTROL_BYTES) InternalFailure)) (\<lambda>_.
     ratchet_encrypt P (st\<lparr>rs_issued_repair_token := Some token\<rparr>) recipient_device_id control
       other_sessions_skipped)))"

definition consume_repair_authorization ::
    "prims \<Rightarrow> device_state \<Rightarrow> ratchet_state \<Rightarrow> (ratchet_state \<times> bytes) cresult" where
  "consume_repair_authorization P device st =
     rbind (ok_or (rs_received_repair_token st) StateViolation) (\<lambda>token.
     let st = st\<lparr>rs_received_repair_token := None\<rparr>;
         authorization = REPAIR_AUTH_MAGIC @ rs_session_id st @ token in
     rbind (device_probe_key P (ds_identity_secret device)) (\<lambda>probe_key.
     rbind (hmac_sha256 P probe_key (REPAIR_DOMAIN @ authorization)) (\<lambda>tag.
     Ok (st, authorization @ tag))))"

definition parse_repair_authorization :: "(bytes \<times> bytes \<times> bytes) parser" where
  "parse_repair_authorization =
     sbind (reader_take 8) (\<lambda>magic.
     sbind (slift (reject_if (magic \<noteq> REPAIR_AUTH_MAGIC) MalformedInput)) (\<lambda>_.
     sbind (reader_array 16) (\<lambda>old_session_id.
     sbind (reader_array 32) (\<lambda>token.
     sbind (reader_array 32) (\<lambda>supplied_tag.
     sbind finished (\<lambda>fin.
     sbind (slift (reject_if (\<not> fin) MalformedInput)) (\<lambda>_.
     ret (old_session_id, token, supplied_tag))))))))"

definition verify_repair_authorization ::
    "prims \<Rightarrow> device_state \<Rightarrow> bytes \<Rightarrow> (bytes \<times> bytes) option cresult" where
  "verify_repair_authorization P device authorization =
     (if authorization = [] then Ok None
      else
        rbind (run_parser parse_repair_authorization authorization) (\<lambda>(old_session_id, token, supplied_tag).
        let authenticated = REPAIR_DOMAIN @ take (length authorization - 32) authorization in
        rbind (device_probe_key P (ds_identity_secret device)) (\<lambda>probe_key.
        rbind (hmac_sha256 P probe_key authenticated) (\<lambda>expected.
        rbind (reject_if (expected \<noteq> supplied_tag) AuthenticationFailed) (\<lambda>_.
        Ok (Some (old_session_id, token)))))))"

section \<open>The stored format is a codec\<close>

interpretation optional_secret_codec:
  codec decode_optional_secret encode_optional_secret "\<lambda>v. \<forall>b. v = Some b \<longrightarrow> length b = 32"
proof unfold_locales
  show "reads decode_optional_secret (encode_optional_secret v) v" if "\<forall>b. v = Some b \<longrightarrow> length b = 32" for v
  proof (cases v)
    case None
    have eq: "encode_optional_secret v = bool_bytes False @ []"
      by (simp add: None encode_optional_secret_def bool_bytes_def)
    show ?thesis
      unfolding decode_optional_secret_def eq unfolding None
      by (intro bool_codec.bind_reads) (auto intro!: reads_ret)
  next
    case (Some b)
    have eq: "encode_optional_secret v = bool_bytes True @ b @ []"
      by (simp add: Some encode_optional_secret_def bool_bytes_def)
    from that Some show ?thesis
      unfolding decode_optional_secret_def eq unfolding Some
      by (intro bool_codec.bind_reads) (auto intro!: reads_last [OF array_codec.bind_reads] reads_ret)
  qed
  show "sound decode_optional_secret
      (\<lambda>bs v. (\<forall>b. v = Some b \<longrightarrow> length b = 32) \<and> bs = encode_optional_secret v)"
    unfolding decode_optional_secret_def encode_optional_secret_def
    by (intro sound_intros) (auto simp: bool_bytes_def)
qed

definition skipped_wf :: "skipped_key \<Rightarrow> bool" where
  "skipped_wf k \<longleftrightarrow> length (sk_ratchet_public k) = 32 \<and> length (sk_message_key k) = 32"

interpretation skipped_codec: codec decode_skipped encode_skipped skipped_wf
proof unfold_locales
  show "reads decode_skipped (encode_skipped k) k" if "skipped_wf k" for k
    unfolding decode_skipped_def encode_skipped_def
    by (rule reads_last, simp only: append_assoc, intro reads_intros) (use that in \<open>auto simp: skipped_wf_def\<close>)
  show "sound decode_skipped (\<lambda>bs k. skipped_wf k \<and> bs = encode_skipped k)"
    unfolding decode_skipped_def encode_skipped_def by (intro sound_intros) (simp add: skipped_wf_def)
qed

interpretation skipped_list_codec:
  codec "repeat_s n decode_skipped" "\<lambda>xs. concat (map encode_skipped xs)"
    "\<lambda>xs. list_all skipped_wf xs \<and> length xs = n" for n
  by (rule skipped_codec.repeat_codec)

text \<open>The flag byte holds exactly the two flags.\<close>

lemma low_two_bits:
  fixes flags :: u8
  assumes "flags AND NOT 0x03 = 0"
  shows "flags = 0 \<or> flags = 1 \<or> flags = 2 \<or> flags = 3"
proof -
  have "flags = take_bit 2 flags"
  proof (rule bit_word_eqI)
    fix n
    assume "n < LENGTH(8)"
    have "bit (flags AND NOT 0x03) n = bit (0 :: u8) n" by (simp only: assms)
    moreover have "(0x03 :: u8) = mask 2" by (simp add: mask_eq_exp_minus_1)
    then have "bit (0x03 :: u8) n \<longleftrightarrow> n < 2"
      using \<open>n < LENGTH(8)\<close> by (simp only: bit_mask_iff) simp
    ultimately show "bit flags n = bit (take_bit 2 flags) n"
      using \<open>n < LENGTH(8)\<close> by (auto simp: bit_simps)
  qed
  then have "unat flags < 4"
    by (metis (no_types) take_bit_nat_less_exp unsigned_take_bit_eq numeral_Bit0 power2_eq_square
        semiring_norm(12,13) num_double numeral_times_numeral)
  then have "unat flags \<in> {0, 1, 2, 3}" by auto
  then show ?thesis by (auto simp: word_unat_eq_iff)
qed

lemma state_flags_inverse:
  "state_flags p r AND NOT 0x03 = 0"
  "state_flags p r AND 1 \<noteq> 0 \<longleftrightarrow> p" "state_flags p r AND 2 \<noteq> 0 \<longleftrightarrow> r"
  by (cases p; cases r; simp add: state_flags_def)+

lemma state_flags_of:
  fixes flags :: u8
  assumes "flags AND NOT 0x03 = 0"
  shows "state_flags (flags AND 1 \<noteq> 0) (flags AND 2 \<noteq> 0) = flags"
  using low_two_bits [OF assms] by (auto simp: state_flags_def)

definition ratchet_body :: "ratchet_state \<Rightarrow> bytes" where
  "ratchet_body st =
       STATE_MAGIC @ [state_flags (rs_primary st) (rs_receive_only st)]
       @ rs_session_id st @ rs_local_device_id st @ rs_remote_device_id st @ rs_initiator_device_id st
       @ rs_transcript_hash st @ rs_root_key st
       @ encode_optional_secret (rs_sending_chain st) @ encode_optional_secret (rs_receiving_chain st)
       @ rs_local_ratchet_secret st @ rs_local_ratchet_public st @ rs_remote_ratchet_public st
       @ u32_bytes (rs_send_count st) @ u32_bytes (rs_receive_count st)
       @ u32_bytes (rs_previous_send_count st)
       @ u16_bytes (word_of_nat (length (rs_skipped st))) @ concat (map encode_skipped (rs_skipped st))
       @ encode_optional_secret (rs_issued_repair_token st)
       @ encode_optional_secret (rs_received_repair_token st)"

definition secret_option_wf :: "bytes option \<Rightarrow> bool" where
  "secret_option_wf v \<longleftrightarrow> (\<forall>b. v = Some b \<longrightarrow> length b = 32)"

definition ratchet_fields_wf :: "ratchet_state \<Rightarrow> bool" where
  "ratchet_fields_wf st \<longleftrightarrow>
     length (rs_session_id st) = 16 \<and> length (rs_local_device_id st) = 16
     \<and> length (rs_remote_device_id st) = 16 \<and> length (rs_initiator_device_id st) = 16
     \<and> length (rs_transcript_hash st) = 32 \<and> length (rs_root_key st) = 32
     \<and> secret_option_wf (rs_sending_chain st) \<and> secret_option_wf (rs_receiving_chain st)
     \<and> length (rs_local_ratchet_secret st) = 32 \<and> length (rs_local_ratchet_public st) = 32
     \<and> length (rs_remote_ratchet_public st) = 32
     \<and> list_all skipped_wf (rs_skipped st) \<and> length (rs_skipped st) \<le> MAX_SKIPPED_PER_SESSION
     \<and> secret_option_wf (rs_issued_repair_token st) \<and> secret_option_wf (rs_received_repair_token st)"

interpretation ratchet_codec: codec parse_ratchet_fields ratchet_body ratchet_fields_wf
proof unfold_locales
  show "reads parse_ratchet_fields (ratchet_body st) st" if "ratchet_fields_wf st" for st
    unfolding parse_ratchet_fields_def ratchet_body_def
    by (rule reads_last, simp only: append_assoc, intro reads_intros)
      (use that in \<open>auto simp: ratchet_fields_wf_def secret_option_wf_def state_flags_inverse state_flags_inverse(1) [simplified] pairwise_size_defs\<close>)
  show "sound parse_ratchet_fields (\<lambda>bs st. ratchet_fields_wf st \<and> bs = ratchet_body st)"
    unfolding parse_ratchet_fields_def ratchet_body_def
    by (intro sound_intros) (simp add: ratchet_fields_wf_def secret_option_wf_def state_flags_of state_flags_of [simplified])
qed

section \<open>Valid sessions\<close>

definition ratchet_consistent :: "ratchet_state \<Rightarrow> bool" where
  "ratchet_consistent st \<longleftrightarrow>
     \<not> is_zero (rs_session_id st) \<and> \<not> is_zero (rs_local_device_id st) \<and> \<not> is_zero (rs_remote_device_id st)
     \<and> rs_local_device_id st \<noteq> rs_remote_device_id st
     \<and> rs_primary st \<noteq> rs_receive_only st
     \<and> (rs_receive_only st \<longrightarrow> rs_sending_chain st = None)
     \<and> (rs_send_count st > 0 \<longrightarrow> rs_sending_chain st \<noteq> None)
     \<and> (rs_receive_count st > 0 \<longrightarrow> rs_receiving_chain st \<noteq> None)
     \<and> (rs_issued_repair_token st = None \<or> rs_received_repair_token st = None)"

abbreviation skipped_sorted :: "skipped_key list \<Rightarrow> bool" where
  "skipped_sorted \<equiv> sorted_wrt (\<lambda>a b. skipped_index a < skipped_index b)"

definition ratchet_valid :: "prims \<Rightarrow> ratchet_state \<Rightarrow> bool" where
  "ratchet_valid P st \<longleftrightarrow>
     ratchet_fields_wf st \<and> skipped_sorted (rs_skipped st) \<and> ratchet_consistent st
     \<and> x_public_of P (rs_local_ratchet_secret st) = rs_local_ratchet_public st"

definition ratchet_tag :: "prims \<Rightarrow> device_state \<Rightarrow> ratchet_state \<Rightarrow> bytes cresult" where
  "ratchet_tag P device st =
     rbind (state_auth_key P (rs_root_key st) (ds_identity_secret device)) (\<lambda>k.
     hmac_sha256 P k (ratchet_body st))"

lemma skipped_scan_iff:
  "\<not> windows2_any (\<lambda>a b. \<not> skipped_index a < skipped_index b) ks \<longleftrightarrow> skipped_sorted ks"
  by (rule windows2_any_sorted_wrt) (auto simp: transp_def)

lemma encode_ratchet_state_eq:
  assumes "length (rs_skipped st) \<le> MAX_SKIPPED_PER_SESSION" and "skipped_sorted (rs_skipped st)"
  shows "encode_ratchet_state P device st = rbind (ratchet_tag P device st) (\<lambda>tag. Ok (ratchet_body st @ tag))"
proof -
  have "\<not> windows2_any (\<lambda>a b. \<not> skipped_index a < skipped_index b) (rs_skipped st)"
    using assms(2) skipped_scan_iff by blast
  then show ?thesis
    using assms(1) by (simp add: encode_ratchet_state_def ratchet_tag_def ratchet_body_def Let_def
        rbind_assoc pairwise_size_defs)
qed

lemma parse_ratchet_fields_Ok_iff:
  assumes "length bs < 2 ^ 64"
  shows "(\<exists>r. parse_ratchet_fields (reader_new bs) = Ok (st, r) \<and> reader_is_finished r)
     \<longleftrightarrow> ratchet_fields_wf st \<and> bs = ratchet_body st"
proof -
  have "(\<exists>r. parse_ratchet_fields (reader_new bs) = Ok (st, r) \<and> reader_is_finished r)
     \<longleftrightarrow> parse_all parse_ratchet_fields bs = Ok st"
    by (auto simp: parse_all_def rbind_Ok_iff)
  also have "\<dots> \<longleftrightarrow> ratchet_fields_wf st \<and> bs = ratchet_body st"
    using assms ratchet_codec.parse_all_enc ratchet_codec.parse_all_sound by blast
  finally show ?thesis .
qed

lemma ratchet_body_layout:
  assumes "ratchet_fields_wf st"
  shows "take 8 (ratchet_body st @ t) = STATE_MAGIC" and "take 32 (drop 105 (ratchet_body st @ t)) = rs_root_key st"
    and "202 \<le> length (ratchet_body st)" and "length (ratchet_body st) \<le> 140000"
proof -
  have opt: "1 \<le> length (encode_optional_secret v)" "secret_option_wf v \<Longrightarrow> length (encode_optional_secret v) \<le> 33" for v
    by (auto simp: encode_optional_secret_def secret_option_wf_def split: option.splits)
  have "length (concat (map encode_skipped ks)) = 68 * length ks" if "list_all skipped_wf ks" for ks
    using that by (induction ks) (auto simp: encode_skipped_def skipped_wf_def)
  with assms opt [of "rs_sending_chain st"] opt [of "rs_receiving_chain st"]
    opt [of "rs_issued_repair_token st"] opt [of "rs_received_repair_token st"]
  show "202 \<le> length (ratchet_body st)" "length (ratchet_body st) \<le> 140000"
    by (simp_all add: ratchet_body_def ratchet_fields_wf_def pairwise_size_defs)
  show "take 8 (ratchet_body st @ t) = STATE_MAGIC" "take 32 (drop 105 (ratchet_body st @ t)) = rs_root_key st"
    using assms by (simp_all add: ratchet_body_def ratchet_fields_wf_def drop_Cons')
qed

lemma decode_ratchet_state_Ok_iff:
  assumes "length bs < 2 ^ 64"
  shows "decode_ratchet_state P device bs = Ok st \<longleftrightarrow>
    (\<exists>tag. bs = ratchet_body st @ tag \<and> length tag = 32 \<and> ratchet_tag P device st = Ok tag \<and> ratchet_valid P st)"
    (is "_ \<longleftrightarrow> ?rhs")
proof (cases "length bs < 169 \<or> take 8 bs \<noteq> STATE_MAGIC")
  case True
  then have "decode_ratchet_state P device bs = Err UnsupportedVersion"
    by (simp add: decode_ratchet_state_def ROOT_OFFSET_def STATE_AUTH_TAG_BYTES_def)
  moreover have "\<not> ?rhs"
    using True ratchet_body_layout(1,3) by (fastforce simp: ratchet_valid_def)
  ultimately show ?thesis by simp
next
  case False
  let ?b = "take (length bs - 32) bs" and ?t = "drop (length bs - 32) bs"
  have wf: "(\<exists>r. parse_ratchet_fields (reader_new ?b) = Ok (st, r) \<and> reader_is_finished r)
     \<longleftrightarrow> ratchet_fields_wf st \<and> ?b = ratchet_body st"
    using assms by (intro parse_ratchet_fields_Ok_iff) simp
  have root: "take 32 (drop 105 bs) = rs_root_key st" if "ratchet_fields_wf st" "?b = ratchet_body st"
    using ratchet_body_layout(2) [OF that(1), of ?t] that(2) by (metis append_take_drop_id)
  have "decode_ratchet_state P device bs = Ok st \<longleftrightarrow>
      (\<exists>r. parse_ratchet_fields (reader_new ?b) = Ok (st, r) \<and> reader_is_finished r)
      \<and> take 32 (drop 105 bs) = rs_root_key st
      \<and> (\<exists>k. state_auth_key P (rs_root_key st) (ds_identity_secret device) = Ok k \<and> hmac_sha256 P k ?b = Ok ?t)
      \<and> skipped_sorted (rs_skipped st) \<and> ratchet_consistent st
      \<and> x_public_of P (rs_local_ratchet_secret st) = rs_local_ratchet_public st"
    using False
    by (auto simp: decode_ratchet_state_def ROOT_OFFSET_def STATE_AUTH_TAG_BYTES_def rbind_Ok_iff Let_def
        x25519_public_def ratchet_consistent_def skipped_scan_iff [symmetric] fixed_def)
  also have "\<dots> \<longleftrightarrow> ?b = ratchet_body st \<and> ratchet_tag P device st = Ok ?t \<and> ratchet_valid P st"
    unfolding wf ratchet_tag_def using root by (auto simp: rbind_Ok_iff ratchet_valid_def)
  also have "\<dots> \<longleftrightarrow> (\<exists>b tag. bs = b @ tag \<and> length tag = 32
       \<and> b = ratchet_body st \<and> ratchet_tag P device st = Ok tag \<and> ratchet_valid P st)"
    using False by (intro is_authenticated_split [symmetric]) simp
  finally show ?thesis by blast
qed

lemma ratchet_tag_total:
  assumes "sized_prims P" and "length (ds_identity_secret device) = 32" and "ratchet_fields_wf st"
  obtains tag where "ratchet_tag P device st = Ok tag" and "length tag = 32"
proof -
  obtain k where k: "hkdf_sha256 P (ds_identity_secret device) (rs_root_key st) STATE_AUTH_DOMAIN 32 = Ok k"
      "length k = 32"
    by (rule hkdf_total [OF assms(1), of "ds_identity_secret device" "rs_root_key st" STATE_AUTH_DOMAIN 32])
      (use assms in \<open>auto simp: ratchet_fields_wf_def MAX_INPUT_BYTES_def\<close>)
  obtain t where "hmac_sha256 P k (ratchet_body st) = Ok t" "length t = 32"
    by (rule hmac_total [OF assms(1), of k "ratchet_body st"])
      (use k ratchet_body_layout(4) [OF assms(3)] in \<open>auto simp: MAX_INPUT_BYTES_def\<close>)
  with k that show thesis by (simp add: ratchet_tag_def state_auth_key_def fixed_def)
qed

lemma ratchet_tag_length: "sized_prims P \<Longrightarrow> ratchet_tag P device st = Ok tag \<Longrightarrow> length tag = 32"
  by (auto simp: ratchet_tag_def hmac_length elim!: monad_elims)

lemma encode_ratchet_state_total:
  assumes "sized_prims P" and "length (ds_identity_secret device) = 32"
    and "ratchet_fields_wf st" and "skipped_sorted (rs_skipped st)"
  obtains bs where "encode_ratchet_state P device st = Ok bs" and "length bs \<le> MAX_INPUT_BYTES"
proof -
  obtain tag where tag: "ratchet_tag P device st = Ok tag" "length tag = 32"
    by (rule ratchet_tag_total [OF assms(1-3)])
  have "encode_ratchet_state P device st = Ok (ratchet_body st @ tag)"
    using encode_ratchet_state_eq [of st P device] assms(3,4) tag(1) by (simp add: ratchet_fields_wf_def)
  moreover have "length (ratchet_body st @ tag) \<le> MAX_INPUT_BYTES"
    using ratchet_body_layout(4) [OF assms(3)] tag(2) by (simp add: MAX_INPUT_BYTES_def)
  ultimately show thesis by (rule that)
qed

lemma ratchet_validD:
  assumes "ratchet_valid P st"
  shows "ratchet_fields_wf st" and "skipped_sorted (rs_skipped st)" and "ratchet_consistent st"
    and "length (rs_skipped st) \<le> MAX_SKIPPED_PER_SESSION"
  using assms by (auto simp: ratchet_valid_def ratchet_fields_wf_def)

interpretation ratchet_store:
  sealed_state "sized_prims P" "encode_ratchet_state P device" "decode_ratchet_state P device"
    "ratchet_valid P" for P device
proof unfold_locales
  fix st bs
  assume P: "sized_prims P" and valid: "ratchet_valid P st" and run: "encode_ratchet_state P device st = Ok bs"
  from run encode_ratchet_state_eq [OF ratchet_validD(4,2) [OF valid], of P device]
  obtain tag where tag: "ratchet_tag P device st = Ok tag" "bs = ratchet_body st @ tag"
    by (cases "ratchet_tag P device st") auto
  have "length bs < 2 ^ 64"
    using ratchet_body_layout(4) [OF ratchet_validD(1) [OF valid]] ratchet_tag_length [OF P tag(1)] tag(2)
    by simp
  then show "decode_ratchet_state P device bs = Ok st"
    using tag valid ratchet_tag_length [OF P tag(1)] by (simp add: decode_ratchet_state_Ok_iff)
next
  fix st bs
  assume "length bs \<le> MAX_INPUT_BYTES" and run: "decode_ratchet_state P device bs = Ok st"
  then have "length bs < 2 ^ 64" by (simp add: MAX_INPUT_BYTES_def)
  from run decode_ratchet_state_Ok_iff [OF this] obtain tag where
    tag: "bs = ratchet_body st @ tag" "ratchet_tag P device st = Ok tag" and valid: "ratchet_valid P st"
    by auto
  show "ratchet_valid P st" by (rule valid)
  show "encode_ratchet_state P device st = Ok bs"
    using encode_ratchet_state_eq [OF ratchet_validD(4,2) [OF valid], of P device] tag by simp
qed

section \<open>Property of the stored format\<close>

definition sample_session :: ratchet_state where
  "sample_session =
     \<lparr>rs_session_id = replicate 16 1, rs_local_device_id = replicate 16 2, rs_remote_device_id = replicate 16 3,
      rs_initiator_device_id = replicate 16 2, rs_transcript_hash = replicate 32 4, rs_primary = True,
      rs_receive_only = False, rs_root_key = replicate 32 5, rs_sending_chain = Some (replicate 32 6),
      rs_receiving_chain = Some (replicate 32 7), rs_local_ratchet_secret = replicate 32 8,
      rs_local_ratchet_public = replicate 32 8, rs_remote_ratchet_public = replicate 32 9,
      rs_send_count = 3, rs_receive_count = 4, rs_previous_send_count = 2,
      rs_skipped = [\<lparr>sk_ratchet_public = replicate 32 9, sk_message_number = 1, sk_message_key = replicate 32 10\<rparr>],
      rs_issued_repair_token = None, rs_received_repair_token = None\<rparr>"

lemma sample_session_valid: "ratchet_valid example_prims sample_session"
  by (simp add: ratchet_valid_def ratchet_fields_wf_def secret_option_wf_def skipped_wf_def
      ratchet_consistent_def sample_session_def is_zero_def list_all_iff example_prims_def
      pairwise_size_defs replicate_eq_replicate)

text \<open>
  C17: the stored session format is exact. For every byte string up to the input limit, loading it
  gives a session exactly when that session is valid and storing it gives those bytes; and
  every valid session can be stored. Loading enforces the whole of the validity predicate: field
  sizes, at most 2000 skipped keys in strict order, one of the two roles, chains present when their
  counters say so, at most one repair token, and a ratchet key pair that matches.
\<close>

theorem ratchet_state_exact:
  assumes "sized_prims P" and "length (ds_identity_secret device) = 32"
  shows "(length bs \<le> MAX_INPUT_BYTES \<longrightarrow>
      (decode_ratchet_state P device bs = Ok st \<longleftrightarrow>
         ratchet_valid P st \<and> encode_ratchet_state P device st = Ok bs))
    \<and> (ratchet_valid P st \<longrightarrow>
      (\<exists>out. encode_ratchet_state P device st = Ok out \<and> length out \<le> MAX_INPUT_BYTES))"
proof (intro conjI impI iffI)
  show "decode_ratchet_state P device bs = Ok st"
    if "ratchet_valid P st \<and> encode_ratchet_state P device st = Ok bs"
    using that assms(1) by (blast intro: ratchet_store.load_store)
  show "ratchet_valid P st" "encode_ratchet_state P device st = Ok bs"
    if "length bs \<le> MAX_INPUT_BYTES" and "decode_ratchet_state P device bs = Ok st"
    using that by (blast intro: ratchet_store.load_valid, blast intro: ratchet_store.store_load)
  show "\<exists>out. encode_ratchet_state P device st = Ok out \<and> length out \<le> MAX_INPUT_BYTES"
    if "ratchet_valid P st"
    by (rule encode_ratchet_state_total [OF assms ratchet_validD(1,2) [OF that]]) blast
qed

theorem ratchet_state_exact_witness:
  "\<exists>out. encode_ratchet_state example_prims sample_device sample_session = Ok out
     \<and> length out \<le> MAX_INPUT_BYTES
     \<and> decode_ratchet_state example_prims sample_device out = Ok sample_session"
proof -
  have "length (ds_identity_secret sample_device) = 32" by (simp add: sample_device_def)
  from ratchet_state_exact [OF example_sized this, of _ sample_session] sample_session_valid
  show ?thesis by blast
qed

end
