(* ===== verification/Ratchet_Invariant.thy ===== *)
theory Ratchet_Invariant
  imports Pairwise_Ratchet
begin

text \<open>
  What the ratchet operations do to a session state: the chain of message keys in closed form, the
  skip loop, the skip limits, and which operations keep a session loadable.
\<close>

section \<open>The chain in closed form\<close>

text \<open>
  The chain key after \<open>n\<close> steps from \<open>c\<close> and the message key of message \<open>n\<close>; the empty list stands for a
  failed derivation, which \<^const>\<open>sized_prims\<close> rules out.
\<close>

definition step_message :: "prims \<Rightarrow> bytes \<Rightarrow> bytes" where
  "step_message P c = (case chain_step P c of Inr (m, _) \<Rightarrow> m | Inl _ \<Rightarrow> [])"

definition step_chain :: "prims \<Rightarrow> bytes \<Rightarrow> bytes" where
  "step_chain P c = (case chain_step P c of Inr (_, n) \<Rightarrow> n | Inl _ \<Rightarrow> [])"

primrec chain_at :: "prims \<Rightarrow> bytes \<Rightarrow> nat \<Rightarrow> bytes" where
  "chain_at P c 0 = c"
| "chain_at P c (Suc n) = step_chain P (chain_at P c n)"

definition message_at :: "prims \<Rightarrow> bytes \<Rightarrow> nat \<Rightarrow> bytes" where
  "message_at P c n = step_message P (chain_at P c n)"

lemma chain_step_eq:
  assumes "sized_prims P" and "length c = 32"
  shows "chain_step P c = Ok (step_message P c, step_chain P c)"
    and "length (step_message P c) = 32" and "length (step_chain P c) = 32"
proof -
  obtain m n where "chain_step P c = Ok (m, n)" "length m = 32" "length n = 32"
    by (rule chain_step_total [OF assms])
  then show "chain_step P c = Ok (step_message P c, step_chain P c)"
    "length (step_message P c) = 32" "length (step_chain P c) = 32"
    by (simp_all add: step_message_def step_chain_def)
qed

lemma length_chain_at: "sized_prims P \<Longrightarrow> length c = 32 \<Longrightarrow> length (chain_at P c n) = 32"
  by (induction n) (simp_all add: chain_step_eq(3))

lemma chain_step_at:
  assumes "sized_prims P" and "length c = 32"
  shows "chain_step P (chain_at P c n) = Ok (message_at P c n, chain_at P c (Suc n))"
    and "length (message_at P c n) = 32"
  using chain_step_eq [OF assms(1) length_chain_at [OF assms, of n]] by (simp_all add: message_at_def)

lemma chain_at_add: "chain_at P (chain_at P c m) n = chain_at P c (m + n)"
  by (induction n) simp_all

lemma message_at_add: "message_at P (chain_at P c m) n = message_at P c (m + n)"
  by (simp add: message_at_def chain_at_add)

section \<open>The skip loop\<close>

definition skipped_for :: "prims \<Rightarrow> bytes \<Rightarrow> bytes \<Rightarrow> u32 \<Rightarrow> nat \<Rightarrow> skipped_key" where
  "skipped_for P rp c r i =
     \<lparr>sk_ratchet_public = rp, sk_message_number = r + word_of_nat i, sk_message_key = message_at P c i\<rparr>"

definition skipped_run :: "prims \<Rightarrow> bytes \<Rightarrow> bytes \<Rightarrow> u32 \<Rightarrow> nat \<Rightarrow> skipped_key list" where
  "skipped_run P rp c r n = map (skipped_for P rp c r) [0..<n]"

lemma skipped_run_Suc:
  "skipped_run P rp c r (Suc n) = skipped_for P rp c r 0 # skipped_run P rp (step_chain P c) (r + 1) n"
proof -
  have "message_at P c (Suc i) = message_at P (step_chain P c) i" for i
    using message_at_add [of P c 1 i] by simp
  then have "map (\<lambda>i. skipped_for P rp c r (Suc i)) [0..<n] = map (skipped_for P rp (step_chain P c) (r + 1)) [0..<n]"
    by (simp add: skipped_for_def algebra_simps)
  then show ?thesis by (simp add: skipped_run_def upt_conv_Cons map_Suc_upt [symmetric] comp_def del: upt_Suc)
qed

lemma skip_loop_closed:
  assumes "sized_prims P"
  shows "rs_receiving_chain st = Some c \<Longrightarrow> length c = 32 \<Longrightarrow> unat (rs_receive_count st) + n = unat until \<Longrightarrow>
     skip_loop P st until = Ok (st\<lparr>
       rs_skipped := rs_skipped st @ skipped_run P (rs_remote_ratchet_public st) c (rs_receive_count st) n,
       rs_receiving_chain := Some (chain_at P c n), rs_receive_count := until\<rparr>)"
proof (induction n arbitrary: st c)
  case 0
  then have "rs_receive_count st = until" by (simp add: word_unat_eq_iff)
  with 0 show ?case by (simp add: skip_loop.simps skipped_run_def)
next
  case (Suc n)
  let ?r = "rs_receive_count st"
  have lt: "?r < until" using Suc.prems(3) by (simp add: word_less_nat_alt)
  then have "?r \<noteq> - 1" by auto
  have one: "checked_add ?r 1 = Some (?r + 1)" by (rule checked_add_one [OF \<open>?r \<noteq> - 1\<close>])
  let ?st = "st\<lparr>rs_skipped := rs_skipped st @ [skipped_for P (rs_remote_ratchet_public st) c ?r 0],
      rs_receiving_chain := Some (step_chain P c), rs_receive_count := ?r + 1\<rparr>"
  have "skip_one P st = Ok ?st"
    using Suc.prems(1) chain_step_at(1) [OF assms Suc.prems(2), of 0] one
    by (simp add: skip_one_def skipped_for_def)
  then have "skip_loop P st until = skip_loop P ?st until"
    using lt by (subst skip_loop.simps) simp
  also have "\<dots> = Ok (?st\<lparr>
       rs_skipped := rs_skipped ?st @ skipped_run P (rs_remote_ratchet_public ?st) (step_chain P c) (?r + 1) n,
       rs_receiving_chain := Some (chain_at P (step_chain P c) n), rs_receive_count := until\<rparr>)"
    using Suc.IH [of ?st "step_chain P c"] Suc.prems checked_add_unat [OF one]
      chain_step_eq(3) [OF assms Suc.prems(2)]
    by simp
  also have "chain_at P (step_chain P c) n = chain_at P c (Suc n)"
    using chain_at_add [of P c 1 n] by simp
  finally show ?case by (simp add: skipped_run_Suc)
qed

lemma skip_loop_no_chain:
  assumes "rs_receiving_chain st = None" and "skip_loop P st until = Ok st'"
  shows "st' = st \<and> \<not> rs_receive_count st < until"
  using assms by (auto simp: skip_loop.simps [of P st] skip_one_def split: if_splits)

section \<open>Skipping keeps the list of skipped keys in order\<close>

text \<open>Keys skipped in the current chain have numbers below the receive counter.\<close>

definition skipped_below :: "ratchet_state \<Rightarrow> bool" where
  "skipped_below st \<longleftrightarrow>
     (\<forall>k \<in> set (rs_skipped st). sk_ratchet_public k = rs_remote_ratchet_public st \<longrightarrow>
        sk_message_number k < rs_receive_count st)"

lemma unat_skipped_number:
  fixes r until :: u32
  assumes "unat r + n = unat until" and "i < n"
  shows "unat (r + word_of_nat i) = unat r + i"
proof -
  have "unat (word_of_nat i :: u32) = i" and "unat r + i < 2 ^ LENGTH(32)"
    using assms unat_u32_bound [of until] by simp_all
  then show ?thesis using unat_add_no_overflow [of r "word_of_nat i"] by simp
qed

lemma skipped_run_facts:
  assumes "sized_prims P" and "length c = 32" and "length rp = 32" and "unat r + n = unat (until :: u32)"
  shows "list_all skipped_wf (skipped_run P rp c r n)" and "length (skipped_run P rp c r n) = n"
    and "distinct (map skipped_index (skipped_run P rp c r n))"
    and "k \<in> set (skipped_run P rp c r n) \<Longrightarrow>
      sk_ratchet_public k = rp \<and> r \<le> sk_message_number k \<and> sk_message_number k < until
      \<and> sk_message_key k = message_at P c (unat (sk_message_number k) - unat r)"
proof -
  show "list_all skipped_wf (skipped_run P rp c r n)"
    using assms(3) chain_step_at(2) [OF assms(1,2)]
    by (auto simp: skipped_run_def skipped_for_def skipped_wf_def list_all_iff)
  show "length (skipped_run P rp c r n) = n" by (simp add: skipped_run_def)
  have "inj_on (\<lambda>i. r + word_of_nat i) {0..<n}"
  proof (rule inj_onI)
    fix i j
    assume ij: "i \<in> {0..<n}" "j \<in> {0..<n}" and eq: "r + word_of_nat i = r + word_of_nat j"
    from eq have "unat (r + word_of_nat i) = unat (r + word_of_nat j)" by simp
    with ij unat_skipped_number [OF assms(4)] show "i = j" by simp
  qed
  then show "distinct (map skipped_index (skipped_run P rp c r n))"
    by (auto simp: skipped_run_def skipped_for_def skipped_index_def distinct_map comp_def inj_on_def)
  assume "k \<in> set (skipped_run P rp c r n)"
  then obtain i where i: "i < n" "k = skipped_for P rp c r i" by (auto simp: skipped_run_def)
  with unat_skipped_number [OF assms(4) i(1)] assms(4)
  show "sk_ratchet_public k = rp \<and> r \<le> sk_message_number k \<and> sk_message_number k < until
      \<and> sk_message_key k = message_at P c (unat (sk_message_number k) - unat r)"
    by (simp add: skipped_for_def word_le_nat_alt word_less_nat_alt)
qed

lemma skip_receiving_keys_closed:
  assumes P: "sized_prims P" and c: "rs_receiving_chain st = Some c" "length c = 32"
    and le: "rs_receive_count st \<le> until"
  shows "skip_receiving_keys P st until = Ok (st\<lparr>
      rs_skipped := sort_key skipped_index (rs_skipped st
        @ skipped_run P (rs_remote_ratchet_public st) c (rs_receive_count st) (unat until - unat (rs_receive_count st))),
      rs_receiving_chain := Some (chain_at P c (unat until - unat (rs_receive_count st))),
      rs_receive_count := until\<rparr>)"
proof -
  have "unat (rs_receive_count st) + (unat until - unat (rs_receive_count st)) = unat until"
    using le by (simp add: word_le_nat_alt)
  from skip_loop_closed [OF P c this] le show ?thesis
    by (simp add: skip_receiving_keys_def)
qed

lemma skip_receiving_keys_Ok:
  assumes P: "sized_prims P" and wf: "ratchet_fields_wf st" and sorted: "skipped_sorted (rs_skipped st)"
    and below: "skipped_below st" and run: "skip_receiving_keys P st until = Ok st'"
  obtains skipped chain where
    "st' = st\<lparr>rs_skipped := skipped, rs_receiving_chain := chain, rs_receive_count := until\<rparr>"
    and "rs_receive_count st \<le> until"
    and "length skipped = length (rs_skipped st) + (unat until - unat (rs_receive_count st))"
    and "skipped_sorted skipped" and "list_all skipped_wf skipped"
    and "chain = None \<longleftrightarrow> rs_receiving_chain st = None" and "secret_option_wf chain"
    and "chain = None \<longrightarrow> until = rs_receive_count st"
    and "\<forall>k \<in> set skipped. k \<in> set (rs_skipped st)
          \<or> sk_ratchet_public k = rs_remote_ratchet_public st \<and> rs_receive_count st \<le> sk_message_number k
            \<and> sk_message_number k < until"
proof -
  have le: "rs_receive_count st \<le> until"
    using run by (auto simp: skip_receiving_keys_def split: if_splits)
  show thesis
  proof (cases "rs_receiving_chain st")
    case None
    from run obtain st1 where loop: "skip_loop P st until = Ok st1"
      and st': "st' = st1\<lparr>rs_skipped := sort_key skipped_index (rs_skipped st1)\<rparr>"
      by (auto simp: skip_receiving_keys_def elim!: monad_elims split: if_splits)
    have "st1 = st" "rs_receive_count st = until"
      using skip_loop_no_chain [OF None loop] le by auto
    with st' have "st' = st\<lparr>rs_skipped := rs_skipped st, rs_receiving_chain := None, rs_receive_count := until\<rparr>"
      using sort_key_of_sorted [OF sorted] None by (cases st) simp
    then show thesis
      by (rule that) (use \<open>rs_receive_count st = until\<close> sorted wf None in
        \<open>auto simp: ratchet_fields_wf_def secret_option_wf_def\<close>)
  next
    case (Some c)
    let ?r = "rs_receive_count st" and ?rp = "rs_remote_ratchet_public st"
    let ?n = "unat until - unat ?r"
    have c: "length c = 32" and rp: "length ?rp = 32" and old: "list_all skipped_wf (rs_skipped st)"
      using wf Some by (auto simp: ratchet_fields_wf_def secret_option_wf_def)
    have n: "unat ?r + ?n = unat until" using le by (simp add: word_le_nat_alt)
    note facts = skipped_run_facts [OF P c rp n]
    let ?new = "skipped_run P ?rp c ?r ?n"
    have "skipped_index k \<noteq> skipped_index k'" if "k \<in> set (rs_skipped st)" "k' \<in> set ?new" for k k'
      using facts(4) [OF that(2)] below that(1) by (auto simp: skipped_below_def skipped_index_def)
    then have "distinct (map skipped_index (rs_skipped st @ ?new))"
      using sorted_wrt_less_key_distinct [OF sorted] facts(3) by fastforce
    from sort_key_strict [OF this]
    have "skipped_sorted (sort_key skipped_index (rs_skipped st @ ?new))" .
    moreover have "list_all skipped_wf (sort_key skipped_index (rs_skipped st @ ?new))"
      using old facts(1) by (auto simp: list_all_iff)
    moreover have "secret_option_wf (Some (chain_at P c ?n))"
      using length_chain_at [OF P c] by (simp add: secret_option_wf_def)
    ultimately show thesis
      using skip_receiving_keys_closed [OF P Some c le] run facts(2,4) Some le
      by (intro that [of "Some (chain_at P c ?n)" "sort_key skipped_index (rs_skipped st @ ?new)"]) auto
  qed
qed

section \<open>The session invariant\<close>

text \<open>
  \<open>session_core\<close> is everything of the invariant except the two conditions that relate the role to the
  sending chain and the two repair tokens to each other.
\<close>

definition session_core :: "prims \<Rightarrow> ratchet_state \<Rightarrow> bool" where
  "session_core P st \<longleftrightarrow>
     ratchet_fields_wf st \<and> skipped_sorted (rs_skipped st) \<and> skipped_below st
     \<and> \<not> is_zero (rs_session_id st) \<and> \<not> is_zero (rs_local_device_id st) \<and> \<not> is_zero (rs_remote_device_id st)
     \<and> rs_local_device_id st \<noteq> rs_remote_device_id st
     \<and> rs_primary st \<noteq> rs_receive_only st
     \<and> (rs_send_count st > 0 \<longrightarrow> rs_sending_chain st \<noteq> None)
     \<and> (rs_receive_count st > 0 \<longrightarrow> rs_receiving_chain st \<noteq> None)
     \<and> x_public_of P (rs_local_ratchet_secret st) = rs_local_ratchet_public st"

definition role_respected :: "ratchet_state \<Rightarrow> bool" where
  "role_respected st \<longleftrightarrow> (rs_receive_only st \<longrightarrow> rs_sending_chain st = None)"

definition one_repair_token :: "ratchet_state \<Rightarrow> bool" where
  "one_repair_token st \<longleftrightarrow> rs_issued_repair_token st = None \<or> rs_received_repair_token st = None"

definition session_inv :: "prims \<Rightarrow> ratchet_state \<Rightarrow> bool" where
  "session_inv P st \<longleftrightarrow> session_core P st \<and> role_respected st \<and> one_repair_token st"

lemma session_inv_iff: "session_inv P st \<longleftrightarrow> ratchet_valid P st \<and> skipped_below st"
  by (auto simp: session_inv_def session_core_def role_respected_def one_repair_token_def ratchet_valid_def
      ratchet_consistent_def)

lemma ratchet_valid_core: "ratchet_valid P st \<longleftrightarrow> session_core P st \<and> role_respected st \<and> one_repair_token st"
  if "skipped_below st"
  using that session_inv_iff [of P st] by (auto simp: session_inv_def)

lemma session_coreD:
  assumes "session_core P st"
  shows "ratchet_fields_wf st" and "skipped_sorted (rs_skipped st)" and "skipped_below st"
    and "length (rs_skipped st) \<le> MAX_SKIPPED_PER_SESSION"
  using assms by (auto simp: session_core_def ratchet_fields_wf_def)

text \<open>No operation of the ratchet changes the identity of a session.\<close>

definition same_session :: "ratchet_state \<Rightarrow> ratchet_state \<Rightarrow> bool" where
  "same_session st st' \<longleftrightarrow>
     rs_primary st' = rs_primary st \<and> rs_receive_only st' = rs_receive_only st
     \<and> rs_session_id st' = rs_session_id st \<and> rs_local_device_id st' = rs_local_device_id st
     \<and> rs_remote_device_id st' = rs_remote_device_id st \<and> rs_initiator_device_id st' = rs_initiator_device_id st
     \<and> rs_transcript_hash st' = rs_transcript_hash st
     \<and> rs_issued_repair_token st' = rs_issued_repair_token st
     \<and> rs_received_repair_token st' = rs_received_repair_token st"

section \<open>Encryption\<close>

lemma x25519_shared_length: "sized_prims P \<Longrightarrow> x25519_shared P s p = Ok k \<Longrightarrow> length k = 32"
  by (auto simp: sized_primsD(4) dest!: x25519_shared_nonzero)

lemma start_sending_chain_Ok:
  assumes "start_sending_chain P st tape = Ok (st', tape')"
  obtains s dh r c where "tape = s @ tape'" and "length s = 32"
    and "x25519_shared P s (rs_remote_ratchet_public st) = Ok dh"
    and "kdf_root P (rs_root_key st) dh = Ok (r, c)"
    and "st' = st\<lparr>rs_root_key := r, rs_sending_chain := Some c, rs_local_ratchet_secret := s,
       rs_local_ratchet_public := x_public_of P s, rs_previous_send_count := rs_send_count st,
       rs_send_count := 0\<rparr>"
  using assms by (auto simp: start_sending_chain_def ret_apply random_bytes_Ok_iff x25519_public_def
      elim!: monad_elims)

lemma ratchet_encrypt_Ok:
  assumes "ratchet_encrypt P st recipient inner other tape = Ok ((st', envelope), tape')"
  obtains st1 tape1 chain mk nc where
    "\<not> rs_receive_only st" and "rs_remote_device_id st = recipient"
    and "if rs_sending_chain st = None then start_sending_chain P st tape = Ok (st1, tape1)
         else st1 = st \<and> tape1 = tape"
    and "rs_sending_chain st1 = Some chain" and "chain_step P chain = Ok (mk, nc)"
    and "encrypt_envelope P recipient (regular_header_bytes st1) mk inner tape1 = Ok (envelope, tape')"
    and "checked_add (rs_send_count st1) 1 = Some (rs_send_count st')"
    and "st' = st1\<lparr>rs_sending_chain := Some nc, rs_send_count := rs_send_count st'\<rparr>"
  using assms by (auto simp: ratchet_encrypt_def ret_apply elim!: monad_elims split: if_splits)

lemma start_sending_chain_core:
  assumes P: "sized_prims P" and core: "session_core P st"
    and run: "start_sending_chain P st tape = Ok (st', tape')"
  shows "session_core P st'"
proof -
  from run obtain s dh r c where s: "length s = 32"
    and kdf: "kdf_root P (rs_root_key st) dh = Ok (r, c)"
    and st': "st' = st\<lparr>rs_root_key := r, rs_sending_chain := Some c, rs_local_ratchet_secret := s,
       rs_local_ratchet_public := x_public_of P s, rs_previous_send_count := rs_send_count st,
       rs_send_count := 0\<rparr>"
    by (rule start_sending_chain_Ok)
  then show ?thesis
    using core kdf_root_lengths [OF kdf] sized_primsD(3) [OF P]
    by (auto simp: session_core_def ratchet_fields_wf_def secret_option_wf_def skipped_below_def)
qed

lemma ratchet_encrypt_core:
  assumes P: "sized_prims P" and core: "session_core P st"
    and run: "ratchet_encrypt P st recipient inner other tape = Ok ((st', envelope), tape')"
  shows "session_core P st'" and "same_session st st'" and "\<not> rs_receive_only st"
    and "rs_skipped st' = rs_skipped st" and "rs_receive_count st' = rs_receive_count st"
    and "rs_remote_ratchet_public st' = rs_remote_ratchet_public st"
proof -
  from run obtain st1 tape1 chain mk nc where
    role: "\<not> rs_receive_only st"
    and start: "if rs_sending_chain st = None then start_sending_chain P st tape = Ok (st1, tape1)
         else st1 = st \<and> tape1 = tape"
    and step: "chain_step P chain = Ok (mk, nc)"
    and st': "st' = st1\<lparr>rs_sending_chain := Some nc, rs_send_count := rs_send_count st'\<rparr>"
    by (rule ratchet_encrypt_Ok)
  have "session_core P st1"
    using start core start_sending_chain_core [OF P] by (auto split: if_splits)
  then show "session_core P st'"
    using chain_step_lengths [OF P step]
    by (subst st') (auto simp: session_core_def ratchet_fields_wf_def secret_option_wf_def skipped_below_def)
  have "same_session st st1 \<and> rs_skipped st1 = rs_skipped st \<and> rs_receive_count st1 = rs_receive_count st
      \<and> rs_remote_ratchet_public st1 = rs_remote_ratchet_public st"
    using start by (auto simp: same_session_def split: if_splits elim!: start_sending_chain_Ok)
  then show "same_session st st'" and "rs_skipped st' = rs_skipped st"
    and "rs_receive_count st' = rs_receive_count st"
    and "rs_remote_ratchet_public st' = rs_remote_ratchet_public st"
    by (subst st', simp add: same_session_def)+
  show "\<not> rs_receive_only st" by (rule role)
qed

section \<open>The parts of decryption\<close>

text \<open>The two repair messages are exact formats.\<close>

definition repair_control_bytes :: "bytes \<times> bytes \<Rightarrow> bytes" where
  "repair_control_bytes v = REPAIR_CONTROL_MAGIC @ [1] @ fst v @ snd v @ [REPAIR_REASON_SKIPPED_LIMIT]"

definition repair_ids_wf :: "bytes \<times> bytes \<Rightarrow> bool" where
  "repair_ids_wf v \<longleftrightarrow> length (fst v) = 16 \<and> length (snd v) = 32"

interpretation repair_control_codec: whole_codec parse_repair_control repair_control_bytes repair_ids_wf
proof unfold_locales
  show "reads_to_end parse_repair_control (repair_control_bytes v) v" if "repair_ids_wf v" for v
    unfolding parse_repair_control_def repair_control_bytes_def
    by (rule reads_to_end_last, simp only: append_assoc, intro ends_intros)
      (use that in \<open>auto simp: repair_ids_wf_def REPAIR_CONTROL_MAGIC_def\<close>)
  show "sound_to_end parse_repair_control (\<lambda>bs v. repair_ids_wf v \<and> bs = repair_control_bytes v)"
    unfolding parse_repair_control_def repair_control_bytes_def
    by (intro sound_end_intros) (auto simp: repair_ids_wf_def)
qed

lemma repair_control_token:
  assumes "run_parser parse_repair_control bs = Ok (old, token)" and "length bs = REPAIR_CONTROL_BYTES"
  shows "length token = 32"
  using assms repair_control_codec.run_iff [of bs "(old, token)"]
  by (simp add: repair_ids_wf_def REPAIR_CONTROL_BYTES_def)

lemma finish_receive_Ok:
  assumes "finish_receive P st inner env = Ok outcome"
  obtains t where "outcome = Prepared t" and "dt_inner t = inner"
    and "sha256 P env = Ok (dt_replay_marker t)"
    and "dt_payload_kind t = 0 \<and> dt_state t = st
       \<or> dt_payload_kind t = 1 \<and> rs_received_repair_token st = None
         \<and> (\<exists>token. length token = 32 \<and> dt_state t = st\<lparr>rs_received_repair_token := Some token\<rparr>)"
proof -
  from assms obtain kind st' marker where inspect: "inspect_repair_control st inner = Ok (kind, st')"
    and marker: "sha256 P env = Ok marker"
    and outcome: "outcome = Prepared \<lparr>dt_state = st', dt_inner = inner, dt_replay_marker = marker,
      dt_payload_kind = kind\<rparr>"
    by (auto simp: finish_receive_def elim!: monad_elims)
  from inspect have "kind = 0 \<and> st' = st
       \<or> kind = 1 \<and> rs_received_repair_token st = None
         \<and> (\<exists>token. length token = 32 \<and> st' = st\<lparr>rs_received_repair_token := Some token\<rparr>)"
    by (auto simp: inspect_repair_control_def elim!: monad_elims split: if_splits
        dest: repair_control_token)
  with marker show thesis by (intro that [OF outcome]) simp_all
qed

lemma projected_skip_Ok:
  "projected_skip_within_bounds st n other = Ok within \<Longrightarrow>
     within \<longleftrightarrow> length (rs_skipped st) + n \<le> MAX_SKIPPED_PER_SESSION
       \<and> unat other + (length (rs_skipped st) + n) \<le> MAX_SKIPPED_ACCOUNT"
  by (auto simp: projected_skip_within_bounds_def usize_checked_add_def elim!: monad_elims split: if_splits)

lemma ratchet_step_Ok:
  assumes "ratchet_step P st rp tape = Ok (st', tape')"
  obtains dh1 r1 c1 s dh2 r2 c2 where "tape = s @ tape'" and "length s = 32"
    and "x25519_shared P (rs_local_ratchet_secret st) rp = Ok dh1"
    and "kdf_root P (rs_root_key st) dh1 = Ok (r1, c1)"
    and "x25519_shared P s rp = Ok dh2" and "kdf_root P r1 dh2 = Ok (r2, c2)"
    and "st' = st\<lparr>rs_previous_send_count := rs_send_count st, rs_send_count := 0, rs_receive_count := 0,
       rs_remote_ratchet_public := rp, rs_root_key := r2, rs_receiving_chain := Some c1,
       rs_sending_chain := Some c2, rs_local_ratchet_secret := s, rs_local_ratchet_public := x_public_of P s\<rparr>"
  using assms by (auto simp: ratchet_step_def ret_apply random_bytes_Ok_iff x25519_public_def Let_def
      elim!: monad_elims)

text \<open>How a header moves the session before the message itself is opened.\<close>

lemma prepare_chain_Ok:
  assumes "prepare_chain P st h other tape = Ok (Some st', tape')"
  obtains (same) "rh_ratchet_public h = rs_remote_ratchet_public st" "st' = st" "tape' = tape"
      "rs_receive_count st \<le> rh_message_number h"
      "length (rs_skipped st) + (unat (rh_message_number h) - unat (rs_receive_count st)) \<le> MAX_SKIPPED_PER_SESSION"
      "unat other + (length (rs_skipped st) + (unat (rh_message_number h) - unat (rs_receive_count st)))
         \<le> MAX_SKIPPED_ACCOUNT"
    | (new) st1 where "rh_ratchet_public h \<noteq> rs_remote_ratchet_public st"
      "rs_receive_count st \<le> rh_previous_chain_length h"
      "length (rs_skipped st) + (unat (rh_previous_chain_length h) - unat (rs_receive_count st)
         + unat (rh_message_number h)) \<le> MAX_SKIPPED_PER_SESSION"
      "unat other + (length (rs_skipped st) + (unat (rh_previous_chain_length h) - unat (rs_receive_count st)
         + unat (rh_message_number h))) \<le> MAX_SKIPPED_ACCOUNT"
      "skip_receiving_keys P st (rh_previous_chain_length h) = Ok st1"
      "ratchet_step P st1 (rh_ratchet_public h) tape = Ok (st', tape')"
proof (cases "rh_ratchet_public h = rs_remote_ratchet_public st")
  case True
  with assms show thesis
    by (intro same) (auto simp: prepare_chain_def ret_apply word_le_nat_alt word_less_nat_alt unat_sub
        elim!: monad_elims split: if_splits dest!: projected_skip_Ok)
next
  case False
  let ?gap = "unat (rh_previous_chain_length h - rs_receive_count st) + unat (rh_message_number h)"
  have "\<exists>st1. rs_receive_count st \<le> rh_previous_chain_length h
      \<and> projected_skip_within_bounds st ?gap other = Ok True
      \<and> skip_receiving_keys P st (rh_previous_chain_length h) = Ok st1
      \<and> ratchet_step P st1 (rh_ratchet_public h) tape = Ok (st', tape')"
    using False assms
    by (auto simp: prepare_chain_def ret_apply usize_checked_add_def Let_def not_less
        elim!: monad_elims split: if_splits)
  then obtain st1 where le: "rs_receive_count st \<le> rh_previous_chain_length h"
    and within: "projected_skip_within_bounds st ?gap other = Ok True"
    and skip: "skip_receiving_keys P st (rh_previous_chain_length h) = Ok st1"
    and step: "ratchet_step P st1 (rh_ratchet_public h) tape = Ok (st', tape')"
    by blast
  from le have "?gap = unat (rh_previous_chain_length h) - unat (rs_receive_count st) + unat (rh_message_number h)"
    by (simp add: unat_sub)
  with projected_skip_Ok [OF within] show thesis
    by (intro new [OF False le _ _ skip step]) simp_all
qed

section \<open>What a received message does to a session\<close>

lemma skip_receiving_keys_core:
  assumes P: "sized_prims P" and core: "session_core P st" and run: "skip_receiving_keys P st until = Ok st'"
    and bound: "length (rs_skipped st) + (unat until - unat (rs_receive_count st)) \<le> MAX_SKIPPED_PER_SESSION"
  shows "session_core P st'" and "same_session st st'"
    and "length (rs_skipped st') = length (rs_skipped st) + (unat until - unat (rs_receive_count st))"
    and "rs_receive_count st' = until" and "rs_sending_chain st' = rs_sending_chain st"
    and "rs_remote_ratchet_public st' = rs_remote_ratchet_public st"
    and "k \<in> set (rs_skipped st') \<Longrightarrow> k \<in> set (rs_skipped st)
      \<or> sk_ratchet_public k = rs_remote_ratchet_public st \<and> rs_receive_count st \<le> sk_message_number k"
    and "rs_receive_count st \<le> until"
proof -
  from P session_coreD(1-3) [OF core] run obtain chain skipped where
    st': "st' = st\<lparr>rs_skipped := skipped, rs_receiving_chain := chain, rs_receive_count := until\<rparr>"
    and le: "rs_receive_count st \<le> until"
    and len: "length skipped = length (rs_skipped st) + (unat until - unat (rs_receive_count st))"
    and sorted: "skipped_sorted skipped" and wf: "list_all skipped_wf skipped"
    and chain: "chain = None \<longleftrightarrow> rs_receiving_chain st = None" "secret_option_wf chain"
      "chain = None \<longrightarrow> until = rs_receive_count st"
    and keys: "\<forall>k \<in> set skipped. k \<in> set (rs_skipped st)
          \<or> sk_ratchet_public k = rs_remote_ratchet_public st \<and> rs_receive_count st \<le> sk_message_number k
            \<and> sk_message_number k < until"
    by (rule skip_receiving_keys_Ok)
  have "skipped_below st'"
    using keys le core by (fastforce simp: st' skipped_below_def session_core_def)
  moreover have "0 < until \<Longrightarrow> chain \<noteq> None"
    using chain core by (auto simp: session_core_def)
  ultimately show "session_core P st'"
    using core sorted wf chain(2) len bound by (simp add: st' session_core_def ratchet_fields_wf_def)
  show "length (rs_skipped st') = length (rs_skipped st) + (unat until - unat (rs_receive_count st))"
    by (simp add: st' len)
  show "rs_receive_count st \<le> until" by (rule le)
  show "k \<in> set (rs_skipped st)
      \<or> sk_ratchet_public k = rs_remote_ratchet_public st \<and> rs_receive_count st \<le> sk_message_number k"
    if "k \<in> set (rs_skipped st')"
    using keys that by (auto simp: st')
  show "same_session st st'" and "rs_receive_count st' = until" and "rs_sending_chain st' = rs_sending_chain st"
    and "rs_remote_ratchet_public st' = rs_remote_ratchet_public st"
    by (simp_all add: st' same_session_def)
qed

lemma ratchet_step_core:
  assumes P: "sized_prims P" and core: "session_core P st" and rp: "length rp = 32"
    and fresh: "\<forall>k \<in> set (rs_skipped st). sk_ratchet_public k \<noteq> rp"
    and run: "ratchet_step P st rp tape = Ok (st', tape')"
  shows "session_core P st'" and "same_session st st'" and "rs_skipped st' = rs_skipped st"
    and "rs_receive_count st' = 0" and "rs_sending_chain st' \<noteq> None"
    and "rs_remote_ratchet_public st' = rp"
proof -
  from run obtain dh1 r1 c1 s dh2 r2 c2 where s: "length s = 32"
    and k1: "kdf_root P (rs_root_key st) dh1 = Ok (r1, c1)" and k2: "kdf_root P r1 dh2 = Ok (r2, c2)"
    and st': "st' = st\<lparr>rs_previous_send_count := rs_send_count st, rs_send_count := 0, rs_receive_count := 0,
       rs_remote_ratchet_public := rp, rs_root_key := r2, rs_receiving_chain := Some c1,
       rs_sending_chain := Some c2, rs_local_ratchet_secret := s, rs_local_ratchet_public := x_public_of P s\<rparr>"
    by (rule ratchet_step_Ok)
  show "session_core P st'"
    using core rp fresh s kdf_root_lengths [OF k1] kdf_root_lengths [OF k2] sized_primsD(3) [OF P]
    by (auto simp: st' session_core_def ratchet_fields_wf_def secret_option_wf_def skipped_below_def)
  show "same_session st st'" and "rs_skipped st' = rs_skipped st" and "rs_receive_count st' = 0"
    and "rs_sending_chain st' \<noteq> None" and "rs_remote_ratchet_public st' = rp"
    by (simp_all add: st' same_session_def)
qed

text \<open>
  \<open>spent rp n st\<close>: message \<open>n\<close> of the current chain, the one of the ratchet key \<open>rp\<close>, has been opened; the
  session has moved past it and keeps no key for it.
\<close>

definition spent :: "bytes \<Rightarrow> u32 \<Rightarrow> ratchet_state \<Rightarrow> bool" where
  "spent rp n st \<longleftrightarrow>
     rs_remote_ratchet_public st = rp \<and> n < rs_receive_count st
     \<and> (\<forall>k \<in> set (rs_skipped st). skipped_index k \<noteq> (rp, n))"

lemma skip_receiving_keys_spent:
  assumes "sized_prims P" and "session_core P st" and "skip_receiving_keys P st until = Ok st'"
    and "length (rs_skipped st) + (unat until - unat (rs_receive_count st)) \<le> MAX_SKIPPED_PER_SESSION"
    and "spent rp n st"
  shows "spent rp n st'"
  using skip_receiving_keys_core(4,6,7,8) [OF assms(1-4)] assms(5)
  by (fastforce simp: spent_def skipped_index_def)

text \<open>\<open>control_applied st t\<close>: the state of \<open>t\<close> is \<open>st\<close> with the control message of its payload recorded.\<close>

definition control_applied :: "ratchet_state \<Rightarrow> decrypted_transition \<Rightarrow> bool" where
  "control_applied st t \<longleftrightarrow>
     (dt_payload_kind t = 0 \<and> dt_state t = st
       \<or> dt_payload_kind t = 1 \<and> rs_received_repair_token st = None
         \<and> (\<exists>token. length token = 32 \<and> dt_state t = st\<lparr>rs_received_repair_token := Some token\<rparr>))"

lemma control_applied_facts:
  assumes "control_applied st t"
  shows "session_core P st \<Longrightarrow> session_core P (dt_state t)" and "rs_skipped (dt_state t) = rs_skipped st"
    and "role_respected (dt_state t) = role_respected st"
    and "one_repair_token st \<Longrightarrow>
      one_repair_token (dt_state t) \<longleftrightarrow> \<not> (dt_payload_kind t = 1 \<and> rs_issued_repair_token st \<noteq> None)"
    and "spent rp n (dt_state t) = spent rp n st"
    and "rs_session_id (dt_state t) = rs_session_id st" and "rs_local_device_id (dt_state t) = rs_local_device_id st"
proof -
  consider (none) "dt_payload_kind t = 0" "dt_state t = st"
    | (control) token where "dt_payload_kind t = 1" "rs_received_repair_token st = None" "length token = 32"
        "dt_state t = st\<lparr>rs_received_repair_token := Some token\<rparr>"
    using assms unfolding control_applied_def by blast
  note split = this
  show "session_core P (dt_state t)" if "session_core P st"
    using split that by cases (simp_all add: session_core_def ratchet_fields_wf_def secret_option_wf_def skipped_below_def)
  show "rs_skipped (dt_state t) = rs_skipped st" using split by cases simp_all
  show "role_respected (dt_state t) = role_respected st"
    using split by cases (simp_all add: role_respected_def)
  show "spent rp n (dt_state t) = spent rp n st" using split by cases (simp_all add: spent_def)
  show "rs_session_id (dt_state t) = rs_session_id st" using split by cases simp_all
  show "rs_local_device_id (dt_state t) = rs_local_device_id st" using split by cases simp_all
  show "one_repair_token (dt_state t) \<longleftrightarrow> \<not> (dt_payload_kind t = 1 \<and> rs_issued_repair_token st \<noteq> None)"
    if "one_repair_token st"
    using split that by cases (simp_all add: one_repair_token_def)
qed

lemma remove_first_removes:
  assumes "remove_first (is_skipped_key h) keys = Some keys'" and "skipped_sorted keys"
  shows "\<forall>j \<in> set keys'. skipped_index j \<noteq> (rh_ratchet_public h, rh_message_number h)"
proof -
  from remove_first_SomeD [OF assms(1)] obtain us k vs where "keys = us @ k # vs" "keys' = us @ vs" "is_skipped_key h k"
    by blast
  with assms(2) show ?thesis
    by (auto simp: sorted_wrt_append is_skipped_key_def skipped_index_def)
qed

lemma receive_skipped_Ok:
  assumes core: "session_core P st" and run: "receive_skipped P st recipient env e h = Ok outcome"
  obtains t st1 k where "outcome = Prepared t" and "control_applied st1 t" and "session_core P st1"
    and "same_session st st1" and "rs_sending_chain st1 = rs_sending_chain st"
    and "length (rs_skipped st) = Suc (length (rs_skipped st1))"
    and "k \<in> set (rs_skipped st)" and "is_skipped_key h k"
    and "decrypt_envelope P recipient e (sk_message_key k) = Ok (dt_inner t)"
    and "rh_ratchet_public h = rs_remote_ratchet_public st \<longrightarrow> rh_message_number h < rs_receive_count st \<longrightarrow>
      spent (rh_ratchet_public h) (rh_message_number h) st1"
    and "\<forall>rp n. spent rp n st \<longrightarrow> spent rp n st1"
proof -
  from run obtain k inner skipped where k: "find (is_skipped_key h) (rs_skipped st) = Some k"
    and inner: "decrypt_envelope P recipient e (sk_message_key k) = Ok inner"
    and skipped: "remove_first (is_skipped_key h) (rs_skipped st) = Some skipped"
    and fin: "finish_receive P (st\<lparr>rs_skipped := skipped\<rparr>) inner env = Ok outcome"
    by (auto simp: receive_skipped_def elim!: monad_elims)
  from fin obtain t where t: "outcome = Prepared t" "dt_inner t = inner"
    "control_applied (st\<lparr>rs_skipped := skipped\<rparr>) t"
    by (rule finish_receive_Ok) (auto simp: control_applied_def)
  have "session_core P (st\<lparr>rs_skipped := skipped\<rparr>)"
    using core remove_first_sorted_wrt [OF skipped] remove_first_subset [OF skipped] remove_first_length [OF skipped]
    by (auto simp: session_core_def ratchet_fields_wf_def skipped_below_def list_all_iff)
  moreover have "k \<in> set (rs_skipped st)" "is_skipped_key h k"
    using k by (auto simp: find_Some_iff)
  moreover have "\<forall>j \<in> set skipped. skipped_index j \<noteq> (rh_ratchet_public h, rh_message_number h)"
    using remove_first_removes [OF skipped session_coreD(2) [OF core]] .
  moreover have "\<forall>rp n. spent rp n st \<longrightarrow> spent rp n (st\<lparr>rs_skipped := skipped\<rparr>)"
    using remove_first_subset [OF skipped] by (auto simp: spent_def)
  ultimately show thesis
    using t inner remove_first_length [OF skipped]
    by (intro that [OF t(1,3)]) (auto simp: same_session_def spent_def)
qed

lemma receive_next_Ok:
  assumes P: "sized_prims P" and core: "session_core P st"
    and bound: "length (rs_skipped st) + (unat (rh_message_number h) - unat (rs_receive_count st))
      \<le> MAX_SKIPPED_PER_SESSION"
    and run: "receive_next P st recipient env e h = Ok outcome"
  obtains t st1 where "outcome = Prepared t" and "control_applied st1 t" and "session_core P st1"
    and "same_session st st1" and "rs_sending_chain st1 = rs_sending_chain st"
    and "length (rs_skipped st1)
      = length (rs_skipped st) + (unat (rh_message_number h) - unat (rs_receive_count st))"
    and "rh_ratchet_public h = rs_remote_ratchet_public st \<longrightarrow>
      spent (rh_ratchet_public h) (rh_message_number h) st1"
    and "\<forall>rp n. spent rp n st \<longrightarrow> spent rp n st1"
proof -
  from run obtain st0 chain mk nc inner count where
    skip: "skip_receiving_keys P st (rh_message_number h) = Ok st0"
    and step: "chain_step P chain = Ok (mk, nc)"
    and count: "checked_add (rs_receive_count st0) 1 = Some count"
    and fin: "finish_receive P (st0\<lparr>rs_receiving_chain := Some nc, rs_receive_count := count\<rparr>) inner env
      = Ok outcome" (is "finish_receive P ?st1 inner env = _")
    by (auto simp: receive_next_def elim!: monad_elims)
  note skip_core = skip_receiving_keys_core [OF P core skip bound]
  from fin obtain t where t: "outcome = Prepared t" "control_applied ?st1 t"
    by (rule finish_receive_Ok) (auto simp: control_applied_def)
  have "rs_receive_count st0 < count"
    using checked_add_unat [OF count] by (simp add: word_less_nat_alt)
  then have "session_core P ?st1"
    using skip_core(1) chain_step_lengths [OF P step]
    by (fastforce simp: session_core_def ratchet_fields_wf_def secret_option_wf_def skipped_below_def)
  moreover have "\<forall>rp n. spent rp n st \<longrightarrow> spent rp n ?st1"
    using skip_receiving_keys_spent [OF P core skip bound] \<open>rs_receive_count st0 < count\<close>
    by (fastforce simp: spent_def)
  moreover have "rh_ratchet_public h = rs_remote_ratchet_public st \<longrightarrow>
      spent (rh_ratchet_public h) (rh_message_number h) ?st1"
    using skip_core(4,6) session_coreD(3) [OF skip_core(1)] \<open>rs_receive_count st0 < count\<close>
    by (auto simp: spent_def skipped_below_def skipped_index_def)
  ultimately show thesis using skip_core(2,3,5) by (intro that [OF t]) (auto simp: same_session_def)
qed

section \<open>Decryption as a whole\<close>

definition regular_header_of :: "bytes \<Rightarrow> regular_header option" where
  "regular_header_of env =
     (case parse_envelope env of
        Ok e \<Rightarrow> (case en_header e of Regular h \<Rightarrow> Some h | Initial _ \<Rightarrow> None)
      | Err _ \<Rightarrow> None)"

definition new_ratchet_key :: "ratchet_state \<Rightarrow> bytes \<Rightarrow> bool" where
  "new_ratchet_key st env \<longleftrightarrow>
     (case regular_header_of env of
        Some h \<Rightarrow> rh_ratchet_public h \<noteq> rs_remote_ratchet_public st
      | None \<Rightarrow> False)"

text \<open>A new ratchet key of the peer is fresh: no key of an older chain of it is still kept.\<close>

definition fresh_ratchet_key :: "ratchet_state \<Rightarrow> bytes \<Rightarrow> bool" where
  "fresh_ratchet_key st env \<longleftrightarrow>
     (case regular_header_of env of
        Some h \<Rightarrow> rh_ratchet_public h \<noteq> rs_remote_ratchet_public st \<longrightarrow>
          list_all (\<lambda>k. sk_ratchet_public k \<noteq> rh_ratchet_public h) (rs_skipped st)
      | None \<Rightarrow> True)"

lemma regular_header_of_wf: "regular_header_of env = Some h \<Longrightarrow> regular_header_wf h"
  by (auto simp: regular_header_of_def parse_envelope_Ok_iff split: sum.splits ratchet_header.splits)

lemma new_chain_core:
  assumes P: "sized_prims P" and core: "session_core P st" and rp: "length rp = 32"
    and new: "rp \<noteq> rs_remote_ratchet_public st"
    and fresh: "list_all (\<lambda>k. sk_ratchet_public k \<noteq> rp) (rs_skipped st)"
    and bound: "length (rs_skipped st) + (unat previous - unat (rs_receive_count st) + n) \<le> MAX_SKIPPED_PER_SESSION"
    and skipped: "skip_receiving_keys P st previous = Ok st1"
    and step: "ratchet_step P st1 rp tape = Ok (st', tape')"
  shows "session_core P st'" and "same_session st st'" and "rs_sending_chain st' \<noteq> None"
    and "rs_receive_count st' = 0" and "rs_remote_ratchet_public st' = rp"
    and "length (rs_skipped st') = length (rs_skipped st) + (unat previous - unat (rs_receive_count st))"
    and "length (rs_skipped st') + (n - unat (rs_receive_count st')) \<le> MAX_SKIPPED_PER_SESSION"
proof -
  have "length (rs_skipped st) + (unat previous - unat (rs_receive_count st)) \<le> MAX_SKIPPED_PER_SESSION"
    using bound by simp
  note skip = skip_receiving_keys_core [OF P core skipped this]
  have "\<forall>k \<in> set (rs_skipped st1). sk_ratchet_public k \<noteq> rp"
    using skip(7) fresh new by (fastforce simp: list_all_iff)
  note stepped = ratchet_step_core [OF P skip(1) rp this step]
  show "session_core P st'" and "rs_sending_chain st' \<noteq> None" and "rs_receive_count st' = 0"
    and "rs_remote_ratchet_public st' = rp"
    by (rule stepped)+
  show "same_session st st'" using skip(2) stepped(2) by (simp add: same_session_def)
  show "length (rs_skipped st') = length (rs_skipped st) + (unat previous - unat (rs_receive_count st))"
    using skip(3) stepped(3) by simp
  then show "length (rs_skipped st') + (n - unat (rs_receive_count st')) \<le> MAX_SKIPPED_PER_SESSION"
    using bound stepped(4) by simp
qed

text \<open>What one decryption does, on each of its three paths.\<close>

lemma ratchet_decrypt_Ok:
  assumes P: "sized_prims P" and core: "session_core P st" and fresh: "fresh_ratchet_key st env"
    and run: "ratchet_decrypt P st recipient env other tape = Ok (Prepared t, tape')"
  obtains st1 where "control_applied st1 t" and "session_core P st1" and "same_session st st1"
    and "new_ratchet_key st env \<longrightarrow> rs_sending_chain st1 \<noteq> None"
    and "\<not> new_ratchet_key st env \<longrightarrow> rs_sending_chain st1 = rs_sending_chain st"
    and "length (rs_skipped st) = Suc (length (rs_skipped st1))
      \<or> length (rs_skipped st1) \<le> MAX_SKIPPED_PER_SESSION
        \<and> unat other + length (rs_skipped st1) \<le> MAX_SKIPPED_ACCOUNT"
    and "\<exists>h. regular_header_of env = Some h \<and> rh_session_id h = rs_session_id st
      \<and> spent (rh_ratchet_public h) (rh_message_number h) st1"
    and "\<not> new_ratchet_key st env \<longrightarrow> (\<forall>rp n. spent rp n st \<longrightarrow> spent rp n st1)"
    and "rs_local_device_id st = recipient"
proof -
  from run obtain e h where e: "parse_envelope env = Ok e" "en_header e = Regular h"
    and ids: "rs_local_device_id st = recipient" "rh_session_id h = rs_session_id st"
    and branch: "(if rh_ratchet_public h = rs_remote_ratchet_public st \<and> rh_message_number h < rs_receive_count st
       then slift (receive_skipped P st recipient env e h)
       else sbind (prepare_chain P st h other) (\<lambda>prepared. case prepared of
              None \<Rightarrow> ret RepairRequired
            | Some st \<Rightarrow> slift (receive_next P st recipient env e h))) tape = Ok (Prepared t, tape')"
    by (auto simp: ratchet_decrypt_def elim!: monad_elims split: ratchet_header.splits if_splits)
  then have h: "regular_header_of env = Some h" by (simp add: regular_header_of_def)
  have new: "new_ratchet_key st env \<longleftrightarrow> rh_ratchet_public h \<noteq> rs_remote_ratchet_public st"
    by (simp add: new_ratchet_key_def h)
  show thesis
  proof (cases "rh_ratchet_public h = rs_remote_ratchet_public st \<and> rh_message_number h < rs_receive_count st")
    case True
    with branch have "receive_skipped P st recipient env e h = Ok (Prepared t)" by (auto elim!: monad_elims)
    from core this show thesis
      by (rule receive_skipped_Ok) (use True ids in \<open>auto intro!: that simp: new h\<close>)
  next
    case False
    with branch obtain st0 where prep: "prepare_chain P st h other tape = Ok (Some st0, tape')"
      and recv: "receive_next P st0 recipient env e h = Ok (Prepared t)"
      by (auto elim!: monad_elims simp: ret_apply split: option.splits)
    from prep show thesis
    proof (cases rule: prepare_chain_Ok)
      case same
      from P core same(5) [folded same(2)] recv [unfolded same(2)] show thesis
        by (simp only: same(2)) (erule (3) receive_next_Ok, use same ids in \<open>auto intro!: that simp: new h\<close>)
    next
      case step: (new st1)
      have rp: "length (rh_ratchet_public h) = 32"
        using regular_header_of_wf [OF h] by (simp add: regular_header_wf_def)
      have "list_all (\<lambda>k. sk_ratchet_public k \<noteq> rh_ratchet_public h) (rs_skipped st)"
        using fresh step(1) by (simp add: fresh_ratchet_key_def h)
      note entered = new_chain_core [OF P core rp step(1) this step(3,5,6)]
      from P entered(1,7) recv show thesis
        by (rule receive_next_Ok)
          (use step(1,3,4) entered ids in \<open>auto intro!: that simp: new h same_session_def\<close>)
    qed
  qed
qed

end
