(* ===== verification/Ratchet_Delivery.thy ===== *)
theory Ratchet_Delivery
  imports Ratchet_Invariant
begin

text \<open>
  Delivery of the messages of one chain. A receiver that follows the chain of the sender opens every
  message of it exactly once, in whatever order and however often the envelopes arrive, as
  long as the messages outstanding fit into the skip limits.
\<close>

section \<open>Envelopes of a chain\<close>

definition opens_as :: "prims \<Rightarrow> bytes \<Rightarrow> bytes \<Rightarrow> regular_header \<Rightarrow> bytes \<Rightarrow> bytes \<Rightarrow> bool" where
  "opens_as P recipient env h key inner \<longleftrightarrow>
     (case parse_envelope env of
        Ok e \<Rightarrow> en_header e = Regular h \<and> decrypt_envelope P recipient e key = Ok inner
      | Err _ \<Rightarrow> False)"

lemma opens_asE:
  assumes "opens_as P recipient env h key inner"
  obtains e where "parse_envelope env = Ok e" and "en_header e = Regular h"
    and "decrypt_envelope P recipient e key = Ok inner" and "sha256 P env = Ok (sha256_raw P env)"
proof -
  from assms obtain e where e: "parse_envelope env = Ok e" "en_header e = Regular h"
    "decrypt_envelope P recipient e key = Ok inner"
    by (auto simp: opens_as_def split: sum.splits)
  then have "length env \<in> set ALLOWED_BUCKETS" by (auto simp: parse_envelope_Ok_iff)
  then have "sha256 P env = Ok (sha256_raw P env)"
    by (auto simp: sha256_def bounded_bytes_new_def ALLOWED_BUCKETS_def MAX_INPUT_BYTES_def)
  with e show thesis by (rule that)
qed

lemma encrypt_opens_as:
  assumes "sized_prims P" and "aead_correct P" and "length key = 32" and "length recipient = 16"
    and "regular_header_wf h"
    and "encrypt_envelope P recipient (header_bytes (Regular h)) key inner tape = Ok (env, tape')"
  shows "opens_as P recipient env h key inner"
proof -
  from assms(5) have "header_wf (Regular h)" by simp
  from assms(1-4) this assms(6) show ?thesis
    by (rule sealed_envelope_parses) (simp add: opens_as_def)
qed

definition is_control :: "bytes \<Rightarrow> bool" where
  "is_control inner \<longleftrightarrow> take 8 inner = REPAIR_CONTROL_MAGIC"

definition plain_transition :: "prims \<Rightarrow> ratchet_state \<Rightarrow> bytes \<Rightarrow> bytes \<Rightarrow> decrypted_transition" where
  "plain_transition P st inner env =
     \<lparr>dt_state = st, dt_inner = inner, dt_replay_marker = sha256_raw P env, dt_payload_kind = 0\<rparr>"

lemma finish_receive_plain:
  assumes "\<not> is_control inner" and "sha256 P env = Ok (sha256_raw P env)"
  shows "finish_receive P st inner env = Ok (Prepared (plain_transition P st inner env))"
  using assms by (simp add: finish_receive_def inspect_repair_control_def is_control_def plain_transition_def)

lemma plain_transition_simps [simp]:
  "dt_state (plain_transition P st inner env) = st" "dt_inner (plain_transition P st inner env) = inner"
  "dt_payload_kind (plain_transition P st inner env) = 0"
  by (simp_all add: plain_transition_def)

lemma control_applied_plain [simp]: "control_applied st1 (plain_transition P st inner env) \<longleftrightarrow> st1 = st"
  by (auto simp: control_applied_def)

section \<open>A receiver in a chain\<close>

definition follows_chain :: "prims \<Rightarrow> bytes \<Rightarrow> ratchet_state \<Rightarrow> bool" where
  "follows_chain P c st \<longleftrightarrow>
     session_core P st \<and> length c = 32
     \<and> rs_receiving_chain st = Some (chain_at P c (unat (rs_receive_count st)))
     \<and> (\<forall>k \<in> set (rs_skipped st). sk_ratchet_public k = rs_remote_ratchet_public st \<longrightarrow>
          sk_message_key k = message_at P c (unat (sk_message_number k)))"

text \<open>The messages below \<open>n\<close> fit into the skip limits.\<close>

definition room :: "nat \<Rightarrow> u32 \<Rightarrow> ratchet_state \<Rightarrow> bool" where
  "room n other st \<longleftrightarrow>
     (let needed = length (rs_skipped st) + (n - unat (rs_receive_count st)) in
      unat (rs_receive_count st) \<le> n \<and> n < 2 ^ 32 \<and> needed \<le> MAX_SKIPPED_PER_SESSION
      \<and> unat other + needed \<le> MAX_SKIPPED_ACCOUNT)"

text \<open>Receiving in a chain touches nothing but the receiving side of the session.\<close>

definition receives_only :: "ratchet_state \<Rightarrow> ratchet_state \<Rightarrow> bool" where
  "receives_only st st' \<longleftrightarrow> (\<exists>skipped chain count.
     st' = st\<lparr>rs_skipped := skipped, rs_receiving_chain := chain, rs_receive_count := count\<rparr>)"

lemma receives_only_refl: "receives_only st st"
  unfolding receives_only_def
  by (rule exI [of _ "rs_skipped st"], rule exI [of _ "rs_receiving_chain st"], rule exI [of _ "rs_receive_count st"])
    simp

lemma receives_only_trans: "receives_only a b \<Longrightarrow> receives_only b c \<Longrightarrow> receives_only a c"
  unfolding receives_only_def by force

lemma receives_onlyD:
  assumes "receives_only st st'"
  shows "same_session st st'" and "rs_remote_ratchet_public st' = rs_remote_ratchet_public st"
    and "rs_session_id st' = rs_session_id st" and "rs_local_device_id st' = rs_local_device_id st"
    and "rs_root_key st' = rs_root_key st" and "rs_sending_chain st' = rs_sending_chain st"
    and "rs_local_ratchet_secret st' = rs_local_ratchet_secret st"
    and "rs_local_ratchet_public st' = rs_local_ratchet_public st"
    and "rs_send_count st' = rs_send_count st" and "rs_previous_send_count st' = rs_previous_send_count st"
    and "rs_remote_device_id st' = rs_remote_device_id st"
  using assms by (auto simp: receives_only_def same_session_def)

text \<open>Opening message \<open>n\<close> spends it and nothing else.\<close>

definition spends :: "bytes \<Rightarrow> u32 \<Rightarrow> ratchet_state \<Rightarrow> ratchet_state \<Rightarrow> bool" where
  "spends rp n st st' \<longleftrightarrow> (\<forall>m. spent rp m st' \<longleftrightarrow> spent rp m st \<or> m = n)"

lemma receive_skipped_in_chain:
  assumes chain: "follows_chain P c st" and rp: "rh_ratchet_public h = rs_remote_ratchet_public st"
    and key: "opens_as P recipient env h (message_at P c (unat (rh_message_number h))) inner"
    and plain: "\<not> is_control inner" and old: "rh_message_number h < rs_receive_count st"
    and open_msg: "\<not> spent (rh_ratchet_public h) (rh_message_number h) st"
    and e: "parse_envelope env = Ok e"
  obtains st' where "receive_skipped P st recipient env e h = Ok (Prepared (plain_transition P st' inner env))"
    and "follows_chain P c st'" and "receives_only st st'"
    and "spends (rh_ratchet_public h) (rh_message_number h) st st'" and "room n other st \<longrightarrow> room n other st'"
proof -
  let ?p = "is_skipped_key h"
  have core: "session_core P st" using chain by (simp add: follows_chain_def)
  from open_msg old rp have "\<exists>k \<in> set (rs_skipped st). ?p k"
    by (auto simp: spent_def skipped_index_def is_skipped_key_def)
  then obtain skipped where skipped: "remove_first ?p (rs_skipped st) = Some skipped"
    by (cases "remove_first ?p (rs_skipped st)") (auto simp: remove_first_None_iff)
  from remove_first_SomeD [OF this] obtain us k vs where split: "rs_skipped st = us @ k # vs"
    "skipped = us @ vs" "?p k" "find ?p (rs_skipped st) = Some k" by blast
  let ?st = "st\<lparr>rs_skipped := skipped\<rparr>"
  have "sk_message_key k = message_at P c (unat (rh_message_number h))"
    using chain split(1,3) rp by (auto simp: follows_chain_def is_skipped_key_def)
  with key e have run: "receive_skipped P st recipient env e h = Ok (Prepared (plain_transition P ?st inner env))"
    by (auto simp: receive_skipped_def split(4) skipped finish_receive_plain [OF plain] elim!: opens_asE)
  from core run have "session_core P ?st"
    by (rule receive_skipped_Ok) clarsimp
  with chain split have "follows_chain P c ?st" by (auto simp: follows_chain_def)
  moreover have "spends (rh_ratchet_public h) (rh_message_number h) st ?st"
    using remove_first_removes [OF skipped session_coreD(2) [OF core]] old rp split
    by (auto simp: spends_def spent_def skipped_index_def is_skipped_key_def)
  moreover have "room n other st \<longrightarrow> room n other ?st" by (auto simp: room_def Let_def split)
  moreover have "receives_only st ?st"
    unfolding receives_only_def
    by (rule exI [of _ skipped], rule exI [of _ "rs_receiving_chain st"], rule exI [of _ "rs_receive_count st"]) simp
  ultimately show thesis by (intro that [OF run]) simp_all
qed

lemma skipped_run_index:
  fixes r n m :: u32
  assumes "r \<le> m" and "m < n"
  shows "\<exists>k \<in> set (skipped_run P rp c r (unat n - unat r)). skipped_index k = (rp, m)"
proof -
  have "r + word_of_nat (unat m - unat r) = m"
    using assms(1) by (simp add: word_le_nat_alt of_nat_diff)
  moreover have "unat m - unat r < unat n - unat r"
    using assms by (simp add: word_le_nat_alt word_less_nat_alt)
  ultimately show ?thesis
    by (auto simp: skipped_run_def skipped_for_def skipped_index_def intro!: bexI [of _ "unat m - unat r"])
qed

text \<open>The session after opening message \<open>n\<close> at or beyond the receive counter.\<close>

definition moved_past :: "prims \<Rightarrow> bytes \<Rightarrow> u32 \<Rightarrow> ratchet_state \<Rightarrow> ratchet_state" where
  "moved_past P c n st = st\<lparr>
     rs_skipped := sort_key skipped_index (rs_skipped st
       @ skipped_run P (rs_remote_ratchet_public st) (chain_at P c (unat (rs_receive_count st))) (rs_receive_count st)
           (unat n - unat (rs_receive_count st))),
     rs_receiving_chain := Some (chain_at P c (Suc (unat n))), rs_receive_count := n + 1\<rparr>"

lemma moved_past_keys:
  assumes P: "sized_prims P" and chain: "follows_chain P c st" and next_msg: "rs_receive_count st \<le> n"
    and k: "k \<in> set (rs_skipped (moved_past P c n st))"
  shows "k \<in> set (rs_skipped st)
    \<or> sk_ratchet_public k = rs_remote_ratchet_public st \<and> rs_receive_count st \<le> sk_message_number k
      \<and> sk_message_number k < n \<and> sk_message_key k = message_at P c (unat (sk_message_number k))"
proof -
  let ?r = "rs_receive_count st"
  have lens: "length (chain_at P c (unat ?r)) = 32" "length (rs_remote_ratchet_public st) = 32"
    using chain length_chain_at [OF P] by (auto simp: follows_chain_def session_core_def ratchet_fields_wf_def)
  have sum: "unat ?r + (unat n - unat ?r) = unat n" using next_msg by (simp add: word_le_nat_alt)
  show ?thesis
    using k skipped_run_facts(4) [OF P lens sum, of k]
    by (auto simp: moved_past_def message_at_add word_le_nat_alt)
qed

lemma receive_next_in_chain:
  assumes P: "sized_prims P" and chain: "follows_chain P c st"
    and key: "opens_as P recipient env h (message_at P c (unat (rh_message_number h))) inner"
    and plain: "\<not> is_control inner" and next_msg: "rs_receive_count st \<le> rh_message_number h"
    and small: "rh_message_number h \<noteq> - 1" and e: "parse_envelope env = Ok e"
  shows "receive_next P st recipient env e h
    = Ok (Prepared (plain_transition P (moved_past P c (rh_message_number h) st) inner env))"
proof -
  let ?n = "rh_message_number h" and ?r = "rs_receive_count st"
  have c: "rs_receiving_chain st = Some (chain_at P c (unat ?r))" "length c = 32"
    using chain by (simp_all add: follows_chain_def)
  have "chain_at P (chain_at P c (unat ?r)) (unat ?n - unat ?r) = chain_at P c (unat ?n)"
    using next_msg by (simp add: chain_at_add word_le_nat_alt)
  then show ?thesis
    using key e skip_receiving_keys_closed [OF P c(1) length_chain_at [OF P c(2)] next_msg]
      chain_step_at(1) [OF P c(2), of "unat ?n"] checked_add_one [OF small]
    by (auto simp: receive_next_def finish_receive_plain [OF plain] moved_past_def elim!: opens_asE)
qed

lemma moved_past_spends:
  assumes P: "sized_prims P" and chain: "follows_chain P c st" and next_msg: "rs_receive_count st \<le> n"
    and small: "n \<noteq> - 1"
  shows "spends (rs_remote_ratchet_public st) n st (moved_past P c n st)"
proof -
  let ?rp = "rs_remote_ratchet_public st" and ?st = "moved_past P c n st"
  have below: "k \<in> set (rs_skipped st) \<Longrightarrow> skipped_index k = (?rp, m) \<Longrightarrow> m < rs_receive_count st" for k m
    using chain by (auto simp: follows_chain_def session_core_def skipped_below_def skipped_index_def)
  have le: "m < n + 1 \<longleftrightarrow> m \<le> n" for m
    using small checked_add_unat [OF checked_add_one [OF small]] by (simp add: word_less_nat_alt word_le_nat_alt less_Suc_eq_le)
  have "spent ?rp m ?st \<longleftrightarrow> spent ?rp m st \<or> m = n" for m
  proof -
    consider "m < rs_receive_count st" | "rs_receive_count st \<le> m" "m < n" | "m = n" | "n < m" by force
    then show ?thesis
    proof cases
      case 1
      then show ?thesis
        using moved_past_keys [OF P chain next_msg] next_msg le [of m]
        by (fastforce simp: spent_def moved_past_def skipped_index_def)
    next
      case 2
      from skipped_run_index [OF this, of P ?rp "chain_at P c (unat (rs_receive_count st))"] 2
      show ?thesis by (auto simp: spent_def moved_past_def)
    next
      case 3
      then show ?thesis
        using moved_past_keys [OF P chain next_msg] below next_msg le [of m]
        by (fastforce simp: spent_def moved_past_def skipped_index_def)
    next
      case 4
      then show ?thesis using next_msg le [of m] by (auto simp: spent_def moved_past_def)
    qed
  qed
  then show ?thesis by (simp add: spends_def)
qed

lemma decrypt_next_in_chain:
  assumes P: "sized_prims P" and chain: "follows_chain P c st"
    and rp: "rh_ratchet_public h = rs_remote_ratchet_public st" and sid: "rh_session_id h = rs_session_id st"
    and dev: "rs_local_device_id st = recipient"
    and key: "opens_as P recipient env h (message_at P c (unat (rh_message_number h))) inner"
    and plain: "\<not> is_control inner" and le: "rs_receive_count st \<le> rh_message_number h"
    and room: "room n other st" and small: "unat (rh_message_number h) < n"
  defines "st' \<equiv> moved_past P c (rh_message_number h) st"
  shows "ratchet_decrypt P st recipient env other tape = Ok (Prepared (plain_transition P st' inner env), tape)"
    and "follows_chain P c st'" and "receives_only st st'" and "room n other st'"
    and "spends (rh_ratchet_public h) (rh_message_number h) st st'"
proof -
  let ?n = "rh_message_number h" and ?r = "rs_receive_count st"
  from key obtain e where e: "parse_envelope env = Ok e" "en_header e = Regular h" by (rule opens_asE)
  have neq: "?n \<noteq> - 1"
    using small room by (auto simp: room_def Let_def unsigned_minus_1_eq_mask mask_eq_exp_minus_1)
  have gap: "unat (?n - ?r) = unat ?n - unat ?r" using le by (simp add: unat_sub word_le_nat_alt)
  have need: "length (rs_skipped st) + (unat ?n - unat ?r) \<le> MAX_SKIPPED_PER_SESSION"
    "unat other + (length (rs_skipped st) + (unat ?n - unat ?r)) \<le> MAX_SKIPPED_ACCOUNT"
    using room small by (auto simp: room_def Let_def)
  then have within: "projected_skip_within_bounds st (unat (?n - ?r)) other = Ok True"
    by (simp add: projected_skip_within_bounds_def usize_checked_add_def gap pairwise_size_defs)
  have run: "receive_next P st recipient env e h = Ok (Prepared (plain_transition P st' inner env))"
    unfolding st'_def by (rule receive_next_in_chain [OF P chain key plain le neq e(1)])
  show "ratchet_decrypt P st recipient env other tape = Ok (Prepared (plain_transition P st' inner env), tape)"
    using le rp sid dev e within run by (simp add: ratchet_decrypt_def prepare_chain_def monad_simps not_less [symmetric])
  have core: "session_core P st" using chain by (simp add: follows_chain_def)
  from P core need(1) run have st: "session_core P st' \<and> same_session st st'
      \<and> length (rs_skipped st') = length (rs_skipped st) + (unat ?n - unat ?r)"
    by (rule receive_next_Ok) clarsimp
  have count: "unat (rs_receive_count st') = Suc (unat ?n)"
    using checked_add_unat [OF checked_add_one [OF neq]] by (simp add: st'_def moved_past_def)
  show "follows_chain P c st'"
    using st chain count moved_past_keys [OF P chain le] by (auto simp: follows_chain_def st'_def moved_past_def)
  show "receives_only st st'" by (auto simp: receives_only_def st'_def moved_past_def)
  show "room n other st'"
    using st count room small le by (auto simp: room_def Let_def word_le_nat_alt)
  show "spends (rh_ratchet_public h) ?n st st'"
    using moved_past_spends [OF P chain le neq] rp by (simp add: st'_def)
qed

lemma receive_in_chain:
  assumes P: "sized_prims P" and chain: "follows_chain P c st"
    and rp: "rh_ratchet_public h = rs_remote_ratchet_public st" and sid: "rh_session_id h = rs_session_id st"
    and dev: "rs_local_device_id st = recipient"
    and key: "opens_as P recipient env h (message_at P c (unat (rh_message_number h))) inner"
    and plain: "\<not> is_control inner"
    and open_msg: "\<not> spent (rh_ratchet_public h) (rh_message_number h) st"
    and room: "room n other st" and small: "unat (rh_message_number h) < n"
  obtains st' where
    "ratchet_decrypt P st recipient env other tape = Ok (Prepared (plain_transition P st' inner env), tape)"
    and "follows_chain P c st'" and "receives_only st st'"
    and "spends (rh_ratchet_public h) (rh_message_number h) st st'" and "room n other st'"
proof (cases "rh_message_number h < rs_receive_count st")
  case True
  from key obtain e where e: "parse_envelope env = Ok e" "en_header e = Regular h" by (rule opens_asE)
  from chain rp key plain True open_msg e(1) obtain st' where
    run: "receive_skipped P st recipient env e h = Ok (Prepared (plain_transition P st' inner env))"
    and rest: "follows_chain P c st'" "receives_only st st'"
    "spends (rh_ratchet_public h) (rh_message_number h) st st'" "room n other st \<longrightarrow> room n other st'"
    by (rule receive_skipped_in_chain)
  have "ratchet_decrypt P st recipient env other tape = Ok (Prepared (plain_transition P st' inner env), tape)"
    using True rp sid dev e run by (simp add: ratchet_decrypt_def monad_simps)
  with rest room show thesis by (intro that) simp_all
next
  case False
  then have "rs_receive_count st \<le> rh_message_number h" by simp
  note next_msg = decrypt_next_in_chain [OF P chain rp sid dev key plain this room small]
  show thesis by (rule that [OF next_msg(1-3,5,4)])
qed

text \<open>A message that was already opened is refused, and nothing changes.\<close>

lemma spent_refused:
  assumes "regular_header_of env = Some h" and "spent (rh_ratchet_public h) (rh_message_number h) st"
    and "rh_session_id h = rs_session_id st" and "rs_local_device_id st = recipient"
  shows "ratchet_decrypt P st recipient env other tape = Err StateViolation"
proof -
  from assms(1) obtain e where e: "parse_envelope env = Ok e" "en_header e = Regular h"
    by (auto simp: regular_header_of_def split: sum.splits ratchet_header.splits)
  have "find (is_skipped_key h) (rs_skipped st) = None"
    using assms(2) by (auto simp: find_None_iff spent_def is_skipped_key_def skipped_index_def)
  with e assms(2-4) show ?thesis
    by (simp add: ratchet_decrypt_def receive_skipped_def spent_def monad_simps)
qed

section \<open>Sequences of envelopes\<close>

text \<open>
  What a client does with arriving envelopes: a message that is opened moves the session, anything
  else leaves it as it was.
\<close>

fun receive_all ::
    "prims \<Rightarrow> bytes \<Rightarrow> u32 \<Rightarrow> ratchet_state \<Rightarrow> bytes list \<Rightarrow> bytes \<Rightarrow>
      bytes option list \<times> ratchet_state" where
  "receive_all P recipient other st [] tape = ([], st)"
| "receive_all P recipient other st (env # envs) tape =
     (case ratchet_decrypt P st recipient env other tape of
        Ok (Prepared t, tape') \<Rightarrow>
          apfst ((#) (Some (dt_inner t))) (receive_all P recipient other (dt_state t) envs tape')
      | Ok (RepairRequired, tape') \<Rightarrow> apfst ((#) None) (receive_all P recipient other st envs tape')
      | Err _ \<Rightarrow> apfst ((#) None) (receive_all P recipient other st envs tape))"

text \<open>The abstract channel: every message is accepted the first time it arrives and never again.\<close>

fun accept_once :: "(nat \<Rightarrow> bytes) \<Rightarrow> nat set \<Rightarrow> nat list \<Rightarrow> bytes option list" where
  "accept_once inner seen [] = []"
| "accept_once inner seen (i # is) =
     (if i \<in> seen then None else Some (inner i)) # accept_once inner (insert i seen) is"

text \<open>A sender that sends a list of messages in one chain.\<close>

fun send_all ::
    "prims \<Rightarrow> bytes \<Rightarrow> u32 \<Rightarrow> ratchet_state \<Rightarrow> bytes list \<Rightarrow> (ratchet_state \<times> bytes list) ent" where
  "send_all P recipient other st [] = ret (st, [])"
| "send_all P recipient other st (inner # inners) =
     sbind (ratchet_encrypt P st recipient inner other) (\<lambda>(st, env).
     sbind (send_all P recipient other st inners) (\<lambda>(st, envs).
     ret (st, env # envs)))"

definition chain_header :: "ratchet_state \<Rightarrow> nat \<Rightarrow> regular_header" where
  "chain_header st n = \<lparr>rh_session_id = rs_session_id st, rh_ratchet_public = rs_local_ratchet_public st,
     rh_previous_chain_length = rs_previous_send_count st, rh_message_number = word_of_nat n\<rparr>"

lemma regular_header_bytes_eq: "regular_header_bytes st = header_bytes (Regular (chain_header st (unat (rs_send_count st))))"
  by (simp add: regular_header_bytes_def chain_header_def)

text \<open>Sending in a chain touches nothing but the sending side of the session.\<close>

definition sends_only :: "ratchet_state \<Rightarrow> ratchet_state \<Rightarrow> bool" where
  "sends_only st st' \<longleftrightarrow> (\<exists>chain count. st' = st\<lparr>rs_sending_chain := chain, rs_send_count := count\<rparr>)"

lemma sends_only_refl: "sends_only st st"
  unfolding sends_only_def by (rule exI [of _ "rs_sending_chain st"], rule exI [of _ "rs_send_count st"]) simp

lemma sends_only_trans: "sends_only a b \<Longrightarrow> sends_only b c \<Longrightarrow> sends_only a c"
  unfolding sends_only_def by force

lemma ratchet_encrypt_in_chain:
  assumes P: "sized_prims P" "aead_correct P" and core: "session_core P st"
    and chain: "rs_sending_chain st = Some (chain_at P c (unat (rs_send_count st)))" "length c = 32"
    and run: "ratchet_encrypt P st recipient inner other tape = Ok ((st', env), tape')"
  shows "opens_as P recipient env (chain_header st (unat (rs_send_count st)))
      (message_at P c (unat (rs_send_count st))) inner"
    and "unat (rs_send_count st') = Suc (unat (rs_send_count st))"
    and "rs_sending_chain st' = Some (chain_at P c (unat (rs_send_count st')))"
    and "chain_header st' = chain_header st" and "session_core P st'" and "sends_only st st'"
proof -
  let ?n = "unat (rs_send_count st)"
  from run obtain st1 tape1 chain' mk nc where
    start: "if rs_sending_chain st = None then start_sending_chain P st tape = Ok (st1, tape1)
         else st1 = st \<and> tape1 = tape"
    and step: "rs_sending_chain st1 = Some chain'" "chain_step P chain' = Ok (mk, nc)"
    and enc: "encrypt_envelope P recipient (regular_header_bytes st1) mk inner tape1 = Ok (env, tape')"
    and recipient: "rs_remote_device_id st = recipient"
    and count1: "checked_add (rs_send_count st1) 1 = Some (rs_send_count st')"
    and st1: "st' = st1\<lparr>rs_sending_chain := Some nc, rs_send_count := rs_send_count st'\<rparr>"
    by (rule ratchet_encrypt_Ok)
  have same: "st1 = st" "tape1 = tape" using start chain(1) by simp_all
  have keys: "mk = message_at P c ?n" "nc = chain_at P c (Suc ?n)"
    using step chain(1) chain_step_at(1) [OF P(1) chain(2), of ?n] by (simp_all add: same)
  note count = count1 [unfolded same] and st' = st1 [unfolded same keys]
  have env: "encrypt_envelope P recipient (regular_header_bytes st) (message_at P c ?n) inner tape = Ok (env, tape')"
    using enc by (simp add: same keys)
  have len: "length recipient = 16" and wf: "regular_header_wf (chain_header st ?n)"
    using core recipient by (auto simp: session_core_def ratchet_fields_wf_def regular_header_wf_def chain_header_def)
  show "opens_as P recipient env (chain_header st ?n) (message_at P c ?n) inner"
    by (rule encrypt_opens_as [OF P chain_step_at(2) [OF P(1) chain(2)] len wf])
      (use env in \<open>simp only: regular_header_bytes_eq\<close>)
  show suc: "unat (rs_send_count st') = Suc ?n" using checked_add_unat [OF count] by simp
  show "rs_sending_chain st' = Some (chain_at P c (unat (rs_send_count st')))"
    unfolding suc by (subst st') simp
  show "chain_header st' = chain_header st" by (subst st') (simp add: chain_header_def fun_eq_iff)
  show "session_core P st'" by (rule ratchet_encrypt_core [OF P(1) core run])
  show "sends_only st st'" unfolding sends_only_def using st' by blast
qed

lemma send_all_in_chain:
  assumes P: "sized_prims P" "aead_correct P"
  shows "session_core P st \<Longrightarrow> rs_sending_chain st = Some (chain_at P c (unat (rs_send_count st))) \<Longrightarrow>
    length c = 32 \<Longrightarrow> send_all P recipient other st inners tape = Ok ((st', envs), tape') \<Longrightarrow>
    length envs = length inners \<and> (\<forall>i < length inners.
      opens_as P recipient (envs ! i) (chain_header st (unat (rs_send_count st) + i))
        (message_at P c (unat (rs_send_count st) + i)) (inners ! i))
    \<and> unat (rs_send_count st') = unat (rs_send_count st) + length inners
    \<and> session_core P st' \<and> rs_sending_chain st' = Some (chain_at P c (unat (rs_send_count st'))) \<and> sends_only st st'"
proof (induction inners arbitrary: st tape envs)
  case Nil
  then show ?case using sends_only_refl by (simp add: ret_apply)
next
  case (Cons inner inners)
  from Cons.prems(4) obtain st1 env envs1 tape1 where
    one: "ratchet_encrypt P st recipient inner other tape = Ok ((st1, env), tape1)"
    and rest: "send_all P recipient other st1 inners tape1 = Ok ((st', envs1), tape')" and envs: "envs = env # envs1"
    by (auto simp: ret_apply elim!: monad_elims)
  note step = ratchet_encrypt_in_chain [OF P Cons.prems(1-3) one]
  from Cons.IH [OF step(5,3) Cons.prems(3) rest] show ?case
    using step(1,2,4) sends_only_trans [OF step(6)] by (auto simp: envs nth_Cons split: nat.splits)
qed

lemma word_of_nat_eq_u32:
  assumes "m < 2 ^ 32" and "n < 2 ^ 32"
  shows "(word_of_nat m :: u32) = word_of_nat n \<longleftrightarrow> m = n"
  using assms by (simp add: word_unat_eq_iff unat_of_nat)

lemma receive_all_refines:
  fixes env inner :: "nat \<Rightarrow> bytes" and hdr :: "nat \<Rightarrow> regular_header"
  assumes P: "sized_prims P" and n: "base + len < 2 ^ 32"
    and hdr: "\<And>i. rh_ratchet_public (hdr i) = rp \<and> rh_session_id (hdr i) = sid
      \<and> rh_message_number (hdr i) = word_of_nat (base + i)"
    and msgs: "\<And>i. i < len \<Longrightarrow> opens_as P recipient (env i) (hdr i) (message_at P c (base + i)) (inner i)"
    and plain: "\<And>i. i < len \<Longrightarrow> \<not> is_control (inner i)"
  shows "follows_chain P c st \<Longrightarrow> rs_remote_ratchet_public st = rp \<Longrightarrow> rs_session_id st = sid \<Longrightarrow>
    rs_local_device_id st = recipient \<Longrightarrow> room (base + len) other st \<Longrightarrow>
    \<forall>i < len. i \<in> seen \<longleftrightarrow> spent rp (word_of_nat (base + i)) st \<Longrightarrow> set is \<subseteq> {..<len} \<Longrightarrow>
    \<exists>st'. receive_all P recipient other st (map env is) tape = (accept_once inner seen is, st')
      \<and> follows_chain P c st' \<and> receives_only st st' \<and> room (base + len) other st'"
proof (induction "is" arbitrary: st seen tape)
  case Nil
  then show ?case using receives_only_refl [of st] by simp
next
  case (Cons i "is")
  have i: "i < len" using Cons.prems(7) by simp
  have num: "unat (rh_message_number (hdr i)) = base + i"
    using hdr n i by (simp add: unat_of_nat del: of_nat_add)
  have hdr_of: "regular_header_of (env i) = Some (hdr i)"
    using msgs [OF i] by (auto simp: regular_header_of_def elim!: opens_asE)
  show ?case
  proof (cases "i \<in> seen")
    case True
    then have "ratchet_decrypt P st recipient (env i) other tape = Err StateViolation"
      using Cons.prems(2-4,6) i hdr by (intro spent_refused [OF hdr_of]) auto
    moreover have "insert i seen = seen" using True by auto
    ultimately show ?thesis using True Cons.IH [OF Cons.prems(1-6), of tape] Cons.prems(7) by auto
  next
    case False
    have "\<not> spent (rh_ratchet_public (hdr i)) (rh_message_number (hdr i)) st"
      using False Cons.prems(6) i hdr by simp
    moreover have "opens_as P recipient (env i) (hdr i) (message_at P c (unat (rh_message_number (hdr i)))) (inner i)"
      using msgs [OF i] num by simp
    moreover have "unat (rh_message_number (hdr i)) < base + len" using num i by simp
    ultimately obtain st' where
      run: "ratchet_decrypt P st recipient (env i) other tape
        = Ok (Prepared (plain_transition P st' (inner i) (env i)), tape)"
      and st': "follows_chain P c st'" "receives_only st st'"
        "spends (rh_ratchet_public (hdr i)) (rh_message_number (hdr i)) st st'" "room (base + len) other st'"
      using P Cons.prems(1-5) hdr plain [OF i] by (elim receive_in_chain [where c = c and n = "base + len"]) auto
    have "\<forall>j < len. j \<in> insert i seen \<longleftrightarrow> spent rp (word_of_nat (base + j)) st'"
      using st'(3) Cons.prems(6) hdr n i by (auto simp: spends_def word_of_nat_eq_u32)
    then have "\<exists>st''. receive_all P recipient other st' (map env is) tape = (accept_once inner (insert i seen) is, st'')
        \<and> follows_chain P c st'' \<and> receives_only st' st'' \<and> room (base + len) other st''"
      using st' receives_onlyD [OF st'(2)] Cons.prems(2-4,7) by (intro Cons.IH) auto
    with run False show ?thesis using receives_only_trans [OF st'(2)] by auto
  qed
qed

text \<open>Sending in a chain cannot fail while the entropy lasts and the counters have room.\<close>

lemma ratchet_encrypt_total:
  assumes P: "sized_prims P" "aead_correct P" and core: "session_core P st"
    and chain: "rs_sending_chain st = Some (chain_at P c (unat (rs_send_count st)))" "length c = 32"
    and may: "\<not> rs_receive_only st" "rs_remote_device_id st = recipient" "rs_send_count st \<noteq> - 1"
      "unat other + length (rs_skipped st) \<le> MAX_SKIPPED_ACCOUNT"
    and inner: "length inner \<le> 262062" and tape: "262144 \<le> length tape"
  shows "\<exists>st' env tape'. ratchet_encrypt P st recipient inner other tape = Ok ((st', env), tape')
    \<and> length tape \<le> length tape' + 262144"
proof -
  let ?n = "unat (rs_send_count st)"
  have wf: "header_wf (Regular (chain_header st ?n))" and len: "length recipient = 16"
    using core may(2) by (auto simp: session_core_def ratchet_fields_wf_def regular_header_wf_def chain_header_def)
  note header = header_length(2) [OF wf refl]
  from encrypt_envelope_total [OF P chain_step_at(2) [OF P(1) chain(2), of ?n] len, of "regular_header_bytes st" inner tape]
  obtain env tape' where enc: "encrypt_envelope P recipient (regular_header_bytes st) (message_at P c ?n) inner tape
      = Ok (env, tape')"
    using header inner tape unfolding regular_header_bytes_eq by auto
  have "ratchet_encrypt P st recipient inner other tape
    = Ok ((st\<lparr>rs_sending_chain := Some (chain_at P c (Suc ?n)), rs_send_count := rs_send_count st + 1\<rparr>, env), tape')"
    using chain(1) chain_step_at(1) [OF P(1) chain(2), of ?n] may checked_add_one [OF may(3)] enc
    by (simp add: ratchet_encrypt_def usize_saturating_add_def monad_simps)
  with encrypt_envelope_tape [OF enc] show ?thesis by blast
qed

lemma send_all_total:
  assumes P: "sized_prims P" "aead_correct P"
  shows "session_core P st \<Longrightarrow> rs_sending_chain st = Some (chain_at P c (unat (rs_send_count st))) \<Longrightarrow>
    length c = 32 \<Longrightarrow> \<not> rs_receive_only st \<Longrightarrow> rs_remote_device_id st = recipient \<Longrightarrow>
    unat (rs_send_count st) + length inners < 2 ^ 32 \<Longrightarrow>
    unat other + length (rs_skipped st) \<le> MAX_SKIPPED_ACCOUNT \<Longrightarrow> list_all (\<lambda>m. length m \<le> 262062) inners \<Longrightarrow>
    262144 * length inners \<le> length tape \<Longrightarrow>
    \<exists>st' envs tape'. send_all P recipient other st inners tape = Ok ((st', envs), tape')"
proof (induction inners arbitrary: st tape)
  case Nil
  then show ?case by (simp add: ret_apply)
next
  case (Cons inner inners)
  have "rs_send_count st \<noteq> - 1"
    using Cons.prems(6) by (auto simp: unsigned_minus_1_eq_mask mask_eq_exp_minus_1)
  then obtain st1 env tape1 where
    one: "ratchet_encrypt P st recipient inner other tape = Ok ((st1, env), tape1)"
    and tape1: "length tape \<le> length tape1 + 262144"
    using ratchet_encrypt_total [OF P Cons.prems(1-5), of other inner tape] Cons.prems(7-9) by auto
  note step = ratchet_encrypt_in_chain [OF P Cons.prems(1-3) one] ratchet_encrypt_core [OF P(1) Cons.prems(1) one]
  have "\<exists>st' envs tape'. send_all P recipient other st1 inners tape1 = Ok ((st', envs), tape')"
    by (rule Cons.IH [OF step(5,3) Cons.prems(3)])
      (use step(2,8,10) Cons.prems tape1 in \<open>auto simp: same_session_def\<close>)
  with one show ?case by (auto simp: ret_apply sbind_Ok)
qed

text \<open>The sender and the receiver of a chain.\<close>

definition linked :: "prims \<Rightarrow> bytes \<Rightarrow> ratchet_state \<Rightarrow> ratchet_state \<Rightarrow> bool" where
  "linked P c a b \<longleftrightarrow>
     session_core P a \<and> rs_sending_chain a = Some (chain_at P c (unat (rs_send_count a)))
     \<and> follows_chain P c b \<and> rs_session_id a = rs_session_id b
     \<and> rs_remote_device_id a = rs_local_device_id b
     \<and> rs_local_ratchet_public a = rs_remote_ratchet_public b
     \<and> rs_receive_count b \<le> rs_send_count a"

text \<open>
  C2: a chain delivers every message exactly once, in any order. The sender sends a list of
  messages; the envelopes arrive at the receiver in an arbitrary sequence, with losses,
  repetitions and reorderings. The receiver then opens each message the first time its
  envelope arrives, with the text that was sent, and refuses every repetition: its behaviour is
  that of the abstract channel. The hypothesis on room is that the messages outstanding fit
  into the limits of 2000 skipped keys for the session and 20000 for the account. The messages are
  ordinary ones: none begins with the magic of a repair control message.
\<close>

theorem any_order_delivery:
  assumes P: "sized_prims P" "aead_correct P" and linked: "linked P c a b"
    and sent: "send_all P (rs_local_device_id b) other_a a inners tape = Ok ((a', envs), tape')"
    and plain: "list_all (\<lambda>m. \<not> is_control m) inners"
    and room: "room (unat (rs_send_count a) + length inners) other_b b"
    and arrivals: "list_all (\<lambda>i. i < length inners) arrivals"
  shows "fst (receive_all P (rs_local_device_id b) other_b b (map (\<lambda>i. envs ! i) arrivals) tape_b)
    = accept_once (\<lambda>i. inners ! i) {} arrivals"
proof -
  have a: "session_core P a" "rs_sending_chain a = Some (chain_at P c (unat (rs_send_count a)))"
    and c: "length c = 32" and b: "follows_chain P c b"
    using linked by (simp_all add: linked_def follows_chain_def)
  note sending = send_all_in_chain [OF P a c sent]
  let ?base = "unat (rs_send_count a)"
  have lt: "?base + length inners < 2 ^ 32" using sending unat_u32_bound [of "rs_send_count a'"] by simp
  have "\<not> spent (rs_local_ratchet_public a) (word_of_nat (?base + i)) b" if "i < length inners" for i
  proof -
    have "unat (word_of_nat (?base + i) :: u32) = ?base + i"
      using that lt by (simp add: unat_of_nat del: of_nat_add)
    then show ?thesis using linked by (simp add: linked_def spent_def word_less_nat_alt word_le_nat_alt)
  qed
  then have "\<exists>b'. receive_all P (rs_local_device_id b) other_b b (map (\<lambda>i. envs ! i) arrivals) tape_b
      = (accept_once (\<lambda>i. inners ! i) {} arrivals, b')
      \<and> follows_chain P c b' \<and> receives_only b b' \<and> room (?base + length inners) other_b b'"
    using linked room arrivals plain sending
    by (intro receive_all_refines [OF P(1) lt, where hdr = "\<lambda>i. chain_header a (?base + i)" and c = c])
      (auto simp: linked_def chain_header_def list_all_iff subset_iff)
  then show ?thesis by auto
qed

definition sample_alice :: ratchet_state where
  "sample_alice = sample_session\<lparr>rs_send_count := 0, rs_skipped := []\<rparr>"

definition sample_bob :: ratchet_state where
  "sample_bob = sample_session\<lparr>
     rs_local_device_id := replicate 16 3, rs_remote_device_id := replicate 16 2,
     rs_receiving_chain := Some (replicate 32 6), rs_local_ratchet_secret := replicate 32 9,
     rs_local_ratchet_public := replicate 32 9, rs_remote_ratchet_public := replicate 32 8,
     rs_send_count := 4, rs_receive_count := 0, rs_skipped := []\<rparr>"

lemma sample_pair_linked: "linked example_prims (replicate 32 6) sample_alice sample_bob"
  by (simp add: linked_def follows_chain_def session_core_def sample_alice_def sample_bob_def sample_session_def
      ratchet_fields_wf_def secret_option_wf_def skipped_below_def is_zero_def list_all_iff example_prims_def
      replicate_eq_replicate)

lemma sample_alice_core: "session_core example_prims sample_alice"
  using sample_pair_linked by (simp add: linked_def)

theorem any_order_delivery_witness:
  "\<exists>a' envs tape'. send_all example_prims (replicate 16 3) 0 sample_alice [[1], [2], [3]] (replicate 786432 0)
       = Ok ((a', envs), tape')
     \<and> fst (receive_all example_prims (replicate 16 3) 0 sample_bob (map (\<lambda>i. envs ! i) [2, 0, 2, 1]) [])
       = [Some [3], Some [1], None, Some [2]]"
proof -
  have dev: "rs_local_device_id sample_bob = replicate 16 3" by (simp add: sample_bob_def)
  have alice: "rs_sending_chain sample_alice = Some (replicate 32 6)" "rs_send_count sample_alice = 0"
    "\<not> rs_receive_only sample_alice" "rs_remote_device_id sample_alice = replicate 16 3" "rs_skipped sample_alice = []"
    by (simp_all add: sample_alice_def sample_session_def)
  obtain a' envs tape' where sent: "send_all example_prims (replicate 16 3) 0 sample_alice [[1], [2], [3]]
      (replicate 786432 0) = Ok ((a', envs), tape')"
    using send_all_total [OF example_sized example_aead sample_alice_core, of "replicate 32 6" "replicate 16 3"
        "[[1], [2], [3]]" 0 "replicate 786432 0"] alice
    by (auto simp: pairwise_size_defs)
  have "room (unat (rs_send_count sample_alice) + length [[1 :: u8], [2], [3]]) 0 sample_bob"
    by (simp add: room_def alice sample_bob_def pairwise_size_defs)
  moreover have "list_all (\<lambda>m. \<not> is_control m) [[1 :: u8], [2], [3]]"
    by (simp add: is_control_def REPAIR_CONTROL_MAGIC_def ascii_def)
  ultimately have "fst (receive_all example_prims (replicate 16 3) 0 sample_bob (map (\<lambda>i. envs ! i) [2, 0, 2, 1]) [])
       = accept_once (\<lambda>i. [[1], [2], [3]] ! i) {} [2, 0, 2, 1]"
    using any_order_delivery [OF example_sized example_aead sample_pair_linked sent [folded dev],
        of 0 "[2, 0, 2, 1]" "[]"]
    by (simp only: dev) simp
  with sent show ?thesis by (simp only: accept_once.simps) simp
qed

end
