(* ===== verification/Ratchet_Conversation.thy ===== *)
theory Ratchet_Conversation
  imports Ratchet_Delivery
begin

text \<open>
  Turns of a conversation. One party is ahead: it has sent, or can send, on a chain of a ratchet key
  the other has not seen. The first envelope that arrives makes the other party take the
  ratchet step; it then follows the chain and is ahead itself.
\<close>

section \<open>The party ahead\<close>

definition derives_chain :: "prims \<Rightarrow> bytes \<Rightarrow> ratchet_state \<Rightarrow> ratchet_state \<Rightarrow> bool" where
  "derives_chain P c x y \<longleftrightarrow>
     (case x25519_shared P (rs_local_ratchet_secret y) (rs_local_ratchet_public x) of
        Ok dh \<Rightarrow> kdf_root P (rs_root_key y) dh = Ok (rs_root_key x, c)
      | Err _ \<Rightarrow> False)"

definition unseen_key :: "bytes \<Rightarrow> ratchet_state \<Rightarrow> bool" where
  "unseen_key rp st \<longleftrightarrow>
     rp \<noteq> rs_remote_ratchet_public st \<and> list_all (\<lambda>k. sk_ratchet_public k \<noteq> rp) (rs_skipped st)"

text \<open>The receive counter of a party is within what the other has sent in the chain of that counter.\<close>

definition counts_within :: "ratchet_state \<Rightarrow> u32 \<Rightarrow> bool" where
  "counts_within st sent \<longleftrightarrow>
     rs_receive_count st \<le> sent \<and> (rs_receiving_chain st = None \<longrightarrow> rs_receive_count st = sent)"

definition ahead :: "prims \<Rightarrow> bytes \<Rightarrow> ratchet_state \<Rightarrow> ratchet_state \<Rightarrow> bool" where
  "ahead P c x y \<longleftrightarrow>
     session_core P x \<and> session_core P y \<and> length c = 32
     \<and> rs_sending_chain x = Some (chain_at P c (unat (rs_send_count x)))
     \<and> rs_session_id x = rs_session_id y
     \<and> rs_remote_device_id x = rs_local_device_id y \<and> rs_remote_device_id y = rs_local_device_id x
     \<and> rs_remote_ratchet_public x = rs_local_ratchet_public y
     \<and> derives_chain P c x y \<and> unseen_key (rs_local_ratchet_public x) y
     \<and> counts_within y (rs_previous_send_count x) \<and> counts_within x (rs_send_count y)"

section \<open>Entering a chain\<close>

lemma skip_receiving_keys_total:
  assumes P: "sized_prims P" and core: "session_core P st" and counts: "counts_within st until"
  obtains st' where "skip_receiving_keys P st until = Ok st'"
proof (cases "rs_receiving_chain st")
  case None
  with counts show thesis
    by (intro that) (simp add: skip_receiving_keys_def skip_loop.simps counts_within_def)
next
  case (Some c)
  then have "length c = 32" using core by (auto simp: session_core_def ratchet_fields_wf_def secret_option_wf_def)
  with skip_receiving_keys_closed [OF P Some] counts show thesis by (intro that) (auto simp: counts_within_def)
qed

lemma skip_keeps_sender:
  assumes P: "sized_prims P" and core: "session_core P st" and run: "skip_receiving_keys P st until = Ok st'"
  shows "receives_only st st'"
proof -
  from P session_coreD(1-3) [OF core] run show ?thesis
    by (rule skip_receiving_keys_Ok) (auto simp: receives_only_def)
qed

text \<open>The first envelope of an unseen chain is handled as if the ratchet step had been taken before.\<close>

lemma decrypt_after_step:
  assumes hdr: "regular_header_of env = Some h" and sid: "rh_session_id h = rs_session_id st"
    and dev: "rs_local_device_id st = recipient"
    and new: "rh_ratchet_public h \<noteq> rs_remote_ratchet_public st"
    and prep: "prepare_chain P st h other tape = Ok (Some st0, tape0)"
    and st0: "rs_remote_ratchet_public st0 = rh_ratchet_public h" "rs_session_id st0 = rs_session_id st"
      "rs_local_device_id st0 = recipient" "rs_receive_count st0 = 0"
    and within: "projected_skip_within_bounds st0 (unat (rh_message_number h)) other = Ok True"
  shows "ratchet_decrypt P st recipient env other tape = ratchet_decrypt P st0 recipient env other tape0"
proof -
  from hdr obtain e where e: "parse_envelope env = Ok e" "en_header e = Regular h"
    by (auto simp: regular_header_of_def split: sum.splits ratchet_header.splits)
  then have "ratchet_decrypt P st recipient env other tape
      = slift (receive_next P st0 recipient env e h) tape0"
    using sid dev new prep by (simp add: ratchet_decrypt_def monad_simps)
  also have "\<dots> = ratchet_decrypt P st0 recipient env other tape0"
    using e st0 sid within by (simp add: ratchet_decrypt_def prepare_chain_def monad_simps)
  finally show ?thesis .
qed

text \<open>\<open>turned x y0 c2 s2\<close>: \<open>y0\<close> has taken the step on the key of \<open>x\<close> with the new secret \<open>s2\<close>.\<close>

definition turned :: "prims \<Rightarrow> bytes \<Rightarrow> bytes \<Rightarrow> ratchet_state \<Rightarrow> ratchet_state \<Rightarrow> ratchet_state \<Rightarrow> bool" where
  "turned P s2 c2 x y y0 \<longleftrightarrow>
     same_session y y0 \<and> rs_remote_ratchet_public y0 = rs_local_ratchet_public x
     \<and> rs_sending_chain y0 = Some c2 \<and> rs_send_count y0 = 0 \<and> rs_previous_send_count y0 = rs_send_count y
     \<and> rs_local_ratchet_secret y0 = s2 \<and> rs_local_ratchet_public y0 = x_public_of P s2 \<and> length c2 = 32
     \<and> (case x25519_shared P s2 (rs_local_ratchet_public x) of
          Ok dh \<Rightarrow> kdf_root P (rs_root_key x) dh = Ok (rs_root_key y0, c2)
        | Err _ \<Rightarrow> False)"

lemma ratchet_step_total:
  assumes P: "sized_prims P" and core: "session_core P st"
    and first: "x25519_shared P (rs_local_ratchet_secret st) rp = Ok dh1" "kdf_root P (rs_root_key st) dh1 = Ok (r1, c1)"
    and second: "length s = 32" "x25519_shared P s rp = Ok dh2"
  obtains r2 c2 where "kdf_root P r1 dh2 = Ok (r2, c2)" and "length c2 = 32"
    and "ratchet_step P st rp (s @ tape) = Ok (st\<lparr>rs_previous_send_count := rs_send_count st, rs_send_count := 0,
       rs_receive_count := 0, rs_remote_ratchet_public := rp, rs_root_key := r2, rs_receiving_chain := Some c1,
       rs_sending_chain := Some c2, rs_local_ratchet_secret := s, rs_local_ratchet_public := x_public_of P s\<rparr>, tape)"
proof -
  have "length r1 = 32" using kdf_root_lengths [OF first(2)] by simp
  from P this x25519_shared_length [OF P second(2)] obtain r2 c2 where
    k2: "kdf_root P r1 dh2 = Ok (r2, c2)" "length c2 = 32"
    by (rule kdf_root_total)
  moreover have "random_bytes 32 (s @ tape) = Ok (s, tape)"
    using second(1) by (simp add: random_bytes_Ok_iff MAX_INPUT_BYTES_def)
  ultimately show thesis
    using first second by (intro that [OF k2]) (simp add: ratchet_step_def x25519_public_def sbind_Ok ret_apply)
qed

lemma enter_chain:
  assumes P: "sized_prims P" and ahead: "ahead P c x y"
    and h: "rh_ratchet_public h = rs_local_ratchet_public x" "rh_previous_chain_length h = rs_previous_send_count x"
    and s2: "length s2 = 32" "x25519_shared P s2 (rs_local_ratchet_public x) = Ok dh2"
    and room: "length (rs_skipped y) + (unat (rs_previous_send_count x) - unat (rs_receive_count y)
        + unat (rh_message_number h)) \<le> MAX_SKIPPED_PER_SESSION"
      "unat other + (length (rs_skipped y) + (unat (rs_previous_send_count x) - unat (rs_receive_count y)
        + unat (rh_message_number h))) \<le> MAX_SKIPPED_ACCOUNT"
  obtains y0 c2 where "prepare_chain P y h other (s2 @ tape) = Ok (Some y0, tape)"
    and "follows_chain P c y0" and "turned P s2 c2 x y y0" and "rs_receive_count y0 = 0"
    and "length (rs_skipped y0) = length (rs_skipped y)
      + (unat (rs_previous_send_count x) - unat (rs_receive_count y))"
proof -
  let ?rp = "rs_local_ratchet_public x" and ?prev = "rs_previous_send_count x"
  have cores: "session_core P x" "session_core P y" and counts: "counts_within y ?prev"
    and unseen: "?rp \<noteq> rs_remote_ratchet_public y" "list_all (\<lambda>k. sk_ratchet_public k \<noteq> ?rp) (rs_skipped y)"
    and derives: "derives_chain P c x y" and c: "length c = 32"
    using ahead by (simp_all add: ahead_def unseen_key_def)
  have rp: "length ?rp = 32" using cores(1) by (simp add: session_core_def ratchet_fields_wf_def)
  obtain y1 where skip: "skip_receiving_keys P y ?prev = Ok y1"
    by (rule skip_receiving_keys_total [OF P cores(2) counts])
  note kept = skip_keeps_sender [OF P cores(2) skip]
  have bound1: "length (rs_skipped y) + (unat ?prev - unat (rs_receive_count y)) \<le> MAX_SKIPPED_PER_SESSION"
    using room(1) by simp
  note skipped = skip_receiving_keys_core [OF P cores(2) skip bound1]
  from derives obtain dh1 where first: "x25519_shared P (rs_local_ratchet_secret y1) ?rp = Ok dh1"
    "kdf_root P (rs_root_key y1) dh1 = Ok (rs_root_key x, c)"
    using receives_onlyD [OF kept] by (auto simp: derives_chain_def split: sum.splits)
  from P skipped(1) first s2 obtain r2 c2 where k2: "kdf_root P (rs_root_key x) dh2 = Ok (r2, c2)" "length c2 = 32"
    and step: "ratchet_step P y1 ?rp (s2 @ tape) = Ok (y1\<lparr>rs_previous_send_count := rs_send_count y1,
       rs_send_count := 0, rs_receive_count := 0, rs_remote_ratchet_public := ?rp, rs_root_key := r2,
       rs_receiving_chain := Some c, rs_sending_chain := Some c2, rs_local_ratchet_secret := s2,
       rs_local_ratchet_public := x_public_of P s2\<rparr>, tape)" (is "_ = Ok (?y0, tape)")
    by (rule ratchet_step_total)
  note entered = new_chain_core [OF P cores(2) rp unseen room(1) skip step]
  have "unat (?prev - rs_receive_count y) = unat ?prev - unat (rs_receive_count y)"
    using counts by (simp add: counts_within_def unat_sub word_le_nat_alt)
  then have prep: "prepare_chain P y h other (s2 @ tape) = Ok (Some ?y0, tape)"
    using unseen(1) counts room skip step h
    by (simp add: prepare_chain_def projected_skip_within_bounds_def usize_checked_add_def counts_within_def
        pairwise_size_defs not_less sbind_Ok ret_apply)
  have "sk_ratchet_public k \<noteq> ?rp" if "k \<in> set (rs_skipped y1)" for k
    using skipped(7) [OF that] unseen by (auto simp: list_all_iff)
  then have "follows_chain P c ?y0"
    using entered(1) c by (auto simp: follows_chain_def)
  moreover have "turned P s2 c2 x y ?y0"
    using entered(2) k2 s2(2) receives_onlyD [OF kept] by (simp add: turned_def)
  ultimately show thesis using entered(6) by (intro that [OF prep]) simp_all
qed

section \<open>A turn\<close>

text \<open>The new secret of a ratchet step gives a key the other party has not seen and a usable agreement.\<close>

definition fresh_secret :: "prims \<Rightarrow> bytes \<Rightarrow> ratchet_state \<Rightarrow> bool" where
  "fresh_secret P s x \<longleftrightarrow>
     length s = 32 \<and> unseen_key (x_public_of P s) x
     \<and> (case x25519_shared P s (rs_local_ratchet_public x) of Ok _ \<Rightarrow> True | Err _ \<Rightarrow> False)"

text \<open>The old chain and the messages below \<open>n\<close> of the new chain fit into the skip limits.\<close>

definition turn_room :: "nat \<Rightarrow> u32 \<Rightarrow> ratchet_state \<Rightarrow> ratchet_state \<Rightarrow> bool" where
  "turn_room n other x y \<longleftrightarrow>
     (let needed = length (rs_skipped y) + (unat (rs_previous_send_count x) - unat (rs_receive_count y) + n) in
      needed \<le> MAX_SKIPPED_PER_SESSION \<and> unat other + needed \<le> MAX_SKIPPED_ACCOUNT)"

lemma turned_ahead:
  assumes "sized_prims P" and dh: "dh_agrees P" and ahead: "ahead P c x y" and turned: "turned P s2 c2 x y y0"
    and s2: "fresh_secret P s2 x" and y': "follows_chain P c y'" "receives_only y0 y'"
    and x': "session_core P x'" "sends_only x x'" and count: "rs_receive_count y' \<le> rs_send_count x'"
  shows "ahead P c2 y' x'"
proof -
  have x: "session_core P x" using ahead by (simp add: ahead_def)
  then have pub: "rs_local_ratchet_public x = x_public_of P (rs_local_ratchet_secret x)"
    by (simp add: session_core_def)
  obtain chain n where x'_eq: "x' = x\<lparr>rs_sending_chain := chain, rs_send_count := n\<rparr>"
    using x'(2) by (auto simp: sends_only_def)
  have "x25519_shared P (rs_local_ratchet_secret x) (x_public_of P s2) = x25519_shared P s2 (rs_local_ratchet_public x)"
    using dh unfolding pub by (simp add: x25519_shared_def dh_agrees_def)
  then have "derives_chain P c2 y' x'"
    using turned receives_onlyD [OF y'(2)] by (simp add: derives_chain_def turned_def x'_eq split: sum.splits)
  moreover have "unseen_key (rs_local_ratchet_public y') x'"
    using s2 turned receives_onlyD [OF y'(2)] by (simp add: fresh_secret_def unseen_key_def turned_def x'_eq)
  moreover have "counts_within x' (rs_previous_send_count y')"
    using ahead turned receives_onlyD [OF y'(2)] by (simp add: ahead_def turned_def counts_within_def x'_eq)
  moreover have "counts_within y' (rs_send_count x')"
    using y'(1) count by (simp add: counts_within_def follows_chain_def)
  ultimately show ?thesis
    using ahead turned y'(1) x'(1) receives_onlyD [OF y'(2)]
    by (simp add: ahead_def turned_def follows_chain_def same_session_def x'_eq)
qed

lemma first_arrival:
  assumes P: "sized_prims P" and ahead: "ahead P c x y" and n: "i < n" "n < 2 ^ 32"
    and env: "opens_as P (rs_local_device_id y) env (chain_header x i) (message_at P c i) inner"
    and plain: "\<not> is_control inner" and room: "turn_room n other x y" and s2: "fresh_secret P s2 x"
  obtains y0 c2 where "follows_chain P c y0" and "turned P s2 c2 x y y0" and "rs_receive_count y0 = 0"
    and "room n other y0"
    and "ratchet_decrypt P y (rs_local_device_id y) env other (s2 @ tape)
      = ratchet_decrypt P y0 (rs_local_device_id y) env other tape"
    and "ratchet_decrypt P y0 (rs_local_device_id y) env other tape
      = Ok (Prepared (plain_transition P (moved_past P c (word_of_nat i) y0) inner env), tape)"
proof -
  let ?h = "chain_header x i" and ?dev = "rs_local_device_id y"
  have num: "unat (rh_message_number ?h) = i"
    using n by (simp add: chain_header_def unat_of_nat)
  obtain dh2 where dh2: "length s2 = 32" "x25519_shared P s2 (rs_local_ratchet_public x) = Ok dh2"
    using s2 by (auto simp: fresh_secret_def split: sum.splits)
  from room num n(1) obtain y0 c2 where prep: "prepare_chain P y ?h other (s2 @ tape) = Ok (Some y0, tape)"
    and y0: "follows_chain P c y0" "turned P s2 c2 x y y0" "rs_receive_count y0 = 0"
      "length (rs_skipped y0) = length (rs_skipped y) + (unat (rs_previous_send_count x) - unat (rs_receive_count y))"
    by (elim enter_chain [OF P ahead _ _ dh2, of ?h other tape, rotated -1])
      (auto simp: chain_header_def turn_room_def Let_def)
  have first: "opens_as P ?dev env ?h (message_at P c (unat (rh_message_number ?h))) inner"
    using env num by simp
  then have hdr: "regular_header_of env = Some ?h" by (auto simp: regular_header_of_def elim!: opens_asE)
  have ids: "rs_session_id y0 = rs_session_id x" "rs_local_device_id y0 = ?dev"
    "rs_remote_ratchet_public y0 = rs_local_ratchet_public x"
    using ahead y0(2) by (simp_all add: ahead_def turned_def same_session_def)
  have room0: "room n other y0"
    using room y0(3,4) n by (simp add: turn_room_def room_def Let_def)
  have "ratchet_decrypt P y ?dev env other (s2 @ tape) = ratchet_decrypt P y0 ?dev env other tape"
    by (rule decrypt_after_step [OF hdr _ _ _ prep])
      (use ahead y0(3) ids num room0 n in \<open>auto simp: ahead_def unseen_key_def chain_header_def room_def Let_def
        projected_skip_within_bounds_def usize_checked_add_def pairwise_size_defs\<close>)
  moreover have "ratchet_decrypt P y0 ?dev env other tape
      = Ok (Prepared (plain_transition P (moved_past P c (rh_message_number ?h) y0) inner env), tape)"
    using ids n plain num y0(3)
    by (intro decrypt_next_in_chain(1) [OF P y0(1) _ _ _ first _ _ room0]) (auto simp: chain_header_def)
  ultimately show thesis using y0(1-3) room0 by (intro that) (simp_all add: chain_header_def)
qed

text \<open>
  C3: a turn of the conversation. The party ahead sends a list of messages; at least one of the
  envelopes arrives, in any order and with any repetitions. The other party takes the ratchet
  step on the first arrival and opens every message exactly once with the text that was
  sent; afterwards it is ahead itself, so the next turn goes the other way. The new ratchet key
  is assumed to be fresh, the messages outstanding to fit into the skip limits, and the messages not to
  begin with the magic of a repair control message.
\<close>

theorem conversation_turn:
  assumes P: "sized_prims P" "aead_correct P" "dh_agrees P" and ahead: "ahead P c x y"
    and sent: "send_all P (rs_local_device_id y) other_x x inners tape = Ok ((x', envs), tape')"
    and plain: "list_all (\<lambda>m. \<not> is_control m) inners"
    and room: "turn_room (unat (rs_send_count x) + length inners) other_y x y"
    and arrivals: "arrivals \<noteq> []" "list_all (\<lambda>i. i < length inners) arrivals"
    and s2: "fresh_secret P s2 x"
  shows "\<exists>y' c2. receive_all P (rs_local_device_id y) other_y y (map (\<lambda>i. envs ! i) arrivals) (s2 @ tape_y)
      = (accept_once (\<lambda>i. inners ! i) {} arrivals, y') \<and> ahead P c2 y' x'"
proof -
  let ?base = "unat (rs_send_count x)" and ?dev = "rs_local_device_id y"
  have c: "length c = 32" "rs_sending_chain x = Some (chain_at P c ?base)" "session_core P x"
    using ahead by (simp_all add: ahead_def)
  note sending = send_all_in_chain [OF P(1,2) c(3,2,1) sent]
  have lt: "?base + length inners < 2 ^ 32" using sending unat_u32_bound [of "rs_send_count x'"] by simp
  obtain i "is" where arr: "arrivals = i # is" "i < length inners" using arrivals by (cases arrivals) auto
  let ?h = "chain_header x (?base + i)"
  have i: "?base + i < ?base + length inners" using arr(2) by simp
  have msg: "opens_as P ?dev (envs ! i) ?h (message_at P c (?base + i)) (inners ! i)" "\<not> is_control (inners ! i)"
    using sending arr(2) plain by (simp_all add: list_all_iff)
  from P(1) ahead i lt msg room s2 obtain y0 c2 where y0: "follows_chain P c y0" "turned P s2 c2 x y y0" "rs_receive_count y0 = 0"
      "room (?base + length inners) other_y y0"
    and first: "ratchet_decrypt P y ?dev (envs ! i) other_y (s2 @ tape_y) = ratchet_decrypt P y0 ?dev (envs ! i) other_y tape_y"
      "ratchet_decrypt P y0 ?dev (envs ! i) other_y tape_y
        = Ok (Prepared (plain_transition P (moved_past P c (word_of_nat (?base + i)) y0) (inners ! i) (envs ! i)), tape_y)"
    by (rule first_arrival)
  have ids: "rs_session_id y0 = rs_session_id x" "rs_local_device_id y0 = ?dev"
    "rs_remote_ratchet_public y0 = rs_local_ratchet_public x"
    using ahead y0(2) by (simp_all add: ahead_def turned_def same_session_def)
  have same: "receive_all P ?dev other_y y (map (\<lambda>i. envs ! i) arrivals) (s2 @ tape_y)
      = receive_all P ?dev other_y y0 (map (\<lambda>i. envs ! i) arrivals) tape_y"
    using first by (simp add: arr(1))
  have "\<exists>y'. receive_all P ?dev other_y y0 (map (\<lambda>i. envs ! i) arrivals) tape_y
      = (accept_once (\<lambda>i. inners ! i) {} arrivals, y')
      \<and> follows_chain P c y' \<and> receives_only y0 y' \<and> room (?base + length inners) other_y y'"
    using y0 ids arrivals(2) plain sending
    by (intro receive_all_refines [OF P(1) lt, where hdr = "\<lambda>i. chain_header x (?base + i)" and c = c])
      (auto simp: chain_header_def list_all_iff subset_iff spent_def)
  then obtain y' where y': "receive_all P ?dev other_y y0 (map (\<lambda>i. envs ! i) arrivals) tape_y
      = (accept_once (\<lambda>i. inners ! i) {} arrivals, y')" "follows_chain P c y'" "receives_only y0 y'"
    "room (?base + length inners) other_y y'" by blast
  moreover have "rs_receive_count y' \<le> rs_send_count x'"
    using y'(4) sending by (simp add: room_def Let_def word_le_nat_alt)
  ultimately have "ahead P c2 y' x'"
    using sending by (intro turned_ahead [OF P(1,3) ahead y0(2) s2]) auto
  with same y'(1) show ?thesis by auto
qed

definition sample_ahead :: ratchet_state where
  "sample_ahead = sample_alice\<lparr>rs_root_key := 1 # replicate 31 17, rs_sending_chain := Some (replicate 32 0),
     rs_previous_send_count := 0\<rparr>"

definition sample_behind :: ratchet_state where
  "sample_behind = sample_bob\<lparr>rs_receiving_chain := None, rs_remote_ratchet_public := replicate 32 7\<rparr>"

lemma sample_ahead: "ahead example_prims (replicate 32 0) sample_ahead sample_behind"
proof -
  have dh: "x25519_shared example_prims (replicate 32 9) (replicate 32 8) = Ok (1 # replicate 31 17)"
    by (simp add: example_shared_replicate)
  have "kdf_root example_prims (replicate 32 5) (1 # replicate 31 17) = Ok (1 # replicate 31 17, replicate 32 0)"
    by (simp add: kdf_root_def hkdf_sha256_def provider_hkdf_sha256_def bounded_bytes_new_def MAX_INPUT_BYTES_def
        example_prims_def fit_def ROOT_DOMAIN_def ascii_def fixed_def)
  then have "derives_chain example_prims (replicate 32 0) sample_ahead sample_behind"
    by (simp add: derives_chain_def sample_ahead_def sample_behind_def sample_alice_def sample_bob_def
        sample_session_def dh)
  then show ?thesis
    by (simp add: ahead_def session_core_def sample_ahead_def sample_behind_def sample_alice_def sample_bob_def
        sample_session_def ratchet_fields_wf_def secret_option_wf_def skipped_below_def is_zero_def list_all_iff
        example_prims_def replicate_eq_replicate unseen_key_def counts_within_def)
qed

lemma sample_ahead_fresh: "fresh_secret example_prims (replicate 32 5) sample_ahead"
proof -
  have "x25519_shared example_prims (replicate 32 5) (replicate 32 8) = Ok (1 # replicate 31 13)"
    by (simp add: example_shared_replicate)
  then show ?thesis
    by (simp add: fresh_secret_def unseen_key_def sample_ahead_def sample_alice_def sample_session_def)
      (simp add: example_prims_def replicate_eq_replicate)
qed

theorem conversation_turn_witness:
  "\<exists>x' envs tape' y' c2. send_all example_prims (replicate 16 3) 0 sample_ahead [[1], [2]] (replicate 524288 0)
       = Ok ((x', envs), tape')
     \<and> receive_all example_prims (replicate 16 3) 0 sample_behind (map (\<lambda>i. envs ! i) [1, 0, 1]) (replicate 32 5)
       = ([Some [2], Some [1], None], y')
     \<and> ahead example_prims c2 y' x'"
proof -
  have dev: "rs_local_device_id sample_behind = replicate 16 3"
    by (simp add: sample_behind_def sample_bob_def)
  have x: "rs_sending_chain sample_ahead = Some (replicate 32 0)" "rs_send_count sample_ahead = 0"
    "\<not> rs_receive_only sample_ahead" "rs_remote_device_id sample_ahead = replicate 16 3" "rs_skipped sample_ahead = []"
    by (simp_all add: sample_ahead_def sample_alice_def sample_session_def)
  have core: "session_core example_prims sample_ahead" using sample_ahead by (simp add: ahead_def)
  obtain x' envs tape' where sent: "send_all example_prims (replicate 16 3) 0 sample_ahead [[1], [2]]
      (replicate 524288 0) = Ok ((x', envs), tape')"
    using send_all_total [OF example_sized example_aead core, of "replicate 32 0" "replicate 16 3"
        "[[1], [2]]" 0 "replicate 524288 0"] x
    by (auto simp: pairwise_size_defs)
  have plain: "list_all (\<lambda>m. \<not> is_control m) [[1 :: u8], [2]]"
    by (simp add: is_control_def REPAIR_CONTROL_MAGIC_def ascii_def)
  have room: "turn_room (unat (rs_send_count sample_ahead) + length [[1 :: u8], [2]]) 0 sample_ahead sample_behind"
    by (simp add: turn_room_def sample_ahead_def sample_alice_def sample_behind_def sample_bob_def pairwise_size_defs)
  from conversation_turn [OF example_sized example_aead example_dh sample_ahead sent [folded dev] plain room _ _ sample_ahead_fresh,
      of "[1, 0, 1]" "[]"]
  have "\<exists>y' c2. receive_all example_prims (replicate 16 3) 0 sample_behind (map (\<lambda>i. envs ! i) [1, 0, 1])
        (replicate 32 5) = (accept_once (\<lambda>i. [[1], [2]] ! i) {} [1, 0, 1], y') \<and> ahead example_prims c2 y' x'"
    by (simp only: dev append_Nil2) simp
  with sent show ?thesis by (simp only: accept_once.simps) simp
qed

end
