(* ===== verification/Session_Steps.thy ===== *)
theory Session_Steps
  imports Ratchet_Conversation
begin

text \<open>
  Sequences of operations on one stored session: sending, receiving, both repair operations and a
  restart that stores and loads the session. The properties say which operations keep a session
  loadable, that an opened message is never opened again in its chain, and when a message is
  refused for the skip limits.
\<close>

section \<open>Surviving a restart\<close>

definition survives_restart :: "prims \<Rightarrow> device_state \<Rightarrow> ratchet_state \<Rightarrow> bool" where
  "survives_restart P device st \<longleftrightarrow>
     (case encode_ratchet_state P device st of
        Ok bs \<Rightarrow> decode_ratchet_state P device bs = Ok st
      | Err _ \<Rightarrow> False)"

lemma survives_restart_iff:
  assumes P: "sized_prims P" and device: "length (ds_identity_secret device) = 32" and core: "session_core P st"
  shows "survives_restart P device st \<longleftrightarrow> ratchet_valid P st"
proof -
  obtain bs where bs: "encode_ratchet_state P device st = Ok bs" "length bs \<le> MAX_INPUT_BYTES"
    by (rule encode_ratchet_state_total [OF P device session_coreD(1,2) [OF core]]) blast
  then show ?thesis
    using P by (auto simp: survives_restart_def intro: ratchet_store.load_store ratchet_store.load_valid)
qed

lemma survives_restart_core:
  assumes "sized_prims P" and "length (ds_identity_secret device) = 32" and "session_core P st"
  shows "survives_restart P device st \<longleftrightarrow> role_respected st \<and> one_repair_token st"
  using survives_restart_iff [OF assms] ratchet_valid_core [OF session_coreD(3) [OF assms(3)], of P] assms(3)
  by simp

lemma ratchet_decrypt_conditions:
  assumes P: "sized_prims P" and good: "session_inv P st" and fresh: "fresh_ratchet_key st env"
    and run: "ratchet_decrypt P st recipient env other tape = Ok (Prepared t, tape')"
  shows "session_core P (dt_state t)"
    and "role_respected (dt_state t) \<longleftrightarrow> \<not> (rs_receive_only st \<and> new_ratchet_key st env)"
    and "one_repair_token (dt_state t) \<longleftrightarrow> \<not> (dt_payload_kind t = 1 \<and> rs_issued_repair_token st \<noteq> None)"
proof -
  have core: "session_core P st" and role: "role_respected st" and tokens: "one_repair_token st"
    using good by (simp_all add: session_inv_def)
  from P core fresh run obtain st1 where ctl: "control_applied st1 t" and core1: "session_core P st1"
    and same: "same_session st st1"
    and new: "new_ratchet_key st env \<longrightarrow> rs_sending_chain st1 \<noteq> None"
    and old: "\<not> new_ratchet_key st env \<longrightarrow> rs_sending_chain st1 = rs_sending_chain st"
    by (rule ratchet_decrypt_Ok)
  show "session_core P (dt_state t)" by (rule control_applied_facts(1) [OF ctl core1])
  have "one_repair_token st1" and issued: "rs_issued_repair_token st1 = rs_issued_repair_token st"
    using tokens same by (simp_all add: one_repair_token_def same_session_def)
  from control_applied_facts(4) [OF ctl this(1)] issued
  show "one_repair_token (dt_state t) \<longleftrightarrow> \<not> (dt_payload_kind t = 1 \<and> rs_issued_repair_token st \<noteq> None)"
    by simp
  show "role_respected (dt_state t) \<longleftrightarrow> \<not> (rs_receive_only st \<and> new_ratchet_key st env)"
    using control_applied_facts(3) [OF ctl] role new old same by (auto simp: role_respected_def same_session_def)
qed

text \<open>
  C29: a received message leaves a session that survives a restart, with two exceptions and only those: the
  session is receive-only and the message starts a new chain of the peer, or the message
  is the peer's repair request while an own repair request is outstanding. In these two cases
  the session that is returned for storing is refused when it is loaded.
\<close>

theorem received_session_survives_restart:
  assumes P: "sized_prims P" and device: "length (ds_identity_secret device) = 32"
    and good: "session_inv P st" and fresh: "fresh_ratchet_key st env"
    and run: "ratchet_decrypt P st recipient env other tape = Ok (Prepared t, tape')"
  shows "survives_restart P device (dt_state t) \<longleftrightarrow>
    \<not> (rs_receive_only st \<and> new_ratchet_key st env)
    \<and> \<not> (dt_payload_kind t = 1 \<and> rs_issued_repair_token st \<noteq> None)"
  using survives_restart_core [OF P device] ratchet_decrypt_conditions [OF P good fresh run] by simp

section \<open>Repair requests\<close>

lemma create_repair_Ok:
  assumes "create_repair P st recipient other tape = Ok ((st', env), tape')"
  obtains token tape1 where "rs_issued_repair_token st = None" and "length token = 32" and "tape = token @ tape1"
    and "ratchet_encrypt P (st\<lparr>rs_issued_repair_token := Some token\<rparr>) recipient (repair_control st token) other tape1
      = Ok ((st', env), tape')"
  using assms by (auto simp: create_repair_def Let_def random_bytes_Ok_iff elim!: monad_elims)

lemma session_core_issued:
  "session_core P st \<Longrightarrow> length token = 32 \<Longrightarrow> session_core P (st\<lparr>rs_issued_repair_token := Some token\<rparr>)"
  by (simp add: session_core_def ratchet_fields_wf_def secret_option_wf_def skipped_below_def)

lemma create_repair_core:
  assumes P: "sized_prims P" and core: "session_core P st"
    and run: "create_repair P st recipient other tape = Ok ((st', env), tape')"
  shows "session_core P st'" and "role_respected st'"
    and "one_repair_token st' \<longleftrightarrow> rs_received_repair_token st = None"
    and "spent rp n st' = spent rp n st"
    and "rs_session_id st' = rs_session_id st \<and> rs_local_device_id st' = rs_local_device_id st"
proof -
  from run obtain token tape1 where token: "length token = 32"
    and enc: "ratchet_encrypt P (st\<lparr>rs_issued_repair_token := Some token\<rparr>) recipient (repair_control st token)
      other tape1 = Ok ((st', env), tape')"
    by (rule create_repair_Ok)
  note facts = ratchet_encrypt_core [OF P session_core_issued [OF core token] enc]
  show "session_core P st'" by (rule facts)
  show "role_respected st'" using facts(2,3) by (simp add: role_respected_def same_session_def)
  show "one_repair_token st' \<longleftrightarrow> rs_received_repair_token st = None"
    using facts(2) by (simp add: one_repair_token_def same_session_def)
  show "spent rp n st' = spent rp n st" using facts(4-6) by (simp add: spent_def)
  show "rs_session_id st' = rs_session_id st \<and> rs_local_device_id st' = rs_local_device_id st"
    using facts(2) by (simp add: same_session_def)
qed

text \<open>
  C30: a session that has issued a repair request survives a restart exactly when it holds no
  request of the peer. A client that answers a received request with one of its own gets a
  session that is refused when it is loaded.
\<close>

theorem repair_request_survives_restart:
  assumes P: "sized_prims P" and device: "length (ds_identity_secret device) = 32"
    and good: "session_inv P st"
    and run: "create_repair P st recipient other tape = Ok ((st', env), tape')"
  shows "survives_restart P device st' \<longleftrightarrow> rs_received_repair_token st = None"
proof -
  have "session_core P st" using good by (simp add: session_inv_def)
  note facts = create_repair_core [OF P this run]
  show ?thesis using survives_restart_core [OF P device facts(1)] facts(2,3) by simp
qed

section \<open>Sequences of operations\<close>

inductive session_step :: "prims \<Rightarrow> device_state \<Rightarrow> ratchet_state \<Rightarrow> ratchet_state \<Rightarrow> bool"
  for P device where
  encrypt: "ratchet_encrypt P st recipient inner other tape = Ok ((st', env), tape') \<Longrightarrow>
    session_step P device st st'"
| decrypt: "ratchet_decrypt P st recipient env other tape = Ok (Prepared t, tape') \<Longrightarrow>
    fresh_ratchet_key st env \<Longrightarrow> \<not> (rs_receive_only st \<and> new_ratchet_key st env) \<Longrightarrow>
    \<not> (dt_payload_kind t = 1 \<and> rs_issued_repair_token st \<noteq> None) \<Longrightarrow> session_step P device st (dt_state t)"
| request_repair: "create_repair P st recipient other tape = Ok ((st', env), tape') \<Longrightarrow>
    rs_received_repair_token st = None \<Longrightarrow> session_step P device st st'"
| consume_repair: "consume_repair_authorization P device st = Ok (st', authorization) \<Longrightarrow>
    session_step P device st st'"
| restart: "encode_ratchet_state P device st = Ok bs \<Longrightarrow> decode_ratchet_state P device bs = Ok st' \<Longrightarrow>
    session_step P device st st'"

inductive_cases session_stepE: "session_step P device st st'"

lemma consume_repair_authorization_Ok:
  assumes "consume_repair_authorization P device st = Ok (st', authorization)"
  shows "st' = st\<lparr>rs_received_repair_token := None\<rparr>" and "rs_received_repair_token st \<noteq> None"
  using assms by (auto simp: consume_repair_authorization_def Let_def elim!: monad_elims)

lemma restart_same:
  assumes "sized_prims P" and "session_inv P st" and "encode_ratchet_state P device st = Ok bs"
    and "decode_ratchet_state P device bs = Ok st'"
  shows "st' = st"
  using ratchet_store.load_store [OF assms(1) _ assms(3)] assms(2,4) by (simp add: session_inv_iff)

lemma session_step_inv:
  assumes P: "sized_prims P"
    and good: "session_inv P st" and step: "session_step P device st st'"
  shows "session_inv P st'"
proof -
  have core: "session_core P st" using good by (simp add: session_inv_def)
  from step show ?thesis
  proof cases
    case (encrypt recipient inner other tape env tape')
    note facts = ratchet_encrypt_core [OF P core encrypt(1)]
    with good show ?thesis
      by (simp add: session_inv_def role_respected_def one_repair_token_def same_session_def)
  next
    case (decrypt recipient env other tape t tape')
    then show ?thesis
      using ratchet_decrypt_conditions [OF P good decrypt(3,2)] by (simp add: session_inv_def)
  next
    case (request_repair recipient other tape env tape')
    then show ?thesis
      using create_repair_core [OF P core request_repair(1)] by (simp add: session_inv_def)
  next
    case (consume_repair authorization)
    with good consume_repair_authorization_Ok [OF consume_repair] show ?thesis
      by (simp add: session_inv_def session_core_def ratchet_fields_wf_def secret_option_wf_def skipped_below_def
          role_respected_def one_repair_token_def)
  next
    case (restart bs)
    from restart_same [OF P good this] good show ?thesis by simp
  qed
qed

lemma session_step_spent:
  assumes P: "sized_prims P" and good: "session_inv P st" and step: "session_step P device st st'"
    and chain: "rs_remote_ratchet_public st' = rs_remote_ratchet_public st"
  shows "spent rp n st \<Longrightarrow> spent rp n st'"
    and "rs_session_id st' = rs_session_id st \<and> rs_local_device_id st' = rs_local_device_id st"
proof -
  have core: "session_core P st" using good by (simp add: session_inv_def)
  have "(spent rp n st \<longrightarrow> spent rp n st') \<and> rs_session_id st' = rs_session_id st
    \<and> rs_local_device_id st' = rs_local_device_id st"
    using step
  proof cases
    case (encrypt recipient inner other tape env tape')
    from ratchet_encrypt_core [OF P core this] show ?thesis by (simp add: spent_def same_session_def)
  next
    case (decrypt recipient env other tape t tape')
    from P core decrypt(3,2) obtain st1 where ctl: "control_applied st1 t" and same: "same_session st st1"
      and hdr: "\<exists>h. regular_header_of env = Some h \<and> rh_session_id h = rs_session_id st
        \<and> spent (rh_ratchet_public h) (rh_message_number h) st1"
      and old: "\<not> new_ratchet_key st env \<longrightarrow> (\<forall>rp n. spent rp n st \<longrightarrow> spent rp n st1)"
      by (rule ratchet_decrypt_Ok)
    from hdr have "\<exists>h. regular_header_of env = Some h \<and> spent (rh_ratchet_public h) (rh_message_number h) (dt_state t)"
      using control_applied_facts(5) [OF ctl] by blast
    then have "\<not> new_ratchet_key st env"
      using chain decrypt(1) by (auto simp: new_ratchet_key_def spent_def)
    with old control_applied_facts(5-7) [OF ctl] same decrypt(1) show ?thesis by (simp add: same_session_def)
  next
    case (request_repair recipient other tape env tape')
    from create_repair_core(4,5) [OF P core this(1)] show ?thesis by simp
  next
    case (consume_repair authorization)
    from consume_repair_authorization_Ok(1) [OF this] show ?thesis by (simp add: spent_def)
  next
    case (restart bs)
    from restart_same [OF P good this] show ?thesis by simp
  qed
  then show "spent rp n st \<Longrightarrow> spent rp n st'"
    and "rs_session_id st' = rs_session_id st \<and> rs_local_device_id st' = rs_local_device_id st"
    by blast+
qed

text \<open>
  C7: a session never becomes unloadable in use. Whatever is sent, received, requested or restarted, as long as
  the two exceptional receptions and a repair request against a pending one are avoided,
  the session keeps its invariant, and storing and loading it gives it back.
\<close>

theorem session_steps_storable:
  assumes P: "sized_prims P" and device: "length (ds_identity_secret device) = 32"
    and good: "session_inv P st" and steps: "(session_step P device)\<^sup>*\<^sup>* st st'"
  shows "session_inv P st' \<and> survives_restart P device st'"
proof -
  from steps have "session_inv P st'"
    by (induction rule: rtranclp_induct) (use good session_step_inv [OF P] in blast)+
  then show ?thesis
    using survives_restart_core [OF P device] by (simp add: session_inv_def)
qed

text \<open>Steps that stay in the current chain of the peer.\<close>

definition in_chain_step :: "prims \<Rightarrow> device_state \<Rightarrow> ratchet_state \<Rightarrow> ratchet_state \<Rightarrow> bool" where
  "in_chain_step P device st st' \<longleftrightarrow>
     session_step P device st st' \<and> rs_remote_ratchet_public st' = rs_remote_ratchet_public st"

text \<open>
  C6: an envelope is never opened twice in its chain. After a message has been received, whatever else is
  sent, received or restarted while the peer stays in its chain, offering the same envelope
  again is a state violation. When the envelope begins a new chain, no key of an older chain with
  the same ratchet key is kept, and receiving the message left a session that can be loaded again.
\<close>

theorem replay_refused:
  assumes P: "sized_prims P" and good: "session_inv P st" and fresh: "fresh_ratchet_key st env"
    and run: "ratchet_decrypt P st recipient env other tape = Ok (Prepared t, tape')"
    and kept: "session_inv P (dt_state t)" and steps: "(in_chain_step P device)\<^sup>*\<^sup>* (dt_state t) st'"
  shows "ratchet_decrypt P st' recipient env other' tape'' = Err StateViolation"
proof -
  have core: "session_core P st" using good by (simp add: session_inv_def)
  from P core fresh run obtain st1 where ctl: "control_applied st1 t" and same: "same_session st st1"
    and hdr: "\<exists>h. regular_header_of env = Some h \<and> rh_session_id h = rs_session_id st
      \<and> spent (rh_ratchet_public h) (rh_message_number h) st1"
    and dev: "rs_local_device_id st = recipient"
    by (rule ratchet_decrypt_Ok)
  then obtain h where h: "regular_header_of env = Some h" "rh_session_id h = rs_session_id st"
    "spent (rh_ratchet_public h) (rh_message_number h) st1" by blast
  from steps have "session_inv P st' \<and> spent (rh_ratchet_public h) (rh_message_number h) st'
      \<and> rs_session_id st' = rs_session_id st \<and> rs_local_device_id st' = recipient"
  proof (induction rule: rtranclp_induct)
    case base
    show ?case using kept h(3) control_applied_facts(5-7) [OF ctl] same dev by (simp add: same_session_def)
  next
    case (step a b)
    then show ?case
      using session_step_inv [OF P, of a device b] session_step_spent [OF P, of a device b]
      by (simp add: in_chain_step_def)
  qed
  then show ?thesis using h(1,2) by (intro spent_refused) auto
qed

section \<open>The skip limits\<close>

definition over_limits :: "ratchet_state \<Rightarrow> u32 \<Rightarrow> nat \<Rightarrow> bool" where
  "over_limits st other n \<longleftrightarrow>
     length (rs_skipped st) + n > MAX_SKIPPED_PER_SESSION
     \<or> unat other + length (rs_skipped st) + n > MAX_SKIPPED_ACCOUNT"

definition keys_to_skip :: "ratchet_state \<Rightarrow> regular_header \<Rightarrow> nat option" where
  "keys_to_skip st h =
     (if rh_ratchet_public h = rs_remote_ratchet_public st then
        if rs_receive_count st \<le> rh_message_number h
        then Some (unat (rh_message_number h) - unat (rs_receive_count st)) else None
      else if rs_receive_count st \<le> rh_previous_chain_length h
      then Some (unat (rh_previous_chain_length h) - unat (rs_receive_count st) + unat (rh_message_number h))
      else None)"

lemma projected_skip_eq:
  assumes "length (rs_skipped st) \<le> MAX_SKIPPED_PER_SESSION" and "n < 2 ^ 33"
  shows "projected_skip_within_bounds st n other = Ok (\<not> over_limits st other n)"
  using assms unat_u32_bound [of other]
  by (auto simp: projected_skip_within_bounds_def usize_checked_add_def over_limits_def pairwise_size_defs)

lemma prepare_chain_None_iff:
  assumes "length (rs_skipped st) \<le> MAX_SKIPPED_PER_SESSION"
  shows "prepare_chain P st h other tape = Ok (None, tape') \<longleftrightarrow>
    tape' = tape \<and> (\<exists>n. keys_to_skip st h = Some n \<and> over_limits st other n)"
proof -
  let ?prev = "rh_previous_chain_length h" and ?n = "rh_message_number h" and ?r = "rs_receive_count st"
  have bounds: "unat ?prev < 2 ^ 32" "unat ?n < 2 ^ 32"
    using unat_u32_bound [of ?prev] unat_u32_bound [of ?n] by simp_all
  show ?thesis
  proof (cases "rh_ratchet_public h = rs_remote_ratchet_public st")
    case True
    then show ?thesis
      using projected_skip_eq [OF assms, of "unat (?n - ?r)" other] bounds
      by (auto simp: prepare_chain_def keys_to_skip_def unat_sub word_le_nat_alt word_less_nat_alt monad_simps
          split: if_splits)
  next
    case False
    show ?thesis
    proof (cases "?prev < ?r")
      case True
      with False show ?thesis by (simp add: prepare_chain_def keys_to_skip_def monad_simps not_le [symmetric])
    next
      case prev: False
      let ?gap = "unat (?prev - ?r) + unat ?n"
      have gap: "?gap = unat ?prev - unat ?r + unat ?n" using prev by (simp add: unat_sub word_le_nat_alt not_less)
      have within: "projected_skip_within_bounds st ?gap other = Ok (\<not> over_limits st other ?gap)"
        by (rule projected_skip_eq [OF assms]) (use gap bounds in simp)
      have "prepare_chain P st h other tape = Ok (None, tape') \<longleftrightarrow> tape' = tape \<and> over_limits st other ?gap"
        using False prev within bounds gap
        by (auto simp: prepare_chain_def Let_def usize_checked_add_def monad_simps elim!: monad_elims split: if_splits)
      then show ?thesis using False prev gap by (simp add: keys_to_skip_def not_less)
    qed
  qed
qed

lemma no_repair_from_receive:
  "receive_next P st recipient env e h \<noteq> Ok RepairRequired"
  "receive_skipped P st recipient env e h \<noteq> Ok RepairRequired"
  by (auto simp: receive_next_def receive_skipped_def elim!: monad_elims finish_receive_Ok)

text \<open>
  C27: a message asks for a repair exactly when its gap breaks a limit. For an envelope addressed to this
  session whose gap is not negative, the outcome is a required repair if and only if storing
  the keys of the gap would exceed 2000 for the session or 20000 for the account; a message already
  passed over, and a header from before the current position, never ask for one.
\<close>

theorem repair_required_iff:
  assumes "session_core P st"
  shows "(\<exists>tape'. ratchet_decrypt P st recipient env other tape = Ok (RepairRequired, tape')) \<longleftrightarrow>
    rs_local_device_id st = recipient
    \<and> (\<exists>h n. regular_header_of env = Some h \<and> rh_session_id h = rs_session_id st
        \<and> keys_to_skip st h = Some n \<and> over_limits st other n)"
proof (cases "regular_header_of env")
  case None
  then show ?thesis
    by (auto simp: ratchet_decrypt_def regular_header_of_def monad_simps elim!: monad_elims
        split: sum.splits ratchet_header.splits if_splits)
next
  case (Some h)
  then obtain e where e: "parse_envelope env = Ok e" "en_header e = Regular h"
    by (auto simp: regular_header_of_def split: sum.splits ratchet_header.splits)
  note none = prepare_chain_None_iff [OF session_coreD(4) [OF assms], of P h other tape]
  show ?thesis
  proof (cases "rh_ratchet_public h = rs_remote_ratchet_public st \<and> rh_message_number h < rs_receive_count st")
    case True
    then have "keys_to_skip st h = None" by (auto simp: keys_to_skip_def)
    with True e no_repair_from_receive(2) [of P st recipient env e h] show ?thesis
      by (auto simp: ratchet_decrypt_def Some monad_simps elim!: monad_elims split: if_splits)
  next
    case False
    then have "(\<exists>tape'. ratchet_decrypt P st recipient env other tape = Ok (RepairRequired, tape')) \<longleftrightarrow>
      rs_local_device_id st = recipient \<and> rh_session_id h = rs_session_id st
      \<and> (\<exists>tape'. prepare_chain P st h other tape = Ok (None, tape'))"
      using e no_repair_from_receive(1)
      by (auto simp: ratchet_decrypt_def monad_simps sbind_Ok elim!: monad_elims split: if_splits option.splits)
    then show ?thesis by (auto simp: none Some)
  qed
qed

text \<open>
  C28: receiving respects the limits. After any message is received, the session keeps at most 2000 skipped
  keys, and either it keeps one key less than before or the account stays within 20000. When the envelope begins a
  new chain, no key of an older chain with the same ratchet key is kept.
\<close>

theorem receive_within_limits:
  assumes P: "sized_prims P" and core: "session_core P st" and fresh: "fresh_ratchet_key st env"
    and run: "ratchet_decrypt P st recipient env other tape = Ok (Prepared t, tape')"
  shows "length (rs_skipped (dt_state t)) \<le> MAX_SKIPPED_PER_SESSION
    \<and> (length (rs_skipped st) = Suc (length (rs_skipped (dt_state t)))
       \<or> unat other + length (rs_skipped (dt_state t)) \<le> MAX_SKIPPED_ACCOUNT)"
proof -
  from P core fresh run obtain st1 where ctl: "control_applied st1 t"
    and "length (rs_skipped st) = Suc (length (rs_skipped st1))
      \<or> length (rs_skipped st1) \<le> MAX_SKIPPED_PER_SESSION
        \<and> unat other + length (rs_skipped st1) \<le> MAX_SKIPPED_ACCOUNT"
    by (rule ratchet_decrypt_Ok)
  then show ?thesis
    using session_coreD(4) [OF core] by (auto simp: control_applied_facts(2) [OF ctl])
qed

section \<open>Concrete runs\<close>

lemma sample_device_secret: "length (ds_identity_secret sample_device) = 32"
  by (simp add: sample_device_def)

lemma sample_bob_inv: "session_inv example_prims sample_bob"
  using sample_pair_linked
  by (simp add: linked_def follows_chain_def session_inv_def role_respected_def one_repair_token_def
      sample_bob_def sample_session_def)

lemma sample_alice_inv: "session_inv example_prims sample_alice"
  using sample_alice_core
  by (simp add: session_inv_def role_respected_def one_repair_token_def sample_alice_def sample_session_def)

lemma sample_sending:
  "rs_sending_chain sample_alice = Some (chain_at example_prims (replicate 32 6) (unat (rs_send_count sample_alice)))"
  "rs_send_count sample_alice = 0" "\<not> rs_receive_only sample_alice"
  "rs_remote_device_id sample_alice = replicate 16 3" "rs_skipped sample_alice = []"
  by (simp_all add: sample_alice_def sample_session_def)

lemma sample_envelope:
  obtains a' env tape' where
    "ratchet_encrypt example_prims sample_alice (replicate 16 3) [1] 0 (replicate 262144 0) = Ok ((a', env), tape')"
    and "opens_as example_prims (replicate 16 3) env (chain_header sample_alice 0)
      (message_at example_prims (replicate 32 6) 0) [1]"
proof -
  from ratchet_encrypt_total [OF example_sized example_aead sample_alice_core sample_sending(1) _
      sample_sending(3,4), of 0 "[1]" "replicate 262144 0"] sample_sending(2,5)
  obtain a' env tape' where run:
    "ratchet_encrypt example_prims sample_alice (replicate 16 3) [1] 0 (replicate 262144 0) = Ok ((a', env), tape')"
    by (auto simp: pairwise_size_defs)
  from ratchet_encrypt_in_chain(1) [OF example_sized example_aead sample_alice_core sample_sending(1) _ run]
  show thesis by (intro that [OF run]) (simp add: sample_sending(2))
qed

lemma sample_exchange:
  obtains a' env tape' t where
    "ratchet_encrypt example_prims sample_alice (replicate 16 3) [1] 0 (replicate 262144 0) = Ok ((a', env), tape')"
    and "ratchet_decrypt example_prims sample_bob (replicate 16 3) env 0 [] = Ok (Prepared t, [])"
    and "dt_inner t = [1]" and "session_inv example_prims (dt_state t)" and "fresh_ratchet_key sample_bob env"
    and "rs_receive_count (dt_state t) = 1"
proof -
  obtain a' env tape' where run:
    "ratchet_encrypt example_prims sample_alice (replicate 16 3) [1] 0 (replicate 262144 0) = Ok ((a', env), tape')"
    and env: "opens_as example_prims (replicate 16 3) env (chain_header sample_alice 0)
      (message_at example_prims (replicate 32 6) 0) [1]"
    by (rule sample_envelope)
  let ?h = "chain_header sample_alice 0"
  have chain: "follows_chain example_prims (replicate 32 6) sample_bob"
    using sample_pair_linked by (simp add: linked_def)
  have h: "rh_ratchet_public ?h = rs_remote_ratchet_public sample_bob" "rh_session_id ?h = rs_session_id sample_bob"
    "rs_local_device_id sample_bob = replicate 16 3" "rh_message_number ?h = 0" "rs_receive_count sample_bob = 0"
    "rs_skipped sample_bob = []"
    by (simp_all add: chain_header_def sample_alice_def sample_bob_def sample_session_def)
  have plain: "\<not> is_control [1]" by (simp add: is_control_def REPAIR_CONTROL_MAGIC_def ascii_def)
  have dec: "ratchet_decrypt example_prims sample_bob (replicate 16 3) env 0 []
      = Ok (Prepared (plain_transition example_prims
          (moved_past example_prims (replicate 32 6) (rh_message_number ?h) sample_bob) [1] env), [])"
    by (rule decrypt_next_in_chain(1) [OF example_sized chain h(1-3) _ plain, where n = 1])
      (use env h in \<open>simp_all add: room_def pairwise_size_defs\<close>)
  have "regular_header_of env = Some ?h" using env by (auto simp: regular_header_of_def elim!: opens_asE)
  then have fresh: "fresh_ratchet_key sample_bob env" "\<not> new_ratchet_key sample_bob env"
    using h by (simp_all add: fresh_ratchet_key_def new_ratchet_key_def)
  have "session_inv example_prims (moved_past example_prims (replicate 32 6) (rh_message_number ?h) sample_bob)"
    using ratchet_decrypt_conditions [OF example_sized sample_bob_inv fresh(1) dec] fresh(2)
    by (simp add: session_inv_def)
  then show thesis by (intro that [OF run dec _ _ fresh(1)]) (simp_all add: moved_past_def h(4))
qed

text \<open>The witnesses.\<close>

theorem session_steps_storable_witness:
  "\<exists>st'. (session_step example_prims sample_device)\<^sup>*\<^sup>* sample_bob st' \<and> st' \<noteq> sample_bob
     \<and> survives_restart example_prims sample_device st'"
proof -
  obtain env t where dec: "ratchet_decrypt example_prims sample_bob (replicate 16 3) env 0 [] = Ok (Prepared t, [])"
    and good: "session_inv example_prims (dt_state t)" and fresh: "fresh_ratchet_key sample_bob env"
    and count: "rs_receive_count (dt_state t) = 1"
    by (rule sample_exchange)
  have "survives_restart example_prims sample_device (dt_state t)"
    using survives_restart_core [OF example_sized sample_device_secret] good by (simp add: session_inv_def)
  have "\<not> rs_receive_only sample_bob" "rs_issued_repair_token sample_bob = None"
    by (simp_all add: sample_bob_def sample_session_def)
  then have step: "session_step example_prims sample_device sample_bob (dt_state t)"
    using dec fresh by (intro session_step.decrypt) simp_all
  then have steps: "(session_step example_prims sample_device)\<^sup>*\<^sup>* sample_bob (dt_state t)" by (rule r_into_rtranclp)
  have "dt_state t \<noteq> sample_bob" using count by (auto simp: sample_bob_def)
  with session_steps_storable [OF example_sized sample_device_secret sample_bob_inv steps] steps show ?thesis by blast
qed

theorem replay_refused_witness:
  "\<exists>env t. ratchet_decrypt example_prims sample_bob (replicate 16 3) env 0 [] = Ok (Prepared t, [])
     \<and> dt_inner t = [1]
     \<and> ratchet_decrypt example_prims (dt_state t) (replicate 16 3) env 0 [] = Err StateViolation"
proof -
  obtain env t where dec: "ratchet_decrypt example_prims sample_bob (replicate 16 3) env 0 [] = Ok (Prepared t, [])"
    and inner: "dt_inner t = [1]"
    and good: "session_inv example_prims (dt_state t)" and fresh: "fresh_ratchet_key sample_bob env"
    by (rule sample_exchange)
  from replay_refused [OF example_sized sample_bob_inv fresh dec good rtranclp.rtrancl_refl] dec inner
  show ?thesis by blast
qed

theorem receive_within_limits_witness:
  "\<exists>env t. ratchet_decrypt example_prims sample_bob (replicate 16 3) env 0 [] = Ok (Prepared t, [])
     \<and> length (rs_skipped (dt_state t)) \<le> 2000"
proof -
  obtain env t where dec: "ratchet_decrypt example_prims sample_bob (replicate 16 3) env 0 [] = Ok (Prepared t, [])"
    and fresh: "fresh_ratchet_key sample_bob env"
    by (rule sample_exchange)
  have "session_core example_prims sample_bob" using sample_bob_inv by (simp add: session_inv_def)
  from receive_within_limits [OF example_sized this fresh dec] dec show ?thesis
    by (auto simp: MAX_SKIPPED_PER_SESSION_def)
qed

text \<open>A receive-only session, and a message of a new chain for it.\<close>

definition sample_peer :: ratchet_state where
  "sample_peer = sample_ahead\<lparr>rs_receive_count := 0\<rparr>"

definition sample_receive_only :: ratchet_state where
  "sample_receive_only = sample_behind\<lparr>rs_primary := False, rs_receive_only := True, rs_sending_chain := None,
     rs_send_count := 0\<rparr>"

lemma sample_peer_ahead: "ahead example_prims (replicate 32 0) sample_peer sample_receive_only"
  using sample_ahead
  by (simp add: ahead_def session_core_def derives_chain_def sample_peer_def sample_receive_only_def sample_ahead_def
      sample_behind_def sample_alice_def sample_bob_def sample_session_def ratchet_fields_wf_def secret_option_wf_def
      skipped_below_def counts_within_def unseen_key_def split: sum.splits)

theorem received_session_survives_restart_witness:
  "\<exists>env t tape'. session_inv example_prims sample_receive_only
     \<and> ratchet_decrypt example_prims sample_receive_only (replicate 16 3) env 0 (replicate 32 5) = Ok (Prepared t, tape')
     \<and> dt_inner t = [1] \<and> \<not> survives_restart example_prims sample_device (dt_state t)"
proof -
  have x: "rs_sending_chain sample_peer = Some (chain_at example_prims (replicate 32 0) (unat (rs_send_count sample_peer)))"
    "rs_send_count sample_peer = 0" "\<not> rs_receive_only sample_peer" "rs_remote_device_id sample_peer = replicate 16 3"
    "rs_skipped sample_peer = []"
    by (simp_all add: sample_peer_def sample_ahead_def sample_alice_def sample_session_def)
  have y: "rs_local_device_id sample_receive_only = replicate 16 3" "rs_skipped sample_receive_only = []"
    "rs_receive_only sample_receive_only" "rs_remote_ratchet_public sample_receive_only = replicate 32 7"
    by (simp_all add: sample_receive_only_def sample_behind_def sample_bob_def)
  have core: "session_core example_prims sample_peer" "session_core example_prims sample_receive_only"
    using sample_peer_ahead by (simp_all add: ahead_def)
  have good: "session_inv example_prims sample_receive_only"
    using core(2) by (simp add: session_inv_def role_respected_def one_repair_token_def sample_receive_only_def
        sample_behind_def sample_bob_def sample_session_def)
  from ratchet_encrypt_total [OF example_sized example_aead core(1) x(1) _ x(3,4), of 0 "[1]" "replicate 262144 0"] x(2,5)
  obtain a' env tape1 where run:
    "ratchet_encrypt example_prims sample_peer (replicate 16 3) [1] 0 (replicate 262144 0) = Ok ((a', env), tape1)"
    by (auto simp: pairwise_size_defs)
  from ratchet_encrypt_in_chain(1) [OF example_sized example_aead core(1) x(1) _ run]
  have env: "opens_as example_prims (rs_local_device_id sample_receive_only) env (chain_header sample_peer 0)
      (message_at example_prims (replicate 32 0) 0) [1]"
    by (simp add: x(2) y(1))
  have plain: "\<not> is_control [1]" by (simp add: is_control_def REPAIR_CONTROL_MAGIC_def ascii_def)
  have room: "turn_room 1 0 sample_peer sample_receive_only"
    by (simp add: turn_room_def sample_peer_def sample_ahead_def sample_alice_def y pairwise_size_defs)
  have fresh: "fresh_secret example_prims (replicate 32 5) sample_peer"
    using sample_ahead_fresh by (simp add: fresh_secret_def unseen_key_def sample_peer_def)
  obtain y0 c2 where
    "ratchet_decrypt example_prims sample_receive_only (rs_local_device_id sample_receive_only) env 0 (replicate 32 5 @ [])
      = ratchet_decrypt example_prims y0 (rs_local_device_id sample_receive_only) env 0 []"
    "ratchet_decrypt example_prims y0 (rs_local_device_id sample_receive_only) env 0 []
      = Ok (Prepared (plain_transition example_prims (moved_past example_prims (replicate 32 0) (word_of_nat 0) y0)
          [1] env), [])"
    by (rule first_arrival [OF example_sized sample_peer_ahead _ _ env plain room fresh, where tape = "[]"]) simp_all
  then obtain t where dec: "ratchet_decrypt example_prims sample_receive_only (replicate 16 3) env 0 (replicate 32 5)
      = Ok (Prepared t, [])" and t: "dt_inner t = [1]"
    by (simp add: y(1))
  have "regular_header_of env = Some (chain_header sample_peer 0)"
    using env by (auto simp: regular_header_of_def elim!: opens_asE)
  then have "new_ratchet_key sample_receive_only env" "fresh_ratchet_key sample_receive_only env"
    by (simp_all add: new_ratchet_key_def fresh_ratchet_key_def y chain_header_def sample_peer_def sample_ahead_def
        sample_alice_def sample_session_def replicate_eq_replicate)
  with received_session_survives_restart [OF example_sized sample_device_secret good _ dec] y(3) good dec t
  show ?thesis by blast
qed

text \<open>Two clients that both ask for a repair.\<close>

definition sample_asked :: ratchet_state where
  "sample_asked = sample_alice\<lparr>rs_received_repair_token := Some (replicate 32 1)\<rparr>"

theorem repair_request_survives_restart_witness:
  "\<exists>st' env tape'. session_inv example_prims sample_asked
     \<and> create_repair example_prims sample_asked (replicate 16 3) 0 (replicate 262176 0) = Ok ((st', env), tape')
     \<and> \<not> survives_restart example_prims sample_device st'"
proof -
  have good: "session_inv example_prims sample_asked"
    using sample_alice_inv
    by (simp add: sample_asked_def session_inv_def session_core_def role_respected_def one_repair_token_def
        ratchet_fields_wf_def secret_option_wf_def skipped_below_def sample_alice_def sample_session_def)
  let ?st = "sample_asked\<lparr>rs_issued_repair_token := Some (replicate 32 0)\<rparr>"
  have core: "session_core example_prims ?st"
    using good by (intro session_core_issued) (simp_all add: session_inv_def)
  have control: "length (repair_control sample_asked (replicate 32 0)) = 58"
    by (simp add: repair_control_def REPAIR_CONTROL_MAGIC_def ascii_def sample_asked_def sample_alice_def sample_session_def)
  have "rs_sending_chain ?st = Some (chain_at example_prims (replicate 32 6) (unat (rs_send_count ?st)))"
    using sample_sending by (simp add: sample_asked_def)
  from ratchet_encrypt_total [OF example_sized example_aead core this, of "replicate 16 3" 0
      "repair_control sample_asked (replicate 32 0)" "replicate 262144 0"] control sample_sending
  obtain st' env tape' where enc: "ratchet_encrypt example_prims ?st (replicate 16 3)
      (repair_control sample_asked (replicate 32 0)) 0 (replicate 262144 0) = Ok ((st', env), tape')"
    by (auto simp: sample_asked_def pairwise_size_defs)
  have "random_bytes 32 (replicate 262176 0) = Ok (replicate 32 0, replicate 262144 0)"
    by (simp add: random_bytes_Ok_iff MAX_INPUT_BYTES_def flip: replicate_add)
  moreover have "rs_issued_repair_token sample_asked = None"
    by (simp add: sample_asked_def sample_alice_def sample_session_def)
  ultimately have run:
    "create_repair example_prims sample_asked (replicate 16 3) 0 (replicate 262176 0) = Ok ((st', env), tape')"
    using enc control by (simp add: create_repair_def sbind_Ok pairwise_size_defs monad_simps)
  have "rs_received_repair_token sample_asked \<noteq> None" by (simp add: sample_asked_def)
  with repair_request_survives_restart [OF example_sized sample_device_secret good run] good run
  show ?thesis by blast
qed


text \<open>A message five thousand ahead.\<close>

definition sample_far :: ratchet_state where
  "sample_far = sample_alice\<lparr>rs_send_count := 5000,
     rs_sending_chain := Some (chain_at example_prims (replicate 32 6) 5000)\<rparr>"

theorem repair_required_iff_witness:
  "\<exists>env tape'. ratchet_decrypt example_prims sample_bob (replicate 16 3) env 0 [] = Ok (RepairRequired, tape')"
proof -
  have core: "session_core example_prims sample_far"
    using sample_alice_core length_chain_at [OF example_sized, of "replicate 32 6" 5000]
    by (simp add: sample_far_def session_core_def ratchet_fields_wf_def secret_option_wf_def skipped_below_def)
  have x: "rs_sending_chain sample_far = Some (chain_at example_prims (replicate 32 6) (unat (rs_send_count sample_far)))"
    "rs_send_count sample_far = 5000" "\<not> rs_receive_only sample_far" "rs_remote_device_id sample_far = replicate 16 3"
    "rs_skipped sample_far = []"
    using sample_sending by (simp_all add: sample_far_def)
  from ratchet_encrypt_total [OF example_sized example_aead core x(1) _ x(3,4), of 0 "[1]" "replicate 262144 0"] x(2,5)
  obtain a' env tape1 where run:
    "ratchet_encrypt example_prims sample_far (replicate 16 3) [1] 0 (replicate 262144 0) = Ok ((a', env), tape1)"
    by (auto simp: pairwise_size_defs)
  from ratchet_encrypt_in_chain(1) [OF example_sized example_aead core x(1) _ run]
  have "regular_header_of env = Some (chain_header sample_far 5000)"
    by (auto simp: regular_header_of_def x(2) elim!: opens_asE)
  moreover have "keys_to_skip sample_bob (chain_header sample_far 5000) = Some 5000"
    "over_limits sample_bob 0 5000" "rs_local_device_id sample_bob = replicate 16 3"
    "rh_session_id (chain_header sample_far 5000) = rs_session_id sample_bob"
    by (simp_all add: keys_to_skip_def over_limits_def chain_header_def sample_far_def sample_alice_def sample_bob_def
        sample_session_def pairwise_size_defs)
  moreover have "session_core example_prims sample_bob" using sample_bob_inv by (simp add: session_inv_def)
  ultimately show ?thesis
    using repair_required_iff [of example_prims sample_bob "replicate 16 3" env 0 "[]"] by blast
qed

end
