(* ===== verification/Bundle_Verification.thy ===== *)
theory Bundle_Verification
  imports Pairwise_Ratchet
begin

text \<open>
  The claimed bundle of a peer device: its verification
  (\<^verbatim>\<open>verify_claimed_device_bundle\<close> of \<^verbatim>\<open>enrollment.rs\<close>) and the two projections of a peer that
  \<^verbatim>\<open>pairwise.rs\<close> reads, \<^verbatim>\<open>PeerBundle\<close> and \<^verbatim>\<open>AuthenticatedSenderProjection\<close>.
\<close>

section \<open>Verification of a claimed bundle\<close>

text \<open>The reader of \<^verbatim>\<open>enrollment.rs\<close> has no limit on a sized field, unlike \<^const>\<open>reader_framed\<close>.\<close>

definition sized_bytes :: "bytes parser" where
  "sized_bytes = sbind reader_u32 (\<lambda>n. reader_take (unat n))"

record claimed_bundle =
  cb_user_id :: bytes
  cb_device_id :: bytes
  cb_self_signing_public :: bytes
  cb_ik_public :: bytes
  cb_spk_id :: u32
  cb_spk_public :: bytes
  cb_spk_signature :: bytes
  cb_pq :: "(public_prekey \<times> bytes) option"
  cb_registration_id :: u32
  cb_bundle_version :: u32
  cb_cross_signature :: bytes

definition claimed_pq :: "(public_prekey \<times> bytes) option parser" where
  "claimed_pq =
     sbind reader_u8 (\<lambda>pq_present.
     if pq_present = 0 then ret None
     else if pq_present = 1 then
       sbind reader_u32 (\<lambda>i.
       sbind sized_bytes (\<lambda>public.
       sbind (reader_array 64) (\<lambda>signature.
       ret (Some (\<lparr>pk_id = i, pk_public = public\<rparr>, signature)))))
     else slift (Err MalformedInput))"

definition claimed_bundle_fields :: "claimed_bundle parser" where
  "claimed_bundle_fields =
     sbind (reader_take 8) (\<lambda>magic.
     sbind (slift (reject_if (magic \<noteq> VERIFY_BUNDLE_MAGIC) MalformedInput)) (\<lambda>_.
     sbind (reader_array 16) (\<lambda>user_id.
     sbind (reader_array 16) (\<lambda>device_id.
     sbind (reader_array 32) (\<lambda>self_signing_public.
     sbind (reader_take 64) (\<lambda>ik_bytes.
     sbind (slift (ik_try_from_bytes ik_bytes)) (\<lambda>ik_public.
     sbind reader_u32 (\<lambda>spk_id.
     sbind sized_bytes (\<lambda>spk_public.
     sbind (reader_array 64) (\<lambda>spk_signature.
     sbind claimed_pq (\<lambda>pq.
     sbind reader_u32 (\<lambda>registration_id.
     sbind reader_u32 (\<lambda>bundle_version.
     sbind (reader_array 64) (\<lambda>cross_signature.
     sbind finished (\<lambda>fin.
     sbind (slift (reject_if
         (\<not> fin \<or> length spk_public \<noteq> 32
          \<or> (case pq of Some (key, _) \<Rightarrow> length (pk_public key) \<noteq> 1184 | None \<Rightarrow> False)
          \<or> bundle_version = 0) MalformedInput)) (\<lambda>_.
     ret \<lparr>cb_user_id = user_id, cb_device_id = device_id, cb_self_signing_public = self_signing_public,
          cb_ik_public = ik_public, cb_spk_id = spk_id, cb_spk_public = spk_public,
          cb_spk_signature = spk_signature, cb_pq = pq, cb_registration_id = registration_id,
          cb_bundle_version = bundle_version, cb_cross_signature = cross_signature\<rparr>))))))))))))))))"

definition claimed_device_bundle :: "claimed_bundle \<Rightarrow> device_bundle" where
  "claimed_device_bundle cb =
     \<lparr>db_user_id = cb_user_id cb, db_device_id = cb_device_id cb, db_ik_public = cb_ik_public cb,
      db_spk_id = cb_spk_id cb, db_spk_public = cb_spk_public cb, db_pq_signed_prekey = map_option fst (cb_pq cb),
      db_registration_id = cb_registration_id cb, db_bundle_version = cb_bundle_version cb\<rparr>"

definition verify_claimed_device_bundle :: "prims \<Rightarrow> bytes \<Rightarrow> unit cresult" where
  "verify_claimed_device_bundle P input =
     rbind (run_parser claimed_bundle_fields input) (\<lambda>cb.
     rbind (verify_signed_prekey P
         \<lparr>sp_user_id = cb_user_id cb, sp_prekey = \<lparr>pk_id = cb_spk_id cb, pk_public = cb_spk_public cb\<rparr>\<rparr>
         (cb_ik_public cb) (cb_spk_signature cb)) (\<lambda>_.
     rbind (case cb_pq cb of
         Some (key, signature) \<Rightarrow> verify_pq_signed_prekey P \<lparr>sp_user_id = cb_user_id cb, sp_prekey = key\<rparr>
             (cb_ik_public cb) signature
       | None \<Rightarrow> Ok ()) (\<lambda>_.
     verify_cross_signature P (claimed_device_bundle cb) (cb_self_signing_public cb) (cb_cross_signature cb))))"

section \<open>The bundle that pairwise setup uses\<close>

record peer_bundle =
  pb_device_id :: bytes
  pb_ik_public :: bytes
  pb_signed_prekey_id :: u32
  pb_signed_prekey_public :: bytes
  pb_pq_signed_prekey_id :: u32
  pb_pq_signed_prekey_public :: bytes

definition peer_bundle_fields :: "peer_bundle parser" where
  "peer_bundle_fields =
     sbind (reader_take 8) (\<lambda>magic.
     sbind (slift (reject_if (magic \<noteq> VERIFY_BUNDLE_MAGIC) MalformedInput)) (\<lambda>_.
     sbind (reader_array 16) (\<lambda>user_id.
     sbind (reader_array 16) (\<lambda>device_id.
     sbind (reader_take 32) (\<lambda>self_signing_public.
     sbind (reader_array 64) (\<lambda>ik_public.
     sbind reader_u32 (\<lambda>spk_raw.
     sbind (slift (valid_key_id spk_raw)) (\<lambda>signed_prekey_id.
     sbind reader_framed (\<lambda>spk_bytes.
     sbind (slift (fixed 32 spk_bytes)) (\<lambda>signed_prekey_public.
     sbind (reader_take 64) (\<lambda>signed_prekey_signature.
     sbind reader_boolean (\<lambda>pq_present.
     sbind (slift (reject_if (\<not> pq_present) AuthenticationFailed)) (\<lambda>_.
     sbind reader_u32 (\<lambda>pq_raw.
     sbind (slift (valid_key_id pq_raw)) (\<lambda>pq_signed_prekey_id.
     sbind reader_framed (\<lambda>pq_bytes.
     sbind (slift (fixed 1184 pq_bytes)) (\<lambda>pq_signed_prekey_public.
     sbind (reader_take 64) (\<lambda>pq_signature.
     sbind reader_u32 (\<lambda>registration_id.
     sbind reader_u32 (\<lambda>bundle_version.
     sbind (reader_take 64) (\<lambda>cross_signature.
     sbind finished (\<lambda>fin.
     sbind (slift (reject_if (\<not> fin \<or> is_zero user_id \<or> is_zero device_id \<or> bundle_version = 0)
         MalformedInput)) (\<lambda>_.
     ret \<lparr>pb_device_id = device_id, pb_ik_public = ik_public, pb_signed_prekey_id = signed_prekey_id,
          pb_signed_prekey_public = signed_prekey_public, pb_pq_signed_prekey_id = pq_signed_prekey_id,
          pb_pq_signed_prekey_public = pq_signed_prekey_public\<rparr>)))))))))))))))))))))))"

definition parse_peer_bundle :: "prims \<Rightarrow> bytes \<Rightarrow> peer_bundle cresult" where
  "parse_peer_bundle P input =
     rbind (verify_claimed_device_bundle P input) (\<lambda>_. run_parser peer_bundle_fields input)"

definition pb_identity_public :: "peer_bundle \<Rightarrow> bytes" where
  "pb_identity_public peer = drop 32 (pb_ik_public peer)"

section \<open>The authenticated sender\<close>

record sender_projection =
  as_user_id :: bytes
  as_device_id :: bytes
  as_ik_public :: bytes
  as_registration_id :: u32
  as_bundle_version :: u32

definition sender_projection_fields :: "sender_projection parser" where
  "sender_projection_fields =
     sbind (reader_take 8) (\<lambda>magic.
     sbind (slift (reject_if (magic \<noteq> SENDER_PROJECTION_MAGIC) MalformedInput)) (\<lambda>_.
     sbind (reader_array 16) (\<lambda>user_id.
     sbind (reader_array 16) (\<lambda>device_id.
     sbind (reader_array 64) (\<lambda>ik_public.
     sbind reader_u32 (\<lambda>registration_id.
     sbind reader_u32 (\<lambda>bundle_version.
     sbind finished (\<lambda>fin.
     sbind (slift (reject_if (\<not> fin \<or> is_zero user_id \<or> is_zero device_id \<or> bundle_version = 0)
         MalformedInput)) (\<lambda>_.
     ret \<lparr>as_user_id = user_id, as_device_id = device_id, as_ik_public = ik_public,
          as_registration_id = registration_id, as_bundle_version = bundle_version\<rparr>)))))))))"

definition parse_sender_projection :: "bytes \<Rightarrow> sender_projection cresult" where
  "parse_sender_projection input = run_parser sender_projection_fields input"

definition as_device_signing_public :: "sender_projection \<Rightarrow> bytes" where
  "as_device_signing_public s = take 32 (as_ik_public s)"

definition as_identity_public :: "sender_projection \<Rightarrow> bytes" where
  "as_identity_public s = drop 32 (as_ik_public s)"

section \<open>The formats are exact\<close>

interpretation sized_codec: codec sized_bytes frame "\<lambda>v. length v < 2 ^ 32"
proof unfold_locales
  show "reads sized_bytes (frame v) v" if "length v < 2 ^ 32" for v
    unfolding sized_bytes_def frame_def using that
    by (intro u32_codec.bind_reads) (simp_all add: reads_take unat_of_nat)
  show "sound sized_bytes (\<lambda>bs v. length v < 2 ^ 32 \<and> bs = frame v)"
    unfolding sized_bytes_def frame_def
    by (intro sound_intros) (use unat_u32_bound in auto)
qed

definition pq_claim_bytes :: "(public_prekey \<times> bytes) option \<Rightarrow> bytes" where
  "pq_claim_bytes pq =
     (case pq of
        None \<Rightarrow> [0]
      | Some (key, signature) \<Rightarrow> [1] @ u32_bytes (pk_id key) @ frame (pk_public key) @ signature)"

definition pq_claim_wf :: "(public_prekey \<times> bytes) option \<Rightarrow> bool" where
  "pq_claim_wf pq \<longleftrightarrow>
     (case pq of None \<Rightarrow> True
      | Some (key, signature) \<Rightarrow> length (pk_public key) < 2 ^ 32 \<and> length signature = 64)"

interpretation pq_claim_codec: codec claimed_pq pq_claim_bytes pq_claim_wf
proof unfold_locales
  show "reads claimed_pq (pq_claim_bytes pq) pq" if "pq_claim_wf pq" for pq
  proof (cases pq)
    case None
    have eq: "pq_claim_bytes pq = [0] @ []" by (simp add: None pq_claim_bytes_def)
    show ?thesis
      unfolding claimed_pq_def eq unfolding None
      by (intro u8_codec.bind_reads) (auto intro!: reads_ret)
  next
    case (Some v)
    then obtain key signature where v: "pq = Some (key, signature)" by (cases v) auto
    have eq: "pq_claim_bytes pq = [1] @ u32_bytes (pk_id key) @ frame (pk_public key) @ signature @ []"
      by (simp add: v pq_claim_bytes_def)
    from that show ?thesis
      unfolding claimed_pq_def eq unfolding v
      by (intro u8_codec.bind_reads) (auto simp: pq_claim_wf_def intro!: reads_last [OF array_codec.bind_reads] reads_intros)
  qed
  show "sound claimed_pq (\<lambda>bs pq. pq_claim_wf pq \<and> bs = pq_claim_bytes pq)"
    unfolding claimed_pq_def
    by (intro sound_intros) (auto simp: pq_claim_wf_def pq_claim_bytes_def)
qed

definition claimed_bundle_bytes :: "claimed_bundle \<Rightarrow> bytes" where
  "claimed_bundle_bytes cb =
     VERIFY_BUNDLE_MAGIC @ cb_user_id cb @ cb_device_id cb @ cb_self_signing_public cb @ cb_ik_public cb
     @ u32_bytes (cb_spk_id cb) @ frame (cb_spk_public cb) @ cb_spk_signature cb @ pq_claim_bytes (cb_pq cb)
     @ u32_bytes (cb_registration_id cb) @ u32_bytes (cb_bundle_version cb) @ cb_cross_signature cb"

definition claimed_bundle_wf :: "claimed_bundle \<Rightarrow> bool" where
  "claimed_bundle_wf cb \<longleftrightarrow>
     length (cb_user_id cb) = 16 \<and> length (cb_device_id cb) = 16 \<and> length (cb_self_signing_public cb) = 32
     \<and> length (cb_ik_public cb) = 64 \<and> length (cb_spk_public cb) = 32 \<and> length (cb_spk_signature cb) = 64
     \<and> pq_claim_wf (cb_pq cb) \<and> (\<forall>key signature. cb_pq cb = Some (key, signature) \<longrightarrow> length (pk_public key) = 1184)
     \<and> cb_bundle_version cb \<noteq> 0 \<and> length (cb_cross_signature cb) = 64"

interpretation claimed_bundle_codec: whole_codec claimed_bundle_fields claimed_bundle_bytes claimed_bundle_wf
proof unfold_locales
  show "reads_to_end claimed_bundle_fields (claimed_bundle_bytes cb) cb" if "claimed_bundle_wf cb" for cb
    unfolding claimed_bundle_fields_def claimed_bundle_bytes_def
    by (rule reads_to_end_last, simp only: append_assoc, intro ends_intros)
      (use that in \<open>auto simp: claimed_bundle_wf_def ik_try_from_bytes_def fixed_def VERIFY_BUNDLE_MAGIC_def
        split: option.splits\<close>)
  show "sound_to_end claimed_bundle_fields (\<lambda>bs cb. claimed_bundle_wf cb \<and> bs = claimed_bundle_bytes cb)"
    unfolding claimed_bundle_fields_def
    by (intro sound_end_intros)
      (auto simp: claimed_bundle_wf_def claimed_bundle_bytes_def ik_try_from_bytes_def fixed_def
        split: option.splits if_splits)
qed

definition sender_projection_bytes :: "sender_projection \<Rightarrow> bytes" where
  "sender_projection_bytes s =
     SENDER_PROJECTION_MAGIC @ as_user_id s @ as_device_id s @ as_ik_public s @ u32_bytes (as_registration_id s)
     @ u32_bytes (as_bundle_version s)"

definition sender_projection_wf :: "sender_projection \<Rightarrow> bool" where
  "sender_projection_wf s \<longleftrightarrow>
     length (as_user_id s) = 16 \<and> length (as_device_id s) = 16 \<and> length (as_ik_public s) = 64
     \<and> \<not> is_zero (as_user_id s) \<and> \<not> is_zero (as_device_id s) \<and> as_bundle_version s \<noteq> 0"

interpretation sender_projection_codec:
  whole_codec sender_projection_fields sender_projection_bytes sender_projection_wf
proof unfold_locales
  show "reads_to_end sender_projection_fields (sender_projection_bytes s) s" if "sender_projection_wf s" for s
    unfolding sender_projection_fields_def sender_projection_bytes_def
    by (rule reads_to_end_last, simp only: append_assoc, intro ends_intros)
      (use that in \<open>auto simp: sender_projection_wf_def SENDER_PROJECTION_MAGIC_def\<close>)
  show "sound_to_end sender_projection_fields
      (\<lambda>bs s. sender_projection_wf s \<and> bs = sender_projection_bytes s)"
    unfolding sender_projection_fields_def
    by (intro sound_end_intros) (auto simp: sender_projection_wf_def sender_projection_bytes_def)
qed

section \<open>Accepted bundles\<close>

definition peer_bundle_of :: "claimed_bundle \<Rightarrow> public_prekey \<Rightarrow> peer_bundle" where
  "peer_bundle_of cb key =
     \<lparr>pb_device_id = cb_device_id cb, pb_ik_public = cb_ik_public cb, pb_signed_prekey_id = cb_spk_id cb,
      pb_signed_prekey_public = cb_spk_public cb, pb_pq_signed_prekey_id = pk_id key,
      pb_pq_signed_prekey_public = pk_public key\<rparr>"

definition hybrid_bundle :: "claimed_bundle \<Rightarrow> public_prekey \<Rightarrow> bytes \<Rightarrow> bool" where
  "hybrid_bundle cb key signature \<longleftrightarrow>
     claimed_bundle_wf cb \<and> cb_pq cb = Some (key, signature)
     \<and> cb_spk_id cb \<le> KEY_ID_MAX \<and> pk_id key \<le> KEY_ID_MAX
     \<and> \<not> is_zero (cb_user_id cb) \<and> \<not> is_zero (cb_device_id cb)"

lemma run_parser_sound_to_end:
  assumes "sound_to_end p Q" and "run_parser p bs = Ok x" and "length bs < 2 ^ 64"
  shows "Q bs x"
proof -
  from assms(2) obtain r where "p (reader_new bs) = Ok (x, r)"
    by (auto simp: run_parser_def elim!: monad_elims)
  with assms(1) reader_ok_new [OF assms(3)] have "Q (unread (reader_new bs)) x"
    unfolding sound_to_end_def by blast
  then show ?thesis by simp
qed

lemma peer_bundle_fields_sound:
  "sound_to_end peer_bundle_fields (\<lambda>bs peer. \<exists>cb key signature.
     hybrid_bundle cb key signature \<and> bs = claimed_bundle_bytes cb \<and> peer = peer_bundle_of cb key)"
  unfolding peer_bundle_fields_def
  apply (intro sound_end_intros)
  subgoal for magic _ user device ssk ik spk_id _ spk _ spk_sig pq _ pq_id _ pq_key _ pq_sig registration version cross
    by (rule impI, rule exI [of _ "\<lparr>cb_user_id = user, cb_device_id = device, cb_self_signing_public = ssk,
          cb_ik_public = ik, cb_spk_id = spk_id, cb_spk_public = spk, cb_spk_signature = spk_sig,
          cb_pq = Some (\<lparr>pk_id = pq_id, pk_public = pq_key\<rparr>, pq_sig), cb_registration_id = registration,
          cb_bundle_version = version, cb_cross_signature = cross\<rparr>"])
      (auto simp: hybrid_bundle_def claimed_bundle_wf_def pq_claim_wf_def claimed_bundle_bytes_def pq_claim_bytes_def
        peer_bundle_of_def valid_key_id_def fixed_def bool_bytes_def split: if_splits)
  done

lemma peer_bundle_fields_reads:
  assumes "hybrid_bundle cb key signature"
  shows "reads_to_end peer_bundle_fields (claimed_bundle_bytes cb) (peer_bundle_of cb key)"
proof -
  have eq: "claimed_bundle_bytes cb = VERIFY_BUNDLE_MAGIC @ cb_user_id cb @ cb_device_id cb @ cb_self_signing_public cb
     @ cb_ik_public cb @ u32_bytes (cb_spk_id cb) @ frame (cb_spk_public cb) @ cb_spk_signature cb @ bool_bytes True
     @ u32_bytes (pk_id key) @ frame (pk_public key) @ signature
     @ u32_bytes (cb_registration_id cb) @ u32_bytes (cb_bundle_version cb) @ cb_cross_signature cb @ []"
    using assms by (simp add: hybrid_bundle_def claimed_bundle_bytes_def pq_claim_bytes_def bool_bytes_def)
  show ?thesis
    unfolding peer_bundle_fields_def eq
    by (intro ends_intros)
      (use assms in \<open>auto simp: hybrid_bundle_def claimed_bundle_wf_def pq_claim_wf_def peer_bundle_of_def
        valid_key_id_def fixed_def VERIFY_BUNDLE_MAGIC_def MAX_INPUT_BYTES_def\<close>)
qed

text \<open>The three signatures of a claimed bundle.\<close>

definition bundle_signed :: "prims \<Rightarrow> claimed_bundle \<Rightarrow> public_prekey \<Rightarrow> bytes \<Rightarrow> bool" where
  "bundle_signed P cb key signature \<longleftrightarrow>
     verify_signed_prekey P
       \<lparr>sp_user_id = cb_user_id cb, sp_prekey = \<lparr>pk_id = cb_spk_id cb, pk_public = cb_spk_public cb\<rparr>\<rparr>
       (cb_ik_public cb) (cb_spk_signature cb) = Ok ()
     \<and> verify_pq_signed_prekey P \<lparr>sp_user_id = cb_user_id cb, sp_prekey = key\<rparr> (cb_ik_public cb) signature = Ok ()
     \<and> verify_cross_signature P (claimed_device_bundle cb) (cb_self_signing_public cb) (cb_cross_signature cb) = Ok ()"

lemma parse_peer_bundle_accepts:
  assumes "length (claimed_bundle_bytes cb) < 2 ^ 64" and h: "hybrid_bundle cb key signature"
    and signed: "bundle_signed P cb key signature"
  shows "parse_peer_bundle P (claimed_bundle_bytes cb) = Ok (peer_bundle_of cb key)"
proof -
  have "run_parser claimed_bundle_fields (claimed_bundle_bytes cb) = Ok cb"
    using claimed_bundle_codec.run_iff [OF assms(1)] h by (simp add: hybrid_bundle_def)
  moreover have "run_parser peer_bundle_fields (claimed_bundle_bytes cb) = Ok (peer_bundle_of cb key)"
    using reads_to_end_new [OF peer_bundle_fields_reads [OF h] assms(1)] by (simp add: run_parser_def)
  ultimately show ?thesis
    using signed h by (simp add: parse_peer_bundle_def verify_claimed_device_bundle_def bundle_signed_def hybrid_bundle_def)
qed

text \<open>
  C13: pairwise setup accepts a claimed bundle exactly when it is the encoding of a hybrid bundle, with
  identifiers in range and the user and the device named, whose three signatures verify: both
  prekey signatures under the device key and the cross signature under the
  self-signing key. The keys it then uses are the signed ones.
\<close>

theorem peer_bundle_accepted_iff:
  assumes len: "length input < 2 ^ 64"
  shows "parse_peer_bundle P input = Ok peer \<longleftrightarrow>
    (\<exists>cb key signature. hybrid_bundle cb key signature \<and> bundle_signed P cb key signature
       \<and> input = claimed_bundle_bytes cb \<and> peer = peer_bundle_of cb key)" (is "?run \<longleftrightarrow> ?rhs")
proof
  assume ?run
  then obtain cb where parsed: "run_parser claimed_bundle_fields input = Ok cb"
    and peer: "run_parser peer_bundle_fields input = Ok peer"
    and verified: "verify_claimed_device_bundle P input = Ok ()"
    by (auto simp: parse_peer_bundle_def verify_claimed_device_bundle_def elim!: monad_elims)
  from parsed have cb: "claimed_bundle_wf cb" "input = claimed_bundle_bytes cb"
    using claimed_bundle_codec.run_iff [OF len] by auto
  from run_parser_sound_to_end [OF peer_bundle_fields_sound peer len] obtain cb' key signature where
    cb': "hybrid_bundle cb' key signature" "input = claimed_bundle_bytes cb'" "peer = peer_bundle_of cb' key"
    by blast
  have "cb' = cb"
    using claimed_bundle_codec.enc_inj [of cb' cb] cb cb' len by (simp add: hybrid_bundle_def)
  then show ?rhs
    using cb' parsed verified
    by (intro exI [of _ cb] exI [of _ key] exI [of _ signature])
      (auto simp: bundle_signed_def verify_claimed_device_bundle_def hybrid_bundle_def elim!: monad_elims)
next
  assume ?rhs
  with len parse_peer_bundle_accepts show ?run by blast
qed

text \<open>The bundle that a device publishes: its current signed pair and its cross signature.\<close>

definition published_claim :: "device_state \<Rightarrow> bytes \<Rightarrow> bytes \<Rightarrow> claimed_bundle" where
  "published_claim st device_id self_signing_public =
     \<lparr>cb_user_id = ds_user_id st, cb_device_id = device_id, cb_self_signing_public = self_signing_public,
      cb_ik_public = state_ik_public st, cb_spk_id = cs_id (ds_current_classical st),
      cb_spk_public = cs_public (ds_current_classical st), cb_spk_signature = cs_signature (ds_current_classical st),
      cb_pq = Some (\<lparr>pk_id = ps_id (ds_current_pq st), pk_public = ps_public (ds_current_pq st)\<rparr>,
        ps_signature (ds_current_pq st)),
      cb_registration_id = ds_registration_id st, cb_bundle_version = ds_bundle_version st,
      cb_cross_signature = ds_cross_signature st\<rparr>"

definition bundle_cross_signed :: "prims \<Rightarrow> device_state \<Rightarrow> bytes \<Rightarrow> bytes \<Rightarrow> bool" where
  "bundle_cross_signed P st device_id self_signing_public \<longleftrightarrow>
     verify_cross_signature P (claimed_device_bundle (published_claim st device_id self_signing_public))
       self_signing_public (ds_cross_signature st) = Ok ()"

lemma published_claim_hybrid:
  assumes "device_valid P st" and "length device_id = 16" and "\<not> is_zero device_id"
    and "length self_signing_public = 32" and "bundle_cross_signed P st device_id self_signing_public"
  shows "hybrid_bundle (published_claim st device_id self_signing_public)
      \<lparr>pk_id = ps_id (ds_current_pq st), pk_public = ps_public (ds_current_pq st)\<rparr> (ps_signature (ds_current_pq st))"
    and "bundle_signed P (published_claim st device_id self_signing_public)
      \<lparr>pk_id = ps_id (ds_current_pq st), pk_public = ps_public (ds_current_pq st)\<rparr> (ps_signature (ds_current_pq st))"
    and "length (claimed_bundle_bytes (published_claim st device_id self_signing_public)) < 2 ^ 64"
proof -
  have wf: "device_fields_wf st" "ds_bundle_version st \<noteq> 0" "\<not> is_zero (ds_user_id st)" "device_material P st"
    using assms(1) by (simp_all add: device_valid_def)
  have len: "length (state_ik_public st) = 64"
    using wf(1) by (simp add: device_fields_wf_def state_ik_public_def ik_from_halves_def)
  show "hybrid_bundle (published_claim st device_id self_signing_public)
      \<lparr>pk_id = ps_id (ds_current_pq st), pk_public = ps_public (ds_current_pq st)\<rparr> (ps_signature (ds_current_pq st))"
    using wf assms(2-4) len
    by (simp add: hybrid_bundle_def claimed_bundle_wf_def published_claim_def pq_claim_wf_def device_fields_wf_def
        record_wf_defs)
  show "bundle_signed P (published_claim st device_id self_signing_public)
      \<lparr>pk_id = ps_id (ds_current_pq st), pk_public = ps_public (ds_current_pq st)\<rparr> (ps_signature (ds_current_pq st))"
    using wf assms(5)
    by (auto simp: bundle_signed_def published_claim_def bundle_cross_signed_def device_material_def classical_authentic_def
        pq_authentic_def verify_signed_prekey_def verify_pq_signed_prekey_def verify_def ik_signing_half
        device_fields_wf_def)
  show "length (claimed_bundle_bytes (published_claim st device_id self_signing_public)) < 2 ^ 64"
    using wf assms(2,4) len
    by (simp add: claimed_bundle_bytes_def published_claim_def pq_claim_bytes_def device_fields_wf_def record_wf_defs)
qed

lemma sample_cross_signed: "bundle_cross_signed example_prims sample_device (replicate 16 2) (replicate 32 8)"
proof -
  let ?b = "claimed_device_bundle (published_claim sample_device (replicate 16 2) (replicate 32 8))"
  have "encode_cross_signature ?b = Ok (CROSS_SIGNATURE_DOMAIN @ frames (cross_fields ?b))"
    by (rule encode_cross_signature_total [where q = "\<lparr>pk_id = 2, pk_public = replicate 1184 6\<rparr>"])
      (simp_all add: claimed_device_bundle_def published_claim_def sample_device_def sample_classical_def sample_pq_def
        state_ik_public_def ik_from_halves_def)
  moreover have "length (CROSS_SIGNATURE_DOMAIN @ frames (cross_fields ?b)) \<le> MAX_INPUT_BYTES"
    by (simp add: cross_fields_def claimed_device_bundle_def published_claim_def sample_device_def sample_classical_def
        sample_pq_def state_ik_public_def ik_from_halves_def CROSS_SIGNATURE_DOMAIN_def MAX_INPUT_BYTES_def)
  ultimately show ?thesis
    by (simp add: bundle_cross_signed_def verify_cross_signature_def verify_def ed25519_verify_Ok_iff example_prims_def)
      (simp add: sample_device_def)
qed

theorem peer_bundle_accepted_iff_witness:
  "\<exists>cb. cb = published_claim sample_device (replicate 16 2) (replicate 32 8)
     \<and> length (claimed_bundle_bytes cb) < 2 ^ 64
     \<and> parse_peer_bundle example_prims (claimed_bundle_bytes cb)
       = Ok (peer_bundle_of cb \<lparr>pk_id = 2, pk_public = replicate 1184 6\<rparr>)"
proof -
  have "length (replicate 16 2 :: bytes) = 16" "\<not> is_zero (replicate 16 2)" "length (replicate 32 8 :: bytes) = 32"
    by (simp_all add: is_zero_def list_all_iff)
  note published = published_claim_hybrid [OF sample_device_valid this sample_cross_signed]
  have key: "\<lparr>pk_id = ps_id (ds_current_pq sample_device), pk_public = ps_public (ds_current_pq sample_device)\<rparr>
      = \<lparr>pk_id = 2, pk_public = replicate 1184 6\<rparr>"
    by (simp add: sample_device_def sample_pq_def)
  show ?thesis
    using peer_bundle_accepted_iff [OF published(3), of example_prims
        "peer_bundle_of (published_claim sample_device (replicate 16 2) (replicate 32 8))
           \<lparr>pk_id = 2, pk_public = replicate 1184 6\<rparr>"] published
    unfolding key by blast
qed

end
