(* ===== verification/Pairwise_Session.thy ===== *)
theory Pairwise_Session
  imports Bundle_Verification Prekey_Codec
begin

text \<open>
  Session setup of \<^verbatim>\<open>pairwise.rs\<close>: the sealed sender block, the first message of the initiator
  (\<^verbatim>\<open>initiate\<close>), the probe of an initial envelope and its acceptance by the responder.
\<close>

section \<open>The sender block\<close>

record sender_block =
  sb_user_id :: bytes
  sb_device_id :: bytes
  sb_ik_public :: bytes
  sb_registration_id :: u32
  sb_bundle_version :: u32
  sb_repair :: "(bytes \<times> bytes) option"
  sb_init_signature :: bytes

definition repair_bytes :: "(bytes \<times> bytes) option \<Rightarrow> bytes" where
  "repair_bytes repair =
     (case repair of Some (old_session_id, token) \<Rightarrow> [1] @ old_session_id @ token | None \<Rightarrow> [0])"

definition sender_block_prefix :: "device_state \<Rightarrow> bytes \<Rightarrow> (bytes \<times> bytes) option \<Rightarrow> bytes" where
  "sender_block_prefix st sender_device_id repair =
     [1] @ ds_user_id st @ sender_device_id @ state_ik_public st @ u32_bytes (ds_registration_id st)
     @ u32_bytes (ds_bundle_version st) @ repair_bytes repair"

definition reader_repair :: "bool \<Rightarrow> (bytes \<times> bytes) option parser" where
  "reader_repair present =
     (if present then
        sbind (reader_array 16) (\<lambda>old_session_id.
        sbind (reader_array 32) (\<lambda>token. ret (Some (old_session_id, token))))
      else ret None)"

definition sender_block_fields :: "nat \<Rightarrow> sender_block parser" where
  "sender_block_fields input_len =
     sbind reader_u8 (\<lambda>version.
     sbind (slift (reject_if (version \<noteq> 1) UnsupportedVersion)) (\<lambda>_.
     sbind (reader_array 16) (\<lambda>user_id.
     sbind (reader_array 16) (\<lambda>device_id.
     sbind (reader_array 64) (\<lambda>ik_public.
     sbind reader_u32 (\<lambda>registration_id.
     sbind reader_u32 (\<lambda>bundle_version.
     sbind reader_boolean (\<lambda>present.
     sbind (reader_repair present) (\<lambda>repair.
     sbind (reader_array 64) (\<lambda>init_signature.
     sbind finished (\<lambda>fin.
     sbind (slift (reject_if
         (\<not> fin \<or> bundle_version = 0
          \<or> input_len \<noteq> (if repair \<noteq> None then SENDER_BLOCK_REPAIR_BYTES
                          else SENDER_BLOCK_WITHOUT_REPAIR_BYTES)) MalformedInput)) (\<lambda>_.
     ret \<lparr>sb_user_id = user_id, sb_device_id = device_id, sb_ik_public = ik_public,
          sb_registration_id = registration_id, sb_bundle_version = bundle_version, sb_repair = repair,
          sb_init_signature = init_signature\<rparr>))))))))))))"

definition parse_sender_block :: "bytes \<Rightarrow> sender_block cresult" where
  "parse_sender_block input = run_parser (sender_block_fields (length input)) input"

definition sender_prefix_bytes :: "sender_block \<Rightarrow> bytes" where
  "sender_prefix_bytes b =
     [1] @ sb_user_id b @ sb_device_id b @ sb_ik_public b @ u32_bytes (sb_registration_id b)
     @ u32_bytes (sb_bundle_version b) @ repair_bytes (sb_repair b)"

section \<open>Initial secrets of the responder\<close>

record initial_secrets =
  is_dh3 :: bytes
  is_dh4 :: "bytes option"
  is_signed_pq :: bytes
  is_one_time_pq :: "bytes option"

definition anonymous_ikm :: "initial_secrets \<Rightarrow> bytes" where
  "anonymous_ikm s =
     is_dh3 s @ optional_bytes (is_dh4 s) @ is_signed_pq s @ optional_bytes (is_one_time_pq s)"

definition responder_initial_secrets ::
    "prims \<Rightarrow> device_state \<Rightarrow> initial_header \<Rightarrow> initial_secrets cresult" where
  "responder_initial_secrets P device header =
     rbind (ok_or (signed_classical device (ih_signed_prekey_id header)) AuthenticationFailed) (\<lambda>classical.
     rbind (ok_or (signed_pq device (ih_pq_signed_prekey_id header)) AuthenticationFailed) (\<lambda>pq.
     rbind (x25519_shared P (cs_secret classical) (ih_ephemeral_public header)) (\<lambda>dh3.
     rbind (if ih_flags header AND FLAG_CLASSICAL_ONE_TIME \<noteq> 0 then
              rbind (ok_or (find_classical_one_time device (ih_one_time_prekey_id header)) AuthenticationFailed)
                (\<lambda>key.
              rbind (x25519_shared P (co_secret key) (ih_ephemeral_public header)) (\<lambda>dh4. Ok (Some dh4)))
            else Ok None) (\<lambda>dh4.
     rbind (mlkem768_decapsulate P (ps_secret pq) (ih_pq_signed_ciphertext header)) (\<lambda>signed_pq_secret.
     rbind (if ih_flags header AND FLAG_PQ_ONE_TIME \<noteq> 0 then
              rbind (ok_or (find_pq_one_time device (ih_pq_one_time_prekey_id header)) AuthenticationFailed)
                (\<lambda>key.
              rbind (ok_or (ih_pq_one_time_ciphertext header) MalformedInput) (\<lambda>ciphertext.
              rbind (mlkem768_decapsulate P (po_secret key) ciphertext) (\<lambda>secret. Ok (Some secret))))
            else Ok None) (\<lambda>one_time_pq.
     Ok \<lparr>is_dh3 = dh3, is_dh4 = dh4, is_signed_pq = signed_pq_secret, is_one_time_pq = one_time_pq\<rparr>))))))"

section \<open>Probing an initial envelope\<close>

record probe_result =
  pr_sender :: sender_block
  pr_probe_token :: bytes

definition header_prefix_of :: "envelope \<Rightarrow> initial_header \<Rightarrow> bytes cresult" where
  "header_prefix_of env header =
     (if 2 + length (ih_sender_seal header) \<le> length (en_header_bytes env)
      then Ok (take (length (en_header_bytes env) - (2 + length (ih_sender_seal header))) (en_header_bytes env))
      else Err MalformedInput)"

definition probe_initial ::
    "prims \<Rightarrow> device_state \<Rightarrow> bytes \<Rightarrow> bytes \<Rightarrow> probe_result cresult" where
  "probe_initial P device recipient_device_id envelope_bytes =
     rbind (parse_envelope envelope_bytes) (\<lambda>env.
     case en_header env of
       Regular _ \<Rightarrow> Err StateViolation
     | Initial header \<Rightarrow>
         rbind (responder_initial_secrets P device header) (\<lambda>secrets.
         rbind (anonymous_material P (anonymous_ikm secrets)) (\<lambda>(key, nonce).
         rbind (header_prefix_of env header) (\<lambda>prefix.
         rbind (sender_aad recipient_device_id prefix (length (en_header_bytes env))) (\<lambda>aad.
         rbind (xchacha20poly1305_decrypt P key nonce (ih_sender_seal header) aad) (\<lambda>plaintext.
         rbind (parse_sender_block plaintext) (\<lambda>sender.
         if (ih_flags header AND FLAG_REPAIR_REPLACEMENT \<noteq> 0) \<noteq> (sb_repair sender \<noteq> None)
         then Err AuthenticationFailed
         else
           rbind (sha256 P envelope_bytes) (\<lambda>envelope_hash.
           let token_input = PROBE_MAGIC @ recipient_device_id @ envelope_hash @ plaintext in
           rbind (device_probe_key P (ds_identity_secret device)) (\<lambda>probe_key.
           rbind (hmac_sha256 P probe_key token_input) (\<lambda>probe_token.
           Ok \<lparr>pr_sender = sender, pr_probe_token = probe_token\<rparr>))))))))))"

definition encode_probe_output :: "probe_result \<Rightarrow> bytes" where
  "encode_probe_output probe =
     sb_user_id (pr_sender probe) @ sb_device_id (pr_sender probe) @ sb_ik_public (pr_sender probe)
     @ u32_bytes (sb_registration_id (pr_sender probe)) @ u32_bytes (sb_bundle_version (pr_sender probe))
     @ (case sb_repair (pr_sender probe) of Some (old_session, _) \<Rightarrow> [1] @ old_session | None \<Rightarrow> [0])
     @ pr_probe_token probe"

section \<open>Initiating a session\<close>

record optional_classical_prekey =
  oc_id :: u32
  oc_public :: bytes

record optional_pq_prekey =
  op_id :: u32
  op_public :: bytes

text \<open>
  The agreed values of the initiator after \<^verbatim>\<open>dh1\<close> and \<^verbatim>\<open>dh2\<close>, with the ciphertexts that carry the
  encapsulated ones, and the key material both sides hash (\<^verbatim>\<open>pqxdh_ikm\<close>).
\<close>

definition initiator_secrets ::
    "prims \<Rightarrow> bytes \<Rightarrow> peer_bundle \<Rightarrow> optional_classical_prekey option \<Rightarrow> optional_pq_prekey option
     \<Rightarrow> (initial_secrets \<times> bytes \<times> bytes option) ent" where
  "initiator_secrets P ephemeral_secret peer classical_one_time pq_one_time =
     sbind (slift (x25519_shared P ephemeral_secret (pb_signed_prekey_public peer))) (\<lambda>dh3.
     sbind (case classical_one_time of
              Some key \<Rightarrow> sbind (slift (x25519_shared P ephemeral_secret (oc_public key))) (\<lambda>dh4. ret (Some dh4))
            | None \<Rightarrow> ret None) (\<lambda>dh4.
     sbind (mlkem768_encapsulate P (pb_pq_signed_prekey_public peer)) (\<lambda>(pq_signed_ciphertext, pq_signed_secret).
     sbind (case pq_one_time of
              Some key \<Rightarrow> sbind (mlkem768_encapsulate P (op_public key))
                (\<lambda>(ciphertext, secret). ret (Some ciphertext, Some secret))
            | None \<Rightarrow> ret (None, None)) (\<lambda>(pq_one_time_ciphertext, pq_one_time_secret).
     ret (\<lparr>is_dh3 = dh3, is_dh4 = dh4, is_signed_pq = pq_signed_secret, is_one_time_pq = pq_one_time_secret\<rparr>,
          pq_signed_ciphertext, pq_one_time_ciphertext)))))"

definition pqxdh_ikm :: "bytes \<Rightarrow> bytes \<Rightarrow> initial_secrets \<Rightarrow> bytes" where
  "pqxdh_ikm dh1 dh2 s = replicate 32 0xff @ dh1 @ dh2 @ anonymous_ikm s"

definition initial_flags :: "bool \<Rightarrow> bool \<Rightarrow> bool \<Rightarrow> u8" where
  "initial_flags classical pq repair =
     (let flags = FLAG_INITIAL;
          flags = (if classical then flags OR FLAG_CLASSICAL_ONE_TIME else flags);
          flags = (if pq then flags OR FLAG_PQ_ONE_TIME else flags)
      in if repair then flags OR FLAG_REPAIR_REPLACEMENT else flags)"

text \<open>The signed and sealed sender block, appended to the header prefix.\<close>

definition seal_sender ::
    "prims \<Rightarrow> device_state \<Rightarrow> bytes \<Rightarrow> bytes \<Rightarrow> (bytes \<times> bytes) option \<Rightarrow> bytes \<Rightarrow> bytes \<Rightarrow> bytes \<Rightarrow> bytes cresult" where
  "seal_sender P device sender_device_id recipient_device_id repair anonymous_key anonymous_nonce header_prefix =
     (let sender_prefix = sender_block_prefix device sender_device_id repair in
      rbind (init_signature_input recipient_device_id header_prefix sender_prefix) (\<lambda>signature_input.
      rbind (ed25519_sign P (ds_device_signing_secret device) signature_input) (\<lambda>signature.
      let sender_plaintext = sender_prefix @ signature in
      rbind (ok_or (usize_checked_add (length header_prefix) (2 + length sender_plaintext + XCHACHA_ABYTES))
          InputTooLarge) (\<lambda>final_header_length.
      rbind (sender_aad recipient_device_id header_prefix final_header_length) (\<lambda>aad.
      rbind (secret_vec_input sender_plaintext) (\<lambda>plaintext.
      rbind (xchacha20poly1305_encrypt P anonymous_key anonymous_nonce plaintext aad) (\<lambda>sender_seal.
      rbind (ok_or (try_from_usize (length sender_seal)) InputTooLarge) (\<lambda>seal_len.
      let header = header_prefix @ u16_bytes seal_len @ sender_seal in
      if length header \<noteq> final_header_length then Err InternalFailure else Ok header))))))))"

definition initiate ::
    "prims \<Rightarrow> device_state \<Rightarrow> bytes \<Rightarrow> bytes \<Rightarrow> peer_bundle \<Rightarrow> optional_classical_prekey option
     \<Rightarrow> optional_pq_prekey option \<Rightarrow> bytes \<Rightarrow> bytes \<Rightarrow> u32 \<Rightarrow> (ratchet_state \<times> bytes) ent" where
  "initiate P device sender_device_id recipient_device_id peer classical_one_time pq_one_time
     repair_authorization inner other_sessions_skipped =
     sbind (slift (reject_if
         (pb_device_id peer \<noteq> recipient_device_id \<or> sender_device_id = recipient_device_id
          \<or> unat other_sessions_skipped > MAX_SKIPPED_ACCOUNT) AuthenticationFailed)) (\<lambda>_.
     sbind (slift (verify_repair_authorization P device repair_authorization)) (\<lambda>repair.
     sbind (random_bytes 32) (\<lambda>ephemeral_secret.
     sbind (random_bytes 32) (\<lambda>ratchet_secret.
     sbind (slift (x25519_public P ephemeral_secret)) (\<lambda>ephemeral_public.
     sbind (slift (x25519_public P ratchet_secret)) (\<lambda>ratchet_public.
     sbind (slift (x25519_shared P (ds_identity_secret device) (pb_signed_prekey_public peer))) (\<lambda>dh1.
     sbind (slift (x25519_shared P ephemeral_secret (pb_identity_public peer))) (\<lambda>dh2.
     sbind (initiator_secrets P ephemeral_secret peer classical_one_time pq_one_time)
       (\<lambda>(secrets, pq_signed_ciphertext, pq_one_time_ciphertext).
     sbind (slift (pqxdh_secret P (pqxdh_ikm dh1 dh2 secrets))) (\<lambda>shared_secret.
     sbind (slift (anonymous_material P (anonymous_ikm secrets))) (\<lambda>(anonymous_key, anonymous_nonce).
     sbind (random_bytes 16) (\<lambda>session_id.
     sbind (slift (reject_if (is_zero session_id) EntropyUnavailable)) (\<lambda>_.
     let header_prefix = initial_header_prefix
           (initial_flags (classical_one_time \<noteq> None) (pq_one_time \<noteq> None) (repair \<noteq> None))
           session_id ratchet_public (pb_signed_prekey_id peer)
           (case classical_one_time of Some key \<Rightarrow> oc_id key | None \<Rightarrow> ABSENT_PREKEY_ID)
           (pb_pq_signed_prekey_id peer)
           (case pq_one_time of Some key \<Rightarrow> op_id key | None \<Rightarrow> ABSENT_PREKEY_ID)
           ephemeral_public pq_signed_ciphertext pq_one_time_ciphertext in
     sbind (slift (seal_sender P device sender_device_id recipient_device_id repair anonymous_key
         anonymous_nonce header_prefix)) (\<lambda>header.
     sbind (slift (x25519_shared P ratchet_secret (pb_signed_prekey_public peer))) (\<lambda>ratchet_dh.
     sbind (slift (kdf_root P shared_secret ratchet_dh)) (\<lambda>(root_key, sending_chain).
     sbind (slift (chain_step P sending_chain)) (\<lambda>(message_key, next_chain).
     sbind (encrypt_envelope P recipient_device_id header message_key inner) (\<lambda>envelope.
     sbind (slift (sha256 P header)) (\<lambda>transcript_hash.
     ret (\<lparr>rs_session_id = session_id, rs_local_device_id = sender_device_id,
           rs_remote_device_id = recipient_device_id, rs_initiator_device_id = sender_device_id,
           rs_transcript_hash = transcript_hash, rs_primary = True, rs_receive_only = False,
           rs_root_key = root_key, rs_sending_chain = Some next_chain, rs_receiving_chain = None,
           rs_local_ratchet_secret = ratchet_secret, rs_local_ratchet_public = ratchet_public,
           rs_remote_ratchet_public = pb_signed_prekey_public peer, rs_send_count = 1,
           rs_receive_count = 0, rs_previous_send_count = 0, rs_skipped = [],
           rs_issued_repair_token = None, rs_received_repair_token = None\<rparr>, envelope))))))))))))))))))))"

section \<open>Accepting an initial envelope\<close>

record accepted_initial =
  ai_next_device_state :: bytes
  ai_session :: ratchet_state
  ai_session_state :: bytes
  ai_inner :: bytes
  ai_replay_marker :: bytes
  ai_consumed_classical_id :: u32
  ai_consumed_pq_id :: u32
  ai_disposition :: u8
  ai_updated_existing_state :: bytes
  ai_replaced_session_id :: "bytes option"
  ai_referenced_signed_prekey_id :: u32
  ai_referenced_pq_signed_prekey_id :: u32

text \<open>A replacement names the session it repairs, whose stored state must hold the issued token.\<close>

definition check_replaced ::
    "prims \<Rightarrow> device_state \<Rightarrow> bytes \<Rightarrow> bytes \<Rightarrow> sender_block \<Rightarrow> bytes \<Rightarrow> bytes \<Rightarrow> bytes option cresult" where
  "check_replaced P device recipient_device_id sender_device_id block existing_bytes replaced_bytes =
     (case sb_repair block of
        Some (old_session_id, repair_token) \<Rightarrow>
          if replaced_bytes = [] \<or> existing_bytes \<noteq> [] then Err StateViolation
          else
            rbind (decode_ratchet_state P device replaced_bytes) (\<lambda>old_state.
            if rs_session_id old_state \<noteq> old_session_id \<or> rs_local_device_id old_state \<noteq> recipient_device_id
               \<or> rs_remote_device_id old_state \<noteq> sender_device_id
               \<or> rs_issued_repair_token old_state \<noteq> Some repair_token
            then Err AuthenticationFailed else Ok (Some old_session_id))
      | None \<Rightarrow> if replaced_bytes \<noteq> [] then Err StateViolation else Ok None)"

definition check_existing ::
    "prims \<Rightarrow> device_state \<Rightarrow> bytes \<Rightarrow> bytes \<Rightarrow> sender_block \<Rightarrow> bytes \<Rightarrow> ratchet_state option cresult" where
  "check_existing P device recipient_device_id sender_device_id block existing_bytes =
     (if existing_bytes = [] then Ok None
      else if sb_repair block \<noteq> None then Err StateViolation
      else
        rbind (decode_ratchet_state P device existing_bytes) (\<lambda>existing.
        if rs_local_device_id existing \<noteq> recipient_device_id \<or> rs_remote_device_id existing \<noteq> sender_device_id
           \<or> rs_initiator_device_id existing \<noteq> recipient_device_id \<or> \<not> rs_primary existing
           \<or> rs_receive_only existing
        then Err StateViolation else Ok (Some existing)))"

definition demote :: "ratchet_state \<Rightarrow> ratchet_state" where
  "demote st = st\<lparr>rs_sending_chain := None, rs_primary := False, rs_receive_only := True\<rparr>"

definition sender_matches :: "sender_block \<Rightarrow> sender_projection \<Rightarrow> bytes \<Rightarrow> bool" where
  "sender_matches block sender recipient_device_id \<longleftrightarrow>
     sb_user_id block = as_user_id sender \<and> sb_device_id block = as_device_id sender
     \<and> sb_ik_public block = as_ik_public sender \<and> sb_registration_id block = as_registration_id sender
     \<and> sb_bundle_version block \<le> as_bundle_version sender \<and> as_device_id sender \<noteq> recipient_device_id"

text \<open>The session of the responder, and the one-time prekeys that the header names, which it consumes.\<close>

definition accepted_session ::
    "initial_header \<Rightarrow> bytes \<Rightarrow> bytes \<Rightarrow> bytes \<Rightarrow> bool \<Rightarrow> bytes \<Rightarrow> bytes \<Rightarrow> classical_signed_key \<Rightarrow> ratchet_state" where
  "accepted_session header recipient_device_id sender_device_id transcript_hash incoming_wins root_key
     next_receiving_chain classical =
     \<lparr>rs_session_id = ih_session_id header, rs_local_device_id = recipient_device_id,
      rs_remote_device_id = sender_device_id, rs_initiator_device_id = sender_device_id,
      rs_transcript_hash = transcript_hash, rs_primary = incoming_wins, rs_receive_only = (\<not> incoming_wins),
      rs_root_key = root_key, rs_sending_chain = None, rs_receiving_chain = Some next_receiving_chain,
      rs_local_ratchet_secret = cs_secret classical, rs_local_ratchet_public = cs_public classical,
      rs_remote_ratchet_public = ih_ratchet_public header, rs_send_count = 0, rs_receive_count = 1,
      rs_previous_send_count = 0, rs_skipped = [], rs_issued_repair_token = None,
      rs_received_repair_token = None\<rparr>"

definition consume_used :: "device_state \<Rightarrow> initial_header \<Rightarrow> (device_state \<times> u32 \<times> u32) cresult" where
  "consume_used device header =
     rbind (if ih_flags header AND FLAG_CLASSICAL_ONE_TIME \<noteq> 0
            then rbind (consume_classical_one_time device (ih_one_time_prekey_id header))
              (\<lambda>device. Ok (device, ih_one_time_prekey_id header))
            else Ok (device, ABSENT_PREKEY_ID)) (\<lambda>(device, consumed_classical_id).
     rbind (if ih_flags header AND FLAG_PQ_ONE_TIME \<noteq> 0
            then rbind (consume_pq_one_time device (ih_pq_one_time_prekey_id header))
              (\<lambda>device. Ok (device, ih_pq_one_time_prekey_id header))
            else Ok (device, ABSENT_PREKEY_ID)) (\<lambda>(device, consumed_pq_id).
     Ok (device, consumed_classical_id, consumed_pq_id)))"

definition accept_initial ::
    "prims \<Rightarrow> device_state \<Rightarrow> bytes \<Rightarrow> bytes \<Rightarrow> bytes \<Rightarrow> sender_projection \<Rightarrow> bytes \<Rightarrow> bytes
     \<Rightarrow> accepted_initial cresult" where
  "accept_initial P device recipient_device_id envelope_bytes supplied_probe_token sender
     existing_bytes replaced_bytes =
     rbind (probe_initial P device recipient_device_id envelope_bytes) (\<lambda>probe.
     if pr_probe_token probe \<noteq> supplied_probe_token
        \<or> \<not> sender_matches (pr_sender probe) sender recipient_device_id
     then Err AuthenticationFailed
     else
     rbind (parse_envelope envelope_bytes) (\<lambda>env.
     case en_header env of
       Regular _ \<Rightarrow> Err StateViolation
     | Initial header \<Rightarrow>
     rbind (header_prefix_of env header) (\<lambda>header_prefix.
     rbind (init_signature_input recipient_device_id header_prefix (sender_prefix_bytes (pr_sender probe)))
       (\<lambda>signature_input.
     rbind (ed25519_verify P (as_device_signing_public sender) signature_input
         (sb_init_signature (pr_sender probe))) (\<lambda>_.
     rbind (check_replaced P device recipient_device_id (as_device_id sender) (pr_sender probe)
         existing_bytes replaced_bytes) (\<lambda>replaced_session_id.
     rbind (check_existing P device recipient_device_id (as_device_id sender) (pr_sender probe)
         existing_bytes) (\<lambda>existing_primary.
     rbind (ok_or (signed_classical device (ih_signed_prekey_id header)) AuthenticationFailed) (\<lambda>classical.
     rbind (responder_initial_secrets P device header) (\<lambda>secrets.
     rbind (x25519_shared P (cs_secret classical) (as_identity_public sender)) (\<lambda>dh1.
     rbind (x25519_shared P (ds_identity_secret device) (ih_ephemeral_public header)) (\<lambda>dh2.
     rbind (pqxdh_secret P (pqxdh_ikm dh1 dh2 secrets)) (\<lambda>shared_secret.
     rbind (x25519_shared P (cs_secret classical) (ih_ratchet_public header)) (\<lambda>ratchet_dh.
     rbind (kdf_root P shared_secret ratchet_dh) (\<lambda>(root_key, receiving_chain).
     rbind (chain_step P receiving_chain) (\<lambda>(message_key, next_receiving_chain).
     rbind (decrypt_envelope P recipient_device_id env message_key) (\<lambda>inner.
     rbind (sha256 P (en_header_bytes env)) (\<lambda>transcript_hash.
     let incoming_wins = (sb_repair (pr_sender probe) \<noteq> None \<or> existing_primary = None
           \<or> as_device_id sender < recipient_device_id) in
     rbind (case existing_primary of
              Some existing \<Rightarrow> if incoming_wins then encode_ratchet_state P device (demote existing) else Ok []
            | None \<Rightarrow> Ok []) (\<lambda>updated_existing_state.
     let session = accepted_session header recipient_device_id (as_device_id sender) transcript_hash incoming_wins
           root_key next_receiving_chain classical in
     rbind (consume_used device header) (\<lambda>(device, consumed_classical_id, consumed_pq_id).
     rbind (encode_ratchet_state P device session) (\<lambda>session_state.
     rbind (encode_device_state P device) (\<lambda>next_device_state.
     rbind (sha256 P envelope_bytes) (\<lambda>replay_marker.
     Ok \<lparr>ai_next_device_state = next_device_state, ai_session = session, ai_session_state = session_state,
         ai_inner = inner, ai_replay_marker = replay_marker, ai_consumed_classical_id = consumed_classical_id,
         ai_consumed_pq_id = consumed_pq_id, ai_disposition = (if incoming_wins then 0 else 1),
         ai_updated_existing_state = updated_existing_state, ai_replaced_session_id = replaced_session_id,
         ai_referenced_signed_prekey_id = ih_signed_prekey_id header,
         ai_referenced_pq_signed_prekey_id = ih_pq_signed_prekey_id header\<rparr>))))))))))))))))))))))"

end
