(* ===== verification/Session_Setup.thy ===== *)
theory Session_Setup
  imports Pairwise_Session Session_Steps Prekey_Operations
begin

text \<open>
  Setup agrees: an initial envelope made by \<open>initiate\<close> for a device is probed and accepted by that device, and
  the two sessions share the root and the chain.
\<close>

section \<open>The sender block is exact\<close>

definition repair_wf :: "(bytes \<times> bytes) option \<Rightarrow> bool" where
  "repair_wf repair \<longleftrightarrow> (\<forall>old token. repair = Some (old, token) \<longrightarrow> length old = 16 \<and> length token = 32)"

definition repair_tail :: "(bytes \<times> bytes) option \<Rightarrow> bytes" where
  "repair_tail repair = (case repair of Some (old, token) \<Rightarrow> old @ token | None \<Rightarrow> [])"

lemma repair_bytes_eq: "repair_bytes repair = bool_bytes (repair \<noteq> None) @ repair_tail repair"
  by (simp add: repair_bytes_def repair_tail_def bool_bytes_def split: option.splits)

interpretation repair_codec:
  codec "reader_repair present" repair_tail "\<lambda>v. (v \<noteq> None \<longleftrightarrow> present) \<and> repair_wf v" for present
proof unfold_locales
  show "reads (reader_repair present) (repair_tail v) v" if "(v \<noteq> None \<longleftrightarrow> present) \<and> repair_wf v" for v
  proof (cases v)
    case None
    with that show ?thesis by (simp add: reader_repair_def repair_tail_def reads_ret)
  next
    case (Some pair)
    then obtain old token where v: "v = Some (old, token)" by (cases pair) simp
    have eq: "repair_tail v = old @ token @ []" by (simp add: v repair_tail_def)
    show ?thesis
      unfolding reader_repair_def eq
      by (intro reads_intros) (use that v in \<open>auto simp: repair_wf_def\<close>)
  qed
  show "sound (reader_repair present) (\<lambda>bs v. ((v \<noteq> None \<longleftrightarrow> present) \<and> repair_wf v) \<and> bs = repair_tail v)"
    unfolding reader_repair_def repair_tail_def repair_wf_def by (intro sound_intros) auto
qed

definition sender_block_bytes :: "sender_block \<Rightarrow> bytes" where
  "sender_block_bytes b = sender_prefix_bytes b @ sb_init_signature b"

definition sender_block_wf :: "sender_block \<Rightarrow> bool" where
  "sender_block_wf b \<longleftrightarrow>
     length (sb_user_id b) = 16 \<and> length (sb_device_id b) = 16 \<and> length (sb_ik_public b) = 64
     \<and> sb_bundle_version b \<noteq> 0 \<and> repair_wf (sb_repair b) \<and> length (sb_init_signature b) = 64"

lemma length_sender_block:
  "sender_block_wf b \<Longrightarrow> length (sender_block_bytes b) =
     (if sb_repair b \<noteq> None then SENDER_BLOCK_REPAIR_BYTES else SENDER_BLOCK_WITHOUT_REPAIR_BYTES)"
  by (auto simp: sender_block_wf_def sender_block_bytes_def sender_prefix_bytes_def repair_bytes_def repair_wf_def
      pairwise_size_defs split: option.splits)

lemma sender_block_bytes_eq:
  "sender_block_bytes b = [1] @ sb_user_id b @ sb_device_id b @ sb_ik_public b @ u32_bytes (sb_registration_id b)
     @ u32_bytes (sb_bundle_version b) @ bool_bytes (sb_repair b \<noteq> None) @ repair_tail (sb_repair b)
     @ sb_init_signature b @ []"
  by (simp add: sender_block_bytes_def sender_prefix_bytes_def repair_bytes_eq)

lemma parse_sender_block_Ok:
  assumes "sender_block_wf b"
  shows "parse_sender_block (sender_block_bytes b) = Ok b"
proof -
  have len: "length (sender_block_bytes b) < 2 ^ 64"
    by (simp add: length_sender_block [OF assms] pairwise_size_defs)
  have "reads_to_end (sender_block_fields n) (sender_block_bytes b) b" if "n = length (sender_block_bytes b)" for n
    using that unfolding length_sender_block [OF assms] unfolding sender_block_fields_def sender_block_bytes_eq
    by (intro ends_intros) (use assms in \<open>auto simp: sender_block_wf_def\<close>)
  from reads_to_end_new [OF this [OF refl] len] show ?thesis by (simp add: parse_sender_block_def run_parser_def)
qed

lemma sender_block_fields_sound:
  "sound_to_end (sender_block_fields n) (\<lambda>bs b. sender_block_wf b \<and> bs = sender_block_bytes b)"
  unfolding sender_block_fields_def sender_block_bytes_eq
  by (intro sound_end_intros) (auto simp: sender_block_wf_def)

lemma parse_sender_block_sound:
  "parse_sender_block bs = Ok b \<Longrightarrow> length bs < 2 ^ 64 \<Longrightarrow> sender_block_wf b \<and> bs = sender_block_bytes b"
  unfolding parse_sender_block_def by (rule run_parser_sound_to_end [OF sender_block_fields_sound])

section \<open>The signed and sealed sender\<close>

text \<open>The sender block that a device puts into its initial envelopes.\<close>

definition sender_block_of ::
    "prims \<Rightarrow> device_state \<Rightarrow> bytes \<Rightarrow> (bytes \<times> bytes) option \<Rightarrow> bytes \<Rightarrow> sender_block" where
  "sender_block_of P st device_id repair signature =
     \<lparr>sb_user_id = ds_user_id st, sb_device_id = device_id, sb_ik_public = state_ik_public st,
      sb_registration_id = ds_registration_id st, sb_bundle_version = ds_bundle_version st, sb_repair = repair,
      sb_init_signature = signature\<rparr>"

lemma sender_prefix_of: "sender_prefix_bytes (sender_block_of P st device_id repair signature)
    = sender_block_prefix st device_id repair"
  by (simp add: sender_prefix_bytes_def sender_block_of_def sender_block_prefix_def)

lemma length_state_ik: "device_fields_wf st \<Longrightarrow> length (state_ik_public st) = 64"
  by (simp add: device_fields_wf_def state_ik_public_def ik_from_halves_def)

lemma sender_block_of_wf:
  assumes "device_valid P st" and "length device_id = 16" and "repair_wf repair" and "length signature = 64"
  shows "sender_block_wf (sender_block_of P st device_id repair signature)"
  using assms length_state_ik [of st]
  by (simp add: sender_block_wf_def sender_block_of_def device_valid_def device_fields_wf_def)

text \<open>
  What sealing the sender produces: a seal of the sender block, whose signature verifies over the header prefix,
  that opens under the same anonymous key.
\<close>

lemma seal_sender_Ok:
  assumes P: "sized_prims P" "aead_correct P" "signatures_verify P" and st: "device_valid P st"
    and ids: "length device_id = 16" "repair_wf repair"
    and run: "seal_sender P st device_id recipient repair key nonce prefix = Ok header"
  obtains signature seal aad input where
      "header = prefix @ u16_bytes (word_of_nat (length seal)) @ seal"
    and "length signature = 64"
    and "length seal = (if repair \<noteq> None then 234 else 186)"
    and "sender_aad recipient prefix (length header) = Ok aad"
    and "xchacha20poly1305_decrypt P key nonce seal aad
      = Ok (sender_block_bytes (sender_block_of P st device_id repair signature))"
    and "init_signature_input recipient prefix (sender_block_prefix st device_id repair) = Ok input"
    and "ed25519_verify P (ds_device_signing_public st) input signature = Ok ()"
proof -
  let ?sp = "sender_block_prefix st device_id repair"
  from run obtain input signature n aad seal len where
    input: "init_signature_input recipient prefix ?sp = Ok input"
    and signature: "ed25519_sign P (ds_device_signing_secret st) input = Ok signature"
    and aad: "sender_aad recipient prefix n = Ok aad"
    and enc: "xchacha20poly1305_encrypt P key nonce (?sp @ signature) aad = Ok seal"
    and header: "header = prefix @ u16_bytes len @ seal" "length header = n"
    and len: "try_from_usize (length seal) = Some len"
    by (auto simp: seal_sender_def Let_def secret_vec_Ok_iff elim!: monad_elims split: if_splits)
  have public: "ds_device_signing_public st = ed_public_of P (ds_device_signing_secret st)"
    using st by (simp add: device_valid_def)
  have sig: "length signature = 64" "ed25519_verify P (ds_device_signing_public st) input signature = Ok ()"
    using signature P(1,3) unfolding public
    by (auto simp: ed25519_sign_Ok_iff ed25519_verify_Ok_iff sized_primsD signatures_verify_def)
  let ?b = "sender_block_of P st device_id repair signature"
  have pt: "?sp @ signature = sender_block_bytes ?b"
    by (simp add: sender_block_bytes_def sender_prefix_of) (simp add: sender_block_of_def)
  have wf: "sender_block_wf ?b" by (rule sender_block_of_wf [OF st ids sig(1)])
  have fits: "length (sender_block_bytes ?b) + 16 \<le> MAX_INPUT_BYTES"
    by (simp add: length_sender_block [OF wf] pairwise_size_defs MAX_INPUT_BYTES_def)
  have "length aad \<le> MAX_INPUT_BYTES"
    using enc by (auto simp: xchacha20poly1305_encrypt_def bounded_bytes_new_Ok_iff elim!: monad_elims)
  then obtain ct where ct: "xchacha20poly1305_encrypt P key nonce (sender_block_bytes ?b) aad = Ok ct"
    "length ct = length (sender_block_bytes ?b) + 16"
    "xchacha20poly1305_decrypt P key nonce ct aad = Ok (sender_block_bytes ?b)"
    by (rule xchacha_round_trip [OF P(2) fits])
  have "ct = seal" using ct(1) enc by (simp add: pt)
  have "len = word_of_nat (length seal)" using len by (auto simp: try_from_usize_def split: if_splits)
  moreover have "length seal = (if repair \<noteq> None then 234 else 186)"
    using ct(2) \<open>ct = seal\<close> length_sender_block [OF wf] by (simp add: pairwise_size_defs sender_block_of_def)
  ultimately show thesis
    using header aad sig input ct(3) \<open>ct = seal\<close> by (intro that) auto
qed

section \<open>What initiating computes\<close>

lemma initial_flags_facts:
  "flag_set (initial_flags c p r) FLAG_INITIAL"
  "flag_set (initial_flags c p r) FLAG_CLASSICAL_ONE_TIME \<longleftrightarrow> c"
  "flag_set (initial_flags c p r) FLAG_PQ_ONE_TIME \<longleftrightarrow> p"
  "flag_set (initial_flags c p r) FLAG_REPAIR_REPLACEMENT \<longleftrightarrow> r"
  "initial_flags c p r AND NOT KNOWN_HEADER_FLAGS = 0"
  by (cases c; cases p; cases r;
      simp add: flag_set_def initial_flags_def header_flag_defs KNOWN_HEADER_FLAGS_def)+

text \<open>The header of an initial envelope.\<close>

definition setup_header ::
    "prims \<Rightarrow> peer_bundle \<Rightarrow> optional_classical_prekey option \<Rightarrow> optional_pq_prekey option
     \<Rightarrow> (bytes \<times> bytes) option \<Rightarrow> bytes \<Rightarrow> bytes \<Rightarrow> bytes \<Rightarrow> bytes \<Rightarrow> bytes option \<Rightarrow> bytes \<Rightarrow> initial_header" where
  "setup_header P peer oc op repair e r sid ct oct seal =
     \<lparr>ih_flags = initial_flags (oc \<noteq> None) (op \<noteq> None) (repair \<noteq> None), ih_session_id = sid,
      ih_ratchet_public = x_public_of P r, ih_signed_prekey_id = pb_signed_prekey_id peer,
      ih_one_time_prekey_id = (case oc of Some key \<Rightarrow> oc_id key | None \<Rightarrow> ABSENT_PREKEY_ID),
      ih_pq_signed_prekey_id = pb_pq_signed_prekey_id peer,
      ih_pq_one_time_prekey_id = (case op of Some key \<Rightarrow> op_id key | None \<Rightarrow> ABSENT_PREKEY_ID),
      ih_ephemeral_public = x_public_of P e, ih_pq_signed_ciphertext = ct, ih_pq_one_time_ciphertext = oct,
      ih_sender_seal = seal\<rparr>"

text \<open>The session that initiating returns.\<close>

definition initiated_session ::
    "prims \<Rightarrow> bytes \<Rightarrow> bytes \<Rightarrow> peer_bundle \<Rightarrow> bytes \<Rightarrow> bytes \<Rightarrow> bytes \<Rightarrow> bytes \<Rightarrow> bytes \<Rightarrow> ratchet_state" where
  "initiated_session P da db peer sid r th root chain =
     \<lparr>rs_session_id = sid, rs_local_device_id = da, rs_remote_device_id = db, rs_initiator_device_id = da,
      rs_transcript_hash = th, rs_primary = True, rs_receive_only = False, rs_root_key = root,
      rs_sending_chain = Some chain, rs_receiving_chain = None, rs_local_ratchet_secret = r,
      rs_local_ratchet_public = x_public_of P r, rs_remote_ratchet_public = pb_signed_prekey_public peer,
      rs_send_count = 1, rs_receive_count = 0, rs_previous_send_count = 0, rs_skipped = [],
      rs_issued_repair_token = None, rs_received_repair_token = None\<rparr>"

lemma initiate_Ok:
  assumes "initiate P a da db peer oc op auth inner other tape = Ok ((sa, env), tape')"
  obtains repair e r sid secrets ct oct dh1 dh2 shared key nonce header rdh root chain mk nxt th t1 t2 t3 where
      "pb_device_id peer = db" and "da \<noteq> db"
    and "verify_repair_authorization P a auth = Ok repair"
    and "length e = 32" and "length r = 32" and "length sid = 16" and "\<not> is_zero sid"
    and "x25519_shared P (ds_identity_secret a) (pb_signed_prekey_public peer) = Ok dh1"
    and "x25519_shared P e (pb_identity_public peer) = Ok dh2"
    and "initiator_secrets P e peer oc op t1 = Ok ((secrets, ct, oct), t2)"
    and "pqxdh_secret P (pqxdh_ikm dh1 dh2 secrets) = Ok shared"
    and "anonymous_material P (anonymous_ikm secrets) = Ok (key, nonce)"
    and "seal_sender P a da db repair key nonce
      (initial_prefix_of (setup_header P peer oc op repair e r sid ct oct [])) = Ok header"
    and "x25519_shared P r (pb_signed_prekey_public peer) = Ok rdh"
    and "kdf_root P shared rdh = Ok (root, chain)" and "chain_step P chain = Ok (mk, nxt)"
    and "encrypt_envelope P db header mk inner t3 = Ok (env, tape')"
    and "sha256 P header = Ok th"
    and "sa = initiated_session P da db peer sid r th root nxt"
proof -
  from assms show thesis
    unfolding initiate_def
    by (elim sbind_OkE)
      (auto simp: Let_def ret_apply x25519_public_def random_bytes_Ok_iff initiated_session_def
        initial_prefix_of_def setup_header_def elim!: sbind_OkE intro: that)
qed

lemma initiator_secrets_Ok:
  assumes P: "sized_prims P" and run: "initiator_secrets P e peer oc op t = Ok ((secrets, ct, oct), t')"
  shows "x25519_shared P e (pb_signed_prekey_public peer) = Ok (is_dh3 secrets)"
    and "case oc of None \<Rightarrow> is_dh4 secrets = None
         | Some key \<Rightarrow> \<exists>d. is_dh4 secrets = Some d \<and> x25519_shared P e (oc_public key) = Ok d"
    and "\<exists>c. kem_enc_derand P (pb_pq_signed_prekey_public peer) c = Some (ct, is_signed_pq secrets)"
    and "case op of None \<Rightarrow> is_one_time_pq secrets = None \<and> oct = None
         | Some key \<Rightarrow> \<exists>d ct2 c. is_one_time_pq secrets = Some d \<and> oct = Some ct2
             \<and> kem_enc_derand P (op_public key) c = Some (ct2, d)"
  using run
  by (auto simp: initiator_secrets_def mlkem768_encapsulate_def ret_apply elim!: monad_elims split: option.splits)
    blast+

section \<open>What the responder computes\<close>

definition kem_pair :: "prims \<Rightarrow> bytes \<Rightarrow> bytes \<Rightarrow> bool" where
  "kem_pair P public secret \<longleftrightarrow> (\<exists>c. kem_keypair_derand P c = Some (public, secret))"

text \<open>The prekeys that the initiator was given are those of the device, current or retained.\<close>

definition offers :: "prims \<Rightarrow> device_state \<Rightarrow> bytes \<Rightarrow> peer_bundle \<Rightarrow> bool" where
  "offers P b db peer \<longleftrightarrow>
     pb_device_id peer = db \<and> pb_ik_public peer = state_ik_public b
     \<and> (\<exists>k. signed_classical b (pb_signed_prekey_id peer) = Some k \<and> cs_public k = pb_signed_prekey_public peer)
     \<and> (\<exists>k. signed_pq b (pb_pq_signed_prekey_id peer) = Some k \<and> ps_public k = pb_pq_signed_prekey_public peer
          \<and> kem_pair P (ps_public k) (ps_secret k))"

definition offers_one_time ::
    "prims \<Rightarrow> device_state \<Rightarrow> optional_classical_prekey option \<Rightarrow> optional_pq_prekey option \<Rightarrow> bool" where
  "offers_one_time P b oc op \<longleftrightarrow>
     (\<forall>key. oc = Some key \<longrightarrow>
        (\<exists>k. find_classical_one_time b (oc_id key) = Some k \<and> co_public k = oc_public key))
     \<and> (\<forall>key. op = Some key \<longrightarrow>
        (\<exists>k. find_pq_one_time b (op_id key) = Some k \<and> po_public k = op_public key
             \<and> kem_pair P (po_public k) (po_secret k)))"

lemma x25519_shared_swap:
  "dh_agrees P \<Longrightarrow> x25519_shared P s (x_public_of P t) = x25519_shared P t (x_public_of P s)"
  by (simp add: x25519_shared_def dh_agrees_def)

lemma signed_classical_valid:
  assumes "device_valid P st" and "signed_classical st i = Some k"
  shows "x_public_of P (cs_secret k) = cs_public k" and "classical_signed_wf k" and "cs_id k = i"
  using assms
  by (auto simp: signed_classical_def device_valid_def device_material_def classical_authentic_def device_fields_wf_def
      retired_pair_wf_def list_all_iff find_Some_iff split: if_splits dest!: nth_mem)

lemma signed_pq_valid:
  assumes "device_valid P st" and "signed_pq st i = Some k"
  shows "pq_signed_wf k" and "ps_id k = i"
  using assms
  by (auto simp: signed_pq_def device_valid_def device_fields_wf_def
      retired_pair_wf_def list_all_iff find_Some_iff split: if_splits dest!: nth_mem)

lemma one_time_valid:
  assumes "device_valid P st"
  shows "find_classical_one_time st i = Some k \<Longrightarrow> x_public_of P (co_secret k) = co_public k \<and> i \<le> KEY_ID_MAX"
    and "find_pq_one_time st i = Some q \<Longrightarrow> i \<le> KEY_ID_MAX"
  using assms
  by (auto simp: find_classical_one_time_def find_pq_one_time_def find_Some_iff device_valid_def device_material_def
      device_fields_wf_def list_all_iff record_wf_defs dest!: nth_mem)

lemma kem_pair_decapsulates:
  "kem_correct P \<Longrightarrow> kem_pair P public secret \<Longrightarrow> kem_enc_derand P public c = Some (ct, ss) \<Longrightarrow>
     mlkem768_decapsulate P secret ct = Ok ss"
  unfolding kem_correct_def kem_pair_def mlkem768_decapsulate_def by fastforce

lemma responder_agrees:
  assumes P: "sized_prims P" "dh_agrees P" "kem_correct P" and b: "device_valid P b"
    and offers: "offers P b db peer" "offers_one_time P b oc op"
    and run: "initiator_secrets P e peer oc op t = Ok ((secrets, ct, oct), t')"
  shows "responder_initial_secrets P b (setup_header P peer oc op repair e r sid ct oct seal) = Ok secrets"
proof -
  let ?h = "setup_header P peer oc op repair e r sid ct oct seal"
  note facts = initiator_secrets_Ok [OF P(1) run]
  obtain k q where k: "signed_classical b (pb_signed_prekey_id peer) = Some k" "cs_public k = pb_signed_prekey_public peer"
    and q: "signed_pq b (pb_pq_signed_prekey_id peer) = Some q" "ps_public q = pb_pq_signed_prekey_public peer"
      "kem_pair P (ps_public q) (ps_secret q)"
    using offers(1) by (auto simp: offers_def)
  have dh3: "x25519_shared P (cs_secret k) (x_public_of P e) = Ok (is_dh3 secrets)"
    using facts(1) x25519_shared_swap [OF P(2), of e "cs_secret k"] signed_classical_valid(1) [OF b k(1)] k(2) by simp
  have pq: "mlkem768_decapsulate P (ps_secret q) ct = Ok (is_signed_pq secrets)"
    using facts(3) q(2,3) kem_pair_decapsulates [OF P(3)] by auto
  have dh4: "(if ih_flags ?h AND FLAG_CLASSICAL_ONE_TIME \<noteq> 0 then
        rbind (ok_or (find_classical_one_time b (ih_one_time_prekey_id ?h)) AuthenticationFailed) (\<lambda>key.
        rbind (x25519_shared P (co_secret key) (ih_ephemeral_public ?h)) (\<lambda>dh4. Ok (Some dh4)))
      else Ok None) = Ok (is_dh4 secrets)"
  proof (cases oc)
    case None
    then show ?thesis using facts(2) initial_flags_facts(2) by (simp add: setup_header_def flag_set_def)
  next
    case (Some key)
    then obtain k4 d where k4: "find_classical_one_time b (oc_id key) = Some k4" "co_public k4 = oc_public key"
      and d: "is_dh4 secrets = Some d" "x25519_shared P e (oc_public key) = Ok d"
      using offers(2) facts(2) by (auto simp: offers_one_time_def)
    have "x25519_shared P (co_secret k4) (x_public_of P e) = Ok d"
      using d x25519_shared_swap [OF P(2), of e "co_secret k4"] one_time_valid(1) [OF b k4(1)] k4(2) by simp
    with k4 d Some show ?thesis using initial_flags_facts(2) by (simp add: setup_header_def flag_set_def)
  qed
  have pq1: "(if ih_flags ?h AND FLAG_PQ_ONE_TIME \<noteq> 0 then
        rbind (ok_or (find_pq_one_time b (ih_pq_one_time_prekey_id ?h)) AuthenticationFailed) (\<lambda>key.
        rbind (ok_or (ih_pq_one_time_ciphertext ?h) MalformedInput) (\<lambda>ciphertext.
        rbind (mlkem768_decapsulate P (po_secret key) ciphertext) (\<lambda>secret. Ok (Some secret))))
      else Ok None) = Ok (is_one_time_pq secrets)"
  proof (cases op)
    case None
    then show ?thesis using facts(4) initial_flags_facts(3) by (simp add: setup_header_def flag_set_def)
  next
    case (Some key)
    then obtain k4 d ct2 c where k4: "find_pq_one_time b (op_id key) = Some k4" "po_public k4 = op_public key"
        "kem_pair P (po_public k4) (po_secret k4)"
      and d: "is_one_time_pq secrets = Some d" "oct = Some ct2" "kem_enc_derand P (op_public key) c = Some (ct2, d)"
      using offers(2) facts(4) by (auto simp: offers_one_time_def)
    have "mlkem768_decapsulate P (po_secret k4) ct2 = Ok d"
      using kem_pair_decapsulates [OF P(3) k4(3)] d(3) k4(2) by simp
    with k4 d Some show ?thesis using initial_flags_facts(3) by (simp add: setup_header_def flag_set_def)
  qed
  show ?thesis
    unfolding responder_initial_secrets_def dh4 pq1 using k(1) q(1) dh3 pq by (simp add: setup_header_def)
qed

section \<open>The exchange of an initial envelope\<close>

lemma verify_repair_authorization_wf:
  assumes "verify_repair_authorization P st auth = Ok repair" and "length auth < 2 ^ 64"
  shows "repair_wf repair"
proof -
  have "sound_to_end parse_repair_authorization (\<lambda>bs (old, token, tag). length old = 16 \<and> length token = 32)"
    unfolding parse_repair_authorization_def by (intro sound_end_intros) auto
  from run_parser_sound_to_end [OF this _ assms(2)] assms(1) show ?thesis
    by (auto simp: verify_repair_authorization_def repair_wf_def Let_def elim!: monad_elims split: if_splits)
qed

lemma setup_header_wf:
  assumes P: "sized_prims P" and b: "device_valid P b"
    and offers: "offers P b db peer" "offers_one_time P b oc op"
    and run: "initiator_secrets P e peer oc op t = Ok ((secrets, ct, oct), t')"
    and sid: "length sid = 16" "\<not> is_zero sid" and seal: "length seal = (if repair \<noteq> None then 234 else 186)"
  shows "initial_header_wf (setup_header P peer oc op repair e r sid ct oct seal)"
proof -
  note facts = initiator_secrets_Ok [OF P run]
  have ids: "pb_signed_prekey_id peer \<le> KEY_ID_MAX" "pb_pq_signed_prekey_id peer \<le> KEY_ID_MAX"
    using offers(1) signed_classical_valid(2,3) [OF b] signed_pq_valid [OF b]
    by (fastforce simp: offers_def record_wf_defs)+
  have one_time: "optional_id_wf (oc \<noteq> None) (case oc of Some key \<Rightarrow> oc_id key | None \<Rightarrow> ABSENT_PREKEY_ID)"
    "optional_id_wf (op \<noteq> None) (case op of Some key \<Rightarrow> op_id key | None \<Rightarrow> ABSENT_PREKEY_ID)"
    using offers(2) one_time_valid [OF b] by (auto simp: optional_id_wf_def offers_one_time_def split: option.splits)
  have ct: "length ct = 1088" using facts(3) sized_primsD(7) [OF P] by auto
  have oct: "oct \<noteq> None \<longleftrightarrow> op \<noteq> None" "\<And>c. oct = Some c \<Longrightarrow> length c = 1088"
    using facts(4) sized_primsD(7) [OF P] by (auto split: option.splits)
  show ?thesis
    using ids one_time ct oct sid seal sized_primsD(3) [OF P]
    by (simp add: initial_header_wf_def setup_header_def initial_flags_facts seal_length_def)
qed

text \<open>
  Everything both sides compute from an initial envelope: \<open>h\<close> is its header, \<open>block\<close> the sealed sender, \<open>k\<close> the
  signed prekey of the responder.
\<close>

definition initial_exchange ::
    "prims \<Rightarrow> device_state \<Rightarrow> bytes \<Rightarrow> device_state \<Rightarrow> bytes \<Rightarrow> bytes \<Rightarrow> envelope \<Rightarrow> initial_header \<Rightarrow> sender_block
     \<Rightarrow> initial_secrets \<Rightarrow> classical_signed_key \<Rightarrow> bytes \<Rightarrow> bytes \<Rightarrow> bytes \<Rightarrow> bytes \<Rightarrow> bool" where
  "initial_exchange P a da b db env e h block secrets k root chain th inner \<longleftrightarrow>
     parse_envelope env = Ok e \<and> en_header e = Initial h \<and> length env \<in> set ALLOWED_BUCKETS
     \<and> header_prefix_of e h = Ok (initial_prefix_of h)
     \<and> responder_initial_secrets P b h = Ok secrets
     \<and> (\<exists>key nonce aad. anonymous_material P (anonymous_ikm secrets) = Ok (key, nonce)
          \<and> sender_aad db (initial_prefix_of h) (length (en_header_bytes e)) = Ok aad
          \<and> xchacha20poly1305_decrypt P key nonce (ih_sender_seal h) aad = Ok (sender_block_bytes block))
     \<and> sender_block_wf block \<and> (ih_flags h AND FLAG_REPAIR_REPLACEMENT \<noteq> 0 \<longleftrightarrow> sb_repair block \<noteq> None)
     \<and> (\<exists>input. init_signature_input db (initial_prefix_of h) (sender_prefix_bytes block) = Ok input
          \<and> ed25519_verify P (ds_device_signing_public a) input (sb_init_signature block) = Ok ())
     \<and> signed_classical b (ih_signed_prekey_id h) = Some k
     \<and> (\<exists>dh1 dh2 shared rdh.
          x25519_shared P (cs_secret k) (ds_identity_public a) = Ok dh1
          \<and> x25519_shared P (ds_identity_secret b) (ih_ephemeral_public h) = Ok dh2
          \<and> pqxdh_secret P (pqxdh_ikm dh1 dh2 secrets) = Ok shared
          \<and> x25519_shared P (cs_secret k) (ih_ratchet_public h) = Ok rdh
          \<and> kdf_root P shared rdh = Ok (root, chain))
     \<and> chain_step P chain = Ok (step_message P chain, step_chain P chain) \<and> length chain = 32
     \<and> decrypt_envelope P db e (step_message P chain) = Ok inner
     \<and> sha256 P (en_header_bytes e) = Ok th"

lemma header_prefix_of_initial:
  "en_header_bytes e = header_bytes (Initial h) \<Longrightarrow> header_prefix_of e h = Ok (initial_prefix_of h)"
  by (simp add: header_prefix_of_def)

lemma initiate_exchange:
  assumes P: "sized_prims P" "aead_correct P" "signatures_verify P" "dh_agrees P" "kem_correct P"
    and a: "device_valid P a" and b: "device_valid P b" and ids: "length da = 16" "length db = 16"
    and offers: "offers P b db peer" "offers_one_time P b oc op" and auth: "length auth < 2 ^ 64"
    and run: "initiate P a da db peer oc op auth inner other tape = Ok ((sa, env), tape')"
  obtains repair signature ep r sid ct oct seal h e secrets k root chain th where
      "h = setup_header P peer oc op repair ep r sid ct oct seal"
    and "verify_repair_authorization P a auth = Ok repair" and "da \<noteq> db"
    and "initial_exchange P a da b db env e h (sender_block_of P a da repair signature) secrets k root chain th inner"
    and "sa = initiated_session P da db peer sid r th root (step_chain P chain)"
    and "cs_public k = pb_signed_prekey_public peer" and "length r = 32" and "length sid = 16" and "\<not> is_zero sid"
proof -
  from run obtain repair ep r sid secrets ct oct dh1 dh2 shared key nonce header rdh root chain mk nxt th t1 t2 t3 where
      neq: "da \<noteq> db" and repair: "verify_repair_authorization P a auth = Ok repair"
    and lens: "length ep = 32" "length r = 32" "length sid = 16" "\<not> is_zero sid"
    and dh: "x25519_shared P (ds_identity_secret a) (pb_signed_prekey_public peer) = Ok dh1"
      "x25519_shared P ep (pb_identity_public peer) = Ok dh2"
    and secrets: "initiator_secrets P ep peer oc op t1 = Ok ((secrets, ct, oct), t2)"
    and shared: "pqxdh_secret P (pqxdh_ikm dh1 dh2 secrets) = Ok shared"
    and anon: "anonymous_material P (anonymous_ikm secrets) = Ok (key, nonce)"
    and header: "seal_sender P a da db repair key nonce
      (initial_prefix_of (setup_header P peer oc op repair ep r sid ct oct [])) = Ok header"
    and rdh: "x25519_shared P r (pb_signed_prekey_public peer) = Ok rdh"
    and root: "kdf_root P shared rdh = Ok (root, chain)" and step: "chain_step P chain = Ok (mk, nxt)"
    and enc: "encrypt_envelope P db header mk inner t3 = Ok (env, tape')"
    and th: "sha256 P header = Ok th" and sa: "sa = initiated_session P da db peer sid r th root nxt"
    by (rule initiate_Ok)
  have repair_wf: "repair_wf repair" by (rule verify_repair_authorization_wf [OF repair auth])
  from P(1-3) a ids(1) repair_wf header obtain signature seal aad input where
      hb: "header = initial_prefix_of (setup_header P peer oc op repair ep r sid ct oct [])
        @ u16_bytes (word_of_nat (length seal)) @ seal"
    and sig: "length signature = 64" and seal: "length seal = (if repair \<noteq> None then 234 else 186)"
    and aad: "sender_aad db (initial_prefix_of (setup_header P peer oc op repair ep r sid ct oct [])) (length header) = Ok aad"
      "xchacha20poly1305_decrypt P key nonce seal aad
        = Ok (sender_block_bytes (sender_block_of P a da repair signature))"
    and input: "init_signature_input db (initial_prefix_of (setup_header P peer oc op repair ep r sid ct oct []))
        (sender_block_prefix a da repair) = Ok input"
      "ed25519_verify P (ds_device_signing_public a) input signature = Ok ()"
    by (rule seal_sender_Ok)
  let ?h = "setup_header P peer oc op repair ep r sid ct oct seal"
  have prefix: "initial_prefix_of (setup_header P peer oc op repair ep r sid ct oct []) = initial_prefix_of ?h"
    by (simp add: initial_prefix_of_def setup_header_def)
  have header_eq: "header = header_bytes (Initial ?h)" using hb by (simp add: prefix) (simp add: setup_header_def)
  have wf: "header_wf (Initial ?h)"
    using setup_header_wf [OF P(1) b offers secrets lens(3,4) seal] by simp
  have chain: "length chain = 32" using kdf_root_lengths [OF root] by simp
  have mk: "mk = step_message P chain" "nxt = step_chain P chain" "length mk = 32"
    using step chain_step_eq [OF P(1) chain] by auto
  obtain c where env: "parse_envelope env = Ok \<lparr>en_header_bytes = header, en_header = Initial ?h, en_ciphertext = c\<rparr>"
    "decrypt_envelope P db \<lparr>en_header_bytes = header, en_header = Initial ?h, en_ciphertext = c\<rparr> mk = Ok inner"
    "length env \<in> set ALLOWED_BUCKETS"
    by (rule sealed_envelope_parses [OF P(1,2) mk(3) ids(2) wf enc [unfolded header_eq]]) (simp add: header_eq)
  obtain k where k: "signed_classical b (pb_signed_prekey_id peer) = Some k" "cs_public k = pb_signed_prekey_public peer"
    using offers(1) by (auto simp: offers_def)
  have public: "x_public_of P (cs_secret k) = pb_signed_prekey_public peer"
    using signed_classical_valid(1) [OF b k(1)] k(2) by simp
  have ident: "ds_identity_public a = x_public_of P (ds_identity_secret a)"
    "pb_identity_public peer = x_public_of P (ds_identity_secret b)"
    using a b offers(1) by (auto simp: device_valid_def offers_def pb_identity_public_def state_ik_public_def
        ik_from_halves_def device_fields_wf_def)
  have exchange: "initial_exchange P a da b db env \<lparr>en_header_bytes = header, en_header = Initial ?h, en_ciphertext = c\<rparr> ?h
      (sender_block_of P a da repair signature) secrets k root chain th inner"
    unfolding initial_exchange_def
  proof (intro conjI)
    show "\<exists>key nonce aad. anonymous_material P (anonymous_ikm secrets) = Ok (key, nonce)
        \<and> sender_aad db (initial_prefix_of ?h)
            (length (en_header_bytes \<lparr>en_header_bytes = header, en_header = Initial ?h, en_ciphertext = c\<rparr>)) = Ok aad
        \<and> xchacha20poly1305_decrypt P key nonce (ih_sender_seal ?h) aad
          = Ok (sender_block_bytes (sender_block_of P a da repair signature))"
      using anon aad [unfolded prefix] by (auto simp: setup_header_def)
    show "\<exists>input. init_signature_input db (initial_prefix_of ?h)
          (sender_prefix_bytes (sender_block_of P a da repair signature)) = Ok input
        \<and> ed25519_verify P (ds_device_signing_public a) input
          (sb_init_signature (sender_block_of P a da repair signature)) = Ok ()"
      using input [unfolded prefix] by (auto simp: sender_prefix_of) (simp add: sender_block_of_def)
    show "\<exists>dh1 dh2 shared rdh. x25519_shared P (cs_secret k) (ds_identity_public a) = Ok dh1
        \<and> x25519_shared P (ds_identity_secret b) (ih_ephemeral_public ?h) = Ok dh2
        \<and> pqxdh_secret P (pqxdh_ikm dh1 dh2 secrets) = Ok shared
        \<and> x25519_shared P (cs_secret k) (ih_ratchet_public ?h) = Ok rdh
        \<and> kdf_root P shared rdh = Ok (root, chain)"
      using dh rdh shared root x25519_shared_swap [OF P(4)] by (auto simp: setup_header_def ident public [symmetric])
    show "ih_flags ?h AND FLAG_REPAIR_REPLACEMENT \<noteq> 0 \<longleftrightarrow> sb_repair (sender_block_of P a da repair signature) \<noteq> None"
      using initial_flags_facts(4) by (simp add: setup_header_def sender_block_of_def flag_set_def)
  qed (use env header_eq responder_agrees [OF P(1,4,5) b offers secrets] sender_block_of_wf [OF a ids(1) repair_wf sig]
      k chain_step_eq [OF P(1) chain] chain mk th in \<open>auto simp: header_prefix_of_initial\<close>, simp add: setup_header_def)
  show thesis by (rule that [OF refl repair neq exchange sa [unfolded mk(2)] k(2) lens(2-4)])
qed

section \<open>Probing and accepting\<close>

lemma probe_of_exchange:
  assumes P: "sized_prims P" and b: "device_valid P b" "length db = 16"
    and exchange: "initial_exchange P a da b db env e h block secrets k root chain th inner"
  obtains token where "probe_initial P b db env = Ok \<lparr>pr_sender = block, pr_probe_token = token\<rparr>"
    and "length token = 32"
proof -
  have env: "length env \<le> 262144" using exchange by (auto simp: initial_exchange_def ALLOWED_BUCKETS_def)
  then have hash: "sha256 P env = Ok (sha256_raw P env)" by (simp add: sha256_def bounded_bytes_new_def MAX_INPUT_BYTES_def)
  have block: "sender_block_wf block" using exchange by (simp add: initial_exchange_def)
  have "length (ds_identity_secret b) = 32" using b by (simp add: device_valid_def device_fields_wf_def)
  then obtain pk where pk: "device_probe_key P (ds_identity_secret b) = Ok pk" "length pk = 32"
    by (rule device_probe_key_total [OF P])
  let ?input = "PROBE_MAGIC @ db @ sha256_raw P env @ sender_block_bytes block"
  have "length pk \<le> MAX_INPUT_BYTES" "length ?input \<le> MAX_INPUT_BYTES"
    using pk b(2) length_sender_block [OF block] sized_primsD [OF P]
    by (simp_all add: MAX_INPUT_BYTES_def pairwise_size_defs)
  from hmac_total [OF P this] obtain token where token: "hmac_sha256 P pk ?input = Ok token" "length token = 32"
    by blast
  show thesis
    by (rule that [OF _ token(2)])
      (use exchange hash pk token parse_sender_block_Ok [OF block] in
        \<open>auto simp: probe_initial_def initial_exchange_def Let_def\<close>)
qed

text \<open>The sender as the authenticated device list names it, at a bundle version not below the envelope's.\<close>

definition names_sender :: "device_state \<Rightarrow> bytes \<Rightarrow> sender_projection \<Rightarrow> bool" where
  "names_sender a da sender \<longleftrightarrow>
     as_user_id sender = ds_user_id a \<and> as_device_id sender = da \<and> as_ik_public sender = state_ik_public a
     \<and> as_registration_id sender = ds_registration_id a \<and> ds_bundle_version a \<le> as_bundle_version sender"

definition incoming_wins :: "sender_block \<Rightarrow> ratchet_state option \<Rightarrow> bytes \<Rightarrow> bytes \<Rightarrow> bool" where
  "incoming_wins block existing da db \<longleftrightarrow> sb_repair block \<noteq> None \<or> existing = None \<or> da < db"

lemma accept_of_exchange:
  assumes P: "sized_prims P" and a: "device_valid P a" and b: "device_inv P b"
    and ids: "length da = 16" "length db = 16" "\<not> is_zero da" "\<not> is_zero db" "da \<noteq> db"
    and sender: "names_sender a da sender"
    and exchange: "initial_exchange P a da b db env e h (sender_block_of P a da repair signature) secrets k root chain th inner"
    and probe: "probe_initial P b db env
      = Ok \<lparr>pr_sender = sender_block_of P a da repair signature, pr_probe_token = token\<rparr>"
    and replaced: "check_replaced P b db da (sender_block_of P a da repair signature) existing_bytes replaced_bytes = Ok rid"
    and existing: "check_existing P b db da (sender_block_of P a da repair signature) existing_bytes = Ok existing"
    and demoted: "(case existing of
        Some x \<Rightarrow> if incoming_wins (sender_block_of P a da repair signature) existing da db
                  then encode_ratchet_state P b (demote x) else Ok []
      | None \<Rightarrow> Ok []) = Ok updated"
    and used: "consume_used b h = Ok (b', cid, qid)" "device_inv P b'"
    and stored: "encode_ratchet_state P b' (accepted_session h db da th
        (incoming_wins (sender_block_of P a da repair signature) existing da db) root (step_chain P chain) k) = Ok bs"
      "encode_device_state P b' = Ok dbs"
  shows "accept_initial P b db env token sender existing_bytes replaced_bytes =
    Ok \<lparr>ai_next_device_state = dbs,
        ai_session = accepted_session h db da th
          (incoming_wins (sender_block_of P a da repair signature) existing da db) root (step_chain P chain) k,
        ai_session_state = bs, ai_inner = inner, ai_replay_marker = sha256_raw P env, ai_consumed_classical_id = cid,
        ai_consumed_pq_id = qid,
        ai_disposition = (if incoming_wins (sender_block_of P a da repair signature) existing da db then 0 else 1),
        ai_updated_existing_state = updated, ai_replaced_session_id = rid,
        ai_referenced_signed_prekey_id = ih_signed_prekey_id h,
        ai_referenced_pq_signed_prekey_id = ih_pq_signed_prekey_id h\<rparr>"
proof -
  let ?block = "sender_block_of P a da repair signature"
  have wf: "device_fields_wf a" using a by (simp add: device_valid_def)
  have halves: "as_device_signing_public sender = ds_device_signing_public a" "as_identity_public sender = ds_identity_public a"
    using sender wf by (simp_all add: names_sender_def as_device_signing_public_def as_identity_public_def
        state_ik_public_def ik_from_halves_def device_fields_wf_def)
  have matches: "sender_matches ?block sender db"
    using sender ids by (simp add: sender_matches_def names_sender_def sender_block_of_def)
  have env: "length env \<le> 262144" using exchange by (auto simp: initial_exchange_def ALLOWED_BUCKETS_def)
  then have hash: "sha256 P env = Ok (sha256_raw P env)" by (simp add: sha256_def bounded_bytes_new_def MAX_INPUT_BYTES_def)
  have da: "as_device_id sender = da" using sender by (simp add: names_sender_def)
  from exchange obtain input dh1 dh2 shared rdh where
      e: "parse_envelope env = Ok e" "en_header e = Initial h" "header_prefix_of e h = Ok (initial_prefix_of h)"
    and input: "init_signature_input db (initial_prefix_of h) (sender_prefix_bytes ?block) = Ok input"
      "ed25519_verify P (ds_device_signing_public a) input (sb_init_signature ?block) = Ok ()"
    and k: "signed_classical b (ih_signed_prekey_id h) = Some k" "responder_initial_secrets P b h = Ok secrets"
    and dh: "x25519_shared P (cs_secret k) (ds_identity_public a) = Ok dh1"
      "x25519_shared P (ds_identity_secret b) (ih_ephemeral_public h) = Ok dh2"
      "pqxdh_secret P (pqxdh_ikm dh1 dh2 secrets) = Ok shared"
      "x25519_shared P (cs_secret k) (ih_ratchet_public h) = Ok rdh" "kdf_root P shared rdh = Ok (root, chain)"
      "chain_step P chain = Ok (step_message P chain, step_chain P chain)"
    and inner: "decrypt_envelope P db e (step_message P chain) = Ok inner" "sha256 P (en_header_bytes e) = Ok th"
    unfolding initial_exchange_def by (elim conjE exE)
  show ?thesis
    unfolding accept_initial_def
    by (simp only: probe e input k dh inner halves da matches replaced existing used stored hash rbind_simps
        probe_result.simps ratchet_header.case ok_or_simps prod.case Let_def incoming_wins_def [symmetric] demoted
        simp_thms if_False)
qed

end
