(* ===== verification/Session_Agreement.thy ===== *)
theory Session_Agreement
  imports Session_Setup
begin

text \<open>
  The properties of session setup: agreement of the two sides, refusal of a replayed initial envelope,
  resolution of simultaneous initiation, and the replacement of a session after a repair.
\<close>

section \<open>The two sessions\<close>

lemma initiated_session_inv:
  assumes P: "sized_prims P" and ids: "length da = 16" "length db = 16" "\<not> is_zero da" "\<not> is_zero db" "da \<noteq> db"
    and sid: "length sid = 16" "\<not> is_zero sid" and r: "length r = 32" and th: "length th = 32"
    and root: "length root = 32" and chain: "length chain = 32" and remote: "length (pb_signed_prekey_public peer) = 32"
  shows "session_inv P (initiated_session P da db peer sid r th root chain)"
  using assms sized_primsD(3) [OF P]
  by (simp add: session_inv_def session_core_def role_respected_def one_repair_token_def initiated_session_def
      ratchet_fields_wf_def secret_option_wf_def skipped_below_def)

lemma accepted_session_inv:
  assumes ids: "length da = 16" "length db = 16" "\<not> is_zero da" "\<not> is_zero db" "da \<noteq> db"
    and h: "initial_header_wf h" and k: "classical_signed_wf k" "x_public_of P (cs_secret k) = cs_public k"
    and th: "length th = 32" and root: "length root = 32" and chain: "length chain = 32"
  shows "session_inv P (accepted_session h db da th wins root chain k)"
  using assms
  by (auto simp: session_inv_def session_core_def role_respected_def one_repair_token_def accepted_session_def
      ratchet_fields_wf_def secret_option_wf_def skipped_below_def initial_header_wf_def classical_signed_wf_def)

lemma sessions_linked:
  assumes "session_inv P (initiated_session P da db peer sid r th root (step_chain P c))"
    and "session_inv P (accepted_session h db da th' wins root' (step_chain P c) k)"
    and "length c = 32" and "ih_session_id h = sid" and "ih_ratchet_public h = x_public_of P r"
  shows "linked P c (initiated_session P da db peer sid r th root (step_chain P c))
    (accepted_session h db da th' wins root' (step_chain P c) k)"
  using assms
  by (simp add: linked_def follows_chain_def session_inv_def) (simp add: initiated_session_def accepted_session_def)

section \<open>Consumption of the named one-time prekeys\<close>

lemma find_after_consume:
  "consume_classical_one_time b i = Ok b' \<Longrightarrow> find_pq_one_time b' j = find_pq_one_time b j"
  "consume_pq_one_time b i = Ok b' \<Longrightarrow> find_classical_one_time b' j = find_classical_one_time b j"
  by (auto simp: consume_classical_one_time_def consume_pq_one_time_def find_classical_one_time_def
      find_pq_one_time_def elim!: monad_elims)

lemma consume_same_identity:
  "consume_classical_one_time b i = Ok b' \<Longrightarrow> ds_identity_secret b' = ds_identity_secret b"
  "consume_pq_one_time b i = Ok b' \<Longrightarrow> ds_identity_secret b' = ds_identity_secret b"
  by (auto simp: consume_classical_one_time_def consume_pq_one_time_def elim!: monad_elims)

lemma consume_present:
  assumes "device_inv P b"
  shows "find_classical_one_time b i = Some k \<Longrightarrow>
      \<exists>b'. consume_classical_one_time b i = Ok b' \<and> device_inv P b' \<and> find_classical_one_time b' i = None"
    and "find_pq_one_time b i = Some q \<Longrightarrow>
      \<exists>b'. consume_pq_one_time b i = Ok b' \<and> device_inv P b' \<and> find_pq_one_time b' i = None"
proof -
  have sorted: "sorted_wrt (\<lambda>a b. co_id a < co_id b) (ds_classical_one_time b)"
      "sorted_wrt (\<lambda>a b. po_id a < po_id b) (ds_pq_one_time b)"
    using device_invD(1) [OF assms] by (simp_all add: device_valid_def)
  show "\<exists>b'. consume_classical_one_time b i = Ok b' \<and> device_inv P b' \<and> find_classical_one_time b' i = None"
    if "find_classical_one_time b i = Some k"
    using that classical_store.consume_cases [of b i] consume_classical_inv [OF assms]
      classical_store.consume_lookup [OF sorted(1)] by (metis option.distinct(1))
  show "\<exists>b'. consume_pq_one_time b i = Ok b' \<and> device_inv P b' \<and> find_pq_one_time b' i = None"
    if "find_pq_one_time b i = Some q"
    using that pq_store.consume_cases [of b i] consume_pq_inv [OF assms]
      pq_store.consume_lookup [OF sorted(2)] by (metis option.distinct(1))
qed

definition used_up :: "device_state \<Rightarrow> initial_header \<Rightarrow> bool" where
  "used_up b h \<longleftrightarrow>
     (flag_set (ih_flags h) FLAG_CLASSICAL_ONE_TIME \<longrightarrow> find_classical_one_time b (ih_one_time_prekey_id h) = None)
     \<and> (flag_set (ih_flags h) FLAG_PQ_ONE_TIME \<longrightarrow> find_pq_one_time b (ih_pq_one_time_prekey_id h) = None)"

lemma consume_used_total:
  assumes b: "device_inv P b"
    and found: "flag_set (ih_flags h) FLAG_CLASSICAL_ONE_TIME \<Longrightarrow> \<exists>k. find_classical_one_time b (ih_one_time_prekey_id h) = Some k"
      "flag_set (ih_flags h) FLAG_PQ_ONE_TIME \<Longrightarrow> \<exists>k. find_pq_one_time b (ih_pq_one_time_prekey_id h) = Some k"
  obtains b' where "consume_used b h = Ok (b',
      if flag_set (ih_flags h) FLAG_CLASSICAL_ONE_TIME then ih_one_time_prekey_id h else ABSENT_PREKEY_ID,
      if flag_set (ih_flags h) FLAG_PQ_ONE_TIME then ih_pq_one_time_prekey_id h else ABSENT_PREKEY_ID)"
    and "device_inv P b'" and "used_up b' h" and "ds_identity_secret b' = ds_identity_secret b"
proof -
  let ?c = "flag_set (ih_flags h) FLAG_CLASSICAL_ONE_TIME" and ?q = "flag_set (ih_flags h) FLAG_PQ_ONE_TIME"
  have "\<exists>b1. (if ?c then consume_classical_one_time b (ih_one_time_prekey_id h) = Ok b1 else b1 = b) \<and> device_inv P b1
      \<and> (?c \<longrightarrow> find_classical_one_time b1 (ih_one_time_prekey_id h) = None)
      \<and> find_pq_one_time b1 = find_pq_one_time b \<and> ds_identity_secret b1 = ds_identity_secret b"
    using consume_present(1) [OF b] found(1) b find_after_consume(1) consume_same_identity(1)
    by (cases ?c) (auto, metis ext)
  then obtain b1 where b1: "if ?c then consume_classical_one_time b (ih_one_time_prekey_id h) = Ok b1 else b1 = b"
    "device_inv P b1" "?c \<longrightarrow> find_classical_one_time b1 (ih_one_time_prekey_id h) = None"
    "find_pq_one_time b1 = find_pq_one_time b" "ds_identity_secret b1 = ds_identity_secret b" by blast
  have "\<exists>b2. (if ?q then consume_pq_one_time b1 (ih_pq_one_time_prekey_id h) = Ok b2 else b2 = b1) \<and> device_inv P b2
      \<and> (?q \<longrightarrow> find_pq_one_time b2 (ih_pq_one_time_prekey_id h) = None)
      \<and> find_classical_one_time b2 = find_classical_one_time b1 \<and> ds_identity_secret b2 = ds_identity_secret b1"
    using consume_present(2) [OF b1(2)] found(2) b1(2,4) find_after_consume(2) consume_same_identity(2)
    by (cases ?q) (auto, metis ext)
  then obtain b2 where "if ?q then consume_pq_one_time b1 (ih_pq_one_time_prekey_id h) = Ok b2 else b2 = b1"
    "device_inv P b2" "?q \<longrightarrow> find_pq_one_time b2 (ih_pq_one_time_prekey_id h) = None"
    "find_classical_one_time b2 = find_classical_one_time b1" "ds_identity_secret b2 = ds_identity_secret b1" by blast
  with b1 show thesis
    by (intro that [of b2]) (auto simp: consume_used_def used_up_def flag_set_def split: if_splits)
qed

section \<open>Acceptance\<close>

lemma check_existing_valid:
  assumes "check_existing P b db da block bytes = Ok (Some x)" and "length bytes < 2 ^ 64"
  shows "ratchet_valid P x" and "rs_primary x" and "rs_initiator_device_id x = db"
    and "decode_ratchet_state P b bytes = Ok x"
  using assms decode_ratchet_state_Ok_iff [OF assms(2)]
  by (auto simp: check_existing_def elim!: monad_elims split: if_splits)

lemma demote_storable:
  assumes "sized_prims P" and "length (ds_identity_secret b) = 32" and "ratchet_valid P x"
  obtains bs where "encode_ratchet_state P b (demote x) = Ok bs" and "length bs \<le> MAX_INPUT_BYTES"
proof (rule encode_ratchet_state_total [OF assms(1,2)])
  show "ratchet_fields_wf (demote x)" "skipped_sorted (rs_skipped (demote x))"
    using ratchet_validD(1,2) [OF assms(3)] by (simp_all add: demote_def ratchet_fields_wf_def secret_option_wf_def)
qed (rule that)

lemma exchange_lengths:
  assumes P: "sized_prims P" and b: "device_valid P b"
    and exchange: "initial_exchange P a da b db env e h block secrets k root chain th inner"
  shows "initial_header_wf h" and "classical_signed_wf k" and "x_public_of P (cs_secret k) = cs_public k"
    and "length th = 32" and "length root = 32" and "length chain = 32" and "length (step_chain P chain) = 32"
proof -
  from exchange have h: "header_wf (Initial h)" and k: "signed_classical b (ih_signed_prekey_id h) = Some k"
    and chain: "length chain = 32" and th: "sha256 P (en_header_bytes e) = Ok th" and root: "length root = 32"
    by (auto simp: initial_exchange_def parse_envelope_Ok_iff dest!: kdf_root_lengths)
  show "initial_header_wf h" "classical_signed_wf k" "x_public_of P (cs_secret k) = cs_public k"
    using h signed_classical_valid [OF b k] by simp_all
  show "length th = 32" using th sized_primsD [OF P] by (auto simp: sha256_def bounded_bytes_new_def split: if_splits)
  show "length root = 32" "length chain = 32" "length (step_chain P chain) = 32"
    using root chain chain_step_eq(3) [OF P chain] by simp_all
qed

text \<open>
  The acceptance of an initial envelope succeeds, for every positive outcome of the checks of a replaced and of an
  existing session.
\<close>

lemma accept_exchange_total:
  assumes P: "sized_prims P" and a: "device_valid P a" and b: "device_inv P b"
    and ids: "length da = 16" "length db = 16" "\<not> is_zero da" "\<not> is_zero db" "da \<noteq> db"
    and sender: "names_sender a da sender"
    and exchange: "initial_exchange P a da b db env e h (sender_block_of P a da repair signature) secrets k root chain th inner"
    and found: "flag_set (ih_flags h) FLAG_CLASSICAL_ONE_TIME \<Longrightarrow> \<exists>k. find_classical_one_time b (ih_one_time_prekey_id h) = Some k"
      "flag_set (ih_flags h) FLAG_PQ_ONE_TIME \<Longrightarrow> \<exists>k. find_pq_one_time b (ih_pq_one_time_prekey_id h) = Some k"
    and replaced: "check_replaced P b db da (sender_block_of P a da repair signature) ex_bytes rep_bytes = Ok rid"
    and existing: "check_existing P b db da (sender_block_of P a da repair signature) ex_bytes = Ok existing"
    and ex_len: "length ex_bytes < 2 ^ 64"
  obtains probe acc b' where "probe_initial P b db env = Ok probe"
    and "accept_initial P b db env (pr_probe_token probe) sender ex_bytes rep_bytes = Ok acc"
    and "ai_inner acc = inner" and "ai_replaced_session_id acc = rid"
    and "ai_session acc = accepted_session h db da th (repair \<noteq> None \<or> existing = None \<or> da < db) root (step_chain P chain) k"
    and "session_inv P (ai_session acc)" and "device_inv P b'" and "used_up b' h"
    and "\<forall>day. decode_device_state P (ai_next_device_state acc) day = Ok b'"
    and "decode_ratchet_state P b' (ai_session_state acc) = Ok (ai_session acc)"
proof -
  have bv: "device_valid P b" by (rule device_invD(1) [OF b])
  note lens = exchange_lengths [OF P bv exchange]
  let ?block = "sender_block_of P a da repair signature"
  from P bv ids(2) exchange obtain token where
    probe: "probe_initial P b db env = Ok \<lparr>pr_sender = ?block, pr_probe_token = token\<rparr>"
    by (rule probe_of_exchange)
  obtain b' cid qid where b': "consume_used b h = Ok (b', cid, qid)" "device_inv P b'" "used_up b' h"
    "ds_identity_secret b' = ds_identity_secret b"
    using consume_used_total [OF b found] by metis
  have secret: "length (ds_identity_secret b) = 32" "length (ds_identity_secret b') = 32"
    using device_invD(2) [OF b] b'(4) by (simp_all add: device_fields_wf_def)
  let ?wins = "incoming_wins ?block existing da db"
  let ?sb = "accepted_session h db da th ?wins root (step_chain P chain) k"
  have inv: "session_inv P ?sb" by (rule accepted_session_inv [OF ids lens(1-5,7)])
  then have core: "session_core P ?sb" "ratchet_valid P ?sb"
    using session_inv_iff [of P ?sb] by (simp_all add: session_inv_def)
  obtain sbs where sbs: "encode_ratchet_state P b' ?sb = Ok sbs"
    by (rule encode_ratchet_state_total [OF P secret(2) session_coreD(1,2) [OF core(1)]])
  obtain dbs where dbs: "encode_device_state P b' = Ok dbs" by (rule device_inv_storable [OF P b'(2)])
  have "\<exists>bs. encode_ratchet_state P b (demote x) = Ok bs" if "existing = Some x" for x
    using demote_storable [OF P secret(1) check_existing_valid(1) [OF existing [unfolded that] ex_len]] by blast
  then have "\<exists>updated. (case existing of
        Some x \<Rightarrow> if ?wins then encode_ratchet_state P b (demote x) else Ok [] | None \<Rightarrow> Ok []) = Ok updated"
    by (cases existing) simp_all
  then obtain updated where updated: "(case existing of
        Some x \<Rightarrow> if ?wins then encode_ratchet_state P b (demote x) else Ok [] | None \<Rightarrow> Ok []) = Ok updated" by blast
  note accepted = accept_of_exchange [OF P a b ids sender exchange probe replaced existing updated b'(1,2) sbs dbs]
  have wins: "?wins \<longleftrightarrow> repair \<noteq> None \<or> existing = None \<or> da < db"
    by (simp add: incoming_wins_def sender_block_of_def)
  obtain acc where acc: "accept_initial P b db env token sender ex_bytes rep_bytes = Ok acc"
    "ai_inner acc = inner" "ai_replaced_session_id acc = rid" "ai_session acc = ?sb" "ai_session_state acc = sbs"
    "ai_next_device_state acc = dbs"
    using accepted by simp
  show thesis
  proof (rule that [OF probe _ acc(2,3) _ _ b'(2,3)])
    show "accept_initial P b db env (pr_probe_token \<lparr>pr_sender = ?block, pr_probe_token = token\<rparr>) sender ex_bytes rep_bytes
        = Ok acc" using acc(1) by simp
    show "ai_session acc = accepted_session h db da th (repair \<noteq> None \<or> existing = None \<or> da < db) root (step_chain P chain) k"
      by (simp only: acc(4) wins)
    show "session_inv P (ai_session acc)" using inv acc(4) by simp
    show "\<forall>day. decode_device_state P (ai_next_device_state acc) day = Ok b'"
      using decode_encode_device_state [OF P device_invD(1) [OF b'(2)] dbs] acc(6) by simp
    show "decode_ratchet_state P b' (ai_session_state acc) = Ok (ai_session acc)"
      using ratchet_store.load_store [OF P core(2) sbs] acc(4,5) by simp
  qed
qed

text \<open>Everything that holds of an initiated session and its acceptance.\<close>

lemma setup_accepted:
  assumes P: "sized_prims P" "aead_correct P" "signatures_verify P" "dh_agrees P" "kem_correct P"
    and a: "device_valid P a" and b: "device_inv P b"
    and ids: "length da = 16" "length db = 16" "\<not> is_zero da" "\<not> is_zero db"
    and offers: "offers P b db peer" "offers_one_time P b oc op" and auth: "length auth < 2 ^ 64"
    and sender: "names_sender a da sender"
    and run: "initiate P a da db peer oc op auth inner other tape = Ok ((sa, env), tape')"
    and repair: "verify_repair_authorization P a auth = Ok repair"
    and replaced: "\<And>signature. check_replaced P b db da (sender_block_of P a da repair signature) ex_bytes rep_bytes = Ok rid"
    and existing: "\<And>signature. check_existing P b db da (sender_block_of P a da repair signature) ex_bytes = Ok existing"
    and ex_len: "length ex_bytes < 2 ^ 64"
  obtains probe acc b' h e c where "probe_initial P b db env = Ok probe"
    and "accept_initial P b db env (pr_probe_token probe) sender ex_bytes rep_bytes = Ok acc"
    and "ai_inner acc = inner" and "ai_replaced_session_id acc = rid"
    and "parse_envelope env = Ok e" and "en_header e = Initial h" and "used_up b' h" and "device_inv P b'"
    and "\<forall>day. decode_device_state P (ai_next_device_state acc) day = Ok b'"
    and "decode_ratchet_state P b' (ai_session_state acc) = Ok (ai_session acc)"
    and "linked P c sa (ai_session acc)" and "session_inv P sa" and "session_inv P (ai_session acc)"
    and "rs_root_key (ai_session acc) = rs_root_key sa \<and> rs_transcript_hash (ai_session acc) = rs_transcript_hash sa
      \<and> rs_remote_ratchet_public sa = rs_local_ratchet_public (ai_session acc)
      \<and> rs_remote_device_id (ai_session acc) = rs_local_device_id sa"
    and "rs_primary (ai_session acc) \<longleftrightarrow> repair \<noteq> None \<or> existing = None \<or> da < db"
    and "ih_one_time_prekey_id h = (case oc of Some key \<Rightarrow> oc_id key | None \<Rightarrow> ABSENT_PREKEY_ID)"
    and "ih_pq_one_time_prekey_id h = (case op of Some key \<Rightarrow> op_id key | None \<Rightarrow> ABSENT_PREKEY_ID)"
    and "ih_flags h = initial_flags (oc \<noteq> None) (op \<noteq> None) (repair \<noteq> None)"
proof -
  have bv: "device_valid P b" by (rule device_invD(1) [OF b])
  from P a bv ids(1,2) offers auth run obtain repair' signature ep r sid ct oct seal h e secrets k root chain th where
      h: "h = setup_header P peer oc op repair' ep r sid ct oct seal"
    and repair': "verify_repair_authorization P a auth = Ok repair'" and neq: "da \<noteq> db"
    and exchange: "initial_exchange P a da b db env e h (sender_block_of P a da repair' signature) secrets k root chain th inner"
    and sa: "sa = initiated_session P da db peer sid r th root (step_chain P chain)"
    and k: "cs_public k = pb_signed_prekey_public peer" and lens: "length r = 32" "length sid = 16" "\<not> is_zero sid"
    by (rule initiate_exchange)
  have eq: "repair' = repair" using repair repair' by simp
  note lens' = exchange_lengths [OF P(1) bv exchange]
  have found: "flag_set (ih_flags h) FLAG_CLASSICAL_ONE_TIME \<Longrightarrow> \<exists>k. find_classical_one_time b (ih_one_time_prekey_id h) = Some k"
      "flag_set (ih_flags h) FLAG_PQ_ONE_TIME \<Longrightarrow> \<exists>k. find_pq_one_time b (ih_pq_one_time_prekey_id h) = Some k"
    using offers(2) by (auto simp: h setup_header_def initial_flags_facts offers_one_time_def)
  from P(1) a b ids neq sender exchange [unfolded eq] found replaced existing ex_len obtain probe acc b' where
    acc: "probe_initial P b db env = Ok probe"
      "accept_initial P b db env (pr_probe_token probe) sender ex_bytes rep_bytes = Ok acc"
      "ai_inner acc = inner" "ai_replaced_session_id acc = rid"
    and sb: "ai_session acc = accepted_session h db da th (repair \<noteq> None \<or> existing = None \<or> da < db) root (step_chain P chain) k"
    and inv: "session_inv P (ai_session acc)" and b': "device_inv P b'" "used_up b' h"
      "\<forall>day. decode_device_state P (ai_next_device_state acc) day = Ok b'"
      "decode_ratchet_state P b' (ai_session_state acc) = Ok (ai_session acc)"
    by (rule accept_exchange_total)
  have sa_inv: "session_inv P sa"
    unfolding sa using initiated_session_inv [OF P(1) ids neq lens(2,3,1) lens'(4,5,7)] k lens'(2)
    by (simp add: classical_signed_wf_def)
  have linked: "linked P chain sa (ai_session acc)"
    using sessions_linked sa_inv inv lens'(6) unfolding sa sb by (simp add: h setup_header_def)
  from exchange have e: "parse_envelope env = Ok e" "en_header e = Initial h" by (simp_all add: initial_exchange_def)
  show thesis
    by (rule that [OF acc e b'(2,1,3,4) linked sa_inv inv])
      (simp_all add: sa sb initiated_session_def accepted_session_def k h setup_header_def eq)
qed

section \<open>What an acceptance guarantees\<close>

lemma accept_initial_Ok:
  assumes "accept_initial P b db env token sender ex_bytes rep_bytes = Ok acc"
  obtains probe e h input existing th root nxt k b' where
      "probe_initial P b db env = Ok probe" and "pr_probe_token probe = token"
    and "sender_matches (pr_sender probe) sender db"
    and "parse_envelope env = Ok e" and "en_header e = Initial h"
    and "\<exists>prefix. header_prefix_of e h = Ok prefix
      \<and> init_signature_input db prefix (sender_prefix_bytes (pr_sender probe)) = Ok input"
    and "ed25519_verify P (as_device_signing_public sender) input (sb_init_signature (pr_sender probe)) = Ok ()"
    and "check_replaced P b db (as_device_id sender) (pr_sender probe) ex_bytes rep_bytes = Ok (ai_replaced_session_id acc)"
    and "check_existing P b db (as_device_id sender) (pr_sender probe) ex_bytes = Ok existing"
    and "ai_session acc = accepted_session h db (as_device_id sender) th
      (incoming_wins (pr_sender probe) existing (as_device_id sender) db) root nxt k"
    and "ai_disposition acc = (if incoming_wins (pr_sender probe) existing (as_device_id sender) db then 0 else 1)"
    and "(case existing of
        Some x \<Rightarrow> if incoming_wins (pr_sender probe) existing (as_device_id sender) db
                  then encode_ratchet_state P b (demote x) else Ok []
      | None \<Rightarrow> Ok []) = Ok (ai_updated_existing_state acc)"
    and "consume_used b h = Ok (b', ai_consumed_classical_id acc, ai_consumed_pq_id acc)"
    and "encode_device_state P b' = Ok (ai_next_device_state acc)"
    and "encode_ratchet_state P b' (ai_session acc) = Ok (ai_session_state acc)"
  using assms
  unfolding accept_initial_def incoming_wins_def [symmetric]
  by (elim rbind_OkE)
    (auto simp: Let_def elim!: rbind_OkE split: if_splits ratchet_header.splits intro: that)

end
