(* ===== verification/Setup_Liveness.thy ===== *)
theory Setup_Liveness
  imports Session_Agreement
begin

text \<open>
  Initiating a session succeeds: with enough entropy and contributory key exchanges no error path of
  \<open>initiate\<close> is taken. A sample pair of devices, for the concrete instances of the setup properties.
\<close>

section \<open>Totality of the parts\<close>

definition contributory :: "prims \<Rightarrow> bytes \<Rightarrow> bytes \<Rightarrow> bool" where
  "contributory P secret public \<longleftrightarrow> x_diffie_hellman P secret public \<noteq> replicate 32 0"

definition encapsulates :: "prims \<Rightarrow> bytes \<Rightarrow> bool" where
  "encapsulates P public \<longleftrightarrow> (\<forall>c. length c = 32 \<longrightarrow> kem_enc_derand P public c \<noteq> None)"

lemma contributory_shared:
  "contributory P s p \<Longrightarrow> x25519_shared P s p = Ok (x_diffie_hellman P s p)"
  by (simp add: contributory_def x25519_shared_def)

lemma encapsulates_Ok:
  assumes "encapsulates P public" and "length c = 32"
  obtains ct ss where "mlkem768_encapsulate P public (c @ tape) = Ok ((ct, ss), tape)"
    and "kem_enc_derand P public c = Some (ct, ss)"
proof -
  from assms obtain ct ss where "kem_enc_derand P public c = Some (ct, ss)"
    unfolding encapsulates_def by (metis option.exhaust prod.exhaust)
  with assms(2) that show thesis
    by (simp add: mlkem768_encapsulate_def fill_def sbind_def)
qed

lemma random_bytes_prefix: "length bs = n \<Longrightarrow> n \<le> MAX_INPUT_BYTES \<Longrightarrow> random_bytes n (bs @ tape) = Ok (bs, tape)"
  by (simp add: random_bytes_def fill_def)

lemma initiator_secrets_total:
  assumes P: "sized_prims P" and spk: "contributory P e (pb_signed_prekey_public peer)"
    and otk: "\<And>key. oc = Some key \<Longrightarrow> contributory P e (oc_public key)"
    and pq: "encapsulates P (pb_pq_signed_prekey_public peer)"
    and pq1: "\<And>key. op = Some key \<Longrightarrow> encapsulates P (op_public key)"
    and coins: "length coins = (if op = None then 32 else 64)"
  shows "\<exists>secrets ct oct. initiator_secrets P e peer oc op (coins @ tape) = Ok ((secrets, ct, oct), tape)
    \<and> length (anonymous_ikm secrets) \<le> 128"
proof -
  let ?c1 = "take 32 coins" and ?c2 = "drop 32 coins"
  have split: "coins @ tape = ?c1 @ ?c2 @ tape" by simp
  have c1: "length ?c1 = 32" using coins by (simp split: if_splits)
  obtain ct ss where ct: "mlkem768_encapsulate P (pb_pq_signed_prekey_public peer) (?c1 @ ?c2 @ tape)
      = Ok ((ct, ss), ?c2 @ tape)" "kem_enc_derand P (pb_pq_signed_prekey_public peer) ?c1 = Some (ct, ss)"
    by (rule encapsulates_Ok [OF pq c1])
  have one: "\<exists>oct oss. (case op of
        Some key \<Rightarrow> sbind (mlkem768_encapsulate P (op_public key)) (\<lambda>(ciphertext, secret). ret (Some ciphertext, Some secret))
      | None \<Rightarrow> ret (None, None)) (?c2 @ tape) = Ok ((oct, oss), tape) \<and> (\<forall>s. oss = Some s \<longrightarrow> length s = 32)"
  proof (cases op)
    case None
    with coins show ?thesis by (simp add: ret_apply)
  next
    case (Some key)
    with coins have c2: "length ?c2 = 32" by simp
    obtain ct2 ss2 where "mlkem768_encapsulate P (op_public key) (?c2 @ tape) = Ok ((ct2, ss2), tape)"
      "kem_enc_derand P (op_public key) ?c2 = Some (ct2, ss2)"
      by (rule encapsulates_Ok [OF pq1 [OF Some] c2])
    with Some sized_primsD(8) [OF P] show ?thesis by (auto simp: sbind_Ok ret_apply)
  qed
  then obtain oct oss where one: "(case op of
        Some key \<Rightarrow> sbind (mlkem768_encapsulate P (op_public key)) (\<lambda>(ciphertext, secret). ret (Some ciphertext, Some secret))
      | None \<Rightarrow> ret (None, None)) (?c2 @ tape) = Ok ((oct, oss), tape)" "\<forall>s. oss = Some s \<longrightarrow> length s = 32" by blast
  let ?dh4 = "map_option (\<lambda>key. x_diffie_hellman P e (oc_public key)) oc"
  have dh4: "(case oc of Some key \<Rightarrow> sbind (slift (x25519_shared P e (oc_public key))) (\<lambda>dh4. ret (Some dh4))
      | None \<Rightarrow> ret None) t = Ok (?dh4, t)" for t
    using otk by (cases oc) (simp_all add: contributory_shared ret_apply)
  let ?s = "\<lparr>is_dh3 = x_diffie_hellman P e (pb_signed_prekey_public peer), is_dh4 = ?dh4, is_signed_pq = ss,
      is_one_time_pq = oss\<rparr>"
  have "initiator_secrets P e peer oc op (coins @ tape) = Ok ((?s, ct, oct), tape)"
    unfolding split using contributory_shared [OF spk] ct(1) one(1)
    by (simp add: initiator_secrets_def dh4 sbind_Ok ret_apply)
  moreover have "length (anonymous_ikm ?s) \<le> 128"
    using sized_primsD(4,8) [OF P] ct(2) one(2)
    by (cases oc; cases oss) (auto simp: anonymous_ikm_def optional_bytes_def)
  ultimately show ?thesis by blast
qed

lemma init_signature_input_total:
  assumes "length recipient = 16" and "length prefix \<le> 2560" and "length block \<le> 256"
  obtains input where "init_signature_input recipient prefix block = Ok input" and "length input \<le> 4096"
proof -
  have "init_signature_input recipient prefix block = Ok (INIT_AUTH_DOMAIN @ frame [PROTOCOL_VERSION] @ frame [SUITE]
      @ frame PURPOSE @ frame recipient @ frame prefix @ frame block)"
    using assms by (simp add: init_signature_input_def push_frame_eq)
  then show thesis by (rule that) (use assms in simp)
qed

lemma seal_sender_total:
  assumes P: "sized_prims P" "aead_correct P" and st: "device_valid P st"
    and ids: "length device_id = 16" "length recipient = 16" "repair_wf repair" and prefix: "length prefix \<le> 2560"
  shows "\<exists>header. seal_sender P st device_id recipient repair key nonce prefix = Ok header
    \<and> length header \<le> 3000"
proof -
  let ?sp = "sender_block_prefix st device_id repair"
  have sp: "length ?sp \<le> 154"
    using st ids length_state_ik [of st]
    by (auto simp: device_valid_def sender_block_prefix_def repair_bytes_def repair_wf_def device_fields_wf_def
        split: option.splits)
  obtain input where input: "init_signature_input recipient prefix ?sp = Ok input" "length input \<le> 4096"
    by (rule init_signature_input_total [OF ids(2) prefix, of ?sp]) (use sp in auto)
  let ?sig = "ed_sign_raw P (ds_device_signing_secret st) input"
  have sig: "ed25519_sign P (ds_device_signing_secret st) input = Ok ?sig" "length ?sig = 64"
    using input(2) sized_primsD(2) [OF P(1)] by (simp_all add: ed25519_sign_Ok_iff MAX_INPUT_BYTES_def)
  let ?n = "length prefix + (2 + length (?sp @ ?sig) + 16)"
  let ?aad = "[PROTOCOL_VERSION] @ [SUITE] @ u16_bytes (word_of_nat ?n) @ prefix @ recipient @ PURPOSE"
  have n: "?n \<le> 3000" using prefix sp sig(2) by simp
  have aad: "sender_aad recipient prefix ?n = Ok ?aad"
    using n prefix ids(2) by (simp add: sender_aad_def reserve_def usize_checked_add_def MAX_INPUT_BYTES_def)
  have fits: "length (?sp @ ?sig) + 16 \<le> MAX_INPUT_BYTES" "length ?aad \<le> MAX_INPUT_BYTES"
    using sp sig(2) prefix ids(2) by (simp_all add: MAX_INPUT_BYTES_def)
  obtain ct where ct: "xchacha20poly1305_encrypt P key nonce (?sp @ ?sig) ?aad = Ok ct" "length ct = length (?sp @ ?sig) + 16"
    by (rule xchacha_round_trip [OF P(2) fits])
  have "seal_sender P st device_id recipient repair key nonce prefix
      = Ok (prefix @ u16_bytes (word_of_nat (length ct)) @ ct)"
    using input(1) sig(1) aad ct fits n
    by (simp add: seal_sender_def Let_def usize_checked_add_def XCHACHA_ABYTES_def secret_vec_input_def
        secret_vec_from_slice_def)
  then show ?thesis using ct(2) n by simp
qed

lemma initial_prefix_length:
  assumes "sized_prims P" and "length sid = 16" and "initiator_secrets P e peer oc op t = Ok ((secrets, ct, oct), t')"
  shows "length (initial_prefix_of (setup_header P peer oc op repair e r sid ct oct seal)) \<le> 2560"
  using initiator_secrets_Ok(3,4) [OF assms(1,3)] sized_primsD(3,7) [OF assms(1)] assms(2)
  by (auto simp: initial_prefix_of_def setup_header_def initial_header_prefix_def split: option.splits)

section \<open>Initiating succeeds\<close>

lemma initiate_total:
  assumes P: "sized_prims P" "aead_correct P" and a: "device_valid P a"
    and ids: "length da = 16" "length db = 16" "da \<noteq> db" "pb_device_id peer = db"
    and auth: "verify_repair_authorization P a auth = Ok repair" "length auth < 2 ^ 64"
    and dh: "contributory P (ds_identity_secret a) (pb_signed_prekey_public peer)"
      "contributory P e (pb_identity_public peer)" "contributory P e (pb_signed_prekey_public peer)"
      "contributory P r (pb_signed_prekey_public peer)" "\<forall>key. oc = Some key \<longrightarrow> contributory P e (oc_public key)"
    and kem: "encapsulates P (pb_pq_signed_prekey_public peer)" "\<forall>key. op = Some key \<longrightarrow> encapsulates P (op_public key)"
    and tape: "length e = 32" "length r = 32" "length coins = (if op = None then 32 else 64)" "length sid = 16"
      "\<not> is_zero sid" "262144 \<le> length padding"
    and sizes: "length inner \<le> 259000" "unat other \<le> MAX_SKIPPED_ACCOUNT"
  shows "\<exists>sa env tape'. initiate P a da db peer oc op auth inner other (e @ r @ coins @ sid @ padding)
    = Ok ((sa, env), tape')"
proof -
  obtain secrets ct oct where secrets: "initiator_secrets P e peer oc op (coins @ sid @ padding)
      = Ok ((secrets, ct, oct), sid @ padding)" "length (anonymous_ikm secrets) \<le> 128"
    using initiator_secrets_total [OF P(1) dh(3) _ kem(1) _ tape(3)] dh(5) kem(2) by blast
  let ?dh1 = "x_diffie_hellman P (ds_identity_secret a) (pb_signed_prekey_public peer)"
  let ?dh2 = "x_diffie_hellman P e (pb_identity_public peer)"
  let ?rdh = "x_diffie_hellman P r (pb_signed_prekey_public peer)"
  have "length (pqxdh_ikm ?dh1 ?dh2 secrets) \<le> MAX_INPUT_BYTES" "length (anonymous_ikm secrets) \<le> MAX_INPUT_BYTES"
    using secrets(2) sized_primsD(4) [OF P(1)] by (simp_all add: pqxdh_ikm_def MAX_INPUT_BYTES_def)
  then obtain shared key nonce where shared: "pqxdh_secret P (pqxdh_ikm ?dh1 ?dh2 secrets) = Ok shared" "length shared = 32"
    and anon: "anonymous_material P (anonymous_ikm secrets) = Ok (key, nonce)"
    using pqxdh_secret_total [OF P(1)] anonymous_material_total [OF P(1)] by metis
  let ?prefix = "initial_prefix_of (setup_header P peer oc op repair e r sid ct oct [])"
  obtain header where header: "seal_sender P a da db repair key nonce ?prefix = Ok header" "length header \<le> 3000"
    using seal_sender_total [OF P a ids(1,2) verify_repair_authorization_wf [OF auth]
        initial_prefix_length [OF P(1) tape(4) secrets(1)]] by blast
  obtain root chain where root: "kdf_root P shared ?rdh = Ok (root, chain)" "length chain = 32"
    using kdf_root_total [OF P(1) shared(2)] sized_primsD(4) [OF P(1)] by metis
  note step = chain_step_eq [OF P(1) root(2)]
  obtain env tape' where env: "encrypt_envelope P db header (step_message P chain) inner padding = Ok (env, tape')"
    using encrypt_envelope_total [OF P step(2) ids(2), of header inner padding] header(2) sizes(1) tape(6) by auto
  have "sha256 P header = Ok (sha256_raw P header)" using header(2)
    by (simp add: sha256_def bounded_bytes_new_def MAX_INPUT_BYTES_def)
  note run = secrets(1) shared(1) anon root(1) step(1) env this
    header(1) [unfolded initial_prefix_of_def setup_header_def initial_header.simps]
  show ?thesis
    using ids auth(1) tape sizes(2) run dh(1,2,4) [THEN contributory_shared]
    by (simp add: initiate_def sbind_Ok random_bytes_prefix MAX_INPUT_BYTES_def x25519_public_def Let_def ret_apply)
qed

section \<open>A sample pair of devices\<close>

definition sample_initiator :: device_state where
  "sample_initiator = sample_device\<lparr>ds_identity_secret := replicate 32 9, ds_identity_public := replicate 32 9\<rparr>"

definition sample_offer :: peer_bundle where
  "sample_offer = peer_bundle_of (published_claim sample_device (replicate 16 2) (replicate 32 8))
     \<lparr>pk_id = 2, pk_public = replicate 1184 6\<rparr>"

definition sample_one_time :: optional_classical_prekey where
  "sample_one_time = \<lparr>oc_id = 10, oc_public = replicate 32 2\<rparr>"

definition sample_pq_one_time :: optional_pq_prekey where
  "sample_pq_one_time = \<lparr>op_id = 21, op_public = replicate 1184 7\<rparr>"

definition sample_sender :: sender_projection where
  "sample_sender = \<lparr>as_user_id = replicate 16 1, as_device_id = replicate 16 3,
     as_ik_public = replicate 32 3 @ replicate 32 9, as_registration_id = 9, as_bundle_version = 4\<rparr>"

lemma sample_initiator_valid: "device_valid example_prims sample_initiator"
proof -
  have "classical_authentic example_prims sample_initiator = classical_authentic example_prims sample_device"
    "pq_authentic example_prims sample_initiator = pq_authentic example_prims sample_device"
    by (simp_all add: fun_eq_iff classical_authentic_def pq_authentic_def sample_initiator_def)
  then show ?thesis
    using sample_device_valid
    by (auto simp: device_valid_def device_material_def device_fields_wf_def sample_initiator_def)
      (simp add: example_prims_def)
qed

lemma example_kem_pair: "length public = 1184 \<Longrightarrow> kem_pair example_prims public (replicate 1152 0 @ public @ replicate 64 0)"
  unfolding kem_pair_def by (rule exI [of _ public]) (simp add: example_prims_def)

lemma sample_offers:
  "offers example_prims sample_device (replicate 16 2) sample_offer"
  "offers_one_time example_prims sample_device (Some sample_one_time) (Some sample_pq_one_time)"
  using example_kem_pair [of "replicate 1184 6"] example_kem_pair [of "replicate 1184 7"]
  by (simp_all add: offers_def offers_one_time_def sample_offer_def peer_bundle_of_def published_claim_def sample_device_def
      sample_classical_def sample_pq_def sample_one_time_def sample_pq_one_time_def signed_classical_def signed_pq_def
      find_classical_one_time_def find_pq_one_time_def state_ik_public_def)

lemma sample_names: "names_sender sample_initiator (replicate 16 3) sample_sender"
  by (simp add: names_sender_def sample_initiator_def sample_sender_def sample_device_def state_ik_public_def
      ik_from_halves_def)

lemma example_contributory: "contributory example_prims s p"
  by (simp add: contributory_def example_prims_def replicate_32)

lemma example_encapsulates: "encapsulates example_prims public"
  by (simp add: encapsulates_def example_prims_def)

lemma sample_ids:
  "length (replicate 16 3 :: bytes) = 16" "length (replicate 16 2 :: bytes) = 16"
  "\<not> is_zero (replicate 16 3)" "\<not> is_zero (replicate 16 2)" "(replicate 16 3 :: bytes) \<noteq> replicate 16 2"
  by (simp_all add: is_zero_def list_all_iff replicate_eq_replicate)

lemma sample_initiates:
  "\<exists>sa env tape'. initiate example_prims sample_initiator (replicate 16 3) (replicate 16 2) sample_offer
     (Some sample_one_time) (Some sample_pq_one_time) [] [1, 2] 0
     (replicate 32 4 @ replicate 32 5 @ replicate 64 6 @ replicate 16 7 @ replicate 262144 0) = Ok ((sa, env), tape')"
proof (rule initiate_total [OF example_sized example_aead sample_initiator_valid sample_ids(1,2,5)])
  show "verify_repair_authorization example_prims sample_initiator [] = Ok None"
    by (simp add: verify_repair_authorization_def)
  show "\<not> is_zero (replicate 16 (7 :: u8))" by (simp add: is_zero_def list_all_iff)
qed (simp_all add: example_contributory example_encapsulates sample_offer_def peer_bundle_of_def published_claim_def
    MAX_SKIPPED_ACCOUNT_def)

end
