(* ===== verification/Setup_Properties.thy ===== *)
theory Setup_Properties
  imports Setup_Liveness
begin

text \<open>
  The properties of session setup: agreement of the two sides from a published bundle on, refusal of a replayed initial
  envelope, resolution of simultaneous initiation, and the replacement of a session after a repair.
\<close>

section \<open>Agreement\<close>

lemma no_repair: "verify_repair_authorization P a [] = Ok None"
  by (simp add: verify_repair_authorization_def)

lemma no_sessions:
  "check_replaced P b db da (sender_block_of P a da None signature) [] [] = Ok None"
  "check_existing P b db da (sender_block_of P a da None signature) [] = Ok None"
  by (simp_all add: check_replaced_def check_existing_def sender_block_of_def)

lemma nil_small: "length ([] :: bytes) < 2 ^ 64"
  by simp

text \<open>
  C1: session setup agrees. Whenever a device initiates a session from prekeys that another device
  offers, current or retained, with or without one-time prekeys, that device probes and accepts the envelope, opens the
  first message to the text that was sent, and ends with a session linked to the initiator's:
  the same root key and transcript, and a receiving chain that follows the initiator's
  sending chain. Both sessions can be stored and loaded, and the device state that is to be stored
  loads and no longer holds the one-time prekeys that were used.
\<close>

theorem session_setup_agrees:
  assumes P: "sized_prims P" "aead_correct P" "signatures_verify P" "dh_agrees P" "kem_correct P"
    and a: "device_valid P a" and b: "device_inv P b"
    and ids: "length da = 16" "length db = 16" "\<not> is_zero da" "\<not> is_zero db"
    and offers: "offers P b db peer" "offers_one_time P b oc op" and sender: "names_sender a da sender"
    and run: "initiate P a da db peer oc op [] inner other tape = Ok ((sa, env), tape')"
  shows "\<exists>probe acc b' c. probe_initial P b db env = Ok probe
    \<and> accept_initial P b db env (pr_probe_token probe) sender [] [] = Ok acc
    \<and> ai_inner acc = inner \<and> linked P c sa (ai_session acc)
    \<and> rs_root_key (ai_session acc) = rs_root_key sa \<and> rs_transcript_hash (ai_session acc) = rs_transcript_hash sa
    \<and> survives_restart P a sa \<and> decode_ratchet_state P b' (ai_session_state acc) = Ok (ai_session acc)
    \<and> decode_device_state P (ai_next_device_state acc) day = Ok b'
    \<and> (\<forall>key. oc = Some key \<longrightarrow> find_classical_one_time b' (oc_id key) = None)
    \<and> (\<forall>key. op = Some key \<longrightarrow> find_pq_one_time b' (op_id key) = None)"
proof -
  from P a b ids offers nil_small sender run no_repair no_sessions nil_small obtain probe acc b' h e c where
    acc: "probe_initial P b db env = Ok probe" "accept_initial P b db env (pr_probe_token probe) sender [] [] = Ok acc"
      "ai_inner acc = inner"
    and used: "used_up b' h" and stored: "\<forall>day. decode_device_state P (ai_next_device_state acc) day = Ok b'"
      "decode_ratchet_state P b' (ai_session_state acc) = Ok (ai_session acc)"
    and sessions: "linked P c sa (ai_session acc)" "session_inv P sa"
      "rs_root_key (ai_session acc) = rs_root_key sa \<and> rs_transcript_hash (ai_session acc) = rs_transcript_hash sa
        \<and> rs_remote_ratchet_public sa = rs_local_ratchet_public (ai_session acc)
        \<and> rs_remote_device_id (ai_session acc) = rs_local_device_id sa"
    and h: "ih_one_time_prekey_id h = (case oc of Some key \<Rightarrow> oc_id key | None \<Rightarrow> ABSENT_PREKEY_ID)"
      "ih_pq_one_time_prekey_id h = (case op of Some key \<Rightarrow> op_id key | None \<Rightarrow> ABSENT_PREKEY_ID)"
      "ih_flags h = initial_flags (oc \<noteq> None) (op \<noteq> None) ((None :: (bytes \<times> bytes) option) \<noteq> None)"
    by (rule setup_accepted)
  have "length (ds_identity_secret a) = 32" using a by (simp add: device_valid_def device_fields_wf_def)
  then have "survives_restart P a sa"
    using survives_restart_core [OF P(1)] sessions(2) by (simp add: session_inv_def)
  then show ?thesis
    using acc used stored sessions h initial_flags_facts
    by (intro exI [of _ probe] exI [of _ acc] exI [of _ b'] exI [of _ c]) (auto simp: used_up_def)
qed

theorem session_setup_agrees_witness:
  "\<exists>sa env tape' probe acc b' c. initiate example_prims sample_initiator (replicate 16 3) (replicate 16 2) sample_offer
     (Some sample_one_time) (Some sample_pq_one_time) [] [1, 2] 0
     (replicate 32 4 @ replicate 32 5 @ replicate 64 6 @ replicate 16 7 @ replicate 262144 0) = Ok ((sa, env), tape')
   \<and> probe_initial example_prims sample_device (replicate 16 2) env = Ok probe
   \<and> accept_initial example_prims sample_device (replicate 16 2) env (pr_probe_token probe) sample_sender [] [] = Ok acc
   \<and> ai_inner acc = [1, 2] \<and> linked example_prims c sa (ai_session acc)
   \<and> decode_device_state example_prims (ai_next_device_state acc) 120 = Ok b'
   \<and> find_classical_one_time b' 10 = None \<and> find_pq_one_time b' 21 = None"
proof -
  obtain sa env tape' where run: "initiate example_prims sample_initiator (replicate 16 3) (replicate 16 2) sample_offer
     (Some sample_one_time) (Some sample_pq_one_time) [] [1, 2] 0
     (replicate 32 4 @ replicate 32 5 @ replicate 64 6 @ replicate 16 7 @ replicate 262144 0) = Ok ((sa, env), tape')"
    using sample_initiates by blast
  have keys: "oc_id sample_one_time = 10" "op_id sample_pq_one_time = 21"
    by (simp_all add: sample_one_time_def sample_pq_one_time_def)
  obtain probe acc b' c where
    "probe_initial example_prims sample_device (replicate 16 2) env = Ok probe"
    "accept_initial example_prims sample_device (replicate 16 2) env (pr_probe_token probe) sample_sender [] [] = Ok acc"
    "ai_inner acc = [1, 2]" "linked example_prims c sa (ai_session acc)"
    "decode_device_state example_prims (ai_next_device_state acc) 120 = Ok b'"
    "\<forall>key. Some sample_one_time = Some key \<longrightarrow> find_classical_one_time b' (oc_id key) = None"
    "\<forall>key. Some sample_pq_one_time = Some key \<longrightarrow> find_pq_one_time b' (op_id key) = None"
    using session_setup_agrees [OF example_sized example_aead example_signatures example_dh example_kem
      sample_initiator_valid sample_device_inv sample_ids(1-4) sample_offers sample_names run, of 120] by blast
  with run show ?thesis by (metis keys)
qed

section \<open>From the published bundle\<close>

text \<open>
  C12: a session can be initiated from the bundle that a device publishes. The bundle made of a valid device state's
  current signed prekeys and its cross signature is accepted, and from it initiating succeeds
  with or without one-time prekeys, provided the message fits the largest bucket, the key
  exchanges are contributory, encapsulation to the prekeys is possible, the random session identifier is
  not zero and there is enough entropy.
\<close>

theorem initiate_from_published_bundle:
  assumes P: "sized_prims P" "aead_correct P" and a: "device_valid P a" and b: "device_valid P b"
    and ids: "length da = 16" "length db = 16" "da \<noteq> db" "\<not> is_zero db"
    and published: "length ssk = 32" "bundle_cross_signed P b db ssk"
    and dh: "\<forall>s \<in> {ds_identity_secret a, e, r}. contributory P s (cs_public (ds_current_classical b))"
      "contributory P e (ds_identity_public b)" "\<forall>key. oc = Some key \<longrightarrow> contributory P e (oc_public key)"
    and kem: "encapsulates P (ps_public (ds_current_pq b))" "\<forall>key. op = Some key \<longrightarrow> encapsulates P (op_public key)"
    and tape: "length e = 32" "length r = 32" "length coins = (if op = None then 32 else 64)" "length sid = 16"
      "\<not> is_zero sid" "262144 \<le> length padding"
    and sizes: "length inner \<le> 259000" "unat other \<le> MAX_SKIPPED_ACCOUNT"
  shows "\<exists>peer sa env tape'. parse_peer_bundle P (claimed_bundle_bytes (published_claim b db ssk)) = Ok peer
    \<and> initiate P a da db peer oc op [] inner other (e @ r @ coins @ sid @ padding) = Ok ((sa, env), tape')"
proof -
  note claim = published_claim_hybrid [OF b ids(2,4) published]
  let ?peer = "peer_bundle_of (published_claim b db ssk)
      \<lparr>pk_id = ps_id (ds_current_pq b), pk_public = ps_public (ds_current_pq b)\<rparr>"
  have peer: "pb_device_id ?peer = db" "pb_signed_prekey_public ?peer = cs_public (ds_current_classical b)"
    "pb_pq_signed_prekey_public ?peer = ps_public (ds_current_pq b)" "pb_identity_public ?peer = ds_identity_public b"
    using b by (simp_all add: peer_bundle_of_def published_claim_def pb_identity_public_def state_ik_public_def
        ik_from_halves_def device_valid_def device_fields_wf_def)
  from no_repair peer dh have "\<exists>sa env tape'. initiate P a da db ?peer oc op [] inner other (e @ r @ coins @ sid @ padding)
      = Ok ((sa, env), tape')"
    by (intro initiate_total [OF P a ids(1-3) _ _ _ _ _ _ _ _ _ _ tape sizes]) (use kem in simp_all)
  with parse_peer_bundle_accepts [OF claim(3,1,2)] show ?thesis by blast
qed

theorem initiate_from_published_bundle_witness:
  "\<exists>peer sa env tape'.
     parse_peer_bundle example_prims (claimed_bundle_bytes (published_claim sample_device (replicate 16 2) (replicate 32 8)))
       = Ok peer
     \<and> initiate example_prims sample_initiator (replicate 16 3) (replicate 16 2) peer None (Some sample_pq_one_time) [] [1] 0
       (replicate 32 4 @ replicate 32 5 @ replicate 64 6 @ replicate 16 7 @ replicate 262144 0) = Ok ((sa, env), tape')"
proof (rule initiate_from_published_bundle [OF example_sized example_aead sample_initiator_valid sample_device_valid
      sample_ids(1,2,5,4) _ sample_cross_signed])
  show "\<not> is_zero (replicate 16 (7 :: u8))" by (simp add: is_zero_def list_all_iff)
qed (simp_all add: example_contributory example_encapsulates MAX_SKIPPED_ACCOUNT_def)

section \<open>Replay of an initial envelope\<close>

lemma consume_used_Ok:
  assumes "consume_used b h = Ok (b', cid, qid)"
  obtains b1 where "if flag_set (ih_flags h) FLAG_CLASSICAL_ONE_TIME
        then consume_classical_one_time b (ih_one_time_prekey_id h) = Ok b1 \<and> cid = ih_one_time_prekey_id h
        else b1 = b \<and> cid = ABSENT_PREKEY_ID"
    and "if flag_set (ih_flags h) FLAG_PQ_ONE_TIME
        then consume_pq_one_time b1 (ih_pq_one_time_prekey_id h) = Ok b' \<and> qid = ih_pq_one_time_prekey_id h
        else b' = b1 \<and> qid = ABSENT_PREKEY_ID"
  using assms by (auto simp: consume_used_def flag_set_def elim!: monad_elims split: if_splits)

lemma consume_used_gone:
  assumes P: "sized_prims P" "kem_embeds_public P" "signatures_verify P" and b: "device_inv P b"
    and used: "consume_used b h = Ok (b', cid, qid)"
  shows "device_inv P b'" and "(device_step P)\<^sup>*\<^sup>* b' b2 \<Longrightarrow> used_up b2 h"
    and "cid \<noteq> ABSENT_PREKEY_ID \<or> qid \<noteq> ABSENT_PREKEY_ID \<Longrightarrow>
      flag_set (ih_flags h) FLAG_CLASSICAL_ONE_TIME \<or> flag_set (ih_flags h) FLAG_PQ_ONE_TIME"
proof -
  from used obtain b1 where c: "if flag_set (ih_flags h) FLAG_CLASSICAL_ONE_TIME
        then consume_classical_one_time b (ih_one_time_prekey_id h) = Ok b1 \<and> cid = ih_one_time_prekey_id h
        else b1 = b \<and> cid = ABSENT_PREKEY_ID"
    and q: "if flag_set (ih_flags h) FLAG_PQ_ONE_TIME
        then consume_pq_one_time b1 (ih_pq_one_time_prekey_id h) = Ok b' \<and> qid = ih_pq_one_time_prekey_id h
        else b' = b1 \<and> qid = ABSENT_PREKEY_ID"
    by (rule consume_used_Ok)
  have b1: "device_inv P b1" using c b consume_classical_inv by (metis (full_types))
  show "device_inv P b'" using q b1 consume_pq_inv by (metis (full_types))
  show "cid \<noteq> ABSENT_PREKEY_ID \<or> qid \<noteq> ABSENT_PREKEY_ID \<Longrightarrow>
      flag_set (ih_flags h) FLAG_CLASSICAL_ONE_TIME \<or> flag_set (ih_flags h) FLAG_PQ_ONE_TIME"
    using c q by (metis (full_types))
  assume steps: "(device_step P)\<^sup>*\<^sup>* b' b2"
  have "(device_step P)\<^sup>*\<^sup>* b1 b'"
    using q by (cases "flag_set (ih_flags h) FLAG_PQ_ONE_TIME") (auto intro: r_into_rtranclp device_step.Consume_Pq)
  then have steps1: "(device_step P)\<^sup>*\<^sup>* b1 b2" using steps by (rule rtranclp_trans)
  show "used_up b2 h"
    unfolding used_up_def
    using consumed_classical_gone [OF P b _ steps1] consumed_pq_gone [OF P b1 _ steps] c q by (metis (full_types))
qed

lemma used_up_refused:
  assumes "used_up b h"
    and "flag_set (ih_flags h) FLAG_CLASSICAL_ONE_TIME \<or> flag_set (ih_flags h) FLAG_PQ_ONE_TIME"
  shows "\<exists>err. responder_initial_secrets P b h = Err err"
proof (cases "responder_initial_secrets P b h")
  case (Inr secrets)
  then have False
    using assms by (auto simp: responder_initial_secrets_def used_up_def flag_set_def elim!: monad_elims split: if_splits)
  then show ?thesis ..
qed blast

text \<open>
  C5: an initial envelope that uses a one-time prekey is accepted at most once. After it was accepted and the
  returned device state was loaded, whatever prekey operations and restarts follow, probing it and
  accepting it again fails, for every token, sender and session that is supplied.
\<close>

theorem initial_replay_refused:
  assumes P: "sized_prims P" "kem_embeds_public P" "signatures_verify P" and b: "device_inv P b"
    and run: "accept_initial P b db env token sender ex_bytes rep_bytes = Ok acc"
    and load: "decode_device_state P (ai_next_device_state acc) day = Ok b1" and steps: "(device_step P)\<^sup>*\<^sup>* b1 b2"
    and one_time: "ai_consumed_classical_id acc \<noteq> ABSENT_PREKEY_ID \<or> ai_consumed_pq_id acc \<noteq> ABSENT_PREKEY_ID"
  shows "\<exists>err. probe_initial P b2 db env = Err err
    \<and> accept_initial P b2 db env token' sender' ex_bytes' rep_bytes' = Err err"
proof -
  from run obtain e h b' where e: "parse_envelope env = Ok e" "en_header e = Initial h"
    and used: "consume_used b h = Ok (b', ai_consumed_classical_id acc, ai_consumed_pq_id acc)"
    and stored: "encode_device_state P b' = Ok (ai_next_device_state acc)"
    by (rule accept_initial_Ok)
  note gone = consume_used_gone [OF P b used]
  have "b1 = b'" using decode_encode_device_state [OF P(1) device_invD(1) [OF gone(1)] stored, of day] load by simp
  then have "used_up b2 h" using gone(2) steps by simp
  then obtain err where "responder_initial_secrets P b2 h = Err err" using used_up_refused gone(3) one_time by blast
  then have "probe_initial P b2 db env = Err err" using e by (simp add: probe_initial_def)
  then show ?thesis by (simp add: accept_initial_def)
qed

lemma sample_accepted:
  obtains sa env tape' probe acc b' c where
    "initiate example_prims sample_initiator (replicate 16 3) (replicate 16 2) sample_offer
       (Some sample_one_time) (Some sample_pq_one_time) [] [1, 2] 0
       (replicate 32 4 @ replicate 32 5 @ replicate 64 6 @ replicate 16 7 @ replicate 262144 0) = Ok ((sa, env), tape')"
    and "probe_initial example_prims sample_device (replicate 16 2) env = Ok probe"
    and "accept_initial example_prims sample_device (replicate 16 2) env (pr_probe_token probe) sample_sender [] [] = Ok acc"
    and "\<forall>day. decode_device_state example_prims (ai_next_device_state acc) day = Ok b'"
    and "ai_consumed_classical_id acc = 10" and "ai_consumed_pq_id acc = 21"
proof -
  obtain sa env tape' where run: "initiate example_prims sample_initiator (replicate 16 3) (replicate 16 2) sample_offer
     (Some sample_one_time) (Some sample_pq_one_time) [] [1, 2] 0
     (replicate 32 4 @ replicate 32 5 @ replicate 64 6 @ replicate 16 7 @ replicate 262144 0) = Ok ((sa, env), tape')"
    using sample_initiates by blast
  from example_sized example_aead example_signatures example_dh example_kem sample_initiator_valid sample_device_inv
    sample_ids(1-4) sample_offers nil_small sample_names run no_repair no_sessions nil_small
  obtain probe acc b' h e where acc: "probe_initial example_prims sample_device (replicate 16 2) env = Ok probe"
      "accept_initial example_prims sample_device (replicate 16 2) env (pr_probe_token probe) sample_sender [] [] = Ok acc"
      "\<forall>day. decode_device_state example_prims (ai_next_device_state acc) day = Ok b'"
    and e: "parse_envelope env = Ok e" "en_header e = Initial h"
    and h: "ih_one_time_prekey_id h = (case Some sample_one_time of Some key \<Rightarrow> oc_id key | None \<Rightarrow> ABSENT_PREKEY_ID)"
      "ih_pq_one_time_prekey_id h = (case Some sample_pq_one_time of Some key \<Rightarrow> op_id key | None \<Rightarrow> ABSENT_PREKEY_ID)"
      "ih_flags h = initial_flags (Some sample_one_time \<noteq> None) (Some sample_pq_one_time \<noteq> None)
        ((None :: (bytes \<times> bytes) option) \<noteq> None)"
    by (rule setup_accepted)
  from acc(2) obtain e' h' b1 where "parse_envelope env = Ok e'" "en_header e' = Initial h'"
    and used: "consume_used sample_device h' = Ok (b1, ai_consumed_classical_id acc, ai_consumed_pq_id acc)"
    by (rule accept_initial_Ok)
  then have "h' = h" using e by simp
  then have "ai_consumed_classical_id acc = 10" "ai_consumed_pq_id acc = 21"
    using used h initial_flags_facts(2,3)
    by (auto elim!: consume_used_Ok simp: sample_one_time_def sample_pq_one_time_def)
  with run acc show thesis by (rule that)
qed

theorem initial_replay_refused_witness:
  "\<exists>env probe acc b1 err. probe_initial example_prims sample_device (replicate 16 2) env = Ok probe
     \<and> accept_initial example_prims sample_device (replicate 16 2) env (pr_probe_token probe) sample_sender [] [] = Ok acc
     \<and> decode_device_state example_prims (ai_next_device_state acc) 120 = Ok b1
     \<and> accept_initial example_prims (prune_retired b1 200) (replicate 16 2) env (pr_probe_token probe) sample_sender [] []
       = Err err"
proof -
  obtain env probe acc b1 where acc: "probe_initial example_prims sample_device (replicate 16 2) env = Ok probe"
    "accept_initial example_prims sample_device (replicate 16 2) env (pr_probe_token probe) sample_sender [] [] = Ok acc"
    "\<forall>day. decode_device_state example_prims (ai_next_device_state acc) day = Ok b1" "ai_consumed_classical_id acc = 10"
    by (rule sample_accepted)
  have "(device_step example_prims)\<^sup>*\<^sup>* b1 (prune_retired b1 200)"
    by (rule r_into_rtranclp) (rule device_step.Prune)
  then obtain err where
    "accept_initial example_prims (prune_retired b1 200) (replicate 16 2) env (pr_probe_token probe) sample_sender [] []
      = Err err"
    using initial_replay_refused [OF example_sized example_embeds example_signatures sample_device_inv acc(2)
      acc(3) [rule_format, of 120], of _ "pr_probe_token probe" sample_sender "[]" "[]"] acc(4)
    by (auto simp: ABSENT_PREKEY_ID_def)
  with acc show ?thesis by blast
qed

end
