(* ===== verification/Setup_Conflicts.thy ===== *)
theory Setup_Conflicts
  imports Setup_Properties
begin

text \<open>
  Setup against an existing session: two devices that initiate at the same time, what becomes of the session that
  loses, and the replacement of a session that was asked to be repaired.
\<close>

section \<open>Loading what was stored\<close>

text \<open>A well-formed state that was stored loads exactly when it is valid.\<close>

lemma stored_loads_iff:
  assumes P: "sized_prims P" and wf: "ratchet_fields_wf st" "skipped_sorted (rs_skipped st)"
    and enc: "encode_ratchet_state P device st = Ok bs"
  shows "(\<exists>st'. decode_ratchet_state P device bs = Ok st') \<longleftrightarrow> ratchet_valid P st"
proof
  obtain tag where tag: "bs = ratchet_body st @ tag" "ratchet_tag P device st = Ok tag"
    using enc encode_ratchet_state_eq [of st P device] wf
    by (cases "ratchet_tag P device st") (auto simp: ratchet_fields_wf_def)
  have len: "length bs < 2 ^ 64" using ratchet_body_layout(4) [OF wf(1)] ratchet_tag_length [OF P tag(2)] tag(1) by simp
  assume "\<exists>st'. decode_ratchet_state P device bs = Ok st'"
  then obtain st' tag' where st': "bs = ratchet_body st' @ tag'" "ratchet_valid P st'"
    using decode_ratchet_state_Ok_iff [OF len] by blast
  have "st' = st"
    using ratchet_codec.prefix_free [OF ratchet_validD(1) [OF st'(2)] wf(1), of tag' tag] st'(1) tag(1) len by metis
  with st'(2) show "ratchet_valid P st" by simp
next
  assume "ratchet_valid P st"
  then show "\<exists>st'. decode_ratchet_state P device bs = Ok st'" using ratchet_store.load_store [OF P _ enc] by blast
qed

section \<open>Simultaneous initiation\<close>

lemma initiated_session_valid:
  assumes "sized_prims P" and "aead_correct P" and "signatures_verify P" and "dh_agrees P" and "kem_correct P"
    and "device_valid P a" and "device_inv P b" and "length da = 16" and "length db = 16" and "\<not> is_zero da" and "\<not> is_zero db"
    and "offers P b db peer" and "offers_one_time P b oc op" and "names_sender a da sender"
    and run: "initiate P a da db peer oc op [] inner other tape = Ok ((sa, env), tape')"
  shows "session_inv P sa" and "rs_local_device_id sa = da" and "rs_remote_device_id sa = db"
    and "rs_initiator_device_id sa = da" and "rs_primary sa" and "\<not> rs_receive_only sa" and "rs_send_count sa = 1"
proof -
  from assms(1-13) nil_small assms(14) run no_repair no_sessions nil_small show "session_inv P sa"
    by (rule setup_accepted)
  from run show "rs_local_device_id sa = da" "rs_remote_device_id sa = db" "rs_initiator_device_id sa = da"
    "rs_primary sa" "\<not> rs_receive_only sa" "rs_send_count sa = 1"
    by (auto simp: initiated_session_def elim!: initiate_Ok)
qed

lemma session_stored:
  assumes "sized_prims P" and "session_inv P st" and "encode_ratchet_state P device st = Ok bs"
  shows "decode_ratchet_state P device bs = Ok st" and "bs \<noteq> []" and "length bs < 2 ^ 64"
proof -
  have valid: "ratchet_valid P st" using assms(2) by (simp add: session_inv_iff)
  show "decode_ratchet_state P device bs = Ok st" by (rule ratchet_store.load_store [OF assms(1) valid assms(3)])
  obtain tag where tag: "bs = ratchet_body st @ tag" "ratchet_tag P device st = Ok tag"
    using assms(3) encode_ratchet_state_eq [OF ratchet_validD(4,2) [OF valid], of P device]
    by (cases "ratchet_tag P device st") auto
  then show "bs \<noteq> []" "length bs < 2 ^ 64"
    using ratchet_body_layout(3,4) [OF ratchet_validD(1) [OF valid]] ratchet_tag_length [OF assms(1) tag(2)] by auto
qed

text \<open>What the acceptance of an initial envelope does to the two sessions is decided by whether the new one is primary.\<close>

lemma acceptance_decides:
  assumes run: "accept_initial P b db env token sender ex_bytes rep_bytes = Ok acc"
    and load: "decode_ratchet_state P b ex_bytes = Ok x" "ex_bytes \<noteq> []"
  shows "rs_receive_only (ai_session acc) = (\<not> rs_primary (ai_session acc))"
    and "ai_disposition acc = (if rs_primary (ai_session acc) then 0 else 1)"
    and "rs_primary (ai_session acc) \<Longrightarrow> encode_ratchet_state P b (demote x) = Ok (ai_updated_existing_state acc)"
    and "\<not> rs_primary (ai_session acc) \<Longrightarrow> ai_updated_existing_state acc = []"
proof -
  from run obtain probe h y th root nxt k where "probe_initial P b db env = Ok probe"
    and check: "check_existing P b db (as_device_id sender) (pr_sender probe) ex_bytes = Ok y"
    and session: "ai_session acc = accepted_session h db (as_device_id sender) th
      (incoming_wins (pr_sender probe) y (as_device_id sender) db) root nxt k"
    and disposition: "ai_disposition acc = (if incoming_wins (pr_sender probe) y (as_device_id sender) db then 0 else 1)"
    and updated: "(case y of
        Some x \<Rightarrow> if incoming_wins (pr_sender probe) y (as_device_id sender) db
                  then encode_ratchet_state P b (demote x) else Ok []
      | None \<Rightarrow> Ok []) = Ok (ai_updated_existing_state acc)"
    by (rule accept_initial_Ok)
  have y: "y = Some x" using check load by (auto simp: check_existing_def elim!: monad_elims split: if_splits)
  have wins: "rs_primary (ai_session acc) = incoming_wins (pr_sender probe) y (as_device_id sender) db"
    by (simp add: session accepted_session_def)
  show "rs_receive_only (ai_session acc) = (\<not> rs_primary (ai_session acc))" by (simp add: session accepted_session_def)
  show "ai_disposition acc = (if rs_primary (ai_session acc) then 0 else 1)" using disposition wins by simp
  show "encode_ratchet_state P b (demote x) = Ok (ai_updated_existing_state acc)" if "rs_primary (ai_session acc)"
    using that updated by (simp add: wins y)
  show "ai_updated_existing_state acc = []" if "\<not> rs_primary (ai_session acc)"
    using that updated by (simp add: wins y)
qed

text \<open>A valid session that is demoted and stored loads again exactly when it has not sent in its current chain.\<close>

lemma demoted_loads_iff:
  assumes P: "sized_prims P" and valid: "ratchet_valid P x" and enc: "encode_ratchet_state P b (demote x) = Ok bs"
  shows "(\<exists>st. decode_ratchet_state P b bs = Ok st) \<longleftrightarrow> rs_send_count x = 0"
proof -
  have wf: "ratchet_fields_wf (demote x)" "skipped_sorted (rs_skipped (demote x))"
    using ratchet_validD(1,2) [OF valid] by (simp_all add: demote_def ratchet_fields_wf_def secret_option_wf_def)
  have "ratchet_valid P (demote x) \<longleftrightarrow> rs_send_count x = 0"
    using valid wf by (auto simp: ratchet_valid_def ratchet_consistent_def demote_def word_gt_0)
  with stored_loads_iff [OF P wf enc] show ?thesis by simp
qed

text \<open>
  C10: simultaneous initiation is resolved the same way on both devices. When two devices have initiated
  a session to each other, each accepts the other's envelope against its own stored session, opens the message in it and
  holds a session that is linked with the initiator's. The session initiated by the device with the smaller
  identifier is primary on both sides: its initiator keeps it as it is, and the other device accepts it as primary.
  The other session sends on neither side: the device with the smaller identifier accepts it as receive-only, and its
  initiator gets it back without a sending chain, not primary and receive-only. These bytes, however,
  cannot be loaded again, because the demoted session still counts the message it has sent.
\<close>

theorem simultaneous_initiation_resolved:
  assumes P: "sized_prims P" "aead_correct P" "signatures_verify P" "dh_agrees P" "kem_correct P"
    and inv: "device_inv P a" "device_inv P b"
    and ids: "length da = 16" "length db = 16" "\<not> is_zero da" "\<not> is_zero db"
    and offers_b: "offers P b db peer_b" "offers_one_time P b oc_b op_b" and sender_a: "names_sender a da sender_a"
    and offers_a: "offers P a da peer_a" "offers_one_time P a oc_a op_a" and sender_b: "names_sender b db sender_b"
    and run_a: "initiate P a da db peer_b oc_b op_b [] inner_a other_a tape_a = Ok ((sa, env_a), tape_a')"
    and run_b: "initiate P b db da peer_a oc_a op_a [] inner_b other_b tape_b = Ok ((sb, env_b), tape_b')"
    and stored: "encode_ratchet_state P a sa = Ok bytes_a" "encode_ratchet_state P b sb = Ok bytes_b"
  shows "\<exists>probe_a acc_a probe_b acc_b c_a c_b.
      probe_initial P b db env_a = Ok probe_b
    \<and> accept_initial P b db env_a (pr_probe_token probe_b) sender_a bytes_b [] = Ok acc_b
    \<and> probe_initial P a da env_b = Ok probe_a
    \<and> accept_initial P a da env_b (pr_probe_token probe_a) sender_b bytes_a [] = Ok acc_a
    \<and> ai_inner acc_b = inner_a \<and> ai_inner acc_a = inner_b
    \<and> linked P c_a sa (ai_session acc_b) \<and> linked P c_b sb (ai_session acc_a)
    \<and> rs_primary (ai_session acc_b) = (da < db) \<and> rs_receive_only (ai_session acc_b) = (\<not> da < db)
    \<and> rs_primary (ai_session acc_a) = (\<not> da < db) \<and> rs_receive_only (ai_session acc_a) = (da < db)
    \<and> rs_primary sa \<and> \<not> rs_receive_only sa \<and> rs_primary sb \<and> \<not> rs_receive_only sb
    \<and> (if da < db
       then ai_updated_existing_state acc_a = []
         \<and> encode_ratchet_state P b (sb\<lparr>rs_sending_chain := None, rs_primary := False, rs_receive_only := True\<rparr>)
           = Ok (ai_updated_existing_state acc_b)
         \<and> (\<forall>st. decode_ratchet_state P b (ai_updated_existing_state acc_b) \<noteq> Ok st)
       else ai_updated_existing_state acc_b = []
         \<and> encode_ratchet_state P a (sa\<lparr>rs_sending_chain := None, rs_primary := False, rs_receive_only := True\<rparr>)
           = Ok (ai_updated_existing_state acc_a)
         \<and> (\<forall>st. decode_ratchet_state P a (ai_updated_existing_state acc_a) \<noteq> Ok st))"
proof -
  note av = device_invD(1) [OF inv(1)] and bv = device_invD(1) [OF inv(2)]
  note sa = initiated_session_valid [OF P av inv(2) ids offers_b sender_a run_a]
  note sb = initiated_session_valid [OF P bv inv(1) ids(2,1,4,3) offers_a sender_b run_b]
  note load_a = session_stored [OF P(1) sa(1) stored(1)] and load_b = session_stored [OF P(1) sb(1) stored(2)]
  have neq: "da \<noteq> db" using run_a by (rule initiate_Ok)
  have replaced: "check_replaced P x dx dy (sender_block_of P y dy None signature) ex [] = Ok None" for x dx y dy signature ex
    by (simp add: check_replaced_def sender_block_of_def)
  have ex_b: "check_existing P b db da (sender_block_of P a da None signature) bytes_b = Ok (Some sb)" for signature
    using load_b sb by (simp add: check_existing_def sender_block_of_def)
  have ex_a: "check_existing P a da db (sender_block_of P b db None signature) bytes_a = Ok (Some sa)" for signature
    using load_a sa by (simp add: check_existing_def sender_block_of_def)
  from P av inv(2) ids offers_b nil_small sender_a run_a no_repair replaced ex_b load_b(3)
  obtain probe_b acc_b c_a where b: "probe_initial P b db env_a = Ok probe_b"
    "accept_initial P b db env_a (pr_probe_token probe_b) sender_a bytes_b [] = Ok acc_b" "ai_inner acc_b = inner_a"
    "linked P c_a sa (ai_session acc_b)"
    "rs_primary (ai_session acc_b) \<longleftrightarrow> (None :: (bytes \<times> bytes) option) \<noteq> None \<or> Some sb = None \<or> da < db"
    by (rule setup_accepted)
  from P bv inv(1) ids(2,1,4,3) offers_a nil_small sender_b run_b no_repair replaced ex_a load_a(3)
  obtain probe_a acc_a c_b where a: "probe_initial P a da env_b = Ok probe_a"
    "accept_initial P a da env_b (pr_probe_token probe_a) sender_b bytes_a [] = Ok acc_a" "ai_inner acc_a = inner_b"
    "linked P c_b sb (ai_session acc_a)"
    "rs_primary (ai_session acc_a) \<longleftrightarrow> (None :: (bytes \<times> bytes) option) \<noteq> None \<or> Some sa = None \<or> db < da"
    by (rule setup_accepted)
  have order: "db < da \<longleftrightarrow> \<not> da < db" using neq linorder_less_linear [of da db] by auto
  note decided_a = acceptance_decides [OF a(2) load_a(1,2)] and decided_b = acceptance_decides [OF b(2) load_b(1,2)]
  have valid: "ratchet_valid P sa" "ratchet_valid P sb" using sa(1) sb(1) by (simp_all add: session_inv_iff)
  have lost: "\<forall>st. decode_ratchet_state P b bs \<noteq> Ok st" if "encode_ratchet_state P b (demote sb) = Ok bs" for bs
    using demoted_loads_iff [OF P(1) valid(2) that] sb(7) by auto
  have lost': "\<forall>st. decode_ratchet_state P a bs \<noteq> Ok st" if "encode_ratchet_state P a (demote sa) = Ok bs" for bs
    using demoted_loads_iff [OF P(1) valid(1) that] sa(7) by auto
  show ?thesis
    using a b decided_a decided_b lost lost' order sa(5,6) sb(5,6)
    by (intro exI [of _ probe_a] exI [of _ acc_a] exI [of _ probe_b] exI [of _ acc_b] exI [of _ c_a] exI [of _ c_b])
      (simp add: demote_def)
qed

text \<open>The second sample direction: the responder of the first one initiates towards its initiator.\<close>

definition sample_counter_offer :: peer_bundle where
  "sample_counter_offer = peer_bundle_of (published_claim sample_initiator (replicate 16 3) (replicate 32 8))
     \<lparr>pk_id = 2, pk_public = replicate 1184 6\<rparr>"

definition sample_counter_sender :: sender_projection where
  "sample_counter_sender = \<lparr>as_user_id = replicate 16 1, as_device_id = replicate 16 2,
     as_ik_public = replicate 32 3 @ replicate 32 4, as_registration_id = 9, as_bundle_version = 2\<rparr>"

lemma sample_initiator_inv: "device_inv example_prims sample_initiator"
  using sample_initiator_valid sample_device_inv
  by (simp add: device_inv_def signed_ids_ordered_def projection_small_def sample_initiator_def)

lemma sample_counter_offers:
  "offers example_prims sample_initiator (replicate 16 3) sample_counter_offer"
  "offers_one_time P b None None"
  using example_kem_pair [of "replicate 1184 6"]
  by (simp_all add: offers_def offers_one_time_def sample_counter_offer_def sample_initiator_def peer_bundle_of_def
      published_claim_def sample_device_def sample_classical_def sample_pq_def signed_classical_def signed_pq_def
      state_ik_public_def)

lemma sample_counter_names: "names_sender sample_device (replicate 16 2) sample_counter_sender"
  by (simp add: names_sender_def sample_counter_sender_def sample_device_def state_ik_public_def ik_from_halves_def)

lemma replicate_16: "replicate 16 x = x # replicate 15 x"
  using replicate_Suc [of 15 x] by simp

lemma sample_counter_initiates:
  "\<exists>sb env tape'. initiate example_prims sample_device (replicate 16 2) (replicate 16 3) sample_counter_offer
     None None [] [3] 0 (replicate 32 4 @ replicate 32 5 @ replicate 32 6 @ replicate 16 8 @ replicate 262144 0)
     = Ok ((sb, env), tape')"
proof (rule initiate_total [OF example_sized example_aead sample_device_valid sample_ids(2,1) sample_ids(5) [symmetric]])
  show "verify_repair_authorization example_prims sample_device [] = Ok None" by (rule no_repair)
  show "\<not> is_zero (replicate 16 (8 :: u8))" by (simp add: is_zero_def list_all_iff)
qed (simp_all add: example_contributory example_encapsulates sample_counter_offer_def peer_bundle_of_def
    published_claim_def MAX_SKIPPED_ACCOUNT_def)

lemma sample_sessions:
  obtains sa env_a tape_a sb env_b tape_b bytes_a bytes_b where
    "initiate example_prims sample_initiator (replicate 16 3) (replicate 16 2) sample_offer (Some sample_one_time)
       (Some sample_pq_one_time) [] [1, 2] 0
       (replicate 32 4 @ replicate 32 5 @ replicate 64 6 @ replicate 16 7 @ replicate 262144 0) = Ok ((sa, env_a), tape_a)"
    and "initiate example_prims sample_device (replicate 16 2) (replicate 16 3) sample_counter_offer
       None None [] [3] 0 (replicate 32 4 @ replicate 32 5 @ replicate 32 6 @ replicate 16 8 @ replicate 262144 0)
       = Ok ((sb, env_b), tape_b)"
    and "encode_ratchet_state example_prims sample_initiator sa = Ok bytes_a"
    and "encode_ratchet_state example_prims sample_device sb = Ok bytes_b"
    and "session_inv example_prims sa" and "rs_send_count sa = 1" and "rs_local_device_id sa = replicate 16 3"
    and "rs_remote_device_id sa = replicate 16 2" and "rs_initiator_device_id sa = replicate 16 3" and "rs_primary sa"
    and "\<not> rs_receive_only sa"
proof -
  obtain sa env_a tape_a where a: "initiate example_prims sample_initiator (replicate 16 3) (replicate 16 2) sample_offer
       (Some sample_one_time) (Some sample_pq_one_time) [] [1, 2] 0
       (replicate 32 4 @ replicate 32 5 @ replicate 64 6 @ replicate 16 7 @ replicate 262144 0) = Ok ((sa, env_a), tape_a)"
    using sample_initiates by blast
  obtain sb env_b tape_b where b: "initiate example_prims sample_device (replicate 16 2) (replicate 16 3)
       sample_counter_offer None None [] [3] 0
       (replicate 32 4 @ replicate 32 5 @ replicate 32 6 @ replicate 16 8 @ replicate 262144 0) = Ok ((sb, env_b), tape_b)"
    using sample_counter_initiates by blast
  note sa = initiated_session_valid [OF example_sized example_aead example_signatures example_dh example_kem
      sample_initiator_valid sample_device_inv sample_ids(1-4) sample_offers sample_names a]
  note sb = initiated_session_valid [OF example_sized example_aead example_signatures example_dh example_kem
      sample_device_valid sample_initiator_inv sample_ids(2,1,4,3) sample_counter_offers sample_counter_names b]
  have secrets: "length (ds_identity_secret sample_initiator) = 32" "length (ds_identity_secret sample_device) = 32"
    using sample_initiator_valid sample_device_valid by (simp_all add: device_valid_def device_fields_wf_def)
  have core: "session_core example_prims sa" "session_core example_prims sb"
    using sa(1) sb(1) by (simp_all add: session_inv_def)
  obtain bytes_a where bytes_a: "encode_ratchet_state example_prims sample_initiator sa = Ok bytes_a"
    by (rule encode_ratchet_state_total [OF example_sized secrets(1) session_coreD(1,2) [OF core(1)]])
  obtain bytes_b where bytes_b: "encode_ratchet_state example_prims sample_device sb = Ok bytes_b"
    by (rule encode_ratchet_state_total [OF example_sized secrets(2) session_coreD(1,2) [OF core(2)]])
  from a b bytes_a bytes_b sa(1,7,2-6) show thesis by (rule that)
qed

theorem simultaneous_initiation_resolved_witness:
  "\<exists>env_a env_b bytes_a bytes_b probe_a acc_a probe_b acc_b.
      probe_initial example_prims sample_device (replicate 16 2) env_a = Ok probe_b
    \<and> accept_initial example_prims sample_device (replicate 16 2) env_a (pr_probe_token probe_b) sample_sender bytes_b []
      = Ok acc_b
    \<and> probe_initial example_prims sample_initiator (replicate 16 3) env_b = Ok probe_a
    \<and> accept_initial example_prims sample_initiator (replicate 16 3) env_b (pr_probe_token probe_a) sample_counter_sender
      bytes_a [] = Ok acc_a
    \<and> ai_inner acc_b = [1, 2] \<and> ai_inner acc_a = [3]
    \<and> \<not> rs_primary (ai_session acc_b) \<and> rs_receive_only (ai_session acc_b)
    \<and> rs_primary (ai_session acc_a) \<and> \<not> rs_receive_only (ai_session acc_a)
    \<and> ai_updated_existing_state acc_b = []
    \<and> (\<forall>st. decode_ratchet_state example_prims sample_initiator (ai_updated_existing_state acc_a) \<noteq> Ok st)"
proof -
  obtain sa env_a tape_a sb env_b tape_b bytes_a bytes_b where
    a: "initiate example_prims sample_initiator (replicate 16 3) (replicate 16 2) sample_offer (Some sample_one_time)
       (Some sample_pq_one_time) [] [1, 2] 0
       (replicate 32 4 @ replicate 32 5 @ replicate 64 6 @ replicate 16 7 @ replicate 262144 0) = Ok ((sa, env_a), tape_a)"
    and b: "initiate example_prims sample_device (replicate 16 2) (replicate 16 3) sample_counter_offer
       None None [] [3] 0 (replicate 32 4 @ replicate 32 5 @ replicate 32 6 @ replicate 16 8 @ replicate 262144 0)
       = Ok ((sb, env_b), tape_b)"
    and bytes: "encode_ratchet_state example_prims sample_initiator sa = Ok bytes_a"
      "encode_ratchet_state example_prims sample_device sb = Ok bytes_b"
    by (rule sample_sessions)
  have less: "((replicate 16 3 :: bytes) < replicate 16 2) = False" by (simp add: replicate_16)
  from simultaneous_initiation_resolved [OF example_sized example_aead example_signatures example_dh example_kem
      sample_initiator_inv sample_device_inv sample_ids(1-4) sample_offers sample_names sample_counter_offers
      sample_counter_names a b bytes, unfolded less if_False]
  show ?thesis by blast
qed

section \<open>The session that loses\<close>

text \<open>
  C31: when an accepted initial envelope wins against an existing session, the bytes returned for the existing session
  load again exactly when it has not sent in its current chain. A session that was just initiated
  has sent its first message, so its demoted form is refused when it is loaded.
\<close>

theorem demoted_session_loads_iff:
  assumes P: "sized_prims P" and b: "device_inv P b"
    and load: "decode_ratchet_state P b existing = Ok x" and existing: "existing \<noteq> []" "length existing < 2 ^ 64"
    and run: "accept_initial P b db env token sender existing replaced = Ok acc"
    and wins: "as_device_id sender < db"
  shows "(\<exists>st. decode_ratchet_state P b (ai_updated_existing_state acc) = Ok st) \<longleftrightarrow> rs_send_count x = 0"
proof -
  from run obtain probe y where "probe_initial P b db env = Ok probe" and check: "check_existing P b db (as_device_id sender) (pr_sender probe) existing = Ok y"
    and updated: "(case y of
        Some x \<Rightarrow> if incoming_wins (pr_sender probe) y (as_device_id sender) db
                  then encode_ratchet_state P b (demote x) else Ok []
      | None \<Rightarrow> Ok []) = Ok (ai_updated_existing_state acc)"
    by (rule accept_initial_Ok)
  have y: "y = Some x" using check load existing(1) by (auto simp: check_existing_def elim!: monad_elims split: if_splits)
  note valid = check_existing_valid(1) [OF check [unfolded y] existing(2)]
  have enc: "encode_ratchet_state P b (demote x) = Ok (ai_updated_existing_state acc)"
    using updated wins by (simp add: y incoming_wins_def)
  show ?thesis by (rule demoted_loads_iff [OF P valid enc])
qed

theorem demoted_session_loads_iff_witness:
  "\<exists>existing x env token acc. decode_ratchet_state example_prims sample_initiator existing = Ok x \<and> rs_send_count x = 1
     \<and> accept_initial example_prims sample_initiator (replicate 16 3) env token sample_counter_sender existing [] = Ok acc
     \<and> \<not> (\<exists>st. decode_ratchet_state example_prims sample_initiator (ai_updated_existing_state acc) = Ok st)"
proof -
  obtain sa sb env tape bytes where
    b: "initiate example_prims sample_device (replicate 16 2) (replicate 16 3) sample_counter_offer
       None None [] [3] 0 (replicate 32 4 @ replicate 32 5 @ replicate 32 6 @ replicate 16 8 @ replicate 262144 0)
       = Ok ((sb, env), tape)"
    and bytes: "encode_ratchet_state example_prims sample_initiator sa = Ok bytes"
    and sa: "session_inv example_prims sa" "rs_send_count sa = 1" "rs_local_device_id sa = replicate 16 3"
      "rs_remote_device_id sa = replicate 16 2" "rs_initiator_device_id sa = replicate 16 3" "rs_primary sa"
      "\<not> rs_receive_only sa"
    by (rule sample_sessions)
  note load = session_stored [OF example_sized sa(1) bytes]
  have replaced: "check_replaced P x dx dy (sender_block_of P y dy None signature) ex [] = Ok None" for P x dx y dy signature ex
    by (simp add: check_replaced_def sender_block_of_def)
  have ex: "check_existing example_prims sample_initiator (replicate 16 3) (replicate 16 2)
      (sender_block_of example_prims sample_device (replicate 16 2) None signature) bytes = Ok (Some sa)" for signature
    using load sa by (simp add: check_existing_def sender_block_of_def)
  from example_sized example_aead example_signatures example_dh example_kem sample_device_valid sample_initiator_inv
    sample_ids(2,1,4,3) sample_counter_offers nil_small sample_counter_names b no_repair replaced ex load(3)
  obtain probe acc where "probe_initial example_prims sample_initiator (replicate 16 3) env = Ok probe"
    and acc: "accept_initial example_prims sample_initiator (replicate 16 3) env (pr_probe_token probe) sample_counter_sender
      bytes [] = Ok acc"
    by (rule setup_accepted)
  have "as_device_id sample_counter_sender < replicate 16 3"
    by (simp add: sample_counter_sender_def replicate_16)
  then have "\<not> (\<exists>st. decode_ratchet_state example_prims sample_initiator (ai_updated_existing_state acc) = Ok st)"
    using demoted_session_loads_iff [OF example_sized sample_initiator_inv load acc] sa(2) by simp
  with load(1) acc sa(2) show ?thesis by blast
qed

section \<open>Replacing a session after a repair request\<close>

lemma authorization_verifies:
  assumes P: "sized_prims P" and st: "ratchet_fields_wf st" and token: "rs_received_repair_token st = Some token"
    and run: "consume_repair_authorization P device st = Ok (st', authorization)"
  shows "verify_repair_authorization P device authorization = Ok (Some (rs_session_id st, token))"
    and "length authorization < 2 ^ 64" and "rs_received_repair_token st' = None"
proof -
  let ?body = "REPAIR_AUTH_MAGIC @ rs_session_id st @ token"
  from run token obtain key tag where key: "device_probe_key P (ds_identity_secret device) = Ok key"
    and tag: "hmac_sha256 P key (REPAIR_DOMAIN @ ?body) = Ok tag"
    and auth: "authorization = ?body @ tag" and st': "st' = st\<lparr>rs_received_repair_token := None\<rparr>"
    by (auto simp: consume_repair_authorization_def Let_def elim!: monad_elims)
  have len: "length (rs_session_id st) = 16" "length token = 32" "length tag = 32"
    using st token hmac_length [OF P tag] by (auto simp: ratchet_fields_wf_def secret_option_wf_def)
  have eq: "authorization = REPAIR_AUTH_MAGIC @ rs_session_id st @ token @ tag @ []" by (simp add: auth)
  show small: "length authorization < 2 ^ 64" using len by (simp add: auth)
  have "reads_to_end parse_repair_authorization authorization (rs_session_id st, token, tag)"
    unfolding parse_repair_authorization_def eq by (intro ends_intros) (use len in auto)
  from reads_to_end_new [OF this small] have "run_parser parse_repair_authorization authorization
      = Ok (rs_session_id st, token, tag)" by (simp add: run_parser_def)
  then show "verify_repair_authorization P device authorization = Ok (Some (rs_session_id st, token))"
    using key tag len auth by (auto simp: verify_repair_authorization_def Let_def)
  show "rs_received_repair_token st' = None" by (simp add: st')
qed

text \<open>
  C11: a repair replaces the session. When the peer has received the repair request of a device and turns it into an
  authorization, the session that it initiates with it is accepted by the device that holds the
  issued token: the message opens, the old session is named for replacement, the new one
  is primary and linked with the peer's. The authorization spends the token of the peer.
\<close>

theorem repair_replaces_session:
  assumes P: "sized_prims P" "aead_correct P" "signatures_verify P" "dh_agrees P" "kem_correct P"
    and a: "device_valid P a" and b: "device_inv P b"
    and ids: "length da = 16" "length db = 16" "\<not> is_zero da" "\<not> is_zero db"
    and offers: "offers P b db peer" "offers_one_time P b oc op" and sender: "names_sender a da sender"
    and old_a: "session_inv P old_a" "rs_received_repair_token old_a = Some t"
    and auth: "consume_repair_authorization P a old_a = Ok (old_a', authorization)"
    and old_b: "session_inv P old_b" "rs_issued_repair_token old_b = Some t" "rs_session_id old_b = rs_session_id old_a"
      "rs_local_device_id old_b = db" "rs_remote_device_id old_b = da"
    and stored: "encode_ratchet_state P b old_b = Ok bytes"
    and run: "initiate P a da db peer oc op authorization inner other tape = Ok ((sa, env), tape')"
  shows "\<exists>probe acc c. probe_initial P b db env = Ok probe
    \<and> accept_initial P b db env (pr_probe_token probe) sender [] bytes = Ok acc
    \<and> ai_inner acc = inner \<and> ai_replaced_session_id acc = Some (rs_session_id old_b)
    \<and> rs_primary (ai_session acc) \<and> linked P c sa (ai_session acc) \<and> rs_received_repair_token old_a' = None"
proof -
  have wf: "ratchet_fields_wf old_a" using old_a(1) by (simp add: session_inv_def session_core_def)
  note repair = authorization_verifies [OF P(1) wf old_a(2) auth]
  note load = session_stored [OF P(1) old_b(1) stored]
  have replaced: "check_replaced P b db da (sender_block_of P a da (Some (rs_session_id old_a, t)) signature) [] bytes
      = Ok (Some (rs_session_id old_b))" for signature
    using load old_b by (simp add: check_replaced_def sender_block_of_def)
  have existing: "check_existing P b db da (sender_block_of P a da (Some (rs_session_id old_a, t)) signature) [] = Ok None"
    for signature
    by (simp add: check_existing_def)
  from P a b ids offers repair(2) sender run repair(1) replaced existing nil_small
  obtain probe acc c where "probe_initial P b db env = Ok probe"
    "accept_initial P b db env (pr_probe_token probe) sender [] bytes = Ok acc" "ai_inner acc = inner"
    "ai_replaced_session_id acc = Some (rs_session_id old_b)" "linked P c sa (ai_session acc)"
    "rs_primary (ai_session acc) \<longleftrightarrow> Some (rs_session_id old_a, t) \<noteq> None \<or> (None :: ratchet_state option) = None \<or> da < db"
    by (rule setup_accepted)
  with repair(3) show ?thesis by blast
qed

definition sample_asked :: ratchet_state where
  "sample_asked = sample_session\<lparr>rs_local_device_id := replicate 16 3, rs_remote_device_id := replicate 16 2,
     rs_received_repair_token := Some (replicate 32 1), rs_issued_repair_token := None\<rparr>"

definition sample_asking :: ratchet_state where
  "sample_asking = sample_session\<lparr>rs_local_device_id := replicate 16 2, rs_remote_device_id := replicate 16 3,
     rs_received_repair_token := None, rs_issued_repair_token := Some (replicate 32 1)\<rparr>"

lemma sample_repair_sessions: "session_inv example_prims sample_asked" "session_inv example_prims sample_asking"
  using sample_session_valid
  by (simp_all add: session_inv_iff ratchet_valid_def ratchet_fields_wf_def ratchet_consistent_def secret_option_wf_def
      skipped_below_def sample_asked_def sample_asking_def is_zero_def list_all_iff replicate_eq_replicate)
    (simp_all add: sample_session_def is_zero_def list_all_iff replicate_eq_replicate)

theorem repair_replaces_session_witness:
  "\<exists>old_a' authorization bytes sa env tape' probe acc.
     consume_repair_authorization example_prims sample_initiator sample_asked = Ok (old_a', authorization)
   \<and> encode_ratchet_state example_prims sample_device sample_asking = Ok bytes
   \<and> initiate example_prims sample_initiator (replicate 16 3) (replicate 16 2) sample_offer None None authorization [9] 0
       (replicate 32 4 @ replicate 32 5 @ replicate 32 6 @ replicate 16 7 @ replicate 262144 0) = Ok ((sa, env), tape')
   \<and> probe_initial example_prims sample_device (replicate 16 2) env = Ok probe
   \<and> accept_initial example_prims sample_device (replicate 16 2) env (pr_probe_token probe) sample_sender [] bytes = Ok acc
   \<and> ai_inner acc = [9] \<and> ai_replaced_session_id acc = Some (replicate 16 1)"
proof -
  have secrets: "length (ds_identity_secret sample_initiator) = 32" "length (ds_identity_secret sample_device) = 32"
    using sample_initiator_valid sample_device_valid by (simp_all add: device_valid_def device_fields_wf_def)
  have core: "session_core example_prims sample_asked" "session_core example_prims sample_asking"
    using sample_repair_sessions by (simp_all add: session_inv_def)
  have asked: "rs_received_repair_token sample_asked = Some (replicate 32 1)" "rs_session_id sample_asked = replicate 16 1"
    and asking: "rs_issued_repair_token sample_asking = Some (replicate 32 1)" "rs_session_id sample_asking = rs_session_id sample_asked"
      "rs_local_device_id sample_asking = replicate 16 2" "rs_remote_device_id sample_asking = replicate 16 3"
    by (simp_all add: sample_asked_def sample_asking_def sample_session_def)
  obtain key where key: "device_probe_key example_prims (ds_identity_secret sample_initiator) = Ok key" "length key = 32"
    by (rule device_probe_key_total [OF example_sized secrets(1)])
  then obtain tag where "hmac_sha256 example_prims key
      (REPAIR_DOMAIN @ REPAIR_AUTH_MAGIC @ replicate 16 1 @ replicate 32 1) = Ok tag"
    using hmac_total [OF example_sized, of key "REPAIR_DOMAIN @ REPAIR_AUTH_MAGIC @ replicate 16 1 @ replicate 32 1"]
    by (auto simp: MAX_INPUT_BYTES_def)
  then obtain old_a' authorization where
    auth: "consume_repair_authorization example_prims sample_initiator sample_asked = Ok (old_a', authorization)"
    using key asked by (simp add: consume_repair_authorization_def Let_def)
  note repair = authorization_verifies [OF example_sized session_coreD(1) [OF core(1)] asked(1) auth]
  obtain bytes where bytes: "encode_ratchet_state example_prims sample_device sample_asking = Ok bytes"
    by (rule encode_ratchet_state_total [OF example_sized secrets(2) session_coreD(1,2) [OF core(2)]])
  have "\<exists>sa env tape'. initiate example_prims sample_initiator (replicate 16 3) (replicate 16 2) sample_offer None None
      authorization [9] 0 (replicate 32 4 @ replicate 32 5 @ replicate 32 6 @ replicate 16 7 @ replicate 262144 0)
      = Ok ((sa, env), tape')"
  proof (rule initiate_total [OF example_sized example_aead sample_initiator_valid sample_ids(1,2,5) _ repair(1,2)])
    show "\<not> is_zero (replicate 16 (7 :: u8))" by (simp add: is_zero_def list_all_iff)
  qed (simp_all add: example_contributory example_encapsulates sample_offer_def peer_bundle_of_def published_claim_def
      MAX_SKIPPED_ACCOUNT_def)
  then obtain sa env tape' where run: "initiate example_prims sample_initiator (replicate 16 3) (replicate 16 2) sample_offer
      None None authorization [9] 0 (replicate 32 4 @ replicate 32 5 @ replicate 32 6 @ replicate 16 7 @ replicate 262144 0)
      = Ok ((sa, env), tape')" by blast
  from repair_replaces_session [OF example_sized example_aead example_signatures example_dh example_kem
      sample_initiator_valid sample_device_inv sample_ids(1-4) sample_offers(1) sample_counter_offers(2) sample_names
      sample_repair_sessions(1) asked(1) auth sample_repair_sessions(2) asking bytes run]
  show ?thesis using auth bytes run asking(2) asked(2) by metis
qed

end
