(* ===== verification/Cbor.thy ===== *)
theory Cbor
  imports Protocol
begin

text \<open>
  Deterministic CBOR: the low-level readers and writers of \<^verbatim>\<open>application.rs\<close> that the event and control
  formats share, and the records of \<^verbatim>\<open>cbor.rs\<close>.

  The third-party crate \<^verbatim>\<open>minicbor\<close> is a parameter: a record of its encoder and decoder methods, over
  the position in the input that its public interface shows. \<open>minicbor_encodes\<close> and \<open>minicbor_decodes\<close>
  state what its documentation and RFC 8949 promise: an item is written with the shortest head, and a
  definite-length item is read back from any head of its major type. The readers of the program add the check
  that the head was the shortest one, and the main lemmas show that they are codecs: each accepts exactly
  the encodings its writer produces.

  \<^verbatim>\<open>str::from_utf8\<close> and \<^verbatim>\<open>chars\<close> are modelled by \<open>utf8_chars\<close>; a \<^verbatim>\<open>String\<close> is its bytes.
\<close>

unbundle bit_operations_syntax

section \<open>UTF-8\<close>

definition continuation :: "byte \<Rightarrow> bool" where
  "continuation b \<longleftrightarrow> 0x80 \<le> b \<and> b \<le> 0xbf"

definition low6 :: "byte \<Rightarrow> nat" where
  "low6 b = unat b - 0x80"

text \<open>The scalar values of a byte string, \<open>None\<close> when it is not well-formed UTF-8.\<close>

fun utf8_chars :: "bytes \<Rightarrow> nat list option" where
  "utf8_chars [] = Some []"
| "utf8_chars (a # bs) =
     (if a < 0x80 then map_option ((#) (unat a)) (utf8_chars bs)
      else case bs of
        [] \<Rightarrow> None
      | b # bs \<Rightarrow>
          if 0xc2 \<le> a \<and> a \<le> 0xdf \<and> continuation b
          then map_option ((#) ((unat a - 0xc0) * 64 + low6 b)) (utf8_chars bs)
          else case bs of
            [] \<Rightarrow> None
          | c # bs \<Rightarrow>
              if (a = 0xe0 \<and> 0xa0 \<le> b \<and> b \<le> 0xbf \<or> 0xe1 \<le> a \<and> a \<le> 0xec \<and> continuation b
                   \<or> a = 0xed \<and> 0x80 \<le> b \<and> b \<le> 0x9f \<or> 0xee \<le> a \<and> a \<le> 0xef \<and> continuation b)
                 \<and> continuation c
              then map_option ((#) ((unat a - 0xe0) * 4096 + low6 b * 64 + low6 c)) (utf8_chars bs)
              else case bs of
                [] \<Rightarrow> None
              | d # bs \<Rightarrow>
                  if (a = 0xf0 \<and> 0x90 \<le> b \<and> b \<le> 0xbf \<or> 0xf1 \<le> a \<and> a \<le> 0xf3 \<and> continuation b
                       \<or> a = 0xf4 \<and> 0x80 \<le> b \<and> b \<le> 0x8f)
                     \<and> continuation c \<and> continuation d
                  then map_option ((#) ((unat a - 0xf0) * 262144 + low6 b * 4096 + low6 c * 64 + low6 d)) (utf8_chars bs)
                  else None)"

definition utf8_valid :: "bytes \<Rightarrow> bool" where
  "utf8_valid t \<longleftrightarrow> utf8_chars t \<noteq> None"

definition char_count :: "bytes \<Rightarrow> nat" where
  "char_count t = (case utf8_chars t of Some cs \<Rightarrow> length cs | None \<Rightarrow> 0)"

section \<open>The \<^verbatim>\<open>minicbor\<close> interface\<close>

record minicbor =
  mc_map :: "u64 \<Rightarrow> bytes option"
  mc_array :: "u64 \<Rightarrow> bytes option"
  mc_u8 :: "u8 \<Rightarrow> bytes option"
  mc_u16 :: "u16 \<Rightarrow> bytes option"
  mc_u32 :: "u32 \<Rightarrow> bytes option"
  mc_u64 :: "u64 \<Rightarrow> bytes option"
  mc_bytes :: "bytes \<Rightarrow> bytes option"
  mc_str :: "bytes \<Rightarrow> bytes option"
  mc_bool :: "bool \<Rightarrow> bytes option"
  mc_null :: "bytes option"
  md_map :: "reader \<Rightarrow> (u64 option \<times> reader) option"
  md_array :: "reader \<Rightarrow> (u64 option \<times> reader) option"
  md_u8 :: "reader \<Rightarrow> (u8 \<times> reader) option"
  md_u64 :: "reader \<Rightarrow> (u64 \<times> reader) option"
  md_bytes :: "reader \<Rightarrow> (bytes \<times> reader) option"
  md_str :: "reader \<Rightarrow> (bytes \<times> reader) option"
  md_bool :: "reader \<Rightarrow> (bool \<times> reader) option"
  md_null :: "reader \<Rightarrow> (unit \<times> reader) option"
  md_datatype_is_u8 :: "reader \<Rightarrow> bool option"

text \<open>\<^verbatim>\<open>encoder.item(..).map_err(|_| CryptoError::InternalFailure)?\<close>: the output is the threaded state.\<close>

type_synonym encoder = "(bytes, crypto_error, unit) sr"

definition emit :: "bytes option \<Rightarrow> encoder" where
  "emit item output = rbind (ok_or item InternalFailure) (\<lambda>bs. Ok ((), output @ bs))"

text \<open>\<^verbatim>\<open>decoder.item().map_err(|_| CryptoError::MalformedInput)?\<close>\<close>

definition decode_with :: "(reader \<Rightarrow> ('a \<times> reader) option) \<Rightarrow> 'a parser" where
  "decode_with d r = ok_or (d r) MalformedInput"

section \<open>Shortest heads\<close>

definition cbor_head :: "u8 \<Rightarrow> nat \<Rightarrow> bytes" where
  "cbor_head major n =
     (if n < 24 then [push_bit 5 major OR word_of_nat n]
      else if n < 0x100 then (push_bit 5 major OR 0x18) # be_bytes 1 n
      else if n < 0x10000 then (push_bit 5 major OR 0x19) # be_bytes 2 n
      else if n < 0x100000000 then (push_bit 5 major OR 0x1a) # be_bytes 4 n
      else (push_bit 5 major OR 0x1b) # be_bytes 8 n)"

text \<open>The argument of a head, of whatever length, and the length of the head.\<close>

definition head_argument :: "bytes \<Rightarrow> (nat \<times> nat) option" where
  "head_argument bs =
     (case bs of
        [] \<Rightarrow> None
      | b # rest \<Rightarrow>
          let info = b AND 0x1f;
              argument = (\<lambda>k. if k \<le> length rest then Some (be_value (take k rest), 1 + k) else None)
          in if info < 24 then Some (unat info, 1)
             else if info = 24 then argument 1
             else if info = 25 then argument 2
             else if info = 26 then argument 4
             else if info = 27 then argument 8
             else None)"

definition minicbor_encodes :: "minicbor \<Rightarrow> bool" where
  "minicbor_encodes M \<longleftrightarrow>
     (\<forall>n. mc_map M n = Some (cbor_head 5 (unat n))) \<and> (\<forall>n. mc_array M n = Some (cbor_head 4 (unat n)))
   \<and> (\<forall>n. mc_u8 M n = Some (cbor_head 0 (unat n))) \<and> (\<forall>n. mc_u16 M n = Some (cbor_head 0 (unat n)))
   \<and> (\<forall>n. mc_u32 M n = Some (cbor_head 0 (unat n))) \<and> (\<forall>n. mc_u64 M n = Some (cbor_head 0 (unat n)))
   \<and> (\<forall>b. mc_bytes M b = Some (cbor_head 2 (length b) @ b)) \<and> (\<forall>t. mc_str M t = Some (cbor_head 3 (length t) @ t))
   \<and> mc_bool M False = Some [0xf4] \<and> mc_bool M True = Some [0xf5] \<and> mc_null M = Some [0xf6]"

text \<open>A definite-length item of a major type is next.\<close>

definition at_major :: "u8 \<Rightarrow> reader \<Rightarrow> bool" where
  "at_major m r \<longleftrightarrow> reader_ok r \<and> unread r \<noteq> [] \<and> drop_bit 5 (hd (unread r)) = m \<and> hd (unread r) AND 0x1f \<noteq> 0x1f"

definition reads_head :: "(reader \<Rightarrow> ('a \<times> reader) option) \<Rightarrow> u8 \<Rightarrow> (nat \<Rightarrow> 'a) \<Rightarrow> bool" where
  "reads_head d m f \<longleftrightarrow>
     (\<forall>r. at_major m r \<longrightarrow> d r = map_option (\<lambda>(n, l). (f n, advance l r)) (head_argument (unread r)))"

definition reads_payload :: "(reader \<Rightarrow> (bytes \<times> reader) option) \<Rightarrow> u8 \<Rightarrow> (bytes \<Rightarrow> bool) \<Rightarrow> bool" where
  "reads_payload d m ok \<longleftrightarrow>
     (\<forall>r. at_major m r \<longrightarrow>
        d r = (case head_argument (unread r) of
            None \<Rightarrow> None
          | Some (n, l) \<Rightarrow>
              if l + n \<le> length (unread r) \<and> ok (take n (drop l (unread r)))
              then Some (take n (drop l (unread r)), advance (l + n) r) else None))"

definition minicbor_decodes :: "minicbor \<Rightarrow> bool" where
  "minicbor_decodes M \<longleftrightarrow>
     reads_head (md_u64 M) 0 word_of_nat
   \<and> reads_head (md_array M) 4 (\<lambda>n. Some (word_of_nat n)) \<and> reads_head (md_map M) 5 (\<lambda>n. Some (word_of_nat n))
   \<and> reads_payload (md_bytes M) 2 (\<lambda>_. True) \<and> reads_payload (md_str M) 3 utf8_valid
   \<and> (\<forall>r b rest. reader_ok r \<longrightarrow> unread r = b # rest \<longrightarrow>
        (b \<le> 23 \<longrightarrow> md_u8 M r = Some (b, advance 1 r) \<and> md_datatype_is_u8 M r = Some True)
      \<and> (b = 0xf4 \<or> b = 0xf5 \<longrightarrow> md_bool M r = Some (b = 0xf5, advance 1 r))
      \<and> (b = 0xf6 \<longrightarrow> md_null M r = Some ((), advance 1 r)))"

section \<open>Shared readers and writers of \<^verbatim>\<open>application.rs\<close>\<close>

definition encode_key :: "minicbor \<Rightarrow> u8 \<Rightarrow> encoder" where
  "encode_key M key = emit (mc_u8 M key)"

definition encode_optional_id :: "minicbor \<Rightarrow> bytes option \<Rightarrow> encoder" where
  "encode_optional_id M value = (case value of Some value \<Rightarrow> emit (mc_bytes M value) | None \<Rightarrow> emit (mc_null M))"

definition encode_optional_text :: "minicbor \<Rightarrow> bytes option \<Rightarrow> encoder" where
  "encode_optional_text M value = (case value of Some value \<Rightarrow> emit (mc_str M value) | None \<Rightarrow> emit (mc_null M))"

definition peek :: "u8 parser" where
  "peek r =
     rbind (ok_or (if rd_position r < length (rd_input r) then Some (rd_input r ! rd_position r) else None)
       MalformedInput) (\<lambda>b. Ok (b, r))"

text \<open>\<^verbatim>\<open>u8::try_from(length).unwrap_or(u8::MAX)\<close>\<close>

definition u8_or_max :: "nat \<Rightarrow> u8" where
  "u8_or_max n = (case try_from_usize n of Some b \<Rightarrow> b | None \<Rightarrow> - 1)"

definition canonical_length_header :: "u8 \<Rightarrow> nat \<Rightarrow> u8 \<Rightarrow> bool" where
  "canonical_length_header first len major =
     (if len \<le> 23 then first = (push_bit 5 major OR u8_or_max len)
      else if len \<le> 0xff then first = (push_bit 5 major OR 0x18)
      else if len \<le> 0xffff then first = (push_bit 5 major OR 0x19)
      else if len \<le> 0xffffffff then first = (push_bit 5 major OR 0x1a)
      else first = (push_bit 5 major OR 0x1b))"

definition read_map_len :: "minicbor \<Rightarrow> nat parser" where
  "read_map_len M =
     sbind peek (\<lambda>first.
     sbind (slift (reject_if (drop_bit 5 first \<noteq> 5 \<or> first AND 0x1f = 0x1f) MalformedInput)) (\<lambda>_.
     sbind (decode_with (md_map M)) (\<lambda>len.
     sbind (slift (ok_or len MalformedInput)) (\<lambda>len.
     sbind (slift (reject_if (\<not> canonical_length_header first (unat len) 5) MalformedInput)) (\<lambda>_.
     ret (unat len))))))"

definition read_exact_map :: "minicbor \<Rightarrow> nat \<Rightarrow> unit parser" where
  "read_exact_map M expected =
     sbind (read_map_len M) (\<lambda>len. slift (reject_if (len \<noteq> expected) MalformedInput))"

definition canonical_uint_header :: "u8 \<Rightarrow> u64 \<Rightarrow> bool" where
  "canonical_uint_header first v =
     (if v \<le> 23 then first = ucast v
      else if v \<le> 0xff then first = 0x18
      else if v \<le> 0xffff then first = 0x19
      else if v \<le> 0xffffffff then first = 0x1a
      else first = 0x1b)"

definition read_uint :: "minicbor \<Rightarrow> u64 parser" where
  "read_uint M =
     sbind peek (\<lambda>first.
     sbind (slift (reject_if (drop_bit 5 first \<noteq> 0 \<or> first AND 0x1f = 0x1f) MalformedInput)) (\<lambda>_.
     sbind (decode_with (md_u64 M)) (\<lambda>v.
     sbind (slift (reject_if (\<not> canonical_uint_header first v) MalformedInput)) (\<lambda>_.
     ret v))))"

definition read_key :: "minicbor \<Rightarrow> u8 \<Rightarrow> unit parser" where
  "read_key M expected = sbind (read_uint M) (\<lambda>v. slift (reject_if (v \<noteq> ucast expected) MalformedInput))"

definition canonical_array_header :: "u8 \<Rightarrow> nat \<Rightarrow> bool" where
  "canonical_array_header first len =
     (if len \<le> 23 then first = (0x80 OR u8_or_max len)
      else if len \<le> 0xff then first = 0x98
      else if len \<le> 0xffff then first = 0x99
      else if len \<le> 0xffffffff then first = 0x9a
      else first = 0x9b)"

definition read_array_len :: "minicbor \<Rightarrow> nat parser" where
  "read_array_len M =
     sbind peek (\<lambda>first.
     sbind (slift (reject_if (drop_bit 5 first \<noteq> 4 \<or> first AND 0x1f = 0x1f) MalformedInput)) (\<lambda>_.
     sbind (decode_with (md_array M)) (\<lambda>len.
     sbind (slift (ok_or len MalformedInput)) (\<lambda>len.
     sbind (slift (reject_if (\<not> canonical_array_header first (unat len)) MalformedInput)) (\<lambda>_.
     ret (unat len))))))"

definition read_bytes :: "minicbor \<Rightarrow> bytes parser" where
  "read_bytes M =
     sbind peek (\<lambda>first.
     sbind (slift (reject_if (drop_bit 5 first \<noteq> 2 \<or> first AND 0x1f = 0x1f) MalformedInput)) (\<lambda>_.
     sbind (decode_with (md_bytes M)) (\<lambda>bs.
     sbind (slift (reject_if (\<not> canonical_length_header first (length bs) 2) MalformedInput)) (\<lambda>_.
     ret bs))))"

definition read_exact_bytes :: "minicbor \<Rightarrow> nat \<Rightarrow> bytes parser" where
  "read_exact_bytes M n = sbind (read_bytes M) (\<lambda>bs. slift (fixed n bs))"

definition read_text :: "minicbor \<Rightarrow> nat \<Rightarrow> nat \<Rightarrow> bool \<Rightarrow> bytes parser" where
  "read_text M maximum_bytes maximum_scalars require_non_empty =
     sbind peek (\<lambda>first.
     sbind (slift (reject_if (drop_bit 5 first \<noteq> 3 \<or> first AND 0x1f = 0x1f) MalformedInput)) (\<lambda>_.
     sbind (decode_with (md_str M)) (\<lambda>t.
     sbind (slift (reject_if (\<not> canonical_length_header first (length t) 3) MalformedInput)) (\<lambda>_.
     sbind (slift (reject_if (length t > maximum_bytes \<or> char_count t > maximum_scalars) InputTooLarge)) (\<lambda>_.
     sbind (slift (reject_if (require_non_empty \<and> t = []) MalformedInput)) (\<lambda>_.
     ret t))))))"

definition read_nullable_id :: "minicbor \<Rightarrow> bytes option parser" where
  "read_nullable_id M =
     sbind peek (\<lambda>first.
     if first = 0xf6 then sbind (decode_with (md_null M)) (\<lambda>_. ret None)
     else sbind (read_exact_bytes M 16) (\<lambda>v. ret (Some v)))"

definition read_nullable_text :: "minicbor \<Rightarrow> nat \<Rightarrow> nat \<Rightarrow> bytes option parser" where
  "read_nullable_text M maximum_bytes maximum_scalars =
     sbind peek (\<lambda>first.
     if first = 0xf6 then sbind (decode_with (md_null M)) (\<lambda>_. ret None)
     else sbind (read_text M maximum_bytes maximum_scalars True) (\<lambda>v. ret (Some v)))"

definition read_bool :: "minicbor \<Rightarrow> bool parser" where
  "read_bool M =
     sbind peek (\<lambda>first.
     if first = 0xf4 then sbind (decode_with (md_bool M)) (\<lambda>_. ret False)
     else if first = 0xf5 then sbind (decode_with (md_bool M)) (\<lambda>_. ret True)
     else slift (Err MalformedInput))"

section \<open>A head is canonical when it is the shortest one\<close>

lemma take_bit_small: "unat w < 2 ^ n \<Longrightarrow> take_bit n w = (w :: 'a::len word)"
  by (simp add: word_unat_eq_iff unsigned_take_bit_eq take_bit_nat_eq_self)

lemma major_bits:
  fixes m k :: u8
  assumes "m < 8" and "k < 32"
  shows "drop_bit 5 (push_bit 5 m OR k) = m" and "(push_bit 5 m OR k) AND 0x1f = k"
proof -
  have mask: "(0x1f :: u8) = mask 5" by (simp add: mask_eq_exp_minus_1)
  have k: "take_bit 5 k = k" and m: "take_bit 3 m = m"
    using assms by (intro take_bit_small, simp add: word_less_nat_alt)+
  show "(push_bit 5 m OR k) AND 0x1f = k"
    by (simp add: mask take_bit_eq_mask [symmetric] k take_bit_push_bit)
  have "drop_bit 5 k = 0" by (metis k drop_bit_take_bit diff_self_eq_0 take_bit_0)
  then show "drop_bit 5 (push_bit 5 m OR k) = m"
    using m by (simp add: bit_eq_iff bit_simps)
qed

lemma cbor_head_cases:
  assumes "n < 2 ^ 64"
  obtains "n < 24" and "cbor_head m n = [push_bit 5 m OR word_of_nat n]"
  | info k where "cbor_head m n = (push_bit 5 m OR info) # be_bytes k n" and "n < 256 ^ k" and "\<not> n < 24"
      and "(info, k) \<in> {(24, 1), (25, 2), (26, 4), (27, 8)}"
proof -
  consider "n < 24" | "\<not> n < 24" "n < 0x100" | "\<not> n < 0x100" "n < 0x10000" | "\<not> n < 0x10000" "n < 0x100000000"
    | "\<not> n < 0x100000000" by linarith
  then show thesis
  proof cases
    case 1 then show thesis by (intro that(1)) (simp_all add: cbor_head_def)
  next
    case 2 then show thesis by (intro that(2) [of 24 1]) (simp_all add: cbor_head_def)
  next
    case 3 then show thesis by (intro that(2) [of 25 2]) (simp_all add: cbor_head_def)
  next
    case 4 then show thesis by (intro that(2) [of 26 4]) (simp_all add: cbor_head_def)
  next
    case 5 then show thesis using assms by (intro that(2) [of 27 8]) (simp_all add: cbor_head_def)
  qed
qed

lemma small_info: "n < 24 \<Longrightarrow> word_of_nat n < (24 :: u8)" "n < 24 \<Longrightarrow> word_of_nat n < (32 :: u8)"
  by (simp_all add: word_less_nat_alt)

lemma cbor_head_first:
  assumes "m < 8"
  shows "cbor_head m n \<noteq> []" and "drop_bit 5 (hd (cbor_head m n)) = m" and "hd (cbor_head m n) AND 0x1f \<noteq> 0x1f"
    and "length (cbor_head m n) \<le> 9"
proof -
  show "drop_bit 5 (hd (cbor_head m n)) = m" "hd (cbor_head m n) AND 0x1f \<noteq> 0x1f"
    using assms small_info [of n] by (auto simp: cbor_head_def major_bits simp del: drop_bit_or)
qed (simp_all add: cbor_head_def)

lemma head_argument_short: "b AND 0x1f < 24 \<Longrightarrow> head_argument (b # rest) = Some (unat (b AND 0x1f), 1)"
  by (simp add: head_argument_def Let_def)

lemma head_argument_long:
  assumes "(b AND 0x1f, k) \<in> {(24, 1), (25, 2), (26, 4), (27, 8)}"
  shows "head_argument (b # rest) = (if k \<le> length rest then Some (be_value (take k rest), 1 + k) else None)"
  using assms by (auto simp: head_argument_def Let_def)

lemma head_argument_head:
  assumes "m < 8" and "n < 2 ^ 64"
  shows "head_argument (cbor_head m n @ tail) = Some (n, length (cbor_head m n))"
  using assms(2)
proof (cases rule: cbor_head_cases [where m = m])
  case 1
  then show ?thesis using assms(1) small_info [of n] by (simp add: head_argument_short major_bits)
next
  case (2 info k)
  then have info: "(push_bit 5 m OR info) AND 0x1f = info" using assms(1) by (auto simp: major_bits)
  from 2 have "be_value (be_bytes k n) = n" by (simp add: be_value_be_bytes)
  with 2 show ?thesis using head_argument_long [of "push_bit 5 m OR info" k "be_bytes k n @ tail"] by (simp add: info)
qed

lemma ucast_eq_word_of_nat: "ucast v = word_of_nat (unat v)"
  by (simp add: unsigned_of_nat)

lemma canonical_length_header_iff: "canonical_length_header first n m \<longleftrightarrow> first = hd (cbor_head m n)"
  by (auto simp: canonical_length_header_def cbor_head_def u8_or_max_def)

lemma canonical_array_header_iff: "canonical_array_header first n \<longleftrightarrow> first = hd (cbor_head 4 n)"
  by (auto simp: canonical_array_header_def cbor_head_def u8_or_max_def)

lemma canonical_uint_header_iff: "canonical_uint_header first v \<longleftrightarrow> first = hd (cbor_head 0 (unat v))"
  by (auto simp: canonical_uint_header_def cbor_head_def word_le_nat_alt ucast_eq_word_of_nat [symmetric])

lemma be_value_take_less: "k \<le> 8 \<Longrightarrow> be_value (take k bs) < 2 ^ 64"
proof -
  assume "k \<le> 8"
  then have "(256 :: nat) ^ length (take k bs) \<le> 256 ^ 8" by (intro power_increasing) simp_all
  with be_value_less [of "take k bs"] have "be_value (take k bs) < 256 ^ 8" by (rule order_less_le_trans)
  then show ?thesis by simp
qed

lemma head_argumentE:
  assumes "head_argument bs = Some (n, l)"
  obtains b rest where "bs = b # rest" and "b AND 0x1f < 24" and "n = unat (b AND 0x1f)" and "l = 1"
  | b rest k where "bs = b # rest" and "(b AND 0x1f, k) \<in> {(24, 1), (25, 2), (26, 4), (27, 8)}"
      and "k \<le> length rest" and "n = be_value (take k rest)" and "l = 1 + k"
  using assms by (cases bs) (auto simp: head_argument_def Let_def split: if_splits)

lemma head_argument_bound:
  assumes "head_argument bs = Some (n, l)"
  shows "n < 2 ^ 64" and "0 < l" and "l \<le> length bs"
proof -
  have "n < 2 ^ 64 \<and> 0 < l \<and> l \<le> length bs"
    using assms
  proof (cases rule: head_argumentE)
    case (1 b rest)
    then show ?thesis using unat_less_256 [of "b AND 0x1f"] by simp
  next
    case (2 b rest k)
    then have "k \<le> 8" by auto
    with 2 show ?thesis using be_value_take_less [of k rest] by simp
  qed
  then show "n < 2 ^ 64" and "0 < l" and "l \<le> length bs" by simp_all
qed

lemma canonical_head:
  assumes m: "m < 8" and arg: "head_argument bs = Some (n, l)" and first: "hd bs = hd (cbor_head m n)"
  shows "bs = cbor_head m n @ drop l bs" and "l = length (cbor_head m n)"
proof -
  obtain b rest where bs: "bs = b # rest" using arg by (cases bs) (auto simp: head_argument_def)
  from head_argument_bound(1) [OF arg] have "cbor_head m n = take l bs \<and> l = length (cbor_head m n)"
  proof (cases rule: cbor_head_cases [where m = m])
    case 1
    then have "b AND 0x1f = word_of_nat n" using first m small_info [of n] by (simp add: bs major_bits)
    then have "l = 1" using arg small_info [OF 1(1)] by (simp add: bs head_argument_short)
    with 1 first show ?thesis by (simp add: bs)
  next
    case (2 info k)
    then have "b AND 0x1f = info" using first m by (auto simp: bs major_bits)
    with 2(4) have "head_argument bs = (if k \<le> length rest then Some (be_value (take k rest), 1 + k) else None)"
      by (simp only: bs head_argument_long)
    with arg have n: "n = be_value (take k rest)" "k \<le> length rest" "l = 1 + k"
      by (simp_all split: if_splits)
    then have "be_bytes k n = take k rest" using be_bytes_be_value [of "take k rest"] by simp
    then show ?thesis using 2(1) first n(2,3) by (simp add: bs)
  qed
  then show "bs = cbor_head m n @ drop l bs" "l = length (cbor_head m n)" by (metis append_take_drop_id, blast)
qed

section \<open>The readers are codecs\<close>

lemma peek_Ok_iff: "reader_ok r \<Longrightarrow> peek r = Ok (b, r') \<longleftrightarrow> unread r \<noteq> [] \<and> b = hd (unread r) \<and> r' = r"
  by (auto simp: peek_def unread_def reader_ok_def hd_drop_conv_nth)

lemma decode_with_Ok_iff [simp]: "decode_with d r = Ok y \<longleftrightarrow> d r = Some y"
  by (simp add: decode_with_def)

lemma sbind_Ok_iff: "sbind p f r = Ok y \<longleftrightarrow> (\<exists>x r'. p r = Ok (x, r') \<and> f x r' = Ok y)"
  by (auto simp: sbind_def split: sum.splits)

lemma sbind_slift_apply: "sbind (slift m) f r = rbind m (\<lambda>x. f x r)"
  by (cases m) simp_all

lemma sbind_observe: "sbind (\<lambda>r. rbind (g r) (\<lambda>x. Ok (x, r))) f r = rbind (g r) (\<lambda>x. f x r)"
  by (cases "g r") (simp_all add: sbind_def)

lemma sbind_decode_with: "sbind (decode_with d) f r = rbind (ok_or (d r) MalformedInput) (\<lambda>(x, r'). f x r')"
  by (cases "d r") (simp_all add: sbind_def decode_with_def split: prod.split)

lemma major_parser_Ok_iff:
  assumes "reader_ok r"
  shows "sbind peek (\<lambda>first. sbind (slift (reject_if (drop_bit 5 first \<noteq> m \<or> first AND 0x1f = 0x1f) e)) (\<lambda>_.
      sbind (decode_with d) (k first))) r = Ok z
    \<longleftrightarrow> at_major m r \<and> (\<exists>y r'. d r = Some (y, r') \<and> k (hd (unread r)) y r' = Ok z)"
  using assms by (auto simp: sbind_Ok_iff peek_Ok_iff at_major_def)

lemma at_major_head: "m < 8 \<Longrightarrow> reader_ok r \<Longrightarrow> unread r = cbor_head m n @ tail \<Longrightarrow> at_major m r"
  by (simp add: at_major_def cbor_head_first)

lemma head_codecI:
  fixes wf :: "'a \<Rightarrow> bool"
  assumes m: "m < 8"
    and run: "\<And>r x r'. reader_ok r \<Longrightarrow> p r = Ok (x, r') \<longleftrightarrow> at_major m r \<and>
      (\<exists>n l. head_argument (unread r) = Some (n, l) \<and> hd (unread r) = hd (cbor_head m n) \<and> x = g n \<and> r' = advance l r)"
    and inv: "\<And>x. wf x \<Longrightarrow> h x < 2 ^ 64 \<and> g (h x) = x" "\<And>n. n < 2 ^ 64 \<Longrightarrow> wf (g n) \<and> h (g n) = n"
  shows "codec p (\<lambda>x. cbor_head m (h x)) wf"
proof
  show "reads p (cbor_head m (h x)) x" if "wf x" for x
    unfolding reads_def
  proof (intro allI impI)
    fix r tail
    assume ok: "reader_ok r" and r: "unread r = cbor_head m (h x) @ tail"
    then show "p r = Ok (x, advance (length (cbor_head m (h x))) r)"
      using inv(1) [OF that] m at_major_head [OF m ok r] by (auto simp: run head_argument_head cbor_head_first)
  qed
  show "sound p (\<lambda>bs x. wf x \<and> bs = cbor_head m (h x))"
    unfolding sound_def
  proof (intro allI impI)
    fix r x r'
    assume ok: "reader_ok r" and "p r = Ok (x, r')"
    then obtain n l where n: "head_argument (unread r) = Some (n, l)" "hd (unread r) = hd (cbor_head m n)"
      "x = g n" "r' = advance l r" by (auto simp: run)
    note head = canonical_head [OF m n(1,2)]
    have "unread r' = drop l (unread r)"
      using unread_advance [OF head(1)] n(4) head(2) by simp
    with n head inv(2) [OF head_argument_bound(1) [OF n(1)]]
    show "\<exists>bs. unread r = bs @ unread r' \<and> r' = advance (length bs) r \<and> wf x \<and> bs = cbor_head m (h x)"
      by auto
  qed
qed

lemma payload_codecI:
  fixes wf :: "bytes \<Rightarrow> bool"
  assumes m: "m < 8"
    and run: "\<And>r x r'. reader_ok r \<Longrightarrow> p r = Ok (x, r') \<longleftrightarrow> at_major m r \<and>
      (\<exists>n l. head_argument (unread r) = Some (n, l) \<and> l + n \<le> length (unread r) \<and> x = take n (drop l (unread r))
        \<and> wf x \<and> hd (unread r) = hd (cbor_head m n) \<and> r' = advance (l + n) r)"
  shows "codec p (\<lambda>x. cbor_head m (length x) @ x) wf"
proof
  show "reads p (cbor_head m (length x) @ x) x" if "wf x" for x
    unfolding reads_def
  proof (intro allI impI)
    fix r tail
    assume ok: "reader_ok r" and r: "unread r = (cbor_head m (length x) @ x) @ tail"
    have "length (unread r) < 2 ^ 64" using ok by (auto simp: reader_ok_def unread_def)
    then have "length x < 2 ^ 64" unfolding r by simp
    then have "head_argument (unread r) = Some (length x, length (cbor_head m (length x)))"
      unfolding r append_assoc by (rule head_argument_head [OF m])
    then show "p r = Ok (x, advance (length (cbor_head m (length x) @ x)) r)"
      using that m r at_major_head [OF m ok, of "length x" "x @ tail"] ok by (simp add: run cbor_head_first)
  qed
  show "sound p (\<lambda>bs x. wf x \<and> bs = cbor_head m (length x) @ x)"
    unfolding sound_def
  proof (intro allI impI)
    fix r x r'
    assume ok: "reader_ok r" and "p r = Ok (x, r')"
    then obtain n l where n: "head_argument (unread r) = Some (n, l)" "hd (unread r) = hd (cbor_head m n)"
      and x: "l + n \<le> length (unread r)" "x = take n (drop l (unread r))" "wf x" and r': "r' = advance (l + n) r"
      by (auto simp: run)
    note head = canonical_head [OF m n]
    have len: "length x = n" using x by simp
    have eq: "unread r = (cbor_head m (length x) @ x) @ drop n (drop l (unread r))"
      using head(1) unfolding len by (metis x(2) append_assoc append_take_drop_id)
    have adv: "r' = advance (length (cbor_head m (length x) @ x)) r" by (simp add: r' head(2) len)
    have "unread r' = drop n (drop l (unread r))" unfolding adv by (rule unread_advance [OF eq])
    then show "\<exists>bs. unread r = bs @ unread r' \<and> r' = advance (length bs) r \<and> wf x \<and> bs = cbor_head m (length x) @ x"
      using eq adv x(3) by metis
  qed
qed

text \<open>The encodings of the items.\<close>

definition uint_item :: "u64 \<Rightarrow> bytes" where "uint_item v = cbor_head 0 (unat v)"
definition array_head :: "nat \<Rightarrow> bytes" where "array_head n = cbor_head 4 n"
definition map_head :: "nat \<Rightarrow> bytes" where "map_head n = cbor_head 5 n"
definition bytes_item :: "bytes \<Rightarrow> bytes" where "bytes_item b = cbor_head 2 (length b) @ b"
definition text_item :: "bytes \<Rightarrow> bytes" where "text_item t = cbor_head 3 (length t) @ t"
definition bool_item :: "bool \<Rightarrow> bytes" where "bool_item b = [if b then 0xf5 else 0xf4]"
definition null_item :: bytes where "null_item = [0xf6]"

definition text_ok :: "nat \<Rightarrow> nat \<Rightarrow> bool \<Rightarrow> bytes \<Rightarrow> bool" where
  "text_ok maximum_bytes maximum_scalars require_non_empty t \<longleftrightarrow>
     utf8_valid t \<and> length t \<le> maximum_bytes \<and> char_count t \<le> maximum_scalars \<and> (require_non_empty \<longrightarrow> t \<noteq> [])"

lemmas item_defs = uint_item_def array_head_def map_head_def bytes_item_def text_item_def bool_item_def null_item_def

lemma decoders:
  assumes "minicbor_decodes M" and "at_major m r"
  shows "m = 0 \<Longrightarrow> md_u64 M r = map_option (\<lambda>(n, l). (word_of_nat n, advance l r)) (head_argument (unread r))"
    and "m = 4 \<Longrightarrow> md_array M r = map_option (\<lambda>(n, l). (Some (word_of_nat n), advance l r)) (head_argument (unread r))"
    and "m = 5 \<Longrightarrow> md_map M r = map_option (\<lambda>(n, l). (Some (word_of_nat n), advance l r)) (head_argument (unread r))"
  using assms by (simp_all add: minicbor_decodes_def reads_head_def)

lemma payload_decoders:
  assumes "minicbor_decodes M" and "at_major m r"
  shows "m = 2 \<Longrightarrow> md_bytes M r = Some (x, r') \<longleftrightarrow> (\<exists>n l. head_argument (unread r) = Some (n, l)
      \<and> l + n \<le> length (unread r) \<and> x = take n (drop l (unread r)) \<and> r' = advance (l + n) r)"
    and "m = 3 \<Longrightarrow> md_str M r = Some (x, r') \<longleftrightarrow> (\<exists>n l. head_argument (unread r) = Some (n, l)
      \<and> l + n \<le> length (unread r) \<and> x = take n (drop l (unread r)) \<and> utf8_valid x \<and> r' = advance (l + n) r)"
  using assms by (auto simp: minicbor_decodes_def reads_payload_def split: option.splits if_splits)

lemma head_argument_unat: "head_argument bs = Some nl \<Longrightarrow> unat (word_of_nat (fst nl) :: u64) = fst nl"
  by (cases nl) (auto dest: head_argument_bound(1))

lemma read_uint_codec: "minicbor_decodes M \<Longrightarrow> codec (read_uint M) uint_item (\<lambda>_. True)"
  unfolding uint_item_def
proof (rule head_codecI [where g = word_of_nat], goal_cases)
  case (2 r x r')
  then show ?case unfolding read_uint_def major_parser_Ok_iff [OF 2(2)]
    using head_argument_unat [of "unread r"]
    by (cases "head_argument (unread r)") (auto simp: decoders ret_apply canonical_uint_header_iff sbind_Ok_iff)
qed (simp_all add: word_bounds)

lemma read_array_len_codec: "minicbor_decodes M \<Longrightarrow> codec (read_array_len M) array_head (\<lambda>n. n < 2 ^ 64)"
  unfolding array_head_def
proof (rule head_codecI [where g = "\<lambda>n. n"], goal_cases)
  case (2 r x r')
  then show ?case unfolding read_array_len_def major_parser_Ok_iff [OF 2(2)]
    using head_argument_unat [of "unread r"]
    by (cases "head_argument (unread r)") (auto simp: decoders ret_apply canonical_array_header_iff sbind_Ok_iff)
qed simp_all

lemma read_map_len_codec: "minicbor_decodes M \<Longrightarrow> codec (read_map_len M) map_head (\<lambda>n. n < 2 ^ 64)"
  unfolding map_head_def
proof (rule head_codecI [where g = "\<lambda>n. n"], goal_cases)
  case (2 r x r')
  then show ?case unfolding read_map_len_def major_parser_Ok_iff [OF 2(2)]
    using head_argument_unat [of "unread r"]
    by (cases "head_argument (unread r)") (auto simp: decoders ret_apply canonical_length_header_iff sbind_Ok_iff)
qed simp_all

lemma read_bytes_codec: "minicbor_decodes M \<Longrightarrow> codec (read_bytes M) bytes_item (\<lambda>_. True)"
  unfolding bytes_item_def
proof (rule payload_codecI, goal_cases)
  case (2 r x r')
  then show ?case unfolding read_bytes_def major_parser_Ok_iff [OF 2(2)]
    by (auto simp: payload_decoders ret_apply canonical_length_header_iff sbind_Ok_iff)
qed simp_all

lemma read_text_codec:
  "minicbor_decodes M \<Longrightarrow> codec (read_text M mb ms ne) text_item (text_ok mb ms ne)"
  unfolding text_item_def
proof (rule payload_codecI, goal_cases)
  case (2 r x r')
  then show ?case unfolding read_text_def major_parser_Ok_iff [OF 2(2)]
    by (auto simp: payload_decoders ret_apply canonical_length_header_iff sbind_Ok_iff text_ok_def not_less)
qed simp_all

text \<open>The composition rules of the codecs, to be given the law of the library.\<close>

lemmas basic_reads = codec.bind_reads [OF read_uint_codec] codec.final_reads [OF read_uint_codec]
  codec.bind_reads [OF read_array_len_codec] codec.bind_reads [OF read_map_len_codec]
  codec.bind_reads [OF read_bytes_codec] codec.final_reads [OF read_bytes_codec]
  codec.bind_reads [OF read_text_codec] codec.final_reads [OF read_text_codec]

lemmas basic_sounds = codec.bind_sound [OF read_uint_codec] codec.final_sound [OF read_uint_codec]
  codec.bind_sound [OF read_array_len_codec] codec.bind_sound [OF read_map_len_codec]
  codec.bind_sound [OF read_bytes_codec] codec.final_sound [OF read_bytes_codec]
  codec.bind_sound [OF read_text_codec] codec.final_sound [OF read_text_codec]

lemma read_key_codec:
  assumes M: "minicbor_decodes M"
  shows "codec (read_key M k) (\<lambda>_. uint_item (ucast k)) (\<lambda>_. True)"
proof
  show "reads (read_key M k) (uint_item (ucast k)) x" for x
    unfolding read_key_def by (rule reads_last, intro basic_reads [OF M] reads_intros) simp_all
  show "sound (read_key M k) (\<lambda>bs x. True \<and> bs = uint_item (ucast k))"
    unfolding read_key_def by (intro basic_sounds [OF M] sound_intros) simp
qed

lemma read_exact_map_codec:
  assumes M: "minicbor_decodes M"
  shows "codec (read_exact_map M n) (\<lambda>_. map_head n) (\<lambda>_. n < 2 ^ 64)"
proof
  show "reads (read_exact_map M n) (map_head n) x" if "n < 2 ^ 64" for x
    unfolding read_exact_map_def by (rule reads_last, intro basic_reads [OF M] reads_intros) (use that in simp_all)
  show "sound (read_exact_map M n) (\<lambda>bs x. n < 2 ^ 64 \<and> bs = map_head n)"
    unfolding read_exact_map_def by (intro basic_sounds [OF M] sound_intros) auto
qed

lemma read_exact_bytes_codec:
  assumes M: "minicbor_decodes M"
  shows "codec (read_exact_bytes M n) bytes_item (\<lambda>b. length b = n)"
proof
  show "reads (read_exact_bytes M n) (bytes_item b) b" if "length b = n" for b
    unfolding read_exact_bytes_def by (rule reads_last, intro basic_reads [OF M] reads_intros) (simp_all add: that)
  show "sound (read_exact_bytes M n) (\<lambda>bs b. length b = n \<and> bs = bytes_item b)"
    unfolding read_exact_bytes_def by (intro basic_sounds [OF M] sound_intros) simp
qed

text \<open>An item that is read after a look at its first byte.\<close>

lemma reads_peek: "reads (f b) (b # bs) x \<Longrightarrow> reads (sbind peek f) (b # bs) x"
  by (simp add: reads_def sbind_Ok peek_Ok_iff)

lemma sound_peek:
  assumes "\<And>b. sound (f b) (\<lambda>bs x. bs \<noteq> [] \<longrightarrow> hd bs = b \<longrightarrow> R bs x)" and "\<And>b. sound (f b) (\<lambda>bs x. bs \<noteq> [])"
  shows "sound (sbind peek f) R"
  unfolding sound_def
proof (intro allI impI)
  fix r x r'
  assume ok: "reader_ok r" and run: "sbind peek f r = Ok (x, r')"
  then have f: "f (hd (unread r)) r = Ok (x, r')" by (auto simp: sbind_Ok_iff peek_Ok_iff)
  from assms(1) ok f obtain bs where
    bs: "unread r = bs @ unread r'" "r' = advance (length bs) r" "bs \<noteq> [] \<longrightarrow> hd bs = hd (unread r) \<longrightarrow> R bs x"
    by (rule soundD)
  from assms(2) ok f obtain cs where cs: "unread r = cs @ unread r'" "cs \<noteq> []" by (rule soundD)
  with bs(1) have "bs \<noteq> []" by auto
  then have "hd bs = hd (unread r)" using bs(1) by (metis hd_append2)
  with bs \<open>bs \<noteq> []\<close> show "\<exists>bs. unread r = bs @ unread r' \<and> r' = advance (length bs) r \<and> R bs x" by blast
qed

lemma simple_decoders:
  assumes "minicbor_decodes M" and "reader_ok r" and "unread r = b # rest"
  shows "b \<le> 23 \<Longrightarrow> md_u8 M r = Some (b, advance 1 r)" and "b \<le> 23 \<Longrightarrow> md_datatype_is_u8 M r = Some True"
    and "b = 0xf4 \<or> b = 0xf5 \<Longrightarrow> md_bool M r = Some (b = 0xf5, advance 1 r)"
    and "b = 0xf6 \<Longrightarrow> md_null M r = Some ((), advance 1 r)"
  using assms by (auto simp: minicbor_decodes_def)

lemma byte_codecI:
  fixes wf :: "'a \<Rightarrow> bool"
  assumes run: "\<And>r b rest x r'. reader_ok r \<Longrightarrow> unread r = b # rest \<Longrightarrow>
      p r = Ok (x, r') \<longleftrightarrow> wf x \<and> b = e x \<and> r' = advance 1 r"
    and empty: "\<And>r x. unread r = [] \<Longrightarrow> reader_ok r \<Longrightarrow> p r \<noteq> Ok x"
  shows "codec p (\<lambda>x. [e x]) wf"
proof
  show "reads p [e x] x" if "wf x" for x using that by (auto simp: reads_def run)
  show "sound p (\<lambda>bs x. wf x \<and> bs = [e x])"
    unfolding sound_def
  proof (intro allI impI)
    fix r x r'
    assume ok: "reader_ok r" and p: "p r = Ok (x, r')"
    obtain b rest where r: "unread r = b # rest" using empty [OF _ ok] p by (cases "unread r") auto
    with ok p have x: "wf x" "b = e x" "r' = advance (length [b]) r" by (auto simp: run)
    then show "\<exists>bs. unread r = bs @ unread r' \<and> r' = advance (length bs) r \<and> wf x \<and> bs = [e x]"
      using unread_advance [of r "[b]" rest] r by auto
  qed
qed

lemma read_bool_codec: "minicbor_decodes M \<Longrightarrow> codec (read_bool M) bool_item (\<lambda>_. True)"
  unfolding bool_item_def
proof (rule byte_codecI, goal_cases)
  case (1 r b rest x r')
  then show ?case
    by (auto simp: read_bool_def sbind_Ok_iff peek_Ok_iff ret_apply slift_apply simple_decoders)
next
  case (2 r x)
  then show ?case by (cases x) (auto simp: read_bool_def sbind_Ok_iff peek_Ok_iff)
qed

definition nullable :: "('a \<Rightarrow> bytes) \<Rightarrow> 'a option \<Rightarrow> bytes" where
  "nullable enc v = (case v of Some v \<Rightarrow> enc v | None \<Rightarrow> null_item)"

lemma null_codec: "minicbor_decodes M \<Longrightarrow> reads (decode_with (md_null M)) null_item ()"
  by (simp add: reads_def null_item_def decode_with_def simple_decoders)

lemma nullable_codec:
  fixes wf :: "'a \<Rightarrow> bool"
  assumes M: "minicbor_decodes M" and p: "codec p enc wf"
    and first: "\<And>x. wf x \<Longrightarrow> enc x \<noteq> [] \<and> hd (enc x) \<noteq> 0xf6"
  shows "codec (sbind peek (\<lambda>first. if first = 0xf6 then sbind (decode_with (md_null M)) (\<lambda>_. ret None)
      else sbind p (\<lambda>v. ret (Some v)))) (nullable enc) (pred_option wf)" (is "codec (sbind peek ?f) _ _")
proof
  show "reads (sbind peek ?f) (nullable enc v) v" if v: "pred_option wf v" for v
  proof (cases v)
    case None
    have "reads (?f 0xf6) (null_item @ []) None"
      using reads_bind [OF null_codec [OF M] reads_ret [of None]] by simp
    then have "reads (?f 0xf6) (0xf6 # []) None" by (simp add: null_item_def)
    then have "reads (sbind peek ?f) (0xf6 # []) None" by (rule reads_peek)
    then show ?thesis by (simp add: None nullable_def null_item_def)
  next
    case (Some x)
    then obtain b bs where b: "enc x = b # bs" "b \<noteq> 0xf6" using v first [of x] by (cases "enc x") auto
    have "reads (?f b) (enc x @ []) (Some x)"
      using b(2) v Some reads_bind [OF codec.parse_enc [OF p, of x], of "\<lambda>v. ret (Some v)" "[]" "Some x"]
      by (simp add: reads_ret)
    then have "reads (sbind peek ?f) (b # bs) (Some x)" unfolding b(1) append_Nil2 by (rule reads_peek)
    then show ?thesis by (simp add: Some nullable_def b(1))
  qed
  show "sound (sbind peek ?f) (\<lambda>bs v. pred_option wf v \<and> bs = nullable enc v)"
    unfolding sound_def
  proof (intro allI impI)
    fix r v r'
    assume ok: "reader_ok r" and run: "sbind peek ?f r = Ok (v, r')"
    then obtain b rest where r: "unread r = b # rest" "?f b r = Ok (v, r')"
      by (cases "unread r") (auto simp: sbind_Ok_iff peek_Ok_iff)
    show "\<exists>bs. unread r = bs @ unread r' \<and> r' = advance (length bs) r \<and> pred_option wf v \<and> bs = nullable enc v"
    proof (cases "b = 0xf6")
      case True
      then have "r' = advance (length [b]) r" "v = None"
        using r simple_decoders(4) [OF M ok r(1)] by (auto simp: sbind_Ok_iff ret_apply)
      then show ?thesis using unread_advance [of r "[b]" rest] r(1) True by (simp add: nullable_def null_item_def)
    next
      case False
      then obtain x where x: "p r = Ok (x, r')" "v = Some x" using r(2) by (auto simp: sbind_Ok_iff ret_apply)
      from codec.parse_sound [OF p] ok x(1) obtain bs where
        "unread r = bs @ unread r'" "r' = advance (length bs) r" "wf x \<and> bs = enc x" by (rule soundD)
      then show ?thesis by (auto simp: x(2) nullable_def)
    qed
  qed
qed

lemma read_nullable_id_codec:
  "minicbor_decodes M \<Longrightarrow> codec (read_nullable_id M) (nullable bytes_item) (pred_option (\<lambda>b. length b = 16))"
  unfolding read_nullable_id_def
proof (rule nullable_codec [OF _ read_exact_bytes_codec])
  fix b :: bytes
  show "bytes_item b \<noteq> [] \<and> hd (bytes_item b) \<noteq> 0xf6"
    using cbor_head_first(1,2) [of 2 "length b"] by (auto simp: bytes_item_def hd_append)
qed

lemma read_nullable_text_codec:
  "minicbor_decodes M \<Longrightarrow> codec (read_nullable_text M mb ms) (nullable text_item) (pred_option (text_ok mb ms True))"
  unfolding read_nullable_text_def
proof (rule nullable_codec [OF _ read_text_codec])
  fix t :: bytes
  show "text_item t \<noteq> [] \<and> hd (text_item t) \<noteq> 0xf6"
    using cbor_head_first(1,2) [of 3 "length t"] by (auto simp: text_item_def hd_append)
qed

text \<open>The key of a map entry: the bytes of the expected number.\<close>

lemma read_key_reads:
  assumes "minicbor_decodes M" and "v = ucast k" and "reads (f ()) bs y"
  shows "reads (sbind (read_key M k) f) (uint_item v @ bs) y"
  using codec.bind_reads [OF read_key_codec [OF assms(1)], where x = "()"] assms(2,3) by simp

lemma read_key_reads_to_end:
  assumes "minicbor_decodes M" and "v = ucast k" and "reads_to_end (f ()) bs y"
  shows "reads_to_end (sbind (read_key M k) f) (uint_item v @ bs) y"
  using codec.bind_reads_to_end [OF read_key_codec [OF assms(1)], where x = "()"] assms(2,3) by simp

lemmas cbor_codecs =
  read_uint_codec read_array_len_codec read_map_len_codec read_bytes_codec read_text_codec
  read_exact_map_codec read_exact_bytes_codec read_bool_codec read_nullable_id_codec read_nullable_text_codec

lemmas cbor_reads = read_key_reads cbor_codecs [THEN codec.bind_reads] cbor_codecs [THEN codec.final_reads]
lemmas cbor_ends = read_key_reads_to_end cbor_codecs [THEN codec.bind_reads_to_end]
lemmas cbor_sounds = codec.bind_sound [OF read_key_codec] cbor_codecs [THEN codec.bind_sound] cbor_codecs [THEN codec.final_sound]
lemmas cbor_sound_ends = codec.bind_sound_to_end [OF read_key_codec] cbor_codecs [THEN codec.bind_sound_to_end]

lemma bytes_item_eq_iff: "length p < 2 ^ 64 \<Longrightarrow> length q < 2 ^ 64 \<Longrightarrow> bytes_item p = bytes_item q \<longleftrightarrow> p = q"
proof
  assume len: "length p < 2 ^ 64" "length q < 2 ^ 64" and eq: "bytes_item p = bytes_item q"
  have "Some (length p, length (cbor_head 2 (length p))) = Some (length q, length (cbor_head 2 (length q)))"
    using head_argument_head [of 2, OF _ len(1), of p] head_argument_head [of 2, OF _ len(2), of q] eq
    unfolding bytes_item_def by simp
  then have "length p = length q" by simp
  with eq show "p = q" by (simp add: bytes_item_def)
qed simp

section \<open>What the writers append\<close>

text \<open>\<open>writes w bs\<close>: the writer \<open>w\<close> succeeds and appends \<open>bs\<close>.\<close>

definition writes :: "encoder \<Rightarrow> bytes \<Rightarrow> bool" where
  "writes w bs \<longleftrightarrow> (\<forall>output. w output = Ok ((), output @ bs))"

named_theorems writes_intros "composition rules: what an encoder appends"

lemma writes_ret [writes_intros]: "writes (ret ()) []"
  by (simp add: writes_def ret_apply)

lemma writes_bind: "writes v a \<Longrightarrow> writes (w ()) b \<Longrightarrow> writes (sbind v w) (a @ b)"
  by (simp add: writes_def sbind_Ok)

lemma writes_bind_slift [writes_intros]: "m = Ok x \<Longrightarrow> writes (w x) b \<Longrightarrow> writes (sbind (slift m) w) b"
  by simp

lemma writes_last: "writes w (bs @ []) \<Longrightarrow> writes w bs"
  by simp

lemma writes_emit: "item = Some bs \<Longrightarrow> writes (emit item) bs"
  by (simp add: writes_def emit_def)

lemma unat_ucast_up:
  "LENGTH('a) \<le> LENGTH('b) \<Longrightarrow> unat (ucast a :: 'b::len word) = unat (a :: 'a::len word)"
proof -
  assume "LENGTH('a) \<le> LENGTH('b)"
  then have "(2 :: nat) ^ LENGTH('a) \<le> 2 ^ LENGTH('b)" by (rule power_increasing) simp
  with unsigned_less [of a] have "unat a < 2 ^ LENGTH('b)" by (rule order_less_le_trans)
  then show ?thesis by (simp add: unsigned_ucast_eq take_bit_nat_eq_self)
qed

lemma encoders:
  assumes "minicbor_encodes M"
  shows "writes (emit (mc_map M n)) (map_head (unat n))" and "writes (emit (mc_array M n)) (array_head (unat n))"
    and "writes (emit (mc_u8 M a)) (uint_item (ucast a))" and "writes (emit (mc_u16 M b)) (uint_item (ucast b))"
    and "writes (emit (mc_u32 M c)) (uint_item (ucast c))" and "writes (emit (mc_u64 M d)) (uint_item d)"
    and "writes (emit (mc_bytes M v)) (bytes_item v)" and "writes (emit (mc_str M t)) (text_item t)"
    and "writes (emit (mc_bool M f)) (bool_item f)" and "writes (emit (mc_null M)) null_item"
  using assms by (auto intro!: writes_emit simp: minicbor_encodes_def item_defs unat_ucast_up)

lemma helper_encoders:
  assumes "minicbor_encodes M"
  shows "writes (encode_key M k) (uint_item (ucast k))"
    and "writes (encode_optional_id M v) (nullable bytes_item v)"
    and "writes (encode_optional_text M v) (nullable text_item v)"
  using encoders [OF assms]
  by (auto simp: encode_key_def encode_optional_id_def encode_optional_text_def nullable_def split: option.split)

lemmas cbor_writes = encoders [THEN writes_bind] helper_encoders [THEN writes_bind] encoders helper_encoders

text \<open>The same with the numbers of keys and heads as equations.\<close>

lemma key_writes:
  assumes "minicbor_encodes M" and "v = ucast k" and "writes (w ()) b"
  shows "writes (sbind (encode_key M k) w) (uint_item v @ b)"
  using writes_bind [OF helper_encoders(1) [OF assms(1)]] assms(2,3) by simp

lemma map_writes:
  assumes "minicbor_encodes M" and "k = unat n" and "writes (w ()) b"
  shows "writes (sbind (emit (mc_map M n)) w) (map_head k @ b)"
  using writes_bind [OF encoders(1) [OF assms(1)]] assms(2,3) by simp

lemma array_writes:
  assumes "minicbor_encodes M" and "k = unat n" and "writes (w ()) b"
  shows "writes (sbind (emit (mc_array M n)) w) (array_head k @ b)"
  using writes_bind [OF encoders(2) [OF assms(1)]] assms(2,3) by simp

lemmas format_writes = key_writes map_writes array_writes encoders(3-) [THEN writes_bind] helper_encoders(2-) [THEN writes_bind]
  encoders(3-) helper_encoders(2-)

section \<open>The laws can hold\<close>

definition example_payload :: "(bytes \<Rightarrow> bool) \<Rightarrow> reader \<Rightarrow> (bytes \<times> reader) option" where
  "example_payload ok r =
     (case head_argument (unread r) of
        None \<Rightarrow> None
      | Some (n, l) \<Rightarrow>
          if l + n \<le> length (unread r) \<and> ok (take n (drop l (unread r)))
          then Some (take n (drop l (unread r)), advance (l + n) r) else None)"

definition example_minicbor :: minicbor where
  "example_minicbor = \<lparr>
     mc_map = \<lambda>n. Some (cbor_head 5 (unat n)), mc_array = \<lambda>n. Some (cbor_head 4 (unat n)),
     mc_u8 = \<lambda>n. Some (cbor_head 0 (unat n)), mc_u16 = \<lambda>n. Some (cbor_head 0 (unat n)),
     mc_u32 = \<lambda>n. Some (cbor_head 0 (unat n)), mc_u64 = \<lambda>n. Some (cbor_head 0 (unat n)),
     mc_bytes = \<lambda>b. Some (cbor_head 2 (length b) @ b), mc_str = \<lambda>t. Some (cbor_head 3 (length t) @ t),
     mc_bool = \<lambda>b. Some [if b then 0xf5 else 0xf4], mc_null = Some [0xf6],
     md_map = \<lambda>r. map_option (\<lambda>(n, l). (Some (word_of_nat n), advance l r)) (head_argument (unread r)),
     md_array = \<lambda>r. map_option (\<lambda>(n, l). (Some (word_of_nat n), advance l r)) (head_argument (unread r)),
     md_u8 = \<lambda>r. Some (hd (unread r), advance 1 r),
     md_u64 = \<lambda>r. map_option (\<lambda>(n, l). (word_of_nat n, advance l r)) (head_argument (unread r)),
     md_bytes = example_payload (\<lambda>_. True), md_str = example_payload utf8_valid,
     md_bool = \<lambda>r. Some (hd (unread r) = 0xf5, advance 1 r), md_null = \<lambda>r. Some ((), advance 1 r),
     md_datatype_is_u8 = \<lambda>r. Some (hd (unread r) \<le> 0x18)\<rparr>"

lemma example_encodes: "minicbor_encodes example_minicbor"
  by (simp add: minicbor_encodes_def example_minicbor_def)

lemma example_decodes: "minicbor_decodes example_minicbor"
proof -
  have "b \<le> 23 \<Longrightarrow> b \<le> 0x18" for b :: u8 by (simp add: word_le_nat_alt)
  then show ?thesis
    by (simp add: minicbor_decodes_def example_minicbor_def reads_head_def reads_payload_def example_payload_def)
qed

end
