(* ===== verification/Foundation_Record.thy ===== *)
theory Foundation_Record
  imports Cbor
begin

text \<open>
  \<^verbatim>\<open>cbor.rs\<close>: the foundation record, a canonical map of a version, a kind and a payload, with its own readers
  of small integers and byte strings. The readers are shown to agree with those of \<^verbatim>\<open>application.rs\<close>,
  and the decoder to accept exactly what the encoder writes for versions and kinds below 24.
\<close>

definition MAX_CBOR_ITEMS :: u32 where "MAX_CBOR_ITEMS = 4096"
definition MAX_CBOR_BYTES :: nat where "MAX_CBOR_BYTES = MAX_INPUT_BYTES"

record foundation_record =
  fr_version :: u8
  fr_kind :: u8
  fr_payload :: bytes

definition encode_foundation_record :: "minicbor \<Rightarrow> u8 \<Rightarrow> u8 \<Rightarrow> bytes \<Rightarrow> bytes cresult" where
  "encode_foundation_record M version kind payload =
     rbind (bounded_bytes_new payload MAX_CBOR_BYTES) (\<lambda>bounded.
     rbind (ok_or (usize_checked_add (length payload) 16) InputTooLarge) (\<lambda>capacity.
     rbind ((sbind (emit (mc_map M 3)) (\<lambda>_.
             sbind (emit (mc_u8 M 0)) (\<lambda>_.
             sbind (emit (mc_u8 M version)) (\<lambda>_.
             sbind (emit (mc_u8 M 1)) (\<lambda>_.
             sbind (emit (mc_u8 M kind)) (\<lambda>_.
             sbind (emit (mc_u8 M 2)) (\<lambda>_.
             emit (mc_bytes M bounded)))))))) []) (\<lambda>(_, encoded).
     rbind (reject_if (length encoded > MAX_CBOR_BYTES) InputTooLarge) (\<lambda>_.
     Ok encoded))))"

definition read_canonical_u8 :: "minicbor \<Rightarrow> u8 parser" where
  "read_canonical_u8 M =
     sbind peek (\<lambda>first.
     sbind (slift (reject_if (first > 23) MalformedInput)) (\<lambda>_.
     sbind (\<lambda>r. rbind (ok_or (md_datatype_is_u8 M r) MalformedInput) (\<lambda>is_u8. Ok (is_u8, r))) (\<lambda>is_u8.
     sbind (slift (reject_if (\<not> is_u8) MalformedInput)) (\<lambda>_.
     decode_with (md_u8 M)))))"

text \<open>\<^verbatim>\<open>uN::from_be_bytes([*input.get(position + 1).ok_or(..)?, ..])\<close>\<close>

definition declared_argument :: "reader \<Rightarrow> nat \<Rightarrow> nat cresult" where
  "declared_argument r k =
     (if rd_position r + k < length (rd_input r)
      then Ok (be_value (map (\<lambda>i. rd_input r ! (rd_position r + i)) [1..<Suc k]))
      else Err MalformedInput)"

definition header_length :: "u8 \<Rightarrow> nat cresult" where
  "header_length additional =
     (if additional \<le> 23 then Ok 1
      else if additional = 24 then Ok 2
      else if additional = 25 then Ok 3
      else if additional = 26 then Ok 5
      else if additional = 27 then Ok 9
      else Err MalformedInput)"

definition declared_length :: "reader \<Rightarrow> u8 \<Rightarrow> nat \<Rightarrow> nat cresult" where
  "declared_length r additional header_len =
     (if header_len = 1 then Ok (unat additional)
      else if header_len = 2 then declared_argument r 1
      else if header_len = 3 then declared_argument r 2
      else if header_len = 5 then declared_argument r 4
      else if header_len = 9 then declared_argument r 8
      else Err MalformedInput)"

definition canonical_header_length :: "nat \<Rightarrow> nat \<Rightarrow> bool" where
  "canonical_header_length declared_len header_len =
     (if declared_len \<le> 23 then header_len = 1
      else if declared_len \<le> 0xff then header_len = 2
      else if declared_len \<le> 0xffff then header_len = 3
      else if declared_len \<le> 0xffffffff then header_len = 5
      else header_len = 9)"

definition read_canonical_bytes :: "minicbor \<Rightarrow> bytes parser" where
  "read_canonical_bytes M =
     sbind peek (\<lambda>first.
     sbind (slift (reject_if (drop_bit 5 first \<noteq> 2) MalformedInput)) (\<lambda>_.
     let additional = first AND 0x1f in
     sbind (slift (header_length additional)) (\<lambda>header_len.
     sbind (\<lambda>r. rbind (declared_length r additional header_len) (\<lambda>n. Ok (n, r))) (\<lambda>declared_len.
     sbind (slift (reject_if (\<not> canonical_header_length declared_len header_len) MalformedInput)) (\<lambda>_.
     decode_with (md_bytes M))))))"

text \<open>The fields seen so far: the next key, the version, the kind and the payload.\<close>

type_synonym record_fields = "u8 \<times> u8 option \<times> u8 option \<times> bytes option"

definition record_field :: "minicbor \<Rightarrow> record_fields \<Rightarrow> record_fields parser" where
  "record_field M = (\<lambda>(next_key, version, kind, payload).
     sbind (read_canonical_u8 M) (\<lambda>key.
     sbind (slift (reject_if (key \<noteq> next_key) MalformedInput)) (\<lambda>_.
     let next_key = saturating_add next_key 1 in
     if key = 0 then sbind (read_canonical_u8 M) (\<lambda>v. ret (next_key, Some v, kind, payload))
     else if key = 1 then sbind (read_canonical_u8 M) (\<lambda>k. ret (next_key, version, Some k, payload))
     else if key = 2 then
       sbind (read_canonical_bytes M) (\<lambda>bs.
       sbind (slift (reject_if (length bs > MAX_CBOR_BYTES) InputTooLarge)) (\<lambda>_.
       ret (next_key, version, kind, Some bs)))
     else slift (Err MalformedInput))))"

primrec record_loop :: "minicbor \<Rightarrow> nat \<Rightarrow> record_fields \<Rightarrow> record_fields parser" where
  "record_loop M 0 seen = ret seen"
| "record_loop M (Suc n) seen = sbind (record_field M seen) (record_loop M n)"

definition decode_foundation_record :: "minicbor \<Rightarrow> bytes \<Rightarrow> foundation_record cresult" where
  "decode_foundation_record M input =
     rbind (bounded_bytes_new input MAX_CBOR_BYTES) (\<lambda>bounded.
     rbind (reject_if (bounded = [] \<or> hd bounded \<noteq> 0xa3) MalformedInput) (\<lambda>_.
     run_parser
       (sbind (decode_with (md_map M)) (\<lambda>map_len.
        sbind (slift (reject_if (map_len \<noteq> Some 3) MalformedInput)) (\<lambda>_.
        sbind (record_loop M (min (unat MAX_CBOR_ITEMS) 3) (0, None, None, None)) (\<lambda>(_, version, kind, payload).
        sbind finished (\<lambda>fin.
        sbind (slift (reject_if (\<not> fin \<or> version = None \<or> kind = None \<or> payload = None) MalformedInput)) (\<lambda>_.
        sbind (slift (ok_or version MalformedInput)) (\<lambda>version.
        sbind (slift (ok_or kind MalformedInput)) (\<lambda>kind.
        sbind (slift (ok_or payload MalformedInput)) (\<lambda>payload.
        ret \<lparr>fr_version = version, fr_kind = kind, fr_payload = payload\<rparr>))))))))) bounded))"

section \<open>The two readers of byte strings agree\<close>

lemma byte_of_parts: "b = (push_bit 5 (drop_bit 5 b) OR (b AND 0x1f))" for b :: u8
proof -
  have "(0x1f :: u8) = mask 5" by (simp add: mask_eq_exp_minus_1)
  then show ?thesis by (auto simp: bit_eq_iff bit_simps)
qed

lemma drop_bit_5_less: "drop_bit 5 b < (8 :: u8)"
  using unat_less_256 [of b] by (simp add: word_less_nat_alt drop_bit_eq_div unat_div)

lemma byte_eq_parts_iff: "j < 32 \<Longrightarrow> b = (push_bit 5 (drop_bit 5 b) OR j) \<longleftrightarrow> b AND 0x1f = j" for b j :: u8
  using byte_of_parts [of b] major_bits(2) [OF drop_bit_5_less, of j b] by auto

lemma less_24_iff: "w < 24 \<longleftrightarrow> w \<le> (23 :: u8)"
  by (auto simp: word_less_nat_alt word_le_nat_alt)

lemma canonical_header_length_iff:
  assumes arg: "head_argument (b # rest) = Some (n, l)"
  shows "canonical_header_length n l \<longleftrightarrow> b = hd (cbor_head (drop_bit 5 b) n)"
  using arg
proof (cases rule: head_argumentE)
  case (1 b' rest')
  then have "n < 24" by (simp add: word_less_nat_alt)
  with 1 show ?thesis using byte_of_parts [of b] by (simp add: canonical_header_length_def cbor_head_def)
next
  case (2 b' rest' k)
  then have b: "(b AND 0x1f, k) \<in> {(24, 1), (25, 2), (26, 4), (27, 8)}" by simp
  have small: "b \<noteq> (push_bit 5 (drop_bit 5 b) OR word_of_nat n)" if "n < 24"
    using b small_info [OF that] byte_eq_parts_iff [of "word_of_nat n" b] by auto
  have "n < 256 ^ k" using 2 be_value_less [of "take k rest"] by simp
  with b 2(5) small show ?thesis by (auto simp: canonical_header_length_def cbor_head_def byte_eq_parts_iff)
qed

lemma declared_argument_eq:
  assumes "reader_ok r" and "unread r = b # rest"
  shows "declared_argument r k = (if k \<le> length rest then Ok (be_value (take k rest)) else Err MalformedInput)"
proof -
  have len: "length (rd_input r) - rd_position r = Suc (length rest)"
    using assms(2) by (metis length_Cons length_drop unread_def)
  have "map (\<lambda>i. rd_input r ! (rd_position r + i)) [1..<Suc k] = take k rest" if k: "k \<le> length rest"
  proof (rule nth_equalityI)
    fix i
    assume "i < length (map (\<lambda>i. rd_input r ! (rd_position r + i)) [1..<Suc k])"
    then have i: "i < k" by (simp del: upt_Suc)
    have "rd_input r ! (rd_position r + Suc i) = unread r ! Suc i"
      using assms(1) by (simp add: unread_def reader_ok_def)
    then show "map (\<lambda>i. rd_input r ! (rd_position r + i)) [1..<Suc k] ! i = take k rest ! i"
      using i assms(2) by (simp add: nth_append del: upt_Suc)
  qed (use k in \<open>simp del: upt_Suc\<close>)
  moreover have "rd_position r + k < length (rd_input r) \<longleftrightarrow> k \<le> length rest" using len by linarith
  ultimately show ?thesis by (simp add: declared_argument_def)
qed

lemma declared_length_eq:
  assumes "reader_ok r" and r: "unread r = b # rest" and "header_length (b AND 0x1f) = Ok h"
  shows "declared_length r (b AND 0x1f) h = (case head_argument (unread r) of Some (n, l) \<Rightarrow> Ok n | None \<Rightarrow> Err MalformedInput)"
    and "head_argument (unread r) = Some (n, l) \<Longrightarrow> l = h"
proof -
  have "(b AND 0x1f) < 24 \<or> \<not> (b AND 0x1f) < 24 \<and> \<not> (b AND 0x1f) \<le> 23" by (auto simp: word_less_nat_alt word_le_nat_alt)
  then show "declared_length r (b AND 0x1f) h = (case head_argument (unread r) of Some (n, l) \<Rightarrow> Ok n | None \<Rightarrow> Err MalformedInput)"
    "head_argument (unread r) = Some (n, l) \<Longrightarrow> l = h"
    using assms declared_argument_eq [OF assms(1,2)]
    by (auto simp: declared_length_def header_length_def head_argument_def Let_def split: if_splits)
qed

lemma read_canonical_bytes_eq:
  assumes M: "minicbor_decodes M" and ok: "reader_ok r"
  shows "read_canonical_bytes M r = read_bytes M r"
proof (cases "unread r")
  case Nil
  then have "peek r = Err MalformedInput" using ok by (auto simp: peek_def unread_def reader_ok_def)
  then show ?thesis by (simp add: read_canonical_bytes_def read_bytes_def sbind_Err)
next
  case (Cons b rest)
  then have peek: "sbind peek f r = f b r" for f :: "u8 \<Rightarrow> bytes parser" using ok by (intro sbind_Ok) (simp add: peek_Ok_iff)
  show ?thesis
  proof (cases "drop_bit 5 b = 2 \<and> b AND 0x1f \<noteq> 0x1f")
    case False
    then show ?thesis
      by (cases "drop_bit 5 b = 2") (simp_all add: read_canonical_bytes_def read_bytes_def peek header_length_def Let_def)
  next
    case True
    then have major: "at_major 2 r" using ok Cons by (simp add: at_major_def)
    then have d: "md_bytes M r = (case head_argument (unread r) of None \<Rightarrow> None | Some (n, l) \<Rightarrow>
        if l + n \<le> length (unread r) then Some (take n (drop l (unread r)), advance (l + n) r) else None)"
      using M by (simp add: minicbor_decodes_def reads_payload_def split: option.split)
    have left: "read_canonical_bytes M r = rbind (header_length (b AND 0x1f)) (\<lambda>h.
        rbind (declared_length r (b AND 0x1f) h) (\<lambda>n.
        rbind (reject_if (\<not> canonical_header_length n h) MalformedInput) (\<lambda>_. ok_or (md_bytes M r) MalformedInput)))"
      using True by (simp add: read_canonical_bytes_def peek Let_def sbind_slift_apply sbind_observe decode_with_def)
    have right: "read_bytes M r = rbind (ok_or (md_bytes M r) MalformedInput) (\<lambda>(bs, r').
        rbind (reject_if (\<not> canonical_length_header b (length bs) 2) MalformedInput) (\<lambda>_. Ok (bs, r')))"
      using True by (simp add: read_bytes_def peek sbind_decode_with sbind_slift_apply ret_apply)
    show ?thesis
    proof (cases "head_argument (unread r)")
      case None
      then have "md_bytes M r = None" using d by simp
      moreover have "header_length (b AND 0x1f) = Err MalformedInput
          \<or> (\<exists>h. header_length (b AND 0x1f) = Ok h \<and> declared_length r (b AND 0x1f) h = Err MalformedInput)"
        using declared_length_eq(1) [OF ok Cons] None by (cases "header_length (b AND 0x1f)") (auto simp: header_length_def split: if_splits)
      ultimately show ?thesis unfolding left right by auto
    next
      case (Some nl)
      then obtain n l where nl: "head_argument (unread r) = Some (n, l)" by (cases nl) auto
      then obtain h where h: "header_length (b AND 0x1f) = Ok h"
        using Cons by (auto simp: header_length_def less_24_iff head_argument_def Let_def split: if_splits)
      note declared = declared_length_eq [OF ok Cons h]
      have "canonical_header_length n l \<longleftrightarrow> canonical_length_header b n 2"
        using canonical_header_length_iff [of b rest n l] nl Cons True by (simp add: canonical_length_header_iff)
      then show ?thesis
        unfolding left right using h nl declared(1) declared(2) [OF nl] d by (simp add: reject_if_def)
    qed
  qed
qed

text \<open>
  \<^verbatim>\<open>cbor.rs\<close> and \<^verbatim>\<open>application.rs\<close> each have a reader of canonical byte strings; the first one parses the head by
  hand before it calls the decoder, the second one compares the head with the length of the result. They
  agree on every input, errors included.
\<close>

theorem canonical_byte_readers_agree:
  assumes "minicbor_decodes M" and "reader_ok r"
  shows "read_canonical_bytes M r = read_bytes M r"
  by (rule read_canonical_bytes_eq [OF assms])

theorem canonical_byte_readers_agree_witness:
  "minicbor_decodes example_minicbor \<and> reader_ok (reader_new [0x42, 7, 9])
   \<and> read_canonical_bytes example_minicbor (reader_new [0x42, 7, 9]) = read_bytes example_minicbor (reader_new [0x42, 7, 9])"
  using canonical_byte_readers_agree [OF example_decodes, of "reader_new [0x42, 7, 9]"] example_decodes by simp

section \<open>The record format\<close>

definition record_body :: "foundation_record \<Rightarrow> bytes" where
  "record_body f = [0] @ [fr_version f] @ [1] @ [fr_kind f] @ [2] @ bytes_item (fr_payload f)"

definition record_bytes :: "u8 \<Rightarrow> u8 \<Rightarrow> bytes \<Rightarrow> bytes" where
  "record_bytes version kind payload =
     map_head 3 @ uint_item 0 @ uint_item (ucast version) @ uint_item 1 @ uint_item (ucast kind) @ uint_item 2 @ bytes_item payload"

lemma encode_foundation_record_eq:
  assumes "minicbor_encodes M"
  shows "encode_foundation_record M version kind payload =
    (if length payload \<le> MAX_CBOR_BYTES \<and> length (record_bytes version kind payload) \<le> MAX_CBOR_BYTES
     then Ok (record_bytes version kind payload) else Err InputTooLarge)"
proof -
  let ?w = "sbind (emit (mc_map M 3)) (\<lambda>_. sbind (emit (mc_u8 M 0)) (\<lambda>_. sbind (emit (mc_u8 M version)) (\<lambda>_.
      sbind (emit (mc_u8 M 1)) (\<lambda>_. sbind (emit (mc_u8 M kind)) (\<lambda>_. sbind (emit (mc_u8 M 2)) (\<lambda>_.
      emit (mc_bytes M payload)))))))"
  have "writes ?w (map_head (unat (3 :: u64)) @ uint_item (ucast (0 :: u8)) @ uint_item (ucast version)
      @ uint_item (ucast (1 :: u8)) @ uint_item (ucast kind) @ uint_item (ucast (2 :: u8)) @ bytes_item payload)"
    by (intro cbor_writes [OF assms])
  then have "?w [] = Ok ((), record_bytes version kind payload)" by (simp add: writes_def record_bytes_def)
  moreover have "length payload \<le> MAX_CBOR_BYTES \<Longrightarrow> usize_checked_add (length payload) 16 = Some (length payload + 16)"
    by (simp add: usize_checked_add_def MAX_CBOR_BYTES_def MAX_INPUT_BYTES_def)
  ultimately show ?thesis
    by (simp add: encode_foundation_record_def bounded_bytes_new_def reject_if_def)
qed

lemma read_canonical_u8_codec: "minicbor_decodes M \<Longrightarrow> codec (read_canonical_u8 M) (\<lambda>v. [v]) (\<lambda>v. v \<le> 23)"
proof (rule byte_codecI, goal_cases)
  case (1 r b rest x r')
  then show ?case
    by (auto simp: read_canonical_u8_def sbind_Ok_iff peek_Ok_iff simple_decoders not_less)
next
  case (2 r x)
  then show ?case by (cases x) (auto simp: read_canonical_u8_def sbind_Ok_iff peek_Ok_iff)
qed

lemma codec_cong:
  fixes wf :: "'a \<Rightarrow> bool"
  assumes "codec p enc wf" and "\<And>r. reader_ok r \<Longrightarrow> q r = p r"
  shows "codec q enc wf"
proof
  show "reads q (enc x) x" if "wf x" for x
    using codec.parse_enc [OF assms(1) that] unfolding reads_def by (auto simp: assms(2))
  show "sound q (\<lambda>bs x. wf x \<and> bs = enc x)"
    using codec.parse_sound [OF assms(1)] unfolding sound_def by (auto simp: assms(2))
qed

lemma read_canonical_bytes_codec: "minicbor_decodes M \<Longrightarrow> codec (read_canonical_bytes M) bytes_item (\<lambda>_. True)"
  by (rule codec_cong [OF read_bytes_codec]) (simp_all add: read_canonical_bytes_eq)

lemma sbind_assoc: "sbind (sbind p f) g = sbind p (\<lambda>x. sbind (f x) g)"
  by (rule ext) (auto simp: sbind_def split: sum.split prod.split)

lemma record_field_steps:
  "record_field M (0, v, k, p) = sbind (read_canonical_u8 M) (\<lambda>key. sbind (slift (reject_if (key \<noteq> 0) MalformedInput)) (\<lambda>_.
     sbind (read_canonical_u8 M) (\<lambda>v. ret (1, Some v, k, p))))"
  "record_field M (1, v, k, p) = sbind (read_canonical_u8 M) (\<lambda>key. sbind (slift (reject_if (key \<noteq> 1) MalformedInput)) (\<lambda>_.
     sbind (read_canonical_u8 M) (\<lambda>k. ret (2, v, Some k, p))))"
  "record_field M (2, v, k, p) = sbind (read_canonical_u8 M) (\<lambda>key. sbind (slift (reject_if (key \<noteq> 2) MalformedInput)) (\<lambda>_.
     sbind (read_canonical_bytes M) (\<lambda>bs. sbind (slift (reject_if (length bs > MAX_CBOR_BYTES) InputTooLarge)) (\<lambda>_.
     ret (3, v, k, Some bs)))))"
  by (rule ext; auto simp: record_field_def saturating_add_def sbind_def slift_def reject_if_def split: sum.split)+

definition record_fields_wf :: "foundation_record \<Rightarrow> bool" where
  "record_fields_wf f \<longleftrightarrow> fr_version f \<le> 23 \<and> fr_kind f \<le> 23 \<and> length (fr_payload f) \<le> MAX_CBOR_BYTES"

text \<open>What \<^const>\<open>decode_foundation_record\<close> reads after the head of the map.\<close>

definition record_tail :: "minicbor \<Rightarrow> foundation_record parser" where
  "record_tail M =
     sbind (record_loop M 3 (0, None, None, None)) (\<lambda>(_, version, kind, payload).
     sbind finished (\<lambda>fin.
     sbind (slift (reject_if (\<not> fin \<or> version = None \<or> kind = None \<or> payload = None) MalformedInput)) (\<lambda>_.
     sbind (slift (ok_or version MalformedInput)) (\<lambda>version.
     sbind (slift (ok_or kind MalformedInput)) (\<lambda>kind.
     sbind (slift (ok_or payload MalformedInput)) (\<lambda>payload.
     ret \<lparr>fr_version = version, fr_kind = kind, fr_payload = payload\<rparr>))))))"

lemma record_tail_codec:
  assumes M: "minicbor_decodes M"
  shows "whole_codec (record_tail M) record_body record_fields_wf"
proof
  note tail = record_tail_def numeral_3_eq_3 record_loop.simps record_field_steps sbind_assoc sbind_ret prod.case
  note u8 = read_canonical_u8_codec [OF M] and bytes = read_canonical_bytes_codec [OF M]
  show "reads_to_end (record_tail M) (record_body f) f" if "record_fields_wf f" for f
    unfolding tail record_body_def
    by (rule reads_to_end_last, simp only: append_assoc,
        intro codec.bind_reads_to_end [OF u8] codec.bind_reads_to_end [OF bytes] ends_intros)
      (use that in \<open>auto simp: record_fields_wf_def\<close>)
  show "sound_to_end (record_tail M) (\<lambda>bs f. record_fields_wf f \<and> bs = record_body f)"
    unfolding tail record_body_def
    by (intro codec.bind_sound_to_end [OF u8] codec.bind_sound_to_end [OF bytes] sound_end_intros)
      (auto simp: record_fields_wf_def)
qed

lemma decode_foundation_record_iff:
  assumes M: "minicbor_decodes M"
  shows "decode_foundation_record M input = Ok f \<longleftrightarrow>
    length input \<le> MAX_CBOR_BYTES \<and> record_fields_wf f \<and> input = 0xa3 # record_body f"
proof (cases "length input \<le> MAX_CBOR_BYTES \<and> input \<noteq> [] \<and> hd input = 0xa3")
  case False
  then show ?thesis
    by (auto simp: decode_foundation_record_def bounded_bytes_new_def elim!: monad_elims split: if_splits)
next
  case True
  then obtain rest where input: "input = 0xa3 # rest" by (cases input) auto
  let ?r = "reader_new input"
  have ok: "reader_ok ?r" using True by (simp add: MAX_CBOR_BYTES_def MAX_INPUT_BYTES_def)
  have major: "at_major 5 ?r" using ok by (simp add: at_major_def input drop_bit_eq_div)
  have head: "decode_with (md_map M) ?r = Ok (Some 3, advance 1 ?r)"
    using decoders(3) [OF M major] by (simp add: decode_with_def input head_argument_short)
  have next_ok: "reader_ok (advance 1 ?r)" "unread (advance 1 ?r) = rest"
    using reader_ok_advance [OF ok, of "[0xa3]" rest] unread_advance [of ?r "[0xa3]" rest] by (simp_all add: input)
  have "decode_foundation_record M input = rbind (record_tail M (advance 1 ?r)) (\<lambda>(f, _). Ok f)"
    using True head by (simp add: decode_foundation_record_def bounded_bytes_new_def run_parser_def sbind_Ok
        record_tail_def MAX_CBOR_ITEMS_def)
  moreover have "(\<exists>r'. record_tail M (advance 1 ?r) = Ok (f, r')) \<longleftrightarrow> record_fields_wf f \<and> rest = record_body f"
    using whole_codec.parse_enc [OF record_tail_codec [OF M], of f] whole_codec.parse_sound [OF record_tail_codec [OF M]] next_ok
    unfolding reads_to_end_def sound_to_end_def by blast
  ultimately show ?thesis using True by (auto simp: rbind_Ok_iff input)
qed

lemma uint_item_byte: "uint_item (ucast v) = (if v \<le> 23 then [v] else [0x18, v])" for v :: u8
  using unat_less_256 [of v]
  by (auto simp: uint_item_def cbor_head_def unat_ucast_up word_le_nat_alt)

lemma record_bytes_iff:
  assumes p: "length p \<le> MAX_CBOR_BYTES"
  shows "record_bytes v k p = 0xa3 # record_body f \<and> record_fields_wf f \<longleftrightarrow>
    v \<le> 23 \<and> k \<le> 23 \<and> f = \<lparr>fr_version = v, fr_kind = k, fr_payload = p\<rparr>"
proof -
  have "map_head 3 = [0xa3]" by (simp add: map_head_def cbor_head_def)
  moreover have "length q \<le> MAX_CBOR_BYTES \<Longrightarrow> bytes_item p = bytes_item q \<longleftrightarrow> p = q" for q
    using p by (intro bytes_item_eq_iff) (simp_all add: MAX_CBOR_BYTES_def MAX_INPUT_BYTES_def)
  ultimately show ?thesis
    using p by (cases f) (auto simp: record_bytes_def record_body_def record_fields_wf_def uint_item_byte [of v] uint_item_byte [of k]
        uint_item_byte [of 0, simplified] uint_item_byte [of 1, simplified] uint_item_byte [of 2, simplified])
qed

lemma length_record_bytes:
  assumes "length p \<le> MAX_CBOR_BYTES"
  shows "length (record_bytes v k p) \<le> length p + 13"
proof -
  have byte: "length (uint_item (ucast b)) \<le> 2" for b :: u8
    using unat_less_256 [of b] by (simp add: uint_item_def cbor_head_def unat_ucast_up)
  have "length (bytes_item p) \<le> length p + 5"
    using assms by (simp add: bytes_item_def cbor_head_def MAX_CBOR_BYTES_def MAX_INPUT_BYTES_def)
  with byte [of v] byte [of k] show ?thesis
    by (simp add: record_bytes_def uint_item_byte [of 0, simplified] uint_item_byte [of 1, simplified]
        uint_item_byte [of 2, simplified] map_head_def cbor_head_def)
qed

text \<open>
  C40: the foundation record decoder accepts a byte string, and returns a record, exactly when the encoder writes that byte
  string for the record and its version and kind are below 24. The encoder takes every version and kind when
  the payload is at least 13 bytes below the size limit, but what it writes for a version or kind of 24 or more never
  decodes, because the decoder refuses an integer that does not fit into the first byte of its head.
\<close>

theorem foundation_record_decodes_iff:
  assumes M: "minicbor_encodes M" "minicbor_decodes M"
  shows "(decode_foundation_record M input = Ok f \<longleftrightarrow>
      fr_version f \<le> 23 \<and> fr_kind f \<le> 23
      \<and> encode_foundation_record M (fr_version f) (fr_kind f) (fr_payload f) = Ok input)
    \<and> (length payload + 13 \<le> MAX_CBOR_BYTES \<longrightarrow> (\<exists>bs. encode_foundation_record M version kind payload = Ok bs))
    \<and> (encode_foundation_record M version kind payload = Ok bs \<and> (23 < version \<or> 23 < kind) \<longrightarrow>
      decode_foundation_record M bs \<noteq> Ok f)"
proof (intro conjI impI)
  show "decode_foundation_record M input = Ok f \<longleftrightarrow>
      fr_version f \<le> 23 \<and> fr_kind f \<le> 23
      \<and> encode_foundation_record M (fr_version f) (fr_kind f) (fr_payload f) = Ok input"
    using record_bytes_iff [of "fr_payload f" "fr_version f" "fr_kind f" f]
    by (auto simp: decode_foundation_record_iff [OF M(2)] encode_foundation_record_eq [OF M(1)] record_fields_wf_def)
  show "\<exists>bs. encode_foundation_record M version kind payload = Ok bs" if "length payload + 13 \<le> MAX_CBOR_BYTES"
    using that length_record_bytes [of payload version kind] by (simp add: encode_foundation_record_eq [OF M(1)])
  assume enc: "encode_foundation_record M version kind payload = Ok bs \<and> (23 < version \<or> 23 < kind)"
  then have "bs = record_bytes version kind payload" "length payload \<le> MAX_CBOR_BYTES"
    by (auto simp: encode_foundation_record_eq [OF M(1)] split: if_splits)
  with enc show "decode_foundation_record M bs \<noteq> Ok f"
    using record_bytes_iff [of payload version kind f] by (auto simp: decode_foundation_record_iff [OF M(2)])
qed

theorem foundation_record_decodes_iff_witness:
  "(\<exists>bs. encode_foundation_record example_minicbor 1 7 [1, 2, 3] = Ok bs
      \<and> decode_foundation_record example_minicbor bs = Ok \<lparr>fr_version = 1, fr_kind = 7, fr_payload = [1, 2, 3]\<rparr>)
   \<and> (\<exists>bs. encode_foundation_record example_minicbor 1 24 [1, 2, 3] = Ok bs
      \<and> (\<forall>f. decode_foundation_record example_minicbor bs \<noteq> Ok f))"
proof -
  note exact = foundation_record_decodes_iff [OF example_encodes example_decodes]
  have room: "length [1, 2, 3 :: byte] + 13 \<le> MAX_CBOR_BYTES" by (simp add: MAX_CBOR_BYTES_def MAX_INPUT_BYTES_def)
  let ?f = "\<lparr>fr_version = 1, fr_kind = 7, fr_payload = [1, 2, 3]\<rparr>"
  obtain bs where small: "encode_foundation_record example_minicbor 1 7 [1, 2, 3] = Ok bs"
    using exact [of "[]" ?f "[1, 2, 3]" 1 7] room by blast
  obtain bs' where large: "encode_foundation_record example_minicbor 1 24 [1, 2, 3] = Ok bs'"
    using exact [of "[]" ?f "[1, 2, 3]" 1 24] room by blast
  have "decode_foundation_record example_minicbor bs = Ok ?f" using exact [of bs ?f] small by simp
  moreover have "decode_foundation_record example_minicbor bs' \<noteq> Ok f" for f
    using exact [of "[]" f "[1, 2, 3]" 1 24 bs'] large by simp
  ultimately show ?thesis using small large by blast
qed

end
