(* ===== verification/Application_Event.thy ===== *)
theory Application_Event
  imports Foundation_Record Device_Signatures
begin

text \<open>
  \<^verbatim>\<open>application.rs\<close>: application events, their canonical CBOR form and the projection frames the caller exchanges.
  This theory holds the data, the validation of texts, identifiers and reactions, the projection reader
  and writer, and the CBOR encoder and decoder.
\<close>

definition APPLICATION_MAX_IO_BYTES :: nat where "APPLICATION_MAX_IO_BYTES = 262144"
definition APPLICATION_VERSION :: u8 where "APPLICATION_VERSION = 1"

definition ENCODE_REQUEST_MAGIC :: bytes where "ENCODE_REQUEST_MAGIC = ascii ''CPAEV001''"
definition ENCODE_RESPONSE_MAGIC :: bytes where "ENCODE_RESPONSE_MAGIC = ascii ''CPAOE001''"
definition DECODE_RESPONSE_MAGIC :: bytes where "DECODE_RESPONSE_MAGIC = ascii ''CPAOD001''"
definition RANDOM_RESPONSE_MAGIC :: bytes where "RANDOM_RESPONSE_MAGIC = ascii ''CPAOG001''"
definition CONVERSATION_RESPONSE_MAGIC :: bytes where "CONVERSATION_RESPONSE_MAGIC = ascii ''CPAOC001''"
definition DEVICE_CONTROL_MAGIC :: bytes where "DEVICE_CONTROL_MAGIC = ascii ''CPDCV001''"
definition DEVICE_CONTROL_ENCODE_RESPONSE_MAGIC :: bytes where "DEVICE_CONTROL_ENCODE_RESPONSE_MAGIC = ascii ''CPDCO001''"
definition DEVICE_CONTROL_DECODE_RESPONSE_MAGIC :: bytes where "DEVICE_CONTROL_DECODE_RESPONSE_MAGIC = ascii ''CPDOD001''"
definition LABEL_SEAL_REQUEST_MAGIC :: bytes where "LABEL_SEAL_REQUEST_MAGIC = ascii ''CPLSE001''"
definition LABEL_SEAL_RESPONSE_MAGIC :: bytes where "LABEL_SEAL_RESPONSE_MAGIC = ascii ''CPLSO001''"
definition LABEL_OPEN_REQUEST_MAGIC :: bytes where "LABEL_OPEN_REQUEST_MAGIC = ascii ''CPLOE001''"
definition LABEL_OPEN_RESPONSE_MAGIC :: bytes where "LABEL_OPEN_RESPONSE_MAGIC = ascii ''CPLOO001''"

definition DM_CONVERSATION_DOMAIN :: bytes where "DM_CONVERSATION_DOMAIN = ascii ''chat:v1:dm-conversation''"
definition SAVED_CONVERSATION_DOMAIN :: bytes where "SAVED_CONVERSATION_DOMAIN = ascii ''chat:v1:saved-conversation''"

definition KIND_MESSAGE_CREATE :: u16 where "KIND_MESSAGE_CREATE = 1"
definition KIND_MESSAGE_EDIT :: u16 where "KIND_MESSAGE_EDIT = 2"
definition KIND_MESSAGE_DELETE :: u16 where "KIND_MESSAGE_DELETE = 3"
definition KIND_REACTION_SET :: u16 where "KIND_REACTION_SET = 4"
definition KIND_PIN_SET :: u16 where "KIND_PIN_SET = 5"
definition KIND_RECEIPT_DELIVERED :: u16 where "KIND_RECEIPT_DELIVERED = 6"
definition KIND_RECEIPT_READ :: u16 where "KIND_RECEIPT_READ = 7"
definition KIND_TYPING_SET :: u16 where "KIND_TYPING_SET = 8"

definition MAX_REFERENCES :: nat where "MAX_REFERENCES = 64"
definition MAX_TEXT_BYTES :: nat where "MAX_TEXT_BYTES = 65536"
definition MAX_TEXT_SCALARS :: nat where "MAX_TEXT_SCALARS = 16384"
definition MAX_QUOTE_BYTES :: nat where "MAX_QUOTE_BYTES = 2048"
definition MAX_QUOTE_SCALARS :: nat where "MAX_QUOTE_SCALARS = 512"
definition MAX_EMOJI_BYTES :: nat where "MAX_EMOJI_BYTES = 64"
definition CAPABILITY_ID_LENGTH :: nat where "CAPABILITY_ID_LENGTH = 43"
definition MAX_APPLICATION_CBOR_DEPTH :: nat where "MAX_APPLICATION_CBOR_DEPTH = 16"
definition MAX_APPLICATION_MAP_ENTRIES :: nat where "MAX_APPLICATION_MAP_ENTRIES = 64"
definition MAX_DEVICE_GOSSIP_HEADS :: nat where "MAX_DEVICE_GOSSIP_HEADS = 32"
definition MAX_HISTORY_BATCH_EVENTS :: nat where "MAX_HISTORY_BATCH_EVENTS = 32"
definition MAX_HISTORY_BATCH_BYTES :: nat where "MAX_HISTORY_BATCH_BYTES = 240 * 1024"

lemmas event_kind_defs =
  KIND_MESSAGE_CREATE_def KIND_MESSAGE_EDIT_def KIND_MESSAGE_DELETE_def KIND_REACTION_SET_def KIND_PIN_SET_def
  KIND_RECEIPT_DELIVERED_def KIND_RECEIPT_READ_def KIND_TYPING_SET_def

lemmas event_limit_defs =
  MAX_REFERENCES_def MAX_TEXT_BYTES_def MAX_TEXT_SCALARS_def MAX_QUOTE_BYTES_def MAX_QUOTE_SCALARS_def
  MAX_EMOJI_BYTES_def CAPABILITY_ID_LENGTH_def

section \<open>Data\<close>

record attachment_descriptor =
  ad_capability_id :: bytes
  ad_key :: bytes
  ad_header :: bytes
  ad_stream_header :: bytes
  ad_encrypted_size :: u64
  ad_bucket_size :: u64
  ad_plaintext_size :: u64
  ad_display_name :: bytes
  ad_mime_type :: bytes
  ad_media_kind :: u8
  ad_width :: u32
  ad_height :: u32
  ad_caption :: "bytes option"
  ad_thumbnail :: "bytes option"

datatype event_body =
    MessageCreate (mc_message_id: bytes) (mc_content_type: u8) (mc_text: bytes) (mc_reply_to: "bytes option")
      (mc_quote_fallback: "bytes option") (mc_attachments: "attachment_descriptor list")
  | MessageEdit (me_target: bytes) (me_revision: u32) (me_replacement: bytes)
  | MessageDelete (md_target: bytes)
  | ReactionSet (re_target: bytes) (re_emoji: "bytes option")
  | PinSet (ps_target: bytes) (ps_pinned: bool)
  | Receipt (rc_message_ids: "bytes list")
  | TypingSet (ts_is_typing: bool) (ts_expires_ms: u64)
  | Unsupported

record application_event =
  ae_version :: u8
  ae_event_id :: bytes
  ae_conversation_id :: bytes
  ae_kind :: u16
  ae_sender_user_id :: bytes
  ae_sender_device_id :: bytes
  ae_sender_counter :: u64
  ae_created_ms :: u64
  ae_references :: "bytes list"
  ae_body :: event_body

section \<open>Validation\<close>

text \<open>\<^verbatim>\<open>values.iter().enumerate().any(|(index, value)| values[..index].contains(value))\<close>\<close>

definition has_duplicates :: "bytes list \<Rightarrow> bool" where
  "has_duplicates xs \<longleftrightarrow> list_ex (\<lambda>i. xs ! i \<in> set (take i xs)) [0..<length xs]"

definition is_supported_kind :: "u16 \<Rightarrow> bool" where
  "is_supported_kind kind \<longleftrightarrow>
     kind \<in> {KIND_MESSAGE_CREATE, KIND_MESSAGE_EDIT, KIND_MESSAGE_DELETE, KIND_REACTION_SET, KIND_PIN_SET,
       KIND_RECEIPT_DELIVERED, KIND_RECEIPT_READ, KIND_TYPING_SET}"

definition ascii_alphanumeric :: "byte \<Rightarrow> bool" where
  "ascii_alphanumeric b \<longleftrightarrow>
     48 \<le> b \<and> b \<le> 57 \<or> 65 \<le> b \<and> b \<le> 90 \<or> 97 \<le> b \<and> b \<le> 122"

definition check_capability_id :: "bytes \<Rightarrow> unit cresult" where
  "check_capability_id capability_id =
     reject_if (length capability_id \<noteq> CAPABILITY_ID_LENGTH
       \<or> \<not> list_all (\<lambda>b. ascii_alphanumeric b \<or> b = 95 \<or> b = 45) capability_id) MalformedInput"

definition is_regional_indicator :: "nat \<Rightarrow> bool" where
  "is_regional_indicator c \<longleftrightarrow> 0x1f1e6 \<le> c \<and> c \<le> 0x1f1ff"

definition is_emoji_modifier :: "nat \<Rightarrow> bool" where
  "is_emoji_modifier c \<longleftrightarrow> 0x1f3fb \<le> c \<and> c \<le> 0x1f3ff"

definition is_emoji_base :: "nat \<Rightarrow> bool" where
  "is_emoji_base c \<longleftrightarrow>
     c \<in> {0xa9, 0xae, 0x203c, 0x2049, 0x2122, 0x2139}
     \<or> 0x2194 \<le> c \<and> c \<le> 0x21ff \<or> 0x2300 \<le> c \<and> c \<le> 0x23ff \<or> 0x2460 \<le> c \<and> c \<le> 0x24ff
     \<or> 0x25a0 \<le> c \<and> c \<le> 0x27bf \<or> 0x2934 \<le> c \<and> c \<le> 0x2935 \<or> 0x2b00 \<le> c \<and> c \<le> 0x2bff
     \<or> c \<in> {0x3030, 0x303d, 0x3297, 0x3299}
     \<or> 0x1f000 \<le> c \<and> c \<le> 0x1f02f \<or> 0x1f0a0 \<le> c \<and> c \<le> 0x1f0ff
     \<or> 0x1f170 \<le> c \<and> c \<le> 0x1f251 \<or> 0x1f300 \<le> c \<and> c \<le> 0x1faff"

text \<open>The loop of \<^verbatim>\<open>is_single_emoji\<close> with its two flags.\<close>

fun emoji_loop :: "bool \<Rightarrow> bool \<Rightarrow> nat list \<Rightarrow> bool" where
  "emoji_loop expect_base saw_base [] = (saw_base \<and> \<not> expect_base)"
| "emoji_loop expect_base saw_base (c # cs) =
     (if c = 0x200d then
        if expect_base \<or> \<not> saw_base then False else emoji_loop True saw_base cs
      else if is_emoji_modifier c \<or> c = 0xfe0f then
        if expect_base \<or> \<not> saw_base then False else emoji_loop expect_base saw_base cs
      else if is_emoji_base c then
        if \<not> expect_base \<and> saw_base then False else emoji_loop False True cs
      else False)"

definition is_keycap_start :: "nat \<Rightarrow> bool" where
  "is_keycap_start c \<longleftrightarrow> 0x30 \<le> c \<and> c \<le> 0x39 \<or> c = 0x23 \<or> c = 0x2a"

definition is_single_emoji :: "bytes \<Rightarrow> bool" where
  "is_single_emoji value =
     (case utf8_chars value of
        None \<Rightarrow> False
      | Some scalars \<Rightarrow>
          if scalars = [] \<or> length value > MAX_EMOJI_BYTES then False
          else if length scalars = 2 \<and> list_all is_regional_indicator scalars then True
          else if last scalars = 0x20e3 then
            is_keycap_start (hd scalars) \<and> list_all (\<lambda>c. c = 0xfe0f) (butlast (tl scalars))
          else emoji_loop True False scalars)"

section \<open>Projection frames\<close>

definition framed_text :: "nat \<Rightarrow> nat \<Rightarrow> bool \<Rightarrow> bytes parser" where
  "framed_text maximum_bytes maximum_scalars require_non_empty =
     sbind reader_framed (\<lambda>bs.
     sbind (slift (reject_if (length bs > maximum_bytes) InputTooLarge)) (\<lambda>_.
     sbind (slift (reject_if (require_non_empty \<and> bs = []) MalformedInput)) (\<lambda>_.
     sbind (slift (reject_if (\<not> utf8_valid bs) MalformedInput)) (\<lambda>_.
     sbind (slift (reject_if (char_count bs > maximum_scalars) InputTooLarge)) (\<lambda>_.
     ret bs)))))"

definition optional_id :: "bytes option parser" where
  "optional_id =
     sbind reader_u8 (\<lambda>tag.
     if tag = 0 then ret None
     else if tag = 1 then sbind (reader_array 16) (\<lambda>v. ret (Some v))
     else slift (Err MalformedInput))"

definition optional_text :: "nat \<Rightarrow> nat \<Rightarrow> bytes option parser" where
  "optional_text maximum_bytes maximum_scalars =
     sbind reader_u8 (\<lambda>tag.
     if tag = 0 then ret None
     else if tag = 1 then sbind (framed_text maximum_bytes maximum_scalars True) (\<lambda>v. ret (Some v))
     else slift (Err MalformedInput))"

definition projection_thumbnail :: "bytes option parser" where
  "projection_thumbnail =
     sbind reader_u32 (\<lambda>thumbnail_length.
     sbind (slift (reject_if (unat thumbnail_length > 65536) InputTooLarge)) (\<lambda>_.
     if unat thumbnail_length = 0 then ret None
     else sbind (reader_take (unat thumbnail_length)) (\<lambda>v. ret (Some v))))"

definition decode_projection_attachment :: "attachment_descriptor parser" where
  "decode_projection_attachment =
     sbind (framed_text CAPABILITY_ID_LENGTH CAPABILITY_ID_LENGTH True) (\<lambda>capability_id.
     sbind (slift (check_capability_id capability_id)) (\<lambda>_.
     sbind (reader_array 32) (\<lambda>key.
     sbind (reader_array 66) (\<lambda>header.
     sbind (reader_array 24) (\<lambda>stream_header.
     sbind reader_u64 (\<lambda>encrypted_size.
     sbind reader_u64 (\<lambda>bucket_size.
     sbind reader_u64 (\<lambda>plaintext_size.
     sbind (framed_text 128 128 True) (\<lambda>display_name.
     sbind (framed_text 128 128 True) (\<lambda>mime_type.
     sbind reader_u8 (\<lambda>media_kind.
     sbind (slift (reject_if (media_kind > 1) MalformedInput)) (\<lambda>_.
     sbind reader_u32 (\<lambda>width.
     sbind reader_u32 (\<lambda>height.
     sbind (optional_text MAX_TEXT_BYTES MAX_TEXT_SCALARS) (\<lambda>caption.
     sbind projection_thumbnail (\<lambda>thumbnail.
     ret \<lparr>ad_capability_id = capability_id, ad_key = key, ad_header = header, ad_stream_header = stream_header,
       ad_encrypted_size = encrypted_size, ad_bucket_size = bucket_size, ad_plaintext_size = plaintext_size,
       ad_display_name = display_name, ad_mime_type = mime_type, ad_media_kind = media_kind,
       ad_width = width, ad_height = height, ad_caption = caption, ad_thumbnail = thumbnail\<rparr>))))))))))))))))"

definition projection_attachments :: "u8 \<Rightarrow> attachment_descriptor list parser" where
  "projection_attachments content_type =
     (if content_type = 0 then ret []
      else
        sbind reader_u8 (\<lambda>count.
        sbind (slift (reject_if (unat count > 32) InputTooLarge)) (\<lambda>_.
        repeat_s (unat count) decode_projection_attachment)))"

definition projection_message_create :: "event_body parser" where
  "projection_message_create =
     sbind (reader_array 16) (\<lambda>message_id.
     sbind reader_u8 (\<lambda>content_type.
     sbind (slift (reject_if (content_type > 2) UnsupportedOperation)) (\<lambda>_.
     sbind (framed_text MAX_TEXT_BYTES MAX_TEXT_SCALARS (content_type = 0)) (\<lambda>text.
     sbind optional_id (\<lambda>reply_to.
     sbind (optional_text MAX_QUOTE_BYTES MAX_QUOTE_SCALARS) (\<lambda>quote_fallback.
     sbind (projection_attachments content_type) (\<lambda>attachments.
     sbind (slift (reject_if (content_type \<noteq> 0 \<and> attachments = []) MalformedInput)) (\<lambda>_.
     ret (MessageCreate message_id content_type text reply_to quote_fallback attachments)))))))))"

definition projection_message_edit :: "event_body parser" where
  "projection_message_edit =
     sbind (reader_array 16) (\<lambda>target.
     sbind reader_u32 (\<lambda>revision.
     sbind (slift (reject_if (revision = 0) MalformedInput)) (\<lambda>_.
     sbind (framed_text MAX_TEXT_BYTES MAX_TEXT_SCALARS True) (\<lambda>replacement.
     ret (MessageEdit target revision replacement)))))"

definition projection_message_delete :: "event_body parser" where
  "projection_message_delete =
     sbind (reader_array 16) (\<lambda>target. ret (MessageDelete target))"

definition projection_reaction_set :: "event_body parser" where
  "projection_reaction_set =
     sbind (reader_array 16) (\<lambda>target.
     sbind (optional_text MAX_EMOJI_BYTES MAX_EMOJI_BYTES) (\<lambda>emoji.
     sbind (slift (reject_if (case emoji of Some value \<Rightarrow> \<not> is_single_emoji value | None \<Rightarrow> False) MalformedInput)) (\<lambda>_.
     ret (ReactionSet target emoji))))"

definition projection_pin_set :: "event_body parser" where
  "projection_pin_set =
     sbind (reader_array 16) (\<lambda>target.
     sbind reader_boolean (\<lambda>pinned.
     ret (PinSet target pinned)))"

definition projection_receipt :: "event_body parser" where
  "projection_receipt =
     sbind reader_u8 (\<lambda>count.
     sbind (slift (reject_if (unat count = 0 \<or> unat count > MAX_REFERENCES) MalformedInput)) (\<lambda>_.
     sbind (repeat_s (unat count) (reader_array 16)) (\<lambda>message_ids.
     sbind (slift (reject_if (has_duplicates message_ids) MalformedInput)) (\<lambda>_.
     ret (Receipt message_ids)))))"

definition projection_typing_set :: "event_body parser" where
  "projection_typing_set =
     sbind reader_boolean (\<lambda>is_typing.
     sbind reader_u64 (\<lambda>expires_ms.
     ret (TypingSet is_typing expires_ms)))"

definition decode_projection_body :: "u16 \<Rightarrow> event_body parser" where
  "decode_projection_body kind =
     (if kind = KIND_MESSAGE_CREATE then projection_message_create
      else if kind = KIND_MESSAGE_EDIT then projection_message_edit
      else if kind = KIND_MESSAGE_DELETE then projection_message_delete
      else if kind = KIND_REACTION_SET then projection_reaction_set
      else if kind = KIND_PIN_SET then projection_pin_set
      else if kind = KIND_RECEIPT_DELIVERED \<or> kind = KIND_RECEIPT_READ then projection_receipt
      else if kind = KIND_TYPING_SET then projection_typing_set
      else slift (Err UnsupportedOperation))"

definition projection_request :: "application_event parser" where
  "projection_request =
     sbind (reader_take (length ENCODE_REQUEST_MAGIC)) (\<lambda>magic.
     sbind (slift (reject_if (magic \<noteq> ENCODE_REQUEST_MAGIC) MalformedInput)) (\<lambda>_.
     sbind reader_u8 (\<lambda>version.
     sbind (slift (reject_if (version \<noteq> APPLICATION_VERSION) UnsupportedVersion)) (\<lambda>_.
     sbind (reader_array 16) (\<lambda>event_id.
     sbind (reader_array 32) (\<lambda>conversation_id.
     sbind reader_u16 (\<lambda>kind.
     sbind (reader_array 16) (\<lambda>sender_user_id.
     sbind (reader_array 16) (\<lambda>sender_device_id.
     sbind reader_u64 (\<lambda>sender_counter.
     sbind reader_u64 (\<lambda>created_ms.
     sbind (slift (reject_if (sender_counter = 0) MalformedInput)) (\<lambda>_.
     sbind reader_u8 (\<lambda>reference_count.
     sbind (slift (reject_if (unat reference_count > MAX_REFERENCES) InputTooLarge)) (\<lambda>_.
     sbind (repeat_s (unat reference_count) (reader_array 16)) (\<lambda>references.
     sbind (slift (reject_if (has_duplicates references) MalformedInput)) (\<lambda>_.
     sbind (decode_projection_body kind) (\<lambda>body.
     sbind finished (\<lambda>fin.
     sbind (slift (reject_if (\<not> fin) MalformedInput)) (\<lambda>_.
     ret \<lparr>ae_version = version, ae_event_id = event_id, ae_conversation_id = conversation_id, ae_kind = kind,
       ae_sender_user_id = sender_user_id, ae_sender_device_id = sender_device_id,
       ae_sender_counter = sender_counter, ae_created_ms = created_ms, ae_references = references,
       ae_body = body\<rparr>)))))))))))))))))))"

definition decode_projection_request :: "bytes \<Rightarrow> application_event cresult" where
  "decode_projection_request input = run_parser projection_request input"

definition push_optional_id :: "bytes \<Rightarrow> bytes option \<Rightarrow> bytes" where
  "push_optional_id output value = (case value of Some value \<Rightarrow> output @ [1] @ value | None \<Rightarrow> output @ [0])"

definition push_optional_text :: "bytes \<Rightarrow> bytes option \<Rightarrow> bytes cresult" where
  "push_optional_text output value =
     (case value of Some value \<Rightarrow> push_frame (output @ [1]) value | None \<Rightarrow> Ok (output @ [0]))"

definition push_projection_attachment :: "bytes \<Rightarrow> attachment_descriptor \<Rightarrow> bytes cresult" where
  "push_projection_attachment output a =
     rbind (push_frame output (ad_capability_id a)) (\<lambda>output.
     let output = output @ ad_key a @ ad_header a @ ad_stream_header a;
         output = push_u64 (push_u64 (push_u64 output (ad_encrypted_size a)) (ad_bucket_size a)) (ad_plaintext_size a) in
     rbind (push_frame output (ad_display_name a)) (\<lambda>output.
     rbind (push_frame output (ad_mime_type a)) (\<lambda>output.
     let output = push_u32 (push_u32 (output @ [ad_media_kind a]) (ad_width a)) (ad_height a) in
     rbind (push_optional_text output (ad_caption a)) (\<lambda>output.
     let thumbnail = (case ad_thumbnail a of Some t \<Rightarrow> t | None \<Rightarrow> []) in
     rbind (ok_or (try_from_usize (length thumbnail)) InputTooLarge) (\<lambda>n.
     Ok (push_u32 output n @ thumbnail))))))"

text \<open>\<^verbatim>\<open>for x in xs { push(output, x)?; }\<close>\<close>

fun push_all :: "(bytes \<Rightarrow> 'a \<Rightarrow> bytes cresult) \<Rightarrow> bytes \<Rightarrow> 'a list \<Rightarrow> bytes cresult" where
  "push_all push output [] = Ok output"
| "push_all push output (x # xs) = rbind (push output x) (\<lambda>output. push_all push output xs)"

definition encode_projection_body :: "event_body \<Rightarrow> bytes \<Rightarrow> bytes cresult" where
  "encode_projection_body body output =
     (case body of
        MessageCreate message_id content_type text reply_to quote_fallback attachments \<Rightarrow>
          rbind (push_frame (output @ message_id @ [content_type]) text) (\<lambda>output.
          rbind (push_optional_text (push_optional_id output reply_to) quote_fallback) (\<lambda>output.
          if attachments \<noteq> [] then
            rbind (ok_or (try_from_usize (length attachments)) InputTooLarge) (\<lambda>n.
            push_all push_projection_attachment (output @ [n]) attachments)
          else Ok output))
      | MessageEdit target revision replacement \<Rightarrow> push_frame (push_u32 (output @ target) revision) replacement
      | MessageDelete target \<Rightarrow> Ok (output @ target)
      | ReactionSet target emoji \<Rightarrow> push_optional_text (output @ target) emoji
      | PinSet target pinned \<Rightarrow> Ok (output @ target @ [if pinned then 1 else 0])
      | Receipt message_ids \<Rightarrow>
          rbind (ok_or (try_from_usize (length message_ids)) InputTooLarge) (\<lambda>n.
          Ok (output @ [n] @ concat message_ids))
      | TypingSet is_typing expires_ms \<Rightarrow> Ok (push_u64 (output @ [if is_typing then 1 else 0]) expires_ms)
      | Unsupported \<Rightarrow> Ok output)"

definition encode_projection :: "application_event \<Rightarrow> bytes \<Rightarrow> bytes cresult" where
  "encode_projection e output =
     (let output = push_u16 (output @ [ae_version e] @ ae_event_id e @ ae_conversation_id e) (ae_kind e);
          output = push_u64 (push_u64 (output @ ae_sender_user_id e @ ae_sender_device_id e) (ae_sender_counter e)) (ae_created_ms e) in
      rbind (ok_or (try_from_usize (length (ae_references e))) InputTooLarge) (\<lambda>n.
      rbind (encode_projection_body (ae_body e) (output @ [n] @ concat (ae_references e))) (\<lambda>output.
      rbind (reject_if (length output > APPLICATION_MAX_IO_BYTES) InputTooLarge) (\<lambda>_.
      Ok output))))"

section \<open>Canonical CBOR\<close>

text \<open>\<^verbatim>\<open>for x in xs { encode(encoder, x)?; }\<close>\<close>

fun emit_all :: "('a \<Rightarrow> encoder) \<Rightarrow> 'a list \<Rightarrow> encoder" where
  "emit_all w [] = ret ()"
| "emit_all w (x # xs) = sbind (w x) (\<lambda>_. emit_all w xs)"

definition encode_cbor_attachment :: "minicbor \<Rightarrow> attachment_descriptor \<Rightarrow> encoder" where
  "encode_cbor_attachment M a =
     sbind (emit (mc_map M 14)) (\<lambda>_.
     sbind (encode_key M 0) (\<lambda>_. sbind (emit (mc_str M (ad_capability_id a))) (\<lambda>_.
     sbind (encode_key M 1) (\<lambda>_. sbind (emit (mc_bytes M (ad_key a))) (\<lambda>_.
     sbind (encode_key M 2) (\<lambda>_. sbind (emit (mc_bytes M (ad_header a))) (\<lambda>_.
     sbind (encode_key M 3) (\<lambda>_. sbind (emit (mc_bytes M (ad_stream_header a))) (\<lambda>_.
     sbind (encode_key M 4) (\<lambda>_. sbind (emit (mc_u64 M (ad_encrypted_size a))) (\<lambda>_.
     sbind (encode_key M 5) (\<lambda>_. sbind (emit (mc_u64 M (ad_bucket_size a))) (\<lambda>_.
     sbind (encode_key M 6) (\<lambda>_. sbind (emit (mc_u64 M (ad_plaintext_size a))) (\<lambda>_.
     sbind (encode_key M 7) (\<lambda>_. sbind (emit (mc_str M (ad_display_name a))) (\<lambda>_.
     sbind (encode_key M 8) (\<lambda>_. sbind (emit (mc_str M (ad_mime_type a))) (\<lambda>_.
     sbind (encode_key M 9) (\<lambda>_. sbind (emit (mc_u8 M (ad_media_kind a))) (\<lambda>_.
     sbind (encode_key M 10) (\<lambda>_. sbind (emit (mc_u32 M (ad_width a))) (\<lambda>_.
     sbind (encode_key M 11) (\<lambda>_. sbind (emit (mc_u32 M (ad_height a))) (\<lambda>_.
     sbind (encode_key M 12) (\<lambda>_. sbind (encode_optional_text M (ad_caption a)) (\<lambda>_.
     sbind (encode_key M 13) (\<lambda>_.
     emit (mc_bytes M (case ad_thumbnail a of Some t \<Rightarrow> t | None \<Rightarrow> []))))))))))))))))))))))))))))))"

definition encode_event_body :: "minicbor \<Rightarrow> event_body \<Rightarrow> encoder" where
  "encode_event_body M body =
     (case body of
        MessageCreate message_id content_type text reply_to quote_fallback attachments \<Rightarrow>
          sbind (slift (reject_if ((content_type = 0) \<noteq> (attachments = [])) MalformedInput)) (\<lambda>_.
          sbind (emit (mc_map M (if attachments = [] then 5 else 6))) (\<lambda>_.
          sbind (encode_key M 0) (\<lambda>_. sbind (emit (mc_bytes M message_id)) (\<lambda>_.
          sbind (encode_key M 1) (\<lambda>_. sbind (emit (mc_u8 M content_type)) (\<lambda>_.
          sbind (encode_key M 2) (\<lambda>_. sbind (emit (mc_str M text)) (\<lambda>_.
          sbind (encode_key M 3) (\<lambda>_. sbind (encode_optional_id M reply_to) (\<lambda>_.
          sbind (encode_key M 4) (\<lambda>_. sbind (encode_optional_text M quote_fallback) (\<lambda>_.
          if attachments \<noteq> [] then
            sbind (encode_key M 5) (\<lambda>_.
            sbind (slift (ok_or (try_from_usize (length attachments)) InputTooLarge)) (\<lambda>n.
            sbind (emit (mc_array M n)) (\<lambda>_.
            emit_all (encode_cbor_attachment M) attachments)))
          else ret ()))))))))))))
      | MessageEdit target revision replacement \<Rightarrow>
          sbind (emit (mc_map M 3)) (\<lambda>_.
          sbind (encode_key M 0) (\<lambda>_. sbind (emit (mc_bytes M target)) (\<lambda>_.
          sbind (encode_key M 1) (\<lambda>_. sbind (emit (mc_str M replacement)) (\<lambda>_.
          sbind (encode_key M 2) (\<lambda>_. emit (mc_u32 M revision)))))))
      | MessageDelete target \<Rightarrow>
          sbind (emit (mc_map M 1)) (\<lambda>_.
          sbind (encode_key M 0) (\<lambda>_. emit (mc_bytes M target)))
      | ReactionSet target emoji \<Rightarrow>
          sbind (emit (mc_map M 2)) (\<lambda>_.
          sbind (encode_key M 0) (\<lambda>_. sbind (emit (mc_bytes M target)) (\<lambda>_.
          sbind (encode_key M 1) (\<lambda>_. encode_optional_text M emoji))))
      | PinSet target pinned \<Rightarrow>
          sbind (emit (mc_map M 2)) (\<lambda>_.
          sbind (encode_key M 0) (\<lambda>_. sbind (emit (mc_bytes M target)) (\<lambda>_.
          sbind (encode_key M 1) (\<lambda>_. emit (mc_bool M pinned)))))
      | Receipt message_ids \<Rightarrow>
          sbind (emit (mc_map M 1)) (\<lambda>_.
          sbind (encode_key M 0) (\<lambda>_.
          sbind (slift (ok_or (try_from_usize (length message_ids)) InputTooLarge)) (\<lambda>n.
          sbind (emit (mc_array M n)) (\<lambda>_.
          emit_all (\<lambda>message_id. emit (mc_bytes M message_id)) message_ids))))
      | TypingSet is_typing expires_ms \<Rightarrow>
          sbind (emit (mc_map M 2)) (\<lambda>_.
          sbind (encode_key M 0) (\<lambda>_. sbind (emit (mc_bool M is_typing)) (\<lambda>_.
          sbind (encode_key M 1) (\<lambda>_. emit (mc_u64 M expires_ms)))))
      | Unsupported \<Rightarrow> slift (Err UnsupportedOperation))"

definition event_writer :: "minicbor \<Rightarrow> application_event \<Rightarrow> encoder" where
  "event_writer M e =
     sbind (emit (mc_map M 10)) (\<lambda>_.
     sbind (encode_key M 0) (\<lambda>_. sbind (emit (mc_u8 M (ae_version e))) (\<lambda>_.
     sbind (encode_key M 1) (\<lambda>_. sbind (emit (mc_bytes M (ae_event_id e))) (\<lambda>_.
     sbind (encode_key M 2) (\<lambda>_. sbind (emit (mc_bytes M (ae_conversation_id e))) (\<lambda>_.
     sbind (encode_key M 3) (\<lambda>_. sbind (emit (mc_u16 M (ae_kind e))) (\<lambda>_.
     sbind (encode_key M 4) (\<lambda>_. sbind (emit (mc_bytes M (ae_sender_user_id e))) (\<lambda>_.
     sbind (encode_key M 5) (\<lambda>_. sbind (emit (mc_bytes M (ae_sender_device_id e))) (\<lambda>_.
     sbind (encode_key M 6) (\<lambda>_. sbind (emit (mc_u64 M (ae_sender_counter e))) (\<lambda>_.
     sbind (encode_key M 7) (\<lambda>_. sbind (emit (mc_u64 M (ae_created_ms e))) (\<lambda>_.
     sbind (encode_key M 8) (\<lambda>_.
     sbind (slift (ok_or (try_from_usize (length (ae_references e))) InputTooLarge)) (\<lambda>n.
     sbind (emit (mc_array M n)) (\<lambda>_.
     sbind (emit_all (\<lambda>reference. emit (mc_bytes M reference)) (ae_references e)) (\<lambda>_.
     sbind (encode_key M 9) (\<lambda>_.
     encode_event_body M (ae_body e)))))))))))))))))))))))"

definition encode_event :: "minicbor \<Rightarrow> application_event \<Rightarrow> bytes cresult" where
  "encode_event M e =
     rbind (event_writer M e []) (\<lambda>(_, output).
     rbind (reject_if (length output > MAX_CBOR_BYTES \<or> length output > APPLICATION_MAX_IO_BYTES) InputTooLarge) (\<lambda>_.
     Ok output))"

definition read_cbor_attachment :: "minicbor \<Rightarrow> attachment_descriptor parser" where
  "read_cbor_attachment M =
     sbind (read_exact_map M 14) (\<lambda>_.
     sbind (read_key M 0) (\<lambda>_. sbind (read_text M CAPABILITY_ID_LENGTH CAPABILITY_ID_LENGTH True) (\<lambda>capability_id.
     sbind (slift (check_capability_id capability_id)) (\<lambda>_.
     sbind (read_key M 1) (\<lambda>_. sbind (read_exact_bytes M 32) (\<lambda>key.
     sbind (read_key M 2) (\<lambda>_. sbind (read_exact_bytes M 66) (\<lambda>header.
     sbind (read_key M 3) (\<lambda>_. sbind (read_exact_bytes M 24) (\<lambda>stream_header.
     sbind (read_key M 4) (\<lambda>_. sbind (read_uint M) (\<lambda>encrypted_size.
     sbind (read_key M 5) (\<lambda>_. sbind (read_uint M) (\<lambda>bucket_size.
     sbind (read_key M 6) (\<lambda>_. sbind (read_uint M) (\<lambda>plaintext_size.
     sbind (read_key M 7) (\<lambda>_. sbind (read_text M 128 128 True) (\<lambda>display_name.
     sbind (read_key M 8) (\<lambda>_. sbind (read_text M 128 128 True) (\<lambda>mime_type.
     sbind (read_key M 9) (\<lambda>_. sbind (read_uint M) (\<lambda>media_kind.
     sbind (slift (ok_or (try_from_usize (unat media_kind)) MalformedInput)) (\<lambda>media_kind.
     sbind (slift (reject_if (media_kind > 1) MalformedInput)) (\<lambda>_.
     sbind (read_key M 10) (\<lambda>_. sbind (read_uint M) (\<lambda>width.
     sbind (slift (ok_or (try_from_usize (unat width)) MalformedInput)) (\<lambda>width.
     sbind (read_key M 11) (\<lambda>_. sbind (read_uint M) (\<lambda>height.
     sbind (slift (ok_or (try_from_usize (unat height)) MalformedInput)) (\<lambda>height.
     sbind (read_key M 12) (\<lambda>_. sbind (read_nullable_text M MAX_TEXT_BYTES MAX_TEXT_SCALARS) (\<lambda>caption.
     sbind (read_key M 13) (\<lambda>_. sbind (read_bytes M) (\<lambda>thumbnail.
     sbind (slift (reject_if (length thumbnail > 65536) InputTooLarge)) (\<lambda>_.
     ret \<lparr>ad_capability_id = capability_id, ad_key = key, ad_header = header, ad_stream_header = stream_header,
       ad_encrypted_size = encrypted_size, ad_bucket_size = bucket_size, ad_plaintext_size = plaintext_size,
       ad_display_name = display_name, ad_mime_type = mime_type, ad_media_kind = media_kind,
       ad_width = width, ad_height = height, ad_caption = caption,
       ad_thumbnail = (if thumbnail = [] then None else Some thumbnail)\<rparr>)))))))))))))))))))))))))))))))))))"

definition cbor_attachments :: "minicbor \<Rightarrow> nat \<Rightarrow> attachment_descriptor list parser" where
  "cbor_attachments M map_len =
     (if map_len = 6 then
        sbind (read_key M 5) (\<lambda>_. sbind (read_array_len M) (\<lambda>count.
        sbind (slift (reject_if (count = 0) MalformedInput)) (\<lambda>_.
        sbind (slift (reject_if (count > 32) InputTooLarge)) (\<lambda>_.
        repeat_s count (read_cbor_attachment M)))))
      else ret [])"

definition cbor_message_create :: "minicbor \<Rightarrow> event_body parser" where
  "cbor_message_create M =
     sbind (read_map_len M) (\<lambda>map_len.
     sbind (slift (reject_if (map_len \<noteq> 5 \<and> map_len \<noteq> 6) MalformedInput)) (\<lambda>_.
     sbind (read_key M 0) (\<lambda>_. sbind (read_exact_bytes M 16) (\<lambda>message_id.
     sbind (read_key M 1) (\<lambda>_. sbind (read_uint M) (\<lambda>content_type.
     sbind (slift (reject_if (content_type > 2) UnsupportedOperation)) (\<lambda>_.
     sbind (read_key M 2) (\<lambda>_. sbind (read_text M MAX_TEXT_BYTES MAX_TEXT_SCALARS (content_type = 0)) (\<lambda>text.
     sbind (read_key M 3) (\<lambda>_. sbind (read_nullable_id M) (\<lambda>reply_to.
     sbind (read_key M 4) (\<lambda>_. sbind (read_nullable_text M MAX_QUOTE_BYTES MAX_QUOTE_SCALARS) (\<lambda>quote_fallback.
     sbind (cbor_attachments M map_len) (\<lambda>attachments.
     sbind (slift (reject_if ((content_type = 0) \<noteq> (attachments = [])) MalformedInput)) (\<lambda>_.
     sbind (slift (ok_or (try_from_usize (unat content_type)) MalformedInput)) (\<lambda>content_type.
     ret (MessageCreate message_id content_type text reply_to quote_fallback attachments)))))))))))))))))"

definition cbor_message_edit :: "minicbor \<Rightarrow> event_body parser" where
  "cbor_message_edit M =
     sbind (read_exact_map M 3) (\<lambda>_.
     sbind (read_key M 0) (\<lambda>_. sbind (read_exact_bytes M 16) (\<lambda>target.
     sbind (read_key M 1) (\<lambda>_. sbind (read_text M MAX_TEXT_BYTES MAX_TEXT_SCALARS True) (\<lambda>replacement.
     sbind (read_key M 2) (\<lambda>_. sbind (read_uint M) (\<lambda>revision.
     sbind (slift (ok_or (try_from_usize (unat revision)) MalformedInput)) (\<lambda>revision.
     sbind (slift (reject_if (revision = 0) MalformedInput)) (\<lambda>_.
     ret (MessageEdit target revision replacement))))))))))"

definition cbor_message_delete :: "minicbor \<Rightarrow> event_body parser" where
  "cbor_message_delete M =
     sbind (read_exact_map M 1) (\<lambda>_.
     sbind (read_key M 0) (\<lambda>_. sbind (read_exact_bytes M 16) (\<lambda>target.
     ret (MessageDelete target))))"

definition cbor_reaction_set :: "minicbor \<Rightarrow> event_body parser" where
  "cbor_reaction_set M =
     sbind (read_exact_map M 2) (\<lambda>_.
     sbind (read_key M 0) (\<lambda>_. sbind (read_exact_bytes M 16) (\<lambda>target.
     sbind (read_key M 1) (\<lambda>_. sbind (read_nullable_text M MAX_EMOJI_BYTES MAX_EMOJI_BYTES) (\<lambda>emoji.
     sbind (slift (reject_if (case emoji of Some value \<Rightarrow> \<not> is_single_emoji value | None \<Rightarrow> False) MalformedInput)) (\<lambda>_.
     ret (ReactionSet target emoji)))))))"

definition cbor_pin_set :: "minicbor \<Rightarrow> event_body parser" where
  "cbor_pin_set M =
     sbind (read_exact_map M 2) (\<lambda>_.
     sbind (read_key M 0) (\<lambda>_. sbind (read_exact_bytes M 16) (\<lambda>target.
     sbind (read_key M 1) (\<lambda>_. sbind (read_bool M) (\<lambda>pinned.
     ret (PinSet target pinned))))))"

definition cbor_receipt :: "minicbor \<Rightarrow> event_body parser" where
  "cbor_receipt M =
     sbind (read_exact_map M 1) (\<lambda>_.
     sbind (read_key M 0) (\<lambda>_. sbind (read_array_len M) (\<lambda>count.
     sbind (slift (reject_if (count = 0 \<or> count > MAX_REFERENCES) MalformedInput)) (\<lambda>_.
     sbind (repeat_s count (read_exact_bytes M 16)) (\<lambda>message_ids.
     sbind (slift (reject_if (has_duplicates message_ids) MalformedInput)) (\<lambda>_.
     ret (Receipt message_ids)))))))"

definition cbor_typing_set :: "minicbor \<Rightarrow> event_body parser" where
  "cbor_typing_set M =
     sbind (read_exact_map M 2) (\<lambda>_.
     sbind (read_key M 0) (\<lambda>_. sbind (read_bool M) (\<lambda>is_typing.
     sbind (read_key M 1) (\<lambda>_. sbind (read_uint M) (\<lambda>expires_ms.
     ret (TypingSet is_typing expires_ms))))))"

definition decode_cbor_body :: "minicbor \<Rightarrow> u16 \<Rightarrow> event_body parser" where
  "decode_cbor_body M kind =
     (if kind = KIND_MESSAGE_CREATE then cbor_message_create M
      else if kind = KIND_MESSAGE_EDIT then cbor_message_edit M
      else if kind = KIND_MESSAGE_DELETE then cbor_message_delete M
      else if kind = KIND_REACTION_SET then cbor_reaction_set M
      else if kind = KIND_PIN_SET then cbor_pin_set M
      else if kind = KIND_RECEIPT_DELIVERED \<or> kind = KIND_RECEIPT_READ then cbor_receipt M
      else if kind = KIND_TYPING_SET then cbor_typing_set M
      else slift (Err UnsupportedOperation))"

text \<open>\<^verbatim>\<open>for _ in 0..n { s = f(s)?; }\<close>\<close>

primrec loop_s :: "nat \<Rightarrow> ('s \<Rightarrow> 's parser) \<Rightarrow> 's \<Rightarrow> 's parser" where
  "loop_s 0 f s = ret s"
| "loop_s (Suc n) f s = sbind (f s) (loop_s n f)"

text \<open>\<^verbatim>\<open>*item_count = item_count.checked_add(1)..?; if *item_count > MAX_CBOR_ITEMS { return Err(..) }\<close>\<close>

definition count_item :: "u32 \<Rightarrow> u32 cresult" where
  "count_item item_count =
     rbind (ok_or (checked_add item_count 1) InputTooLarge) (\<lambda>item_count.
     rbind (reject_if (item_count > MAX_CBOR_ITEMS) InputTooLarge) (\<lambda>_.
     Ok item_count))"

text \<open>An array must not have more elements than items are left.\<close>

definition array_room :: "u32 \<Rightarrow> nat \<Rightarrow> unit cresult" where
  "array_room item_count len =
     (let remaining = saturating_sub MAX_CBOR_ITEMS item_count in
      reject_if (case try_from_usize len of None \<Rightarrow> True | Some len \<Rightarrow> len > remaining) InputTooLarge)"

text \<open>One entry of a map; \<open>validate\<close> is the recursive call for its value.\<close>

definition map_entry :: "minicbor \<Rightarrow> (u32 \<Rightarrow> u32 parser) \<Rightarrow> u32 \<times> u64 option \<Rightarrow> (u32 \<times> u64 option) parser" where
  "map_entry M validate = (\<lambda>(item_count, previous_key).
     sbind (slift (count_item item_count)) (\<lambda>item_count.
     sbind (read_uint M) (\<lambda>key.
     sbind (slift (reject_if (case previous_key of Some previous \<Rightarrow> key \<le> previous | None \<Rightarrow> False) MalformedInput)) (\<lambda>_.
     sbind (validate item_count) (\<lambda>item_count.
     ret (item_count, Some key))))))"

text \<open>The match on the first byte; \<open>validate\<close> is the recursive call for the nested items.\<close>

definition validate_item :: "minicbor \<Rightarrow> (u32 \<Rightarrow> u32 parser) \<Rightarrow> u32 \<Rightarrow> u8 \<Rightarrow> u32 parser" where
  "validate_item M validate item_count first =
     (if drop_bit 5 first = 0 then sbind (read_uint M) (\<lambda>_. ret item_count)
      else if drop_bit 5 first = 2 then sbind (read_bytes M) (\<lambda>_. ret item_count)
      else if drop_bit 5 first = 3 then
        sbind (read_text M APPLICATION_MAX_IO_BYTES APPLICATION_MAX_IO_BYTES False) (\<lambda>_. ret item_count)
      else if drop_bit 5 first = 4 then
        sbind (read_array_len M) (\<lambda>len.
        sbind (slift (array_room item_count len)) (\<lambda>_.
        loop_s len validate item_count))
      else if drop_bit 5 first = 5 then
        sbind (read_map_len M) (\<lambda>len.
        sbind (slift (reject_if (len > MAX_APPLICATION_MAP_ENTRIES) InputTooLarge)) (\<lambda>_.
        sbind (loop_s len (map_entry M validate) (item_count, None)) (\<lambda>(item_count, _).
        ret item_count)))
      else if first = 0xf4 \<or> first = 0xf5 then sbind (read_bool M) (\<lambda>_. ret item_count)
      else if first = 0xf6 then sbind (decode_with (md_null M)) (\<lambda>_. ret item_count)
      else slift (Err MalformedInput))"

function validate_unknown_value :: "minicbor \<Rightarrow> nat \<Rightarrow> u32 \<Rightarrow> u32 parser" where
  "validate_unknown_value M depth item_count =
     (if depth > MAX_APPLICATION_CBOR_DEPTH then slift (Err InputTooLarge)
      else
        sbind (slift (count_item item_count)) (\<lambda>item_count.
        sbind peek (\<lambda>first.
        validate_item M (validate_unknown_value M (depth + 1)) item_count first)))"
  by pat_completeness auto

termination
  by (relation "measure (\<lambda>(_, depth, _). Suc MAX_APPLICATION_CBOR_DEPTH - depth)") auto

declare validate_unknown_value.simps [simp del]

definition validate_unknown_body :: "minicbor \<Rightarrow> unit parser" where
  "validate_unknown_body M =
     sbind peek (\<lambda>first.
     sbind (slift (reject_if (drop_bit 5 first \<noteq> 5) MalformedInput)) (\<lambda>_.
     sbind (validate_unknown_value M 2 0) (\<lambda>_. ret ())))"

definition cbor_event_fields :: "minicbor \<Rightarrow> u8 \<Rightarrow> application_event parser" where
  "cbor_event_fields M version =
     sbind (read_key M 1) (\<lambda>_. sbind (read_exact_bytes M 16) (\<lambda>event_id.
     sbind (read_key M 2) (\<lambda>_. sbind (read_exact_bytes M 32) (\<lambda>conversation_id.
     sbind (read_key M 3) (\<lambda>_. sbind (read_uint M) (\<lambda>kind.
     sbind (slift (ok_or (try_from_usize (unat kind)) MalformedInput)) (\<lambda>kind.
     sbind (read_key M 4) (\<lambda>_. sbind (read_exact_bytes M 16) (\<lambda>sender_user_id.
     sbind (read_key M 5) (\<lambda>_. sbind (read_exact_bytes M 16) (\<lambda>sender_device_id.
     sbind (read_key M 6) (\<lambda>_. sbind (read_uint M) (\<lambda>sender_counter.
     sbind (slift (reject_if (sender_counter = 0) MalformedInput)) (\<lambda>_.
     sbind (read_key M 7) (\<lambda>_. sbind (read_uint M) (\<lambda>created_ms.
     sbind (read_key M 8) (\<lambda>_. sbind (read_array_len M) (\<lambda>reference_count.
     sbind (slift (reject_if (reference_count > MAX_REFERENCES) InputTooLarge)) (\<lambda>_.
     sbind (repeat_s reference_count (read_exact_bytes M 16)) (\<lambda>references.
     sbind (slift (reject_if (has_duplicates references) MalformedInput)) (\<lambda>_.
     sbind (read_key M 9) (\<lambda>_.
     sbind (if is_supported_kind kind then decode_cbor_body M kind
            else sbind (validate_unknown_body M) (\<lambda>_. ret Unsupported)) (\<lambda>body.
     sbind finished (\<lambda>fin.
     sbind (slift (reject_if (\<not> fin) MalformedInput)) (\<lambda>_.
     ret \<lparr>ae_version = version, ae_event_id = event_id, ae_conversation_id = conversation_id,
       ae_kind = kind, ae_sender_user_id = sender_user_id, ae_sender_device_id = sender_device_id,
       ae_sender_counter = sender_counter, ae_created_ms = created_ms, ae_references = references,
       ae_body = body\<rparr>)))))))))))))))))))))))))"

definition cbor_event :: "minicbor \<Rightarrow> (application_event option \<times> u8 option) parser" where
  "cbor_event M =
     sbind (read_map_len M) (\<lambda>field_count.
     sbind (read_key M 0) (\<lambda>_.
     sbind (read_uint M) (\<lambda>version.
     sbind (slift (ok_or (try_from_usize (unat version)) MalformedInput)) (\<lambda>version.
     if version \<noteq> APPLICATION_VERSION then ret (None, Some version)
     else
       sbind (slift (reject_if (field_count \<noteq> 10) MalformedInput)) (\<lambda>_.
       sbind (cbor_event_fields M version) (\<lambda>event.
       ret (Some event, None)))))))"

definition decode_event :: "minicbor \<Rightarrow> bytes \<Rightarrow> (application_event option \<times> u8 option) cresult" where
  "decode_event M input =
     rbind (reject_if (input = []) MalformedInput) (\<lambda>_.
     rbind (reject_if (length input > APPLICATION_MAX_IO_BYTES) InputTooLarge) (\<lambda>_.
     run_parser (cbor_event M) input))"

end
