(* ===== verification/Application_Codec.thy ===== *)
theory Application_Codec
  imports Application_Event
begin

text \<open>
  The two encodings of an application event are exact. \<open>event_wf\<close> states what both readers require of an event.
  The projection reader accepts exactly the projections of well-formed events, and the CBOR reader exactly
  their canonical encodings; every part of the formats is shown to be a codec.
\<close>

section \<open>Well-formed events\<close>

lemma has_duplicates_iff: "has_duplicates xs \<longleftrightarrow> \<not> distinct xs"
proof
  assume "has_duplicates xs"
  then obtain i where i: "i < length xs" "xs ! i \<in> set (take i xs)" by (auto simp: has_duplicates_def list_ex_iff)
  then obtain j where "j < i" "take i xs ! j = xs ! i" by (auto simp: in_set_conv_nth)
  with i have "j < length xs" "i \<noteq> j" "xs ! i = xs ! j" by simp_all
  with i(1) show "\<not> distinct xs" unfolding distinct_conv_nth by blast
next
  assume "\<not> distinct xs"
  then obtain i j where ij: "i < length xs" "j < i" "xs ! i = xs ! j"
    by (metis distinct_conv_nth linorder_neqE_nat)
  then have "take i xs ! j = xs ! i" "j < length (take i xs)" by simp_all
  then have "xs ! i \<in> set (take i xs)" by (metis nth_mem)
  with ij(1) show "has_duplicates xs" by (auto simp: has_duplicates_def list_ex_iff intro!: bexI [of _ i])
qed

definition attachment_wf :: "attachment_descriptor \<Rightarrow> bool" where
  "attachment_wf a \<longleftrightarrow>
     text_ok CAPABILITY_ID_LENGTH CAPABILITY_ID_LENGTH True (ad_capability_id a)
   \<and> check_capability_id (ad_capability_id a) = Ok ()
   \<and> length (ad_key a) = 32 \<and> length (ad_header a) = 66 \<and> length (ad_stream_header a) = 24
   \<and> text_ok 128 128 True (ad_display_name a) \<and> text_ok 128 128 True (ad_mime_type a)
   \<and> ad_media_kind a \<le> 1 \<and> pred_option (text_ok MAX_TEXT_BYTES MAX_TEXT_SCALARS True) (ad_caption a)
   \<and> pred_option (\<lambda>t. t \<noteq> [] \<and> length t \<le> 65536) (ad_thumbnail a)"

fun body_wf :: "u16 \<Rightarrow> event_body \<Rightarrow> bool" where
  "body_wf kind (MessageCreate message_id content_type text reply_to quote_fallback attachments) \<longleftrightarrow>
     kind = KIND_MESSAGE_CREATE \<and> length message_id = 16 \<and> content_type \<le> 2
     \<and> text_ok MAX_TEXT_BYTES MAX_TEXT_SCALARS (content_type = 0) text
     \<and> pred_option (\<lambda>i. length i = 16) reply_to
     \<and> pred_option (text_ok MAX_QUOTE_BYTES MAX_QUOTE_SCALARS True) quote_fallback
     \<and> (content_type = 0) = (attachments = []) \<and> length attachments \<le> 32 \<and> list_all attachment_wf attachments"
| "body_wf kind (MessageEdit target revision replacement) \<longleftrightarrow>
     kind = KIND_MESSAGE_EDIT \<and> length target = 16 \<and> revision \<noteq> 0
     \<and> text_ok MAX_TEXT_BYTES MAX_TEXT_SCALARS True replacement"
| "body_wf kind (MessageDelete target) \<longleftrightarrow> kind = KIND_MESSAGE_DELETE \<and> length target = 16"
| "body_wf kind (ReactionSet target emoji) \<longleftrightarrow>
     kind = KIND_REACTION_SET \<and> length target = 16
     \<and> pred_option (\<lambda>e. text_ok MAX_EMOJI_BYTES MAX_EMOJI_BYTES True e \<and> is_single_emoji e) emoji"
| "body_wf kind (PinSet target pinned) \<longleftrightarrow> kind = KIND_PIN_SET \<and> length target = 16"
| "body_wf kind (Receipt message_ids) \<longleftrightarrow>
     (kind = KIND_RECEIPT_DELIVERED \<or> kind = KIND_RECEIPT_READ)
     \<and> message_ids \<noteq> [] \<and> length message_ids \<le> MAX_REFERENCES
     \<and> list_all (\<lambda>i. length i = 16) message_ids \<and> distinct message_ids"
| "body_wf kind (TypingSet is_typing expires_ms) \<longleftrightarrow> kind = KIND_TYPING_SET"
| "body_wf kind Unsupported \<longleftrightarrow> False"

definition event_fields_wf :: "application_event \<Rightarrow> bool" where
  "event_fields_wf e \<longleftrightarrow>
     ae_version e = APPLICATION_VERSION \<and> length (ae_event_id e) = 16 \<and> length (ae_conversation_id e) = 32
   \<and> length (ae_sender_user_id e) = 16 \<and> length (ae_sender_device_id e) = 16 \<and> ae_sender_counter e \<noteq> 0
   \<and> length (ae_references e) \<le> MAX_REFERENCES \<and> list_all (\<lambda>i. length i = 16) (ae_references e) \<and> distinct (ae_references e)"

definition event_wf :: "application_event \<Rightarrow> bool" where
  "event_wf e \<longleftrightarrow> event_fields_wf e \<and> body_wf (ae_kind e) (ae_body e)"

section \<open>The projection is exact\<close>

lemma framed_text_codec: "mb \<le> MAX_INPUT_BYTES \<Longrightarrow> codec (framed_text mb ms ne) frame (text_ok mb ms ne)"
proof
  assume mb: "mb \<le> MAX_INPUT_BYTES"
  show "reads (framed_text mb ms ne) (frame t) t" if "text_ok mb ms ne t" for t
    unfolding framed_text_def
    by (rule reads_last, intro reads_intros) (use that mb in \<open>auto simp: text_ok_def\<close>)
  show "sound (framed_text mb ms ne) (\<lambda>bs t. text_ok mb ms ne t \<and> bs = frame t)"
    unfolding framed_text_def by (intro sound_intros) (auto simp: text_ok_def)
qed

definition optional_bytes :: "('a \<Rightarrow> bytes) \<Rightarrow> 'a option \<Rightarrow> bytes" where
  "optional_bytes enc v = (case v of Some v \<Rightarrow> [1] @ enc v | None \<Rightarrow> [0])"

lemma optional_codec:
  fixes wf :: "'a \<Rightarrow> bool"
  assumes p: "codec p enc wf"
  shows "codec (sbind reader_u8 (\<lambda>tag. if tag = 0 then ret None else if tag = 1 then sbind p (\<lambda>v. ret (Some v))
      else slift (Err MalformedInput))) (optional_bytes enc) (pred_option wf)"
    (is "codec ?q _ _")
proof
  show "reads ?q (optional_bytes enc v) v" if "pred_option wf v" for v
  proof (cases v)
    case None
    show ?thesis unfolding None optional_bytes_def option.case by (rule reads_last, intro reads_intros) simp_all
  next
    case (Some x)
    show ?thesis unfolding Some optional_bytes_def option.case
      by (rule reads_last, simp only: append_assoc, intro codec.bind_reads [OF p] reads_intros)
        (use that Some in auto)
  qed
  show "sound ?q (\<lambda>bs v. pred_option wf v \<and> bs = optional_bytes enc v)"
    by (intro codec.bind_sound [OF p] sound_intros) (auto simp: optional_bytes_def)
qed

lemma optional_id_codec: "codec optional_id (optional_bytes (\<lambda>x. x)) (pred_option (\<lambda>i. length i = 16))"
  unfolding optional_id_def by (rule optional_codec) (rule array_codec.codec_axioms)

lemma optional_text_codec:
  "mb \<le> MAX_INPUT_BYTES \<Longrightarrow> codec (optional_text mb ms) (optional_bytes frame) (pred_option (text_ok mb ms True))"
  unfolding optional_text_def by (intro optional_codec framed_text_codec)

lemmas text_limits = MAX_INPUT_BYTES_def event_limit_defs

definition thumbnail_bytes :: "bytes option \<Rightarrow> bytes" where
  "thumbnail_bytes v = (case v of Some t \<Rightarrow> t | None \<Rightarrow> [])"

lemma projection_thumbnail_codec:
  "codec projection_thumbnail (\<lambda>v. frame (thumbnail_bytes v)) (pred_option (\<lambda>t. t \<noteq> [] \<and> length t \<le> 65536))"
proof
  show "reads projection_thumbnail (frame (thumbnail_bytes v)) v"
    if v: "pred_option (\<lambda>t. t \<noteq> [] \<and> length t \<le> 65536) v" for v
  proof (cases v)
    case None
    show ?thesis unfolding None projection_thumbnail_def frame_def thumbnail_bytes_def option.case
      by (intro reads_intros) auto
  next
    case (Some t)
    show ?thesis unfolding Some projection_thumbnail_def frame_def thumbnail_bytes_def option.case
      by (rule reads_last, simp only: append_assoc, intro reads_intros) (use v Some in auto)
  qed
  show "sound projection_thumbnail (\<lambda>bs v. pred_option (\<lambda>t. t \<noteq> [] \<and> length t \<le> 65536) v \<and> bs = frame (thumbnail_bytes v))"
    unfolding projection_thumbnail_def
    by (intro sound_intros) (auto simp: frame_def thumbnail_bytes_def unsigned_eq_0_iff)
qed

definition attachment_bytes :: "attachment_descriptor \<Rightarrow> bytes" where
  "attachment_bytes a =
     frame (ad_capability_id a) @ ad_key a @ ad_header a @ ad_stream_header a
     @ u64_bytes (ad_encrypted_size a) @ u64_bytes (ad_bucket_size a) @ u64_bytes (ad_plaintext_size a)
     @ frame (ad_display_name a) @ frame (ad_mime_type a) @ [ad_media_kind a]
     @ u32_bytes (ad_width a) @ u32_bytes (ad_height a) @ optional_bytes frame (ad_caption a)
     @ frame (thumbnail_bytes (ad_thumbnail a))"

text \<open>The composition rules of the text and option formats; their limits are numbers.\<close>

lemmas text_codecs = framed_text_codec optional_text_codec
lemmas projection_codecs = projection_thumbnail_codec optional_id_codec
lemmas projection_reads = text_codecs [THEN codec.bind_reads] projection_codecs [THEN codec.bind_reads]
lemmas projection_sounds = text_codecs [THEN codec.bind_sound] projection_codecs [THEN codec.bind_sound]

lemma decode_projection_attachment_codec: "codec decode_projection_attachment attachment_bytes attachment_wf"
proof
  show "reads decode_projection_attachment (attachment_bytes a) a" if "attachment_wf a" for a
    unfolding decode_projection_attachment_def attachment_bytes_def
    by (rule reads_last, simp only: append_assoc, intro projection_reads reads_intros)
      (use that in \<open>auto simp: attachment_wf_def text_limits not_less\<close>)
  show "sound decode_projection_attachment (\<lambda>bs a. attachment_wf a \<and> bs = attachment_bytes a)"
    unfolding decode_projection_attachment_def attachment_bytes_def
    by (intro projection_sounds sound_intros) (auto simp: attachment_wf_def text_limits not_less)
qed

definition attachment_list_bytes :: "attachment_descriptor list \<Rightarrow> bytes" where
  "attachment_list_bytes as = (if as = [] then [] else [word_of_nat (length as)] @ concat (map attachment_bytes as))"

definition attachments_wf :: "u8 \<Rightarrow> attachment_descriptor list \<Rightarrow> bool" where
  "attachments_wf content_type as \<longleftrightarrow>
     (content_type = 0) = (as = []) \<and> length as \<le> 32 \<and> list_all attachment_wf as"

fun body_bytes :: "event_body \<Rightarrow> bytes" where
  "body_bytes (MessageCreate message_id content_type text reply_to quote_fallback attachments) =
     message_id @ [content_type] @ frame text @ optional_bytes (\<lambda>x. x) reply_to @ optional_bytes frame quote_fallback
     @ attachment_list_bytes attachments"
| "body_bytes (MessageEdit target revision replacement) = target @ u32_bytes revision @ frame replacement"
| "body_bytes (MessageDelete target) = target"
| "body_bytes (ReactionSet target emoji) = target @ optional_bytes frame emoji"
| "body_bytes (PinSet target pinned) = target @ bool_bytes pinned"
| "body_bytes (Receipt message_ids) = [word_of_nat (length message_ids)] @ concat message_ids"
| "body_bytes (TypingSet is_typing expires_ms) = bool_bytes is_typing @ u64_bytes expires_ms"
| "body_bytes Unsupported = []"

text \<open>The attachments and the check that follows them.\<close>

lemma projection_attachments_codec:
  "codec (sbind (projection_attachments content_type) (\<lambda>as.
      sbind (slift (reject_if (content_type \<noteq> 0 \<and> as = []) MalformedInput)) (\<lambda>_. ret as)))
    attachment_list_bytes (attachments_wf content_type)" (is "codec ?p _ _")
proof
  note rep = codec.repeat_codec [OF decode_projection_attachment_codec]
  show "reads ?p (attachment_list_bytes as) as" if "attachments_wf content_type as" for as
  proof (cases "as = []")
    case True
    then show ?thesis using that
      by (simp add: projection_attachments_def attachments_wf_def attachment_list_bytes_def reads_ret)
  next
    case False
    then have "?p = sbind reader_u8 (\<lambda>count. sbind (slift (reject_if (unat count > 32) InputTooLarge)) (\<lambda>_.
        sbind (repeat_s (unat count) decode_projection_attachment) (\<lambda>as.
        sbind (slift (reject_if (content_type \<noteq> 0 \<and> as = []) MalformedInput)) (\<lambda>_. ret as))))"
      using that by (simp add: projection_attachments_def attachments_wf_def sbind_assoc)
    moreover have "reads \<dots> ([word_of_nat (length as)] @ concat (map attachment_bytes as) @ []) as"
      by (intro codec.bind_reads [OF rep] reads_intros) (use that False in \<open>auto simp: attachments_wf_def\<close>)
    ultimately show ?thesis using False by (simp add: attachment_list_bytes_def)
  qed
  show "sound ?p (\<lambda>bs as. attachments_wf content_type as \<and> bs = attachment_list_bytes as)"
  proof (cases "content_type = 0")
    case True
    then show ?thesis
      by (auto simp: projection_attachments_def attachments_wf_def attachment_list_bytes_def intro: sound_ret)
  next
    case False
    then have "?p = sbind reader_u8 (\<lambda>count. sbind (slift (reject_if (unat count > 32) InputTooLarge)) (\<lambda>_.
        sbind (repeat_s (unat count) decode_projection_attachment) (\<lambda>as.
        sbind (slift (reject_if (content_type \<noteq> 0 \<and> as = []) MalformedInput)) (\<lambda>_. ret as))))"
      by (simp add: projection_attachments_def sbind_assoc)
    moreover have "sound \<dots> (\<lambda>bs as. attachments_wf content_type as \<and> bs = attachment_list_bytes as)"
      by (intro codec.bind_sound [OF rep] sound_intros)
        (use False in \<open>auto simp: attachments_wf_def attachment_list_bytes_def\<close>)
    ultimately show ?thesis by simp
  qed
qed

lemmas projection_attachments_reads =
  codec.bind_reads [OF projection_attachments_codec, unfolded sbind_assoc sbind_ret]
lemmas projection_attachments_sound =
  codec.bind_sound [OF projection_attachments_codec, unfolded sbind_assoc sbind_ret]

lemma array_list_codec:
  "codec (repeat_s n (reader_array 16)) concat (\<lambda>xs. list_all (\<lambda>i. length i = 16) xs \<and> length xs = n)"
  using array_codec.repeat_codec [of n 16] by simp

lemma body_wf_kinds:
  "body_wf KIND_MESSAGE_CREATE b \<Longrightarrow> is_MessageCreate b" "body_wf KIND_MESSAGE_EDIT b \<Longrightarrow> is_MessageEdit b"
  "body_wf KIND_MESSAGE_DELETE b \<Longrightarrow> is_MessageDelete b" "body_wf KIND_REACTION_SET b \<Longrightarrow> is_ReactionSet b"
  "body_wf KIND_PIN_SET b \<Longrightarrow> is_PinSet b" "body_wf KIND_RECEIPT_DELIVERED b \<Longrightarrow> is_Receipt b"
  "body_wf KIND_RECEIPT_READ b \<Longrightarrow> is_Receipt b" "body_wf KIND_TYPING_SET b \<Longrightarrow> is_TypingSet b"
  by (cases b; simp add: event_kind_defs)+

lemma projection_message_create_codec: "codec projection_message_create body_bytes (body_wf KIND_MESSAGE_CREATE)"
proof
  show "reads projection_message_create (body_bytes b) b" if wf: "body_wf KIND_MESSAGE_CREATE b" for b
  proof -
    obtain i c t r q as where b: "b = MessageCreate i c t r q as" using body_wf_kinds(1) [OF wf] by (cases b) auto
    with wf have as: "attachments_wf c as" by (simp add: attachments_wf_def)
    show ?thesis unfolding b body_bytes.simps projection_message_create_def
      by (rule reads_last, simp only: append_assoc, intro projection_attachments_reads projection_reads reads_intros)
        (use wf b as in \<open>auto simp: text_limits not_less\<close>)
  qed
  show "sound projection_message_create (\<lambda>bs b. body_wf KIND_MESSAGE_CREATE b \<and> bs = body_bytes b)"
    unfolding projection_message_create_def
    by (intro projection_attachments_sound projection_sounds sound_intros)
      (auto simp: attachments_wf_def text_limits not_less)
qed

lemma projection_message_edit_codec: "codec projection_message_edit body_bytes (body_wf KIND_MESSAGE_EDIT)"
proof
  show "reads projection_message_edit (body_bytes b) b" if wf: "body_wf KIND_MESSAGE_EDIT b" for b
  proof -
    obtain i n t where b: "b = MessageEdit i n t" using body_wf_kinds(2) [OF wf] by (cases b) auto
    show ?thesis unfolding b body_bytes.simps projection_message_edit_def
      by (rule reads_last, simp only: append_assoc, intro projection_reads reads_intros)
        (use wf b in \<open>auto simp: text_limits not_less\<close>)
  qed
  show "sound projection_message_edit (\<lambda>bs b. body_wf KIND_MESSAGE_EDIT b \<and> bs = body_bytes b)"
    unfolding projection_message_edit_def
    by (intro projection_sounds sound_intros) (auto simp: text_limits not_less split: option.splits)
qed

lemma projection_message_delete_codec: "codec projection_message_delete body_bytes (body_wf KIND_MESSAGE_DELETE)"
proof
  show "reads projection_message_delete (body_bytes b) b" if wf: "body_wf KIND_MESSAGE_DELETE b" for b
  proof -
    obtain i where b: "b = MessageDelete i" using body_wf_kinds(3) [OF wf] by (cases b) auto
    show ?thesis unfolding b body_bytes.simps projection_message_delete_def
      by (rule reads_last, intro projection_reads reads_intros)
        (use wf b in \<open>auto simp: text_limits not_less\<close>)
  qed
  show "sound projection_message_delete (\<lambda>bs b. body_wf KIND_MESSAGE_DELETE b \<and> bs = body_bytes b)"
    unfolding projection_message_delete_def
    by (intro projection_sounds sound_intros) (auto simp: text_limits not_less split: option.splits)
qed

lemma projection_reaction_set_codec: "codec projection_reaction_set body_bytes (body_wf KIND_REACTION_SET)"
proof
  show "reads projection_reaction_set (body_bytes b) b" if wf: "body_wf KIND_REACTION_SET b" for b
  proof -
    obtain i e where b: "b = ReactionSet i e" using body_wf_kinds(4) [OF wf] by (cases b) auto
    show ?thesis unfolding b body_bytes.simps projection_reaction_set_def
      by (rule reads_last, simp only: append_assoc, intro projection_reads reads_intros)
        (use wf b in \<open>auto simp: text_limits not_less option.pred_set split: option.splits\<close>)
  qed
  show "sound projection_reaction_set (\<lambda>bs b. body_wf KIND_REACTION_SET b \<and> bs = body_bytes b)"
    unfolding projection_reaction_set_def
    by (intro projection_sounds sound_intros) (auto simp: text_limits not_less split: option.splits)
qed

lemma projection_pin_set_codec: "codec projection_pin_set body_bytes (body_wf KIND_PIN_SET)"
proof
  show "reads projection_pin_set (body_bytes b) b" if wf: "body_wf KIND_PIN_SET b" for b
  proof -
    obtain i p where b: "b = PinSet i p" using body_wf_kinds(5) [OF wf] by (cases b) auto
    show ?thesis unfolding b body_bytes.simps projection_pin_set_def
      by (rule reads_last, simp only: append_assoc, intro projection_reads reads_intros)
        (use wf b in \<open>auto simp: text_limits not_less\<close>)
  qed
  show "sound projection_pin_set (\<lambda>bs b. body_wf KIND_PIN_SET b \<and> bs = body_bytes b)"
    unfolding projection_pin_set_def
    by (intro projection_sounds sound_intros) (auto simp: text_limits not_less split: option.splits)
qed

lemma projection_typing_set_codec: "codec projection_typing_set body_bytes (body_wf KIND_TYPING_SET)"
proof
  show "reads projection_typing_set (body_bytes b) b" if wf: "body_wf KIND_TYPING_SET b" for b
  proof -
    obtain t e where b: "b = TypingSet t e" using body_wf_kinds(8) [OF wf] by (cases b) auto
    show ?thesis unfolding b body_bytes.simps projection_typing_set_def
      by (rule reads_last, simp only: append_assoc, intro projection_reads reads_intros)
        (use wf b in \<open>auto simp: text_limits not_less\<close>)
  qed
  show "sound projection_typing_set (\<lambda>bs b. body_wf KIND_TYPING_SET b \<and> bs = body_bytes b)"
    unfolding projection_typing_set_def
    by (intro projection_sounds sound_intros) (auto simp: text_limits not_less split: option.splits)
qed

lemma projection_receipt_codec:
  assumes kind: "kind = KIND_RECEIPT_DELIVERED \<or> kind = KIND_RECEIPT_READ"
  shows "codec projection_receipt body_bytes (body_wf kind)"
proof
  show "reads projection_receipt (body_bytes b) b" if wf: "body_wf kind b" for b
  proof -
    obtain ids where b: "b = Receipt ids" using body_wf_kinds(6,7) [of b] wf kind by (cases b) auto
    then have ids: "0 < length ids" "length ids < 2 ^ LENGTH(8)" using wf by (auto simp: MAX_REFERENCES_def)
    show ?thesis unfolding b body_bytes.simps projection_receipt_def
      by (rule reads_last, simp only: append_assoc, intro codec.bind_reads [OF array_list_codec] reads_intros)
        (use wf b ids in \<open>auto simp: has_duplicates_iff\<close>)
  qed
  show "sound projection_receipt (\<lambda>bs b. body_wf kind b \<and> bs = body_bytes b)"
    unfolding projection_receipt_def
    by (intro codec.bind_sound [OF array_list_codec] sound_intros) (use kind in \<open>auto simp: has_duplicates_iff\<close>)
qed

lemma codec_never: "(\<And>x. \<not> w x) \<Longrightarrow> codec (slift (Err e)) enc w"
  by unfold_locales (auto simp: sound_def)

lemma body_wf_supported: "body_wf kind b \<Longrightarrow> is_supported_kind kind"
  by (cases b) (auto simp: is_supported_kind_def)

lemma decode_projection_body_codec: "codec (decode_projection_body kind) body_bytes (body_wf kind)"
proof (cases "is_supported_kind kind")
  case False
  then have "decode_projection_body kind = slift (Err UnsupportedOperation)"
    by (auto simp: decode_projection_body_def is_supported_kind_def)
  then show ?thesis using False body_wf_supported by (auto intro: codec_never)
next
  case True
  then show ?thesis
    unfolding decode_projection_body_def is_supported_kind_def
    by (auto simp: projection_message_create_codec projection_message_edit_codec projection_message_delete_codec
        projection_reaction_set_codec projection_pin_set_codec projection_receipt_codec projection_typing_set_codec)
qed

definition event_bytes :: "application_event \<Rightarrow> bytes" where
  "event_bytes e =
     [ae_version e] @ ae_event_id e @ ae_conversation_id e @ u16_bytes (ae_kind e) @ ae_sender_user_id e
     @ ae_sender_device_id e @ u64_bytes (ae_sender_counter e) @ u64_bytes (ae_created_ms e)
     @ [word_of_nat (length (ae_references e))] @ concat (ae_references e) @ body_bytes (ae_body e)"

lemma length_application_magic [simp]:
  "length ENCODE_REQUEST_MAGIC = 8" "length ENCODE_RESPONSE_MAGIC = 8" "length DECODE_RESPONSE_MAGIC = 8"
  by (simp_all add: ENCODE_REQUEST_MAGIC_def ENCODE_RESPONSE_MAGIC_def DECODE_RESPONSE_MAGIC_def ascii_def)

lemma projection_request_codec:
  "whole_codec projection_request (\<lambda>e. ENCODE_REQUEST_MAGIC @ event_bytes e) event_wf"
proof
  note ids = array_list_codec [THEN codec.bind_reads_to_end] array_list_codec [THEN codec.bind_sound_to_end]
  note body = codec.bind_reads_to_end [OF decode_projection_body_codec] codec.bind_sound_to_end [OF decode_projection_body_codec]
  show "reads_to_end projection_request (ENCODE_REQUEST_MAGIC @ event_bytes e) e" if "event_wf e" for e
  proof -
    have refs: "length (ae_references e) < 2 ^ LENGTH(8)"
      using that by (simp add: event_wf_def event_fields_wf_def MAX_REFERENCES_def)
    show ?thesis unfolding projection_request_def event_bytes_def
      by (rule reads_to_end_last, simp only: append_assoc, intro ids(1) body(1) ends_intros)
        (use that refs in \<open>auto simp: event_wf_def event_fields_wf_def has_duplicates_iff not_less\<close>)
  qed
  show "sound_to_end projection_request (\<lambda>bs e. event_wf e \<and> bs = ENCODE_REQUEST_MAGIC @ event_bytes e)"
    unfolding projection_request_def event_bytes_def
    by (intro ids(2) body(2) sound_end_intros)
      (auto simp: event_wf_def event_fields_wf_def has_duplicates_iff not_less)
qed

text \<open>The writer produces exactly these bytes for a well-formed event.\<close>

lemma text_ok_length: "text_ok mb ms ne t \<Longrightarrow> mb < 2 ^ 32 \<Longrightarrow> length t < 2 ^ 32"
  by (simp add: text_ok_def)

lemma push_optional_text_eq:
  "pred_option (text_ok mb ms True) v \<Longrightarrow> mb < 2 ^ 32 \<Longrightarrow> push_optional_text out v = Ok (out @ optional_bytes frame v)"
  by (cases v) (auto simp: push_optional_text_def optional_bytes_def push_frame_eq dest: text_ok_length)

lemma push_optional_id_eq: "push_optional_id out v = out @ optional_bytes (\<lambda>x. x) v"
  by (cases v) (simp_all add: push_optional_id_def optional_bytes_def)

lemma push_projection_attachment_eq:
  assumes "attachment_wf a"
  shows "push_projection_attachment out a = Ok (out @ attachment_bytes a)"
proof -
  have "length (ad_capability_id a) < 2 ^ 32" "length (ad_display_name a) < 2 ^ 32" "length (ad_mime_type a) < 2 ^ 32"
    using assms by (auto simp: attachment_wf_def CAPABILITY_ID_LENGTH_def dest: text_ok_length)
  moreover have "length (thumbnail_bytes (ad_thumbnail a)) < 2 ^ LENGTH(32)"
    using assms by (cases "ad_thumbnail a") (simp_all add: attachment_wf_def thumbnail_bytes_def)
  moreover have "push_optional_text out (ad_caption a) = Ok (out @ optional_bytes frame (ad_caption a))" for out
    using assms by (intro push_optional_text_eq) (auto simp: attachment_wf_def MAX_TEXT_BYTES_def)
  ultimately show ?thesis
    by (simp add: push_projection_attachment_def Let_def push_frame_eq attachment_bytes_def push_u64_def push_u32_def
        frame_def [of "thumbnail_bytes (ad_thumbnail a)"] thumbnail_bytes_def [symmetric])
qed

lemma push_all_eq:
  "list_all w xs \<Longrightarrow> (\<And>out x. w x \<Longrightarrow> push out x = Ok (out @ enc x)) \<Longrightarrow>
   push_all push out xs = Ok (out @ concat (map enc xs))"
  by (induction xs arbitrary: out) auto

lemma encode_projection_body_eq:
  assumes wf: "body_wf kind b"
  shows "encode_projection_body b out = Ok (out @ body_bytes b)"
proof (cases b)
  case (MessageCreate i c t r q as)
  have "length t < 2 ^ 32" "length as < 2 ^ LENGTH(8)"
    using wf MessageCreate by (auto simp: MAX_TEXT_BYTES_def dest: text_ok_length)
  moreover have "push_optional_text out q = Ok (out @ optional_bytes frame q)" for out
    using wf MessageCreate by (intro push_optional_text_eq) (auto simp: MAX_QUOTE_BYTES_def)
  moreover have "push_all push_projection_attachment out as = Ok (out @ concat (map attachment_bytes as))" for out
    using wf MessageCreate by (intro push_all_eq [where w = attachment_wf] push_projection_attachment_eq) simp_all
  ultimately show ?thesis
    by (simp add: MessageCreate encode_projection_body_def push_frame_eq push_optional_id_eq attachment_list_bytes_def)
next
  case (MessageEdit i n t)
  then have "length t < 2 ^ 32" using wf by (auto simp: MAX_TEXT_BYTES_def dest: text_ok_length)
  then show ?thesis by (simp add: MessageEdit encode_projection_body_def push_frame_eq push_u32_def)
next
  case (ReactionSet i e)
  then have "push_optional_text out e = Ok (out @ optional_bytes frame e)" for out
    using wf by (intro push_optional_text_eq [of MAX_EMOJI_BYTES MAX_EMOJI_BYTES])
      (auto simp: MAX_EMOJI_BYTES_def option.pred_set)
  then show ?thesis by (simp add: ReactionSet encode_projection_body_def)
next
  case (Receipt ids)
  then have "length ids < 2 ^ LENGTH(8)" using wf by (simp add: MAX_REFERENCES_def)
  then show ?thesis by (simp add: Receipt encode_projection_body_def)
qed (use wf in \<open>simp_all add: encode_projection_body_def bool_bytes_def push_u64_def\<close>)

lemma encode_projection_eq:
  assumes wf: "event_wf e"
  shows "encode_projection e out = (if length (out @ event_bytes e) \<le> APPLICATION_MAX_IO_BYTES
    then Ok (out @ event_bytes e) else Err InputTooLarge)"
proof -
  have "length (ae_references e) < 2 ^ LENGTH(8)"
    using wf by (simp add: event_wf_def event_fields_wf_def MAX_REFERENCES_def)
  moreover have "encode_projection_body (ae_body e) out = Ok (out @ body_bytes (ae_body e))" for out
    using wf by (intro encode_projection_body_eq [of "ae_kind e"]) (simp add: event_wf_def)
  ultimately show ?thesis
    by (simp add: encode_projection_def Let_def event_bytes_def push_u16_def push_u64_def reject_if_def not_less)
qed

section \<open>The CBOR encoding is exact\<close>

definition attachment_item :: "attachment_descriptor \<Rightarrow> bytes" where
  "attachment_item a =
     map_head 14 @ uint_item 0 @ text_item (ad_capability_id a) @ uint_item 1 @ bytes_item (ad_key a)
     @ uint_item 2 @ bytes_item (ad_header a) @ uint_item 3 @ bytes_item (ad_stream_header a)
     @ uint_item 4 @ uint_item (ad_encrypted_size a) @ uint_item 5 @ uint_item (ad_bucket_size a)
     @ uint_item 6 @ uint_item (ad_plaintext_size a) @ uint_item 7 @ text_item (ad_display_name a)
     @ uint_item 8 @ text_item (ad_mime_type a) @ uint_item 9 @ uint_item (ucast (ad_media_kind a))
     @ uint_item 10 @ uint_item (ucast (ad_width a)) @ uint_item 11 @ uint_item (ucast (ad_height a))
     @ uint_item 12 @ nullable text_item (ad_caption a) @ uint_item 13 @ bytes_item (thumbnail_bytes (ad_thumbnail a))"

lemma narrowed: "LENGTH('a) \<le> 64 \<Longrightarrow> try_from_usize (unat (v :: u64)) = Some (w :: 'a::len word) \<longleftrightarrow> v = ucast w"
proof
  assume len: "LENGTH('a) \<le> 64" and "try_from_usize (unat v) = Some w"
  then have "unat v = unat w" by (auto dest: try_from_usize_unat)
  also have "\<dots> = unat (ucast w :: u64)" using len by (simp add: unat_ucast_up)
  finally show "v = ucast w" by (simp add: word_unat_eq_iff)
next
  assume len: "LENGTH('a) \<le> 64" and v: "v = ucast w"
  have "unat (ucast w :: u64) = unat w" using len by (simp add: unat_ucast_up)
  then show "try_from_usize (unat v) = Some w" using unsigned_less [of w] by (simp add: v)
qed

lemma reads_narrowed:
  "LENGTH('a) \<le> 64 \<Longrightarrow> reads (f w) bs y \<Longrightarrow>
   reads (sbind (slift (ok_or (try_from_usize (unat (ucast (w :: 'a::len word) :: u64))) e)) f) bs y"
  by (simp add: narrowed [THEN iffD2])

lemma reads_to_end_narrowed:
  "LENGTH('a) \<le> 64 \<Longrightarrow> reads_to_end (f w) bs y \<Longrightarrow>
   reads_to_end (sbind (slift (ok_or (try_from_usize (unat (ucast (w :: 'a::len word) :: u64))) e)) f) bs y"
  by (simp add: narrowed [THEN iffD2])

lemma read_cbor_attachment_codec:
  assumes M: "minicbor_decodes M"
  shows "codec (read_cbor_attachment M) attachment_item attachment_wf"
proof
  show "reads (read_cbor_attachment M) (attachment_item a) a" if "attachment_wf a" for a
  proof -
    have thumb: "length (thumbnail_bytes (ad_thumbnail a)) \<le> 65536"
      "(if thumbnail_bytes (ad_thumbnail a) = [] then None else Some (thumbnail_bytes (ad_thumbnail a))) = ad_thumbnail a"
      using that by (cases "ad_thumbnail a"; simp add: attachment_wf_def thumbnail_bytes_def)+
    show ?thesis
      unfolding read_cbor_attachment_def attachment_item_def
      by (rule reads_last, simp only: append_assoc, intro cbor_reads [OF M] reads_narrowed reads_intros)
        (use that thumb in \<open>auto simp: attachment_wf_def narrowed not_less\<close>)
  qed
  show "sound (read_cbor_attachment M) (\<lambda>bs a. attachment_wf a \<and> bs = attachment_item a)"
    unfolding read_cbor_attachment_def attachment_item_def
    by (intro cbor_sounds [OF M] sound_intros) (auto simp: attachment_wf_def narrowed not_less thumbnail_bytes_def)
qed

definition attachment_list_item :: "attachment_descriptor list \<Rightarrow> bytes" where
  "attachment_list_item as =
     (if as = [] then [] else uint_item 5 @ array_head (length as) @ concat (map attachment_item as))"

fun body_item :: "event_body \<Rightarrow> bytes" where
  "body_item (MessageCreate message_id content_type text reply_to quote_fallback attachments) =
     map_head (if attachments = [] then 5 else 6) @ uint_item 0 @ bytes_item message_id
     @ uint_item 1 @ uint_item (ucast content_type) @ uint_item 2 @ text_item text
     @ uint_item 3 @ nullable bytes_item reply_to @ uint_item 4 @ nullable text_item quote_fallback
     @ attachment_list_item attachments"
| "body_item (MessageEdit target revision replacement) =
     map_head 3 @ uint_item 0 @ bytes_item target @ uint_item 1 @ text_item replacement @ uint_item 2 @ uint_item (ucast revision)"
| "body_item (MessageDelete target) = map_head 1 @ uint_item 0 @ bytes_item target"
| "body_item (ReactionSet target emoji) = map_head 2 @ uint_item 0 @ bytes_item target @ uint_item 1 @ nullable text_item emoji"
| "body_item (PinSet target pinned) = map_head 2 @ uint_item 0 @ bytes_item target @ uint_item 1 @ bool_item pinned"
| "body_item (Receipt message_ids) =
     map_head 1 @ uint_item 0 @ array_head (length message_ids) @ concat (map bytes_item message_ids)"
| "body_item (TypingSet is_typing expires_ms) = map_head 2 @ uint_item 0 @ bool_item is_typing @ uint_item 1 @ uint_item expires_ms"
| "body_item Unsupported = []"

lemma cbor_attachments_codec:
  assumes M: "minicbor_decodes M" and len: "map_len = 5 \<or> map_len = 6"
  shows "codec (cbor_attachments M map_len) attachment_list_item
    (\<lambda>as. (map_len = 6) = (as \<noteq> []) \<and> length as \<le> 32 \<and> list_all attachment_wf as)"
proof (cases "map_len = 6")
  case False
  then show ?thesis
    by unfold_locales (auto simp: cbor_attachments_def attachment_list_item_def intro: reads_ret sound_ret)
next
  case True
  note rep = codec.repeat_codec [OF read_cbor_attachment_codec [OF M]]
  show ?thesis
  proof
    show "reads (cbor_attachments M map_len) (attachment_list_item as) as"
      if "(map_len = 6) = (as \<noteq> []) \<and> length as \<le> 32 \<and> list_all attachment_wf as" for as
    proof -
      have "reads (cbor_attachments M 6) (uint_item 5 @ array_head (length as) @ concat (map attachment_item as) @ []) as"
        unfolding cbor_attachments_def if_P [OF refl]
        by (intro cbor_reads [OF M] codec.final_reads [OF rep] reads_intros) (use that True in auto)
      then show ?thesis using that True by (simp add: attachment_list_item_def)
    qed
    show "sound (cbor_attachments M map_len)
        (\<lambda>bs as. ((map_len = 6) = (as \<noteq> []) \<and> length as \<le> 32 \<and> list_all attachment_wf as) \<and> bs = attachment_list_item as)"
      unfolding cbor_attachments_def if_P [OF True]
      by (intro cbor_sounds [OF M] codec.final_sound [OF rep] sound_intros)
        (use True in \<open>auto simp: attachment_list_item_def\<close>)
  qed
qed

lemma ucast_u8_simps: "ucast (c :: u8) = (0 :: u64) \<longleftrightarrow> c = 0" "(2 :: u64) < ucast c \<longleftrightarrow> 2 < c" "ucast c \<le> (2 :: u64) \<longleftrightarrow> c \<le> 2"
proof -
  have "unat (ucast c :: u64) = unat c" by (simp add: unat_ucast_up)
  then show "ucast c = (0 :: u64) \<longleftrightarrow> c = 0" "(2 :: u64) < ucast c \<longleftrightarrow> 2 < c" "ucast c \<le> (2 :: u64) \<longleftrightarrow> c \<le> 2"
    by (simp_all add: word_unat_eq_iff word_less_nat_alt word_le_nat_alt)
qed

lemma cbor_message_create_codec:
  assumes M: "minicbor_decodes M"
  shows "codec (cbor_message_create M) body_item (body_wf KIND_MESSAGE_CREATE)"
proof
  show "reads (cbor_message_create M) (body_item b) b" if wf: "body_wf KIND_MESSAGE_CREATE b" for b
  proof -
    obtain i c t r q as where b: "b = MessageCreate i c t r q as" using body_wf_kinds(1) [OF wf] by (cases b) auto
    note att = codec.bind_reads [OF cbor_attachments_codec [OF M]]
    show ?thesis unfolding b body_item.simps cbor_message_create_def
      by (rule reads_last, simp only: append_assoc, intro cbor_reads [OF M] reads_narrowed att reads_intros)
        (use wf b in \<open>auto simp: not_less ucast_u8_simps\<close>)
  qed
  show "sound (cbor_message_create M) (\<lambda>bs b. body_wf KIND_MESSAGE_CREATE b \<and> bs = body_item b)"
    unfolding cbor_message_create_def
    by (intro cbor_sounds [OF M] codec.bind_sound [OF cbor_attachments_codec [OF M]] sound_intros)
      (auto simp: narrowed ucast_u8_simps not_less)
qed

lemma cbor_message_edit_codec:
  assumes M: "minicbor_decodes M"
  shows "codec (cbor_message_edit M) body_item (body_wf KIND_MESSAGE_EDIT)"
proof
  show "reads (cbor_message_edit M) (body_item b) b" if wf: "body_wf KIND_MESSAGE_EDIT b" for b
  proof -
    obtain i n t where b: "b = MessageEdit i n t" using body_wf_kinds(2) [OF wf] by (cases b) auto
    show ?thesis unfolding b body_item.simps cbor_message_edit_def
      by (rule reads_last, simp only: append_assoc, intro cbor_reads [OF M] reads_narrowed reads_intros)
        (use wf b in \<open>auto simp: option.pred_set split: option.splits\<close>)
  qed
  show "sound (cbor_message_edit M) (\<lambda>bs b. body_wf KIND_MESSAGE_EDIT b \<and> bs = body_item b)"
    unfolding cbor_message_edit_def
    by (intro cbor_sounds [OF M] sound_intros) (auto simp: narrowed split: option.splits)
qed

lemma cbor_message_delete_codec:
  assumes M: "minicbor_decodes M"
  shows "codec (cbor_message_delete M) body_item (body_wf KIND_MESSAGE_DELETE)"
proof
  show "reads (cbor_message_delete M) (body_item b) b" if wf: "body_wf KIND_MESSAGE_DELETE b" for b
  proof -
    obtain i where b: "b = MessageDelete i" using body_wf_kinds(3) [OF wf] by (cases b) auto
    show ?thesis unfolding b body_item.simps cbor_message_delete_def
      by (rule reads_last, simp only: append_assoc, intro cbor_reads [OF M] reads_narrowed reads_intros)
        (use wf b in \<open>auto simp: option.pred_set split: option.splits\<close>)
  qed
  show "sound (cbor_message_delete M) (\<lambda>bs b. body_wf KIND_MESSAGE_DELETE b \<and> bs = body_item b)"
    unfolding cbor_message_delete_def
    by (intro cbor_sounds [OF M] sound_intros) (auto simp: narrowed split: option.splits)
qed

lemma cbor_reaction_set_codec:
  assumes M: "minicbor_decodes M"
  shows "codec (cbor_reaction_set M) body_item (body_wf KIND_REACTION_SET)"
proof
  show "reads (cbor_reaction_set M) (body_item b) b" if wf: "body_wf KIND_REACTION_SET b" for b
  proof -
    obtain i e where b: "b = ReactionSet i e" using body_wf_kinds(4) [OF wf] by (cases b) auto
    show ?thesis unfolding b body_item.simps cbor_reaction_set_def
      by (rule reads_last, simp only: append_assoc, intro cbor_reads [OF M] reads_narrowed reads_intros)
        (use wf b in \<open>auto simp: option.pred_set split: option.splits\<close>)
  qed
  show "sound (cbor_reaction_set M) (\<lambda>bs b. body_wf KIND_REACTION_SET b \<and> bs = body_item b)"
    unfolding cbor_reaction_set_def
    by (intro cbor_sounds [OF M] sound_intros) (auto simp: narrowed split: option.splits)
qed

lemma cbor_pin_set_codec:
  assumes M: "minicbor_decodes M"
  shows "codec (cbor_pin_set M) body_item (body_wf KIND_PIN_SET)"
proof
  show "reads (cbor_pin_set M) (body_item b) b" if wf: "body_wf KIND_PIN_SET b" for b
  proof -
    obtain i p where b: "b = PinSet i p" using body_wf_kinds(5) [OF wf] by (cases b) auto
    show ?thesis unfolding b body_item.simps cbor_pin_set_def
      by (rule reads_last, simp only: append_assoc, intro cbor_reads [OF M] reads_narrowed reads_intros)
        (use wf b in \<open>auto simp: option.pred_set split: option.splits\<close>)
  qed
  show "sound (cbor_pin_set M) (\<lambda>bs b. body_wf KIND_PIN_SET b \<and> bs = body_item b)"
    unfolding cbor_pin_set_def
    by (intro cbor_sounds [OF M] sound_intros) (auto simp: narrowed split: option.splits)
qed

lemma cbor_typing_set_codec:
  assumes M: "minicbor_decodes M"
  shows "codec (cbor_typing_set M) body_item (body_wf KIND_TYPING_SET)"
proof
  show "reads (cbor_typing_set M) (body_item b) b" if wf: "body_wf KIND_TYPING_SET b" for b
  proof -
    obtain t e where b: "b = TypingSet t e" using body_wf_kinds(8) [OF wf] by (cases b) auto
    show ?thesis unfolding b body_item.simps cbor_typing_set_def
      by (rule reads_last, simp only: append_assoc, intro cbor_reads [OF M] reads_narrowed reads_intros)
        (use wf b in \<open>auto simp: option.pred_set split: option.splits\<close>)
  qed
  show "sound (cbor_typing_set M) (\<lambda>bs b. body_wf KIND_TYPING_SET b \<and> bs = body_item b)"
    unfolding cbor_typing_set_def
    by (intro cbor_sounds [OF M] sound_intros) (auto simp: narrowed split: option.splits)
qed

lemma cbor_receipt_codec:
  assumes M: "minicbor_decodes M" and kind: "kind = KIND_RECEIPT_DELIVERED \<or> kind = KIND_RECEIPT_READ"
  shows "codec (cbor_receipt M) body_item (body_wf kind)"
proof
  note rep = codec.repeat_codec [OF read_exact_bytes_codec [OF M]]
  show "reads (cbor_receipt M) (body_item b) b" if wf: "body_wf kind b" for b
  proof -
    obtain ids where b: "b = Receipt ids" using body_wf_kinds(6,7) [of b] wf kind by (cases b) auto
    show ?thesis unfolding b body_item.simps cbor_receipt_def
      by (rule reads_last, simp only: append_assoc, intro cbor_reads [OF M] codec.bind_reads [OF rep] reads_intros)
        (use wf b in \<open>auto simp: has_duplicates_iff MAX_REFERENCES_def\<close>)
  qed
  show "sound (cbor_receipt M) (\<lambda>bs b. body_wf kind b \<and> bs = body_item b)"
    unfolding cbor_receipt_def
    by (intro cbor_sounds [OF M] codec.bind_sound [OF rep] sound_intros) (use kind in \<open>auto simp: has_duplicates_iff\<close>)
qed

lemma decode_cbor_body_codec:
  assumes M: "minicbor_decodes M" and "is_supported_kind kind"
  shows "codec (decode_cbor_body M kind) body_item (body_wf kind)"
  using assms(2) unfolding decode_cbor_body_def is_supported_kind_def
  by (auto simp: cbor_message_create_codec cbor_message_edit_codec cbor_message_delete_codec cbor_reaction_set_codec
      cbor_pin_set_codec cbor_receipt_codec cbor_typing_set_codec M)

end
