(* ===== verification/Application_Unknown.thy ===== *)
theory Application_Unknown
  imports Application_Codec
begin

text \<open>
  Bodies of unknown kinds. \<^verbatim>\<open>validate_unknown_value\<close> walks an item without building anything. Its reference is a
  datatype of CBOR values: it accepts exactly the canonical encodings of values whose maps have increasing
  integer keys, within the limits on nesting, on map entries and on the number of items.
\<close>

section \<open>Values\<close>

datatype cbor_value =
    VUint u64
  | VBytes bytes
  | VText bytes
  | VArray "cbor_value list"
  | VMap "(u64 \<times> cbor_value) list"
  | VBool bool
  | VNull

fun value_bytes :: "cbor_value \<Rightarrow> bytes" where
  "value_bytes (VUint n) = uint_item n"
| "value_bytes (VBytes b) = bytes_item b"
| "value_bytes (VText t) = text_item t"
| "value_bytes (VArray vs) = array_head (length vs) @ concat (map value_bytes vs)"
| "value_bytes (VMap es) = map_head (length es) @ concat (map (\<lambda>(k, v). uint_item k @ value_bytes v) es)"
| "value_bytes (VBool b) = bool_item b"
| "value_bytes VNull = null_item"

text \<open>Every item and every key counts.\<close>

fun value_items :: "cbor_value \<Rightarrow> nat" where
  "value_items (VArray vs) = Suc (sum_list (map value_items vs))"
| "value_items (VMap es) = Suc (sum_list (map (\<lambda>(k, v). Suc (value_items v)) es))"
| "value_items _ = 1"

fun value_fits :: "nat \<Rightarrow> cbor_value \<Rightarrow> bool" where
  "value_fits depth (VArray vs) \<longleftrightarrow> depth \<le> MAX_APPLICATION_CBOR_DEPTH \<and> (\<forall>v \<in> set vs. value_fits (depth + 1) v)"
| "value_fits depth (VMap es) \<longleftrightarrow> depth \<le> MAX_APPLICATION_CBOR_DEPTH \<and> (\<forall>(k, v) \<in> set es. value_fits (depth + 1) v)"
| "value_fits depth _ \<longleftrightarrow> depth \<le> MAX_APPLICATION_CBOR_DEPTH"

fun value_wf :: "cbor_value \<Rightarrow> bool" where
  "value_wf (VText t) \<longleftrightarrow> text_ok APPLICATION_MAX_IO_BYTES APPLICATION_MAX_IO_BYTES False t"
| "value_wf (VArray vs) \<longleftrightarrow> (\<forall>v \<in> set vs. value_wf v)"
| "value_wf (VMap es) \<longleftrightarrow>
     length es \<le> MAX_APPLICATION_MAP_ENTRIES \<and> sorted_wrt (<) (map fst es) \<and> (\<forall>(k, v) \<in> set es. value_wf v)"
| "value_wf _ \<longleftrightarrow> True"

section \<open>The walk accepts every value within the limits\<close>

text \<open>The counter after \<open>n\<close> more items.\<close>

definition counted :: "u32 \<Rightarrow> nat \<Rightarrow> u32" where
  "counted c n = word_of_nat (unat c + n)"

lemma unat_counted: "unat c + n \<le> 4096 \<Longrightarrow> unat (counted c n) = unat c + n"
  unfolding counted_def by (intro unat_of_nat_small) simp

lemma counted_0 [simp]: "counted c 0 = c"
  by (simp add: counted_def)

lemma counted_counted: "unat c + m \<le> 4096 \<Longrightarrow> counted (counted c m) n = counted c (m + n)"
  using unat_counted [of c m] by (simp only: counted_def [of "counted c m"] counted_def [of c "m + n"] add.assoc)

lemma counted_eq: "unat c' = unat c + n \<Longrightarrow> c' = counted c n"
proof -
  assume "unat c' = unat c + n"
  then have "counted c n = word_of_nat (unat c')" by (simp only: counted_def)
  then show ?thesis by simp
qed

lemma count_item_iff: "count_item c = Ok c' \<longleftrightarrow> unat c < 4096 \<and> c' = counted c 1"
proof
  assume "count_item c = Ok c'"
  then have "checked_add c 1 = Some c'" and le: "unat c' \<le> 4096"
    by (auto simp: count_item_def rbind_Ok_iff MAX_CBOR_ITEMS_def word_less_nat_alt not_less)
  then have "unat c' = unat c + 1" by (auto dest: checked_add_unat)
  with le show "unat c < 4096 \<and> c' = counted c 1" by (auto intro: counted_eq)
next
  assume c: "unat c < 4096 \<and> c' = counted c 1"
  then have unat: "unat c' = unat c + 1" using unat_counted [of c 1] by simp
  have "checked_add c 1 = Some c'"
    using c unat by (auto simp: checked_add_Some_iff word_unat_eq_iff unat_add_no_overflow)
  with c unat show "count_item c = Ok c'"
    by (simp add: count_item_def MAX_CBOR_ITEMS_def word_less_nat_alt reject_if_def)
qed

lemma reads_peek_hd: "bs \<noteq> [] \<Longrightarrow> reads (f (hd bs)) bs x \<Longrightarrow> reads (sbind peek f) bs x"
  by (cases bs) (auto intro: reads_peek)

lemma array_room_iff: "unat c \<le> 4096 \<Longrightarrow> array_room c n = Ok u \<longleftrightarrow> unat c + n \<le> 4096"
  by (cases "n < 2 ^ LENGTH(32)")
    (auto simp: array_room_def word_less_nat_alt unat_saturating_sub MAX_CBOR_ITEMS_def)

text \<open>A validator of one item reads a value: it consumes the encoding and counts its items.\<close>

definition walks :: "(u32 \<Rightarrow> u32 parser) \<Rightarrow> cbor_value \<Rightarrow> bool" where
  "walks f v \<longleftrightarrow> (\<forall>c. unat c + value_items v \<le> 4096 \<longrightarrow> reads (f c) (value_bytes v) (counted c (value_items v)))"

lemma array_loop_reads:
  assumes "\<forall>v \<in> set vs. walks f v" and "unat c + sum_list (map value_items vs) \<le> 4096"
  shows "reads (loop_s (length vs) f c) (concat (map value_bytes vs)) (counted c (sum_list (map value_items vs)))"
  using assms
proof (induction vs arbitrary: c)
  case Nil
  then show ?case by (simp add: reads_ret)
next
  case (Cons v vs)
  let ?c = "counted c (value_items v)"
  have le: "unat c + value_items v \<le> 4096" using Cons.prems(2) by simp
  have "reads (f c) (value_bytes v) ?c" using Cons.prems le by (simp add: walks_def)
  moreover have "reads (loop_s (length vs) f ?c) (concat (map value_bytes vs)) (counted ?c (sum_list (map value_items vs)))"
    using Cons.prems unat_counted [OF le] by (intro Cons.IH) simp_all
  ultimately have "reads (sbind (f c) (loop_s (length vs) f)) (value_bytes v @ concat (map value_bytes vs))
      (counted ?c (sum_list (map value_items vs)))"
    by (rule reads_bind)
  then show ?case by (simp add: counted_counted [OF le])
qed

definition entry_bytes :: "u64 \<times> cbor_value \<Rightarrow> bytes" where
  "entry_bytes = (\<lambda>(k, v). uint_item k @ value_bytes v)"

definition entry_items :: "u64 \<times> cbor_value \<Rightarrow> nat" where
  "entry_items = (\<lambda>(k, v). Suc (value_items v))"

lemma map_entry_reads:
  assumes M: "minicbor_decodes M" and f: "walks f v" and c: "unat c + Suc (value_items v) \<le> 4096"
    and prev: "\<forall>p. prev = Some p \<longrightarrow> p < k"
  shows "reads (map_entry M f (c, prev)) (uint_item k @ value_bytes v) (counted c (Suc (value_items v)), Some k)"
proof -
  have c1: "count_item c = Ok (counted c 1)" "unat (counted c 1) = unat c + 1"
    using c unat_counted [of c 1] by (simp_all add: count_item_iff)
  then have "reads (f (counted c 1)) (value_bytes v) (counted (counted c 1) (value_items v))"
    using f c by (simp add: walks_def)
  then have val: "reads (f (counted c 1)) (value_bytes v) (counted c (Suc (value_items v)))"
    using c by (simp add: counted_counted)
  have "\<not> (case prev of Some p \<Rightarrow> k \<le> p | None \<Rightarrow> False)" using prev by (auto split: option.split simp: not_le)
  then have "reads (map_entry M f (c, prev)) (uint_item k @ value_bytes v @ []) (counted c (Suc (value_items v)), Some k)"
    unfolding map_entry_def prod.case c1(1) sbind_slift
    by (intro cbor_reads [OF M] reads_bind [OF val] reads_bind_slift reads_ret_eq) simp_all
  then show ?thesis by simp
qed

lemma map_loop_reads:
  assumes M: "minicbor_decodes M" and "\<forall>(k, v) \<in> set es. walks f v" and "unat c + sum_list (map entry_items es) \<le> 4096"
    and "sorted_wrt (<) (map fst es)" and "\<forall>p. prev = Some p \<longrightarrow> (\<forall>k \<in> fst ` set es. p < k)"
  shows "\<exists>last. reads (loop_s (length es) (map_entry M f) (c, prev)) (concat (map entry_bytes es))
    (counted c (sum_list (map entry_items es)), last)"
  using assms(2-)
proof (induction es arbitrary: c prev)
  case Nil
  then show ?case by (auto intro: reads_ret)
next
  case (Cons e es)
  obtain k v where e: "e = (k, v)" by (cases e)
  let ?c = "counted c (Suc (value_items v))"
  have le: "unat c + Suc (value_items v) \<le> 4096" using Cons.prems(2) by (simp add: e entry_items_def)
  have first: "reads (map_entry M f (c, prev)) (uint_item k @ value_bytes v) (?c, Some k)"
    using Cons.prems(1,4) le by (intro map_entry_reads [OF M]) (auto simp: e)
  have "\<exists>last. reads (loop_s (length es) (map_entry M f) (?c, Some k)) (concat (map entry_bytes es))
      (counted ?c (sum_list (map entry_items es)), last)"
    using Cons.prems unat_counted [OF le] by (intro Cons.IH) (auto simp: e entry_items_def)
  then obtain last where "reads (loop_s (length es) (map_entry M f) (?c, Some k)) (concat (map entry_bytes es))
      (counted ?c (sum_list (map entry_items es)), last)" by blast
  with first have "reads (sbind (map_entry M f (c, prev)) (loop_s (length es) (map_entry M f)))
      ((uint_item k @ value_bytes v) @ concat (map entry_bytes es)) (counted ?c (sum_list (map entry_items es)), last)"
    by (rule reads_bind)
  then show ?case
    by (auto simp: e entry_bytes_def entry_items_def counted_counted [OF le])
qed

text \<open>The first byte of an item shows its branch.\<close>

lemma item_first:
  "uint_item n \<noteq> []" "drop_bit 5 (hd (uint_item n)) = 0"
  "bytes_item b \<noteq> []" "drop_bit 5 (hd (bytes_item b)) = 2"
  "text_item t \<noteq> []" "drop_bit 5 (hd (text_item t)) = 3"
  "array_head k @ x \<noteq> []" "drop_bit 5 (hd (array_head k @ x)) = 4"
  "map_head k @ x \<noteq> []" "drop_bit 5 (hd (map_head k @ x)) = 5"
  using cbor_head_first(1,2) [of 0 "unat n"] cbor_head_first(1,2) [of 2 "length b"]
    cbor_head_first(1,2) [of 3 "length t"] cbor_head_first(1,2) [of 4 k] cbor_head_first(1,2) [of 5 k]
  by (simp_all add: item_defs hd_append)

lemma value_items_pos: "0 < value_items v"
  by (cases v) simp_all

lemma sum_items_ge: "length vs \<le> sum_list (map value_items vs)"
proof (induction vs)
  case (Cons v vs)
  then show ?case using value_items_pos [of v] by simp
qed simp

lemma walks_dispatch:
  assumes depth: "depth \<le> MAX_APPLICATION_CBOR_DEPTH" and ne: "value_bytes v \<noteq> []"
    and branch: "\<And>c. unat c + value_items v \<le> 4096 \<Longrightarrow>
      reads (validate_item M (validate_unknown_value M (depth + 1)) (counted c 1) (hd (value_bytes v))) (value_bytes v) (counted c (value_items v))"
  shows "walks (validate_unknown_value M depth) v"
  unfolding walks_def
proof (intro allI impI)
  fix c :: u32
  assume c: "unat c + value_items v \<le> 4096"
  then have "count_item c = Ok (counted c 1)" using value_items_pos [of v] by (simp add: count_item_iff)
  then show "reads (validate_unknown_value M depth c) (value_bytes v) (counted c (value_items v))"
    using depth branch [OF c] ne
    by (simp add: validate_unknown_value.simps reads_peek_hd)
qed

lemma leaf_walks:
  assumes M: "minicbor_decodes M" and "value_fits depth v" and "value_wf v"
    and leaf: "value_items v = 1" "\<And>vs. v \<noteq> VArray vs" "\<And>es. v \<noteq> VMap es"
  shows "walks (validate_unknown_value M depth) v"
proof (rule walks_dispatch)
  show "depth \<le> MAX_APPLICATION_CBOR_DEPTH" using assms by (cases v) auto
  show "value_bytes v \<noteq> []"
    using leaf by (cases v) (auto simp: item_first bool_item_def null_item_def)
  fix c :: u32
  show "reads (validate_item M (validate_unknown_value M (depth + 1)) (counted c 1) (hd (value_bytes v))) (value_bytes v)
      (counted c (value_items v))"
  proof (cases v)
    case (VUint n)
    have "reads (sbind (read_uint M) (\<lambda>_. ret (counted c 1))) (uint_item n @ []) (counted c 1)"
      by (intro cbor_reads [OF M] reads_intros) simp_all
    then show ?thesis by (simp add: VUint validate_item_def item_first)
  next
    case (VBytes b)
    have "reads (sbind (read_bytes M) (\<lambda>_. ret (counted c 1))) (bytes_item b @ []) (counted c 1)"
      by (intro cbor_reads [OF M] reads_intros) simp_all
    then show ?thesis by (simp add: VBytes validate_item_def item_first)
  next
    case (VText t)
    have "reads (sbind (read_text M APPLICATION_MAX_IO_BYTES APPLICATION_MAX_IO_BYTES False) (\<lambda>_. ret (counted c 1)))
        (text_item t @ []) (counted c 1)"
      by (intro cbor_reads [OF M] reads_intros) (use assms VText in simp_all)
    then show ?thesis by (simp add: VText validate_item_def item_first)
  next
    case (VBool b)
    have "reads (sbind (read_bool M) (\<lambda>_. ret (counted c 1))) (bool_item b @ []) (counted c 1)"
      by (intro cbor_reads [OF M] reads_intros) simp_all
    then show ?thesis by (cases b) (simp_all add: VBool validate_item_def bool_item_def drop_bit_eq_div)
  next
    case VNull
    have "reads (sbind (decode_with (md_null M)) (\<lambda>_. ret (counted c 1))) (null_item @ []) (counted c 1)"
      by (rule reads_bind [OF null_codec [OF M] reads_ret])
    then show ?thesis by (simp add: VNull validate_item_def null_item_def drop_bit_eq_div)
  qed (use leaf in auto)
qed

lemma value_walks:
  assumes M: "minicbor_decodes M"
  shows "value_fits depth v \<Longrightarrow> value_wf v \<Longrightarrow> walks (validate_unknown_value M depth) v"
proof (induction v arbitrary: depth)
  case (VArray vs)
  let ?f = "validate_unknown_value M (depth + 1)"
  show ?case
  proof (rule walks_dispatch)
    fix c :: u32
    assume c: "unat c + value_items (VArray vs) \<le> 4096"
    then have c1: "unat (counted c 1) = unat c + 1" using unat_counted [of c 1] by simp
    have room: "array_room (counted c 1) (length vs) = Ok ()"
      using c c1 sum_items_ge [of vs] by (simp add: array_room_iff)
    have "reads (loop_s (length vs) ?f (counted c 1)) (concat (map value_bytes vs)) (counted (counted c 1) (sum_list (map value_items vs)))"
      using VArray c c1 by (intro array_loop_reads) auto
    moreover have "counted (counted c 1) (sum_list (map value_items vs)) = counted c (value_items (VArray vs))"
      using c by (subst counted_counted) simp_all
    ultimately have loop: "reads (loop_s (length vs) ?f (counted c 1)) (concat (map value_bytes vs)) (counted c (value_items (VArray vs)))"
      by simp
    have "length vs < 2 ^ 64" using c sum_items_ge [of vs] by simp
    then have "reads (sbind (read_array_len M) (\<lambda>len. sbind (slift (array_room (counted c 1) len)) (\<lambda>_. loop_s len ?f (counted c 1))))
        (array_head (length vs) @ concat (map value_bytes vs)) (counted c (value_items (VArray vs)))"
      by (intro cbor_reads [OF M] reads_bind_slift [OF room] loop)
    then show "reads (validate_item M ?f (counted c 1) (hd (value_bytes (VArray vs)))) (value_bytes (VArray vs))
        (counted c (value_items (VArray vs)))"
      by (simp add: validate_item_def item_first)
  qed (use VArray in \<open>simp_all add: item_first del: append_is_Nil_conv\<close>)
next
  case (VMap es)
  let ?f = "validate_unknown_value M (depth + 1)"
  have items: "value_items (VMap es) = Suc (sum_list (map entry_items es))"
    and bytes: "value_bytes (VMap es) = map_head (length es) @ concat (map entry_bytes es)"
    by (simp_all add: entry_items_def entry_bytes_def)
  show ?case
  proof (rule walks_dispatch)
    fix c :: u32
    assume "unat c + value_items (VMap es) \<le> 4096"
    then have c: "unat c + Suc (sum_list (map entry_items es)) \<le> 4096" by (simp only: items)
    then have c1: "unat (counted c 1) = unat c + 1" using unat_counted [of c 1] by simp
    have "walks ?f v" if "(k, v) \<in> set es" for k v
      using VMap.IH [OF that, of v "depth + 1"] VMap.prems that by fastforce
    then obtain last where "reads (loop_s (length es) (map_entry M ?f) (counted c 1, None)) (concat (map entry_bytes es))
        (counted (counted c 1) (sum_list (map entry_items es)), last)"
      using map_loop_reads [OF M, of es ?f "counted c 1" None] VMap.prems(2) c c1 by auto
    moreover have "counted (counted c 1) (sum_list (map entry_items es)) = counted c (value_items (VMap es))"
      using c by (simp add: counted_counted entry_items_def)
    ultimately have loop: "reads (loop_s (length es) (map_entry M ?f) (counted c 1, None)) (concat (map entry_bytes es))
        (counted c (value_items (VMap es)), last)" by simp
    have "length es \<le> 64" using VMap.prems by (simp add: MAX_APPLICATION_MAP_ENTRIES_def)
    then have "reads (sbind (read_map_len M) (\<lambda>len. sbind (slift (reject_if (len > MAX_APPLICATION_MAP_ENTRIES) InputTooLarge)) (\<lambda>_.
        sbind (loop_s len (map_entry M ?f) (counted c 1, None)) (\<lambda>(item_count, _). ret item_count))))
        (map_head (length es) @ concat (map entry_bytes es) @ []) (counted c (value_items (VMap es)))"
      by (intro cbor_reads [OF M] reads_bind_slift reads_bind [OF loop])
        (simp_all add: MAX_APPLICATION_MAP_ENTRIES_def reads_ret)
    then show "reads (validate_item M ?f (counted c 1) (hd (value_bytes (VMap es)))) (value_bytes (VMap es))
        (counted c (value_items (VMap es)))"
      unfolding bytes by (simp add: validate_item_def item_first)
  qed (use VMap in \<open>simp_all add: item_first del: append_is_Nil_conv\<close>)
qed (auto intro: leaf_walks [OF M])

section \<open>The walk accepts nothing else\<close>

text \<open>What a successful walk consumed and counted.\<close>

definition walked :: "nat \<Rightarrow> u32 \<Rightarrow> bytes \<Rightarrow> u32 \<Rightarrow> bool" where
  "walked depth c bs c' \<longleftrightarrow>
     (\<exists>v. value_wf v \<and> value_fits depth v \<and> bs = value_bytes v \<and> unat c' = unat c + value_items v \<and> unat c' \<le> 4096)"

lemma walkedI:
  "value_wf v \<Longrightarrow> value_fits depth v \<Longrightarrow> bs = value_bytes v \<Longrightarrow> unat c' = unat c + value_items v \<Longrightarrow> unat c' \<le> 4096
   \<Longrightarrow> walked depth c bs c'"
  by (auto simp: walked_def)

lemma array_loop_sound:
  assumes "\<And>c. sound (f c) (walked depth c)" and "unat c \<le> 4096"
  shows "sound (loop_s n f c) (\<lambda>bs c'. \<exists>vs. length vs = n \<and> (\<forall>v \<in> set vs. value_wf v \<and> value_fits depth v)
    \<and> bs = concat (map value_bytes vs) \<and> unat c' = unat c + sum_list (map value_items vs) \<and> unat c' \<le> 4096)"
  using assms(2)
proof (induction n arbitrary: c)
  case 0
  then show ?case by (auto intro: sound_ret)
next
  case (Suc n)
  show ?case unfolding loop_s.simps
  proof (rule sound_bind [OF assms(1)])
    fix a c'
    assume "walked depth c a c'"
    then obtain v where v: "value_wf v" "value_fits depth v" "a = value_bytes v" "unat c' = unat c + value_items v" "unat c' \<le> 4096"
      by (auto simp: walked_def)
    show "sound (loop_s n f c') (\<lambda>bs c''. \<exists>vs. length vs = Suc n \<and> (\<forall>v \<in> set vs. value_wf v \<and> value_fits depth v)
        \<and> a @ bs = concat (map value_bytes vs) \<and> unat c'' = unat c + sum_list (map value_items vs) \<and> unat c'' \<le> 4096)"
    proof (rule sound_conseq [OF Suc.IH [OF v(5)]], elim exE conjE)
      fix bs c'' vs
      assume "length vs = n" "\<forall>v \<in> set vs. value_wf v \<and> value_fits depth v" "bs = concat (map value_bytes vs)"
        "unat c'' = unat c' + sum_list (map value_items vs)" "unat c'' \<le> 4096"
      with v show "\<exists>vs. length vs = Suc n \<and> (\<forall>v \<in> set vs. value_wf v \<and> value_fits depth v)
          \<and> a @ bs = concat (map value_bytes vs) \<and> unat c'' = unat c + sum_list (map value_items vs) \<and> unat c'' \<le> 4096"
        by (intro exI [of _ "v # vs"]) auto
    qed
  qed
qed

definition entries_wf :: "nat \<Rightarrow> u64 option \<Rightarrow> (u64 \<times> cbor_value) list \<Rightarrow> bool" where
  "entries_wf depth prev es \<longleftrightarrow>
     (\<forall>(k, v) \<in> set es. value_wf v \<and> value_fits depth v) \<and> sorted_wrt (<) (map fst es)
   \<and> (\<forall>p. prev = Some p \<longrightarrow> (\<forall>k \<in> fst ` set es. p < k))"

lemma entries_wf_Cons:
  "value_wf v \<Longrightarrow> value_fits depth v \<Longrightarrow> (\<forall>p. prev = Some p \<longrightarrow> p < k) \<Longrightarrow> entries_wf depth (Some k) es \<Longrightarrow>
   entries_wf depth prev ((k, v) # es)"
  by (auto simp: entries_wf_def intro: order_less_trans)

lemma map_entry_sound:
  assumes M: "minicbor_decodes M" and f: "\<And>c. sound (f c) (walked depth c)"
  shows "sound (map_entry M f (c, prev)) (\<lambda>bs (c', last). \<exists>k v. last = Some k \<and> (\<forall>p. prev = Some p \<longrightarrow> p < k)
    \<and> value_wf v \<and> value_fits depth v \<and> bs = entry_bytes (k, v) \<and> unat c' = unat c + entry_items (k, v) \<and> unat c' \<le> 4096)"
  unfolding map_entry_def prod.case
  by (intro cbor_sounds [OF M] sound_bind [OF f] sound_intros)
    (auto simp: walked_def count_item_iff unat_counted entry_bytes_def entry_items_def split: option.splits)

lemma map_loop_sound:
  assumes M: "minicbor_decodes M" and f: "\<And>c. sound (f c) (walked depth c)" and "unat c \<le> 4096"
  shows "sound (loop_s n (map_entry M f) (c, prev)) (\<lambda>bs (c', last). \<exists>es. length es = n \<and> entries_wf depth prev es
    \<and> bs = concat (map entry_bytes es) \<and> unat c' = unat c + sum_list (map entry_items es) \<and> unat c' \<le> 4096)"
  using assms(3)
proof (induction n arbitrary: c prev)
  case 0
  then show ?case by (auto simp: entries_wf_def intro: sound_ret)
next
  case (Suc n)
  show ?case unfolding loop_s.simps
  proof (rule sound_bind [OF map_entry_sound [OF M f]], clarify)
    fix a k v and c' :: u32
    assume e: "\<forall>p. prev = Some p \<longrightarrow> p < k" "value_wf v" "value_fits depth v" "unat c' = unat c + entry_items (k, v)" "unat c' \<le> 4096"
    show "sound (loop_s n (map_entry M f) (c', Some k)) (\<lambda>bs (c'', last). \<exists>es. length es = Suc n \<and> entries_wf depth prev es
        \<and> entry_bytes (k, v) @ bs = concat (map entry_bytes es) \<and> unat c'' = unat c + sum_list (map entry_items es) \<and> unat c'' \<le> 4096)"
    proof (rule sound_conseq [OF Suc.IH [OF e(5)]], clarify)
      fix c'' :: u32 and last :: "u64 option" and es :: "(u64 \<times> cbor_value) list"
      assume "entries_wf depth (Some k) es" "unat c'' = unat c' + sum_list (map entry_items es)" "unat c'' \<le> 4096" "n = length es"
      with e entries_wf_Cons [OF e(2,3,1)] show "\<exists>es'. length es' = Suc (length es) \<and> entries_wf depth prev es'
          \<and> entry_bytes (k, v) @ concat (map entry_bytes es) = concat (map entry_bytes es')
          \<and> unat c'' = unat c + sum_list (map entry_items es') \<and> unat c'' \<le> 4096"
        by (intro exI [of _ "(k, v) # es"]) simp
    qed
  qed
qed

lemma walked_array:
  "\<forall>v \<in> set vs. value_wf v \<and> value_fits (depth + 1) v \<Longrightarrow> depth \<le> MAX_APPLICATION_CBOR_DEPTH \<Longrightarrow>
   unat c' = unat c + Suc (sum_list (map value_items vs)) \<Longrightarrow> unat c' \<le> 4096 \<Longrightarrow>
   walked depth c (array_head (length vs) @ concat (map value_bytes vs)) c'"
  by (rule walkedI [of "VArray vs"]) auto

lemma walked_map:
  assumes "entries_wf (depth + 1) None es" and "length es \<le> MAX_APPLICATION_MAP_ENTRIES" and "depth \<le> MAX_APPLICATION_CBOR_DEPTH"
    and "unat c' = unat c + Suc (sum_list (map entry_items es))" and "unat c' \<le> 4096"
  shows "walked depth c (map_head (length es) @ concat (map entry_bytes es)) c'"
  using assms by (intro walkedI [of "VMap es"]) (auto simp: entries_wf_def entry_bytes_def entry_items_def)

lemma validate_item_sound:
  assumes M: "minicbor_decodes M" and f: "\<And>c. sound (f c) (walked (depth + 1) c)"
    and depth: "depth \<le> MAX_APPLICATION_CBOR_DEPTH" and c: "unat c < 4096" and first: "first \<noteq> 0xf6"
  shows "sound (validate_item M f (counted c 1) first) (walked depth c)"
proof -
  have c1: "unat (counted c 1) = unat c + 1" "unat (counted c 1) \<le> 4096" using c unat_counted [of c 1] by simp_all
  have arr: "sound (loop_s n f (counted c 1)) (\<lambda>bs. walked depth c (array_head n @ bs))" for n
    by (rule sound_conseq [OF array_loop_sound [OF f c1(2)]])
      (elim exE conjE, use depth c1 in \<open>auto intro: walked_array\<close>)
  have entries: "sound (sbind (loop_s n (map_entry M f) (counted c 1, None)) (\<lambda>(item_count, _). ret item_count))
      (\<lambda>bs. walked depth c (map_head n @ bs))" if "n \<le> MAX_APPLICATION_MAP_ENTRIES" for n
    by (rule sound_bind [OF map_loop_sound [OF M f c1(2)]], clarify, rule sound_ret)
      (use depth c1 that in \<open>auto intro: walked_map\<close>)
  show ?thesis
    unfolding validate_item_def
    by (intro cbor_sounds [OF M] arr entries sound_intros)
      (use depth c1 first in \<open>auto intro: walkedI [of "VUint _"] walkedI [of "VBytes _"] walkedI [of "VText _"] walkedI [of "VBool _"]\<close>)
qed

lemma validate_peeked_sound:
  assumes M: "minicbor_decodes M" and f: "\<And>c. sound (f c) (walked (depth + 1) c)"
    and depth: "depth \<le> MAX_APPLICATION_CBOR_DEPTH" and c: "unat c < 4096"
  shows "sound (sbind peek (validate_item M f (counted c 1))) (walked depth c)"
  unfolding sound_def
proof (intro allI impI)
  fix r c' r'
  assume ok: "reader_ok r" and run: "sbind peek (validate_item M f (counted c 1)) r = Ok (c', r')"
  then obtain b rest where r: "unread r = b # rest" and item: "validate_item M f (counted c 1) b r = Ok (c', r')"
    by (cases "unread r") (auto simp: sbind_Ok_iff peek_Ok_iff)
  show "\<exists>bs. unread r = bs @ unread r' \<and> r' = advance (length bs) r \<and> walked depth c bs c'"
  proof (cases "b = 0xf6")
    case False
    from validate_item_sound [OF M f depth c False] ok item show ?thesis by (fastforce simp: sound_def)
  next
    case True
    then have "sbind (decode_with (md_null M)) (\<lambda>_. ret (counted c 1)) r = Ok (c', r')"
      using item by (simp add: validate_item_def drop_bit_eq_div)
    then have "c' = counted c 1" "r' = advance (length null_item) r"
      using simple_decoders(4) [OF M ok r] True by (auto simp: sbind_Ok_iff ret_apply null_item_def)
    moreover have "unread (advance (length null_item) r) = rest"
      using r True by (intro unread_advance) (simp add: null_item_def)
    moreover have "walked depth c null_item (counted c 1)"
      using depth c by (intro walkedI [of VNull]) (simp_all add: unat_counted)
    ultimately show ?thesis using r True by (auto simp: null_item_def)
  qed
qed

lemma value_sound:
  assumes M: "minicbor_decodes M"
  shows "sound (validate_unknown_value M depth c) (walked depth c)"
proof (induction "Suc MAX_APPLICATION_CBOR_DEPTH - depth" arbitrary: depth c rule: less_induct)
  case less
  show ?case
  proof (cases "depth > MAX_APPLICATION_CBOR_DEPTH")
    case True
    then show ?thesis by (simp add: validate_unknown_value.simps sound_def)
  next
    case False
    then have "sound (validate_unknown_value M (depth + 1) c) (walked (depth + 1) c)" for c
      by (intro less) simp
    then show ?thesis
      unfolding validate_unknown_value.simps [of M depth c] if_not_P [OF False]
      using False by (intro sound_intros) (auto simp: count_item_iff intro: validate_peeked_sound [OF M, simplified])
  qed
qed

text \<open>A body of unknown kind: a map within the limits, at the nesting level of an event body.\<close>

definition unknown_body :: "bytes \<Rightarrow> bool" where
  "unknown_body bs \<longleftrightarrow>
     (\<exists>es. value_wf (VMap es) \<and> value_fits 2 (VMap es) \<and> value_items (VMap es) \<le> 4096 \<and> bs = value_bytes (VMap es))"

lemma value_bytes_nonempty: "value_bytes v \<noteq> []"
  by (cases v) (auto simp: item_first bool_item_def null_item_def simp del: append_is_Nil_conv)

lemma major_5_map: "drop_bit 5 (hd (value_bytes v)) = 5 \<Longrightarrow> \<exists>es. v = VMap es"
proof (cases v)
  case (VBool b)
  then show "drop_bit 5 (hd (value_bytes v)) = 5 \<Longrightarrow> ?thesis"
    by (cases b) (simp_all add: bool_item_def drop_bit_eq_div)
next
  case VNull
  then show "drop_bit 5 (hd (value_bytes v)) = 5 \<Longrightarrow> ?thesis" by (simp add: null_item_def drop_bit_eq_div)
qed (simp_all add: item_first)

lemma unknown_body_reads:
  assumes M: "minicbor_decodes M" and "unknown_body bs"
  shows "reads (validate_unknown_body M) bs ()"
proof -
  obtain es where es: "value_wf (VMap es)" "value_fits 2 (VMap es)" "value_items (VMap es) \<le> 4096" "bs = value_bytes (VMap es)"
    using assms(2) by (auto simp: unknown_body_def)
  have "reads (validate_unknown_value M 2 0) bs (counted 0 (value_items (VMap es)))"
    using value_walks [OF M es(2,1)] es(3,4) unfolding walks_def by auto
  then have "reads (sbind (validate_unknown_value M 2 0) (\<lambda>_. ret ())) (bs @ []) ()"
    by (rule reads_bind) (rule reads_ret)
  moreover have "drop_bit 5 (hd bs) = 5" unfolding es(4) value_bytes.simps by (rule item_first)
  ultimately show ?thesis
    unfolding validate_unknown_body_def using value_bytes_nonempty [of "VMap es"] es(4)
    by (intro reads_peek_hd) simp_all
qed

lemma map_is_unknown_body:
  "drop_bit 5 (hd (value_bytes v)) = 5 \<Longrightarrow> value_wf v \<Longrightarrow> value_fits 2 v \<Longrightarrow> value_items v \<le> 4096 \<Longrightarrow> unknown_body (value_bytes v)"
  using major_5_map [of v] unfolding unknown_body_def by blast

lemma unknown_body_sound:
  assumes M: "minicbor_decodes M"
  shows "sound (validate_unknown_body M) (\<lambda>bs _. unknown_body bs)"
  unfolding validate_unknown_body_def
proof (rule sound_peek, goal_cases)
  case (1 b)
  show ?case
    by (intro sound_bind [OF value_sound [OF M]] sound_intros)
      (auto simp: walked_def intro: map_is_unknown_body)
next
  case (2 b)
  show ?case
    by (intro sound_bind [OF value_sound [OF M]] sound_intros) (auto simp: walked_def value_bytes_nonempty)
qed

text \<open>
  C16: the validator of bodies of unknown kinds agrees with a reference. It accepts a byte string as a whole
  body exactly when the string is the canonical encoding of a CBOR map, nested at most 16 levels deep counted from
  the event, with at most 4096 items and keys, in which every map has at most 64 entries with strictly increasing integer
  keys and every text is valid UTF-8 of at most 256 KiB.
\<close>

theorem unknown_body_exact:
  assumes M: "minicbor_decodes M" and len: "length bs < 2 ^ 64"
  shows "parse_all (validate_unknown_body M) bs = Ok () \<longleftrightarrow>
    (\<exists>es. value_wf (VMap es) \<and> value_fits 2 (VMap es) \<and> value_items (VMap es) \<le> 4096 \<and> bs = value_bytes (VMap es))"
proof
  assume run: "parse_all (validate_unknown_body M) bs = Ok ()"
  then obtain r where p: "validate_unknown_body M (reader_new bs) = Ok ((), r)" and fin: "reader_is_finished r"
    by (auto simp: parse_all_def elim!: monad_elims split: if_splits prod.splits)
  from unknown_body_sound [OF M] reader_ok_new [OF len] p obtain cs where
    cs: "unread (reader_new bs) = cs @ unread r" "r = advance (length cs) (reader_new bs)" "unknown_body cs"
    by (rule soundD)
  from fin cs(2) have "unread r = []" by (simp add: reader_is_finished_def unread_def)
  with cs show "\<exists>es. value_wf (VMap es) \<and> value_fits 2 (VMap es) \<and> value_items (VMap es) \<le> 4096 \<and> bs = value_bytes (VMap es)"
    by (simp add: unknown_body_def)
next
  assume "\<exists>es. value_wf (VMap es) \<and> value_fits 2 (VMap es) \<and> value_items (VMap es) \<le> 4096 \<and> bs = value_bytes (VMap es)"
  then have "reads (validate_unknown_body M) bs ()" by (intro unknown_body_reads [OF M]) (simp only: unknown_body_def)
  then have "validate_unknown_body M (reader_new bs) = Ok ((), advance (length bs) (reader_new bs))"
    using len by (intro readsD [where tail = "[]"]) simp_all
  then show "parse_all (validate_unknown_body M) bs = Ok ()"
    by (simp add: parse_all_def reader_is_finished_def advance_def reader_new_def)
qed

theorem unknown_body_exact_witness:
  "minicbor_decodes example_minicbor
   \<and> parse_all (validate_unknown_body example_minicbor) (value_bytes (VMap [(1, VArray [VNull, VBool True]), (7, VUint 300)])) = Ok ()"
proof -
  let ?es = "[(1, VArray [VNull, VBool True]), (7, VUint 300)]"
  have "value_wf (VMap ?es)" "value_fits 2 (VMap ?es)" "value_items (VMap ?es) \<le> 4096" "length (value_bytes (VMap ?es)) < 2 ^ 64"
    by (simp_all add: MAX_APPLICATION_MAP_ENTRIES_def MAX_APPLICATION_CBOR_DEPTH_def item_defs cbor_head_def)
  then show ?thesis using unknown_body_exact [OF example_decodes, of "value_bytes (VMap ?es)"] example_decodes by blast
qed

end
