(* ===== verification/Application_Format.thy ===== *)
theory Application_Format
  imports Application_Unknown
begin

text \<open>
  The canonical form of an application event as a whole: what \<^verbatim>\<open>encode_event\<close> writes and what \<^verbatim>\<open>decode_event\<close>
  accepts, for the supported kinds, for unknown kinds and for other versions; and the operations that
  turn one format into the other.
\<close>

section \<open>What the encoder writes\<close>

lemma emit_all_writes:
  "(\<And>x. x \<in> set xs \<Longrightarrow> writes (w x) (enc x)) \<Longrightarrow> writes (emit_all w xs) (concat (map enc xs))"
  by (induction xs) (auto intro: writes_ret writes_bind)

lemma encode_cbor_attachment_writes:
  assumes M: "minicbor_encodes M"
  shows "writes (encode_cbor_attachment M a) (attachment_item a)"
  unfolding encode_cbor_attachment_def attachment_item_def thumbnail_bytes_def
  by (intro format_writes [OF M]) simp_all

lemma encode_event_body_writes:
  assumes M: "minicbor_encodes M" and wf: "body_wf kind b"
  shows "writes (encode_event_body M b) (body_item b)"
proof (cases b)
  case (MessageCreate i c t r q as)
  have as: "length as < 2 ^ LENGTH(64)" "(c = 0) = (as = [])" using wf MessageCreate by simp_all
  have list: "writes (emit_all (encode_cbor_attachment M) as) (concat (map attachment_item as))"
    by (intro emit_all_writes encode_cbor_attachment_writes [OF M])
  have tail: "writes (if as \<noteq> [] then sbind (encode_key M 5) (\<lambda>_.
      sbind (slift (ok_or (try_from_usize (length as)) InputTooLarge)) (\<lambda>n. sbind (emit (mc_array M n)) (\<lambda>_.
      emit_all (encode_cbor_attachment M) as))) else ret ()) (attachment_list_item as)"
    using as by (auto simp: attachment_list_item_def intro!: format_writes [OF M] list writes_intros)
  show ?thesis
    unfolding MessageCreate encode_event_body_def event_body.case body_item.simps
    by (intro format_writes [OF M] tail writes_bind_slift) (use as in simp_all)
next
  case (Receipt ids)
  then have len: "length ids < 2 ^ LENGTH(64)" using wf by (simp add: MAX_REFERENCES_def)
  have list: "writes (emit_all (\<lambda>i. emit (mc_bytes M i)) ids) (concat (map bytes_item ids))"
    by (intro emit_all_writes encoders [OF M])
  show ?thesis
    unfolding Receipt encode_event_body_def event_body.case body_item.simps
    by (intro format_writes [OF M] list writes_intros) (use len in \<open>auto simp: unat_of_nat\<close>)
next
  case (MessageEdit i n t)
  show ?thesis unfolding MessageEdit encode_event_body_def event_body.case body_item.simps
    by (intro format_writes [OF M]) simp_all
next
  case (MessageDelete i)
  show ?thesis unfolding MessageDelete encode_event_body_def event_body.case body_item.simps
    by (intro format_writes [OF M]) simp_all
next
  case (ReactionSet i e)
  show ?thesis unfolding ReactionSet encode_event_body_def event_body.case body_item.simps
    by (intro format_writes [OF M]) simp_all
next
  case (PinSet i p)
  show ?thesis unfolding PinSet encode_event_body_def event_body.case body_item.simps
    by (intro format_writes [OF M]) simp_all
next
  case (TypingSet t e)
  show ?thesis unfolding TypingSet encode_event_body_def event_body.case body_item.simps
    by (intro format_writes [OF M]) simp_all
qed (use wf in simp)

definition fields_item :: "application_event \<Rightarrow> bytes" where
  "fields_item e =
     uint_item 1 @ bytes_item (ae_event_id e) @ uint_item 2 @ bytes_item (ae_conversation_id e)
     @ uint_item 3 @ uint_item (ucast (ae_kind e)) @ uint_item 4 @ bytes_item (ae_sender_user_id e)
     @ uint_item 5 @ bytes_item (ae_sender_device_id e) @ uint_item 6 @ uint_item (ae_sender_counter e)
     @ uint_item 7 @ uint_item (ae_created_ms e) @ uint_item 8 @ array_head (length (ae_references e))
     @ concat (map bytes_item (ae_references e)) @ uint_item 9"

definition event_item :: "application_event \<Rightarrow> bytes" where
  "event_item e = map_head 10 @ uint_item 0 @ uint_item (ucast (ae_version e)) @ fields_item e @ body_item (ae_body e)"

lemma encode_event_eq:
  assumes M: "minicbor_encodes M" and wf: "event_wf e"
  shows "encode_event M e =
    (if length (event_item e) \<le> APPLICATION_MAX_IO_BYTES then Ok (event_item e) else Err InputTooLarge)"
proof -
  have refs: "length (ae_references e) < 2 ^ LENGTH(64)"
    using wf by (simp add: event_wf_def event_fields_wf_def MAX_REFERENCES_def)
  have list: "writes (emit_all (\<lambda>i. emit (mc_bytes M i)) (ae_references e)) (concat (map bytes_item (ae_references e)))"
    by (intro emit_all_writes encoders [OF M])
  have body: "writes (encode_event_body M (ae_body e)) (body_item (ae_body e))"
    using wf by (intro encode_event_body_writes [OF M, of "ae_kind e"]) (simp add: event_wf_def)
  have "writes (event_writer M e) (event_item e)"
    unfolding event_writer_def event_item_def fields_item_def append_assoc
    by (intro format_writes [OF M] writes_bind [OF list] body writes_bind_slift) (use refs in \<open>auto simp: unat_of_nat\<close>)
  then show ?thesis
    by (simp add: encode_event_def writes_def reject_if_def APPLICATION_MAX_IO_BYTES_def MAX_CBOR_BYTES_def MAX_INPUT_BYTES_def)
qed

section \<open>What the decoder accepts\<close>

definition body_ok :: "u16 \<Rightarrow> bytes \<Rightarrow> event_body \<Rightarrow> bool" where
  "body_ok kind bs body \<longleftrightarrow>
     (if is_supported_kind kind then body_wf kind body \<and> bs = body_item body else body = Unsupported \<and> unknown_body bs)"

abbreviation any_body :: "minicbor \<Rightarrow> u16 \<Rightarrow> event_body parser" where
  "any_body M kind \<equiv>
     (if is_supported_kind kind then decode_cbor_body M kind else sbind (validate_unknown_body M) (\<lambda>_. ret Unsupported))"

lemma any_body_reads:
  assumes M: "minicbor_decodes M" and ok: "body_ok kind bs body"
  shows "reads (any_body M kind) bs body"
proof (cases "is_supported_kind kind")
  case True
  then show ?thesis using codec.parse_enc [OF decode_cbor_body_codec [OF M True], of body] ok by (simp add: body_ok_def)
next
  case False
  then have "reads (sbind (validate_unknown_body M) (\<lambda>_. ret Unsupported)) (bs @ []) Unsupported"
    using ok by (intro reads_bind [OF unknown_body_reads [OF M]] reads_ret) (simp add: body_ok_def)
  then show ?thesis using False ok by (simp add: body_ok_def)
qed

lemma any_body_sound:
  assumes M: "minicbor_decodes M"
  shows "sound (any_body M kind) (body_ok kind)"
proof (cases "is_supported_kind kind")
  case True
  then show ?thesis
    using sound_conseq [OF codec.parse_sound [OF decode_cbor_body_codec [OF M True]]] by (simp add: body_ok_def)
next
  case False
  show ?thesis unfolding if_not_P [OF False]
    by (rule sound_bind [OF unknown_body_sound [OF M]], rule sound_ret) (use False in \<open>simp add: body_ok_def\<close>)
qed

lemma cbor_event_fields_reads:
  assumes M: "minicbor_decodes M" and wf: "event_fields_wf e" and body: "body_ok (ae_kind e) bs (ae_body e)"
  shows "reads_to_end (cbor_event_fields M (ae_version e)) (fields_item e @ bs) e"
proof -
  note rep = codec.repeat_codec [OF read_exact_bytes_codec [OF M]]
  note body = reads_to_end_bind [OF any_body_reads [OF M body]]
  show ?thesis
    unfolding cbor_event_fields_def fields_item_def append_assoc
    by (rule reads_to_end_last, simp only: append_assoc,
        intro cbor_ends [OF M] reads_to_end_narrowed codec.bind_reads_to_end [OF rep] body ends_intros)
      (use wf in \<open>auto simp: event_fields_wf_def has_duplicates_iff not_less MAX_REFERENCES_def\<close>)
qed

lemma cbor_event_fields_sound:
  assumes M: "minicbor_decodes M"
  shows "sound_to_end (cbor_event_fields M v) (\<lambda>bs e. v = APPLICATION_VERSION \<longrightarrow>
    event_fields_wf e \<and> ae_version e = v \<and> (\<exists>b. bs = fields_item e @ b \<and> body_ok (ae_kind e) b (ae_body e)))"
proof -
  note rep = codec.repeat_codec [OF read_exact_bytes_codec [OF M]]
  show ?thesis
    unfolding cbor_event_fields_def fields_item_def
    by (intro cbor_sound_ends [OF M] codec.bind_sound_to_end [OF rep] sound_to_end_bind [OF any_body_sound [OF M]] sound_end_intros)
      (auto simp: event_fields_wf_def has_duplicates_iff not_less narrowed)
qed

definition version_item :: "nat \<Rightarrow> u8 \<Rightarrow> bytes" where
  "version_item n v = map_head n @ uint_item 0 @ uint_item (ucast v)"

text \<open>The results of the decoder and what they say of the input.\<close>

fun decodes_to :: "bytes \<Rightarrow> application_event option \<times> u8 option \<Rightarrow> bool" where
  "decodes_to bs (Some e, None) \<longleftrightarrow>
     event_fields_wf e \<and> (\<exists>b. bs = version_item 10 APPLICATION_VERSION @ fields_item e @ b \<and> body_ok (ae_kind e) b (ae_body e))"
| "decodes_to bs (None, Some v) \<longleftrightarrow>
     v \<noteq> APPLICATION_VERSION \<and> (\<exists>n rest. n < 2 ^ 64 \<and> bs = version_item n v @ rest)"
| "decodes_to bs _ \<longleftrightarrow> False"

lemma sound_to_end_then_ret:
  "sound_to_end p Q \<Longrightarrow> (\<And>bs x. Q bs x \<Longrightarrow> R bs (h x)) \<Longrightarrow> sound_to_end (sbind p (\<lambda>x. ret (h x))) R"
  by (fastforce simp: sound_to_end_def sbind_Ok_iff ret_apply)

lemma reads_to_end_then_ret: "reads_to_end p bs x \<Longrightarrow> reads_to_end (sbind p (\<lambda>x. ret (h x))) bs (h x)"
  by (simp add: reads_to_end_def sbind_Ok ret_apply)

lemma cbor_event_sound:
  assumes M: "minicbor_decodes M"
  shows "sound_to_end (cbor_event M) decodes_to"
  unfolding cbor_event_def
  by (intro cbor_sound_ends [OF M] sound_to_end_then_ret [OF cbor_event_fields_sound [OF M]] sound_end_intros)
    (auto simp: narrowed version_item_def)

lemma cbor_event_reads:
  assumes M: "minicbor_decodes M" and wf: "event_fields_wf e" and body: "body_ok (ae_kind e) b (ae_body e)"
  shows "reads_to_end (cbor_event M) (version_item 10 APPLICATION_VERSION @ fields_item e @ b) (Some e, None)"
proof -
  have v: "ae_version e = APPLICATION_VERSION" using wf by (simp add: event_fields_wf_def)
  note rest = reads_to_end_then_ret [OF cbor_event_fields_reads [OF M wf body], of "\<lambda>e. (Some e, None)", unfolded v]
  show ?thesis
    unfolding cbor_event_def version_item_def append_assoc
    by (intro cbor_ends [OF M] reads_to_end_narrowed reads_to_end_if [of "_ \<noteq> _"] rest ends_intros) simp_all
qed

lemma cbor_event_other_version:
  assumes M: "minicbor_decodes M" and v: "v \<noteq> APPLICATION_VERSION" and n: "n < 2 ^ 64"
  shows "reads (cbor_event M) (version_item n v) (None, Some v)"
  unfolding cbor_event_def version_item_def
  by (rule reads_last, simp only: append_assoc, intro cbor_reads [OF M] reads_narrowed reads_intros) (use v n in simp_all)

lemma decode_event_iff:
  assumes M: "minicbor_decodes M"
  shows "decode_event M input = Ok res \<longleftrightarrow>
    input \<noteq> [] \<and> length input \<le> APPLICATION_MAX_IO_BYTES \<and> decodes_to input res"
proof (cases "input \<noteq> [] \<and> length input \<le> APPLICATION_MAX_IO_BYTES")
  case False
  then show ?thesis by (auto simp: decode_event_def rbind_Ok_iff)
next
  case True
  then have len: "length input < 2 ^ 64" by (simp add: APPLICATION_MAX_IO_BYTES_def)
  have "run_parser (cbor_event M) input = Ok res \<longleftrightarrow> decodes_to input res"
  proof
    assume "run_parser (cbor_event M) input = Ok res"
    then obtain r where "cbor_event M (reader_new input) = Ok (res, r)" by (auto simp: run_parser_def elim!: monad_elims)
    then show "decodes_to input res"
      using cbor_event_sound [OF M] reader_ok_new [OF len] unfolding sound_to_end_def by fastforce
  next
    assume to: "decodes_to input res"
    then consider e b where "res = (Some e, None)" "event_fields_wf e"
        "input = version_item 10 APPLICATION_VERSION @ fields_item e @ b" "body_ok (ae_kind e) b (ae_body e)"
      | v n rest where "res = (None, Some v)" "v \<noteq> APPLICATION_VERSION" "n < 2 ^ 64" "input = version_item n v @ rest"
      by (cases "(input, res)" rule: decodes_to.cases) auto
    then show "run_parser (cbor_event M) input = Ok res"
    proof cases
      case 1
      then show ?thesis
        using reads_to_end_new [OF cbor_event_reads [OF M 1(2,4)]] len by (simp add: run_parser_def)
    next
      case 2
      then show ?thesis
        using readsD [OF cbor_event_other_version [OF M 2(2,3)], of "reader_new input" rest] len by (simp add: run_parser_def)
    qed
  qed
  then show ?thesis using True by (simp add: decode_event_def)
qed

lemma decode_supported_iff:
  assumes M: "minicbor_encodes M" "minicbor_decodes M" and kind: "is_supported_kind (ae_kind e)"
  shows "decode_event M bs = Ok (Some e, None) \<longleftrightarrow> event_wf e \<and> encode_event M e = Ok bs"
proof -
  have "decode_event M bs = Ok (Some e, None) \<longleftrightarrow>
      bs \<noteq> [] \<and> length bs \<le> APPLICATION_MAX_IO_BYTES \<and> event_wf e \<and> bs = event_item e"
    using kind by (auto simp: decode_event_iff [OF M(2)] body_ok_def event_wf_def event_item_def version_item_def
        event_fields_wf_def)
  moreover have "event_item e \<noteq> []" by (simp add: event_item_def map_head_def cbor_head_def)
  ultimately show ?thesis by (auto simp: encode_event_eq [OF M(1)] split: if_splits)
qed

text \<open>
  C15: the CBOR form of a supported event is unique. The decoder returns an event of a supported kind for a byte string
  exactly when the event is well-formed and the encoder produces that very byte string for it. So decoding
  inverts encoding, and no event has a second accepted encoding.
\<close>

theorem application_event_exact:
  assumes "minicbor_encodes M" and "minicbor_decodes M" and "is_supported_kind (ae_kind e)"
  shows "decode_event M bs = Ok (Some e, None) \<longleftrightarrow> event_wf e \<and> encode_event M e = Ok bs"
  by (rule decode_supported_iff [OF assms])

definition sample_event :: application_event where
  "sample_event = \<lparr>ae_version = 1, ae_event_id = replicate 16 1, ae_conversation_id = replicate 32 2, ae_kind = 2,
     ae_sender_user_id = replicate 16 3, ae_sender_device_id = replicate 16 4, ae_sender_counter = 5, ae_created_ms = 6,
     ae_references = [replicate 16 7], ae_body = MessageEdit (replicate 16 8) 1 [0x68, 0x69]\<rparr>"

lemma sample_event_wf: "event_wf sample_event" "is_supported_kind (ae_kind sample_event)"
  by (simp_all add: sample_event_def event_wf_def event_fields_wf_def APPLICATION_VERSION_def MAX_REFERENCES_def
      event_kind_defs is_supported_kind_def text_ok_def utf8_valid_def char_count_def MAX_TEXT_BYTES_def MAX_TEXT_SCALARS_def)

lemma sample_event_encodes: "encode_event example_minicbor sample_event = Ok (event_item sample_event)"
proof -
  have "length (event_item sample_event) \<le> APPLICATION_MAX_IO_BYTES"
    by (simp add: sample_event_def event_item_def fields_item_def APPLICATION_MAX_IO_BYTES_def item_defs cbor_head_def)
  then show ?thesis by (simp add: encode_event_eq [OF example_encodes sample_event_wf(1)])
qed

theorem application_event_exact_witness:
  "is_supported_kind (ae_kind sample_event) \<and> event_wf sample_event
   \<and> decode_event example_minicbor (event_item sample_event) = Ok (Some sample_event, None)"
  using application_event_exact [OF example_encodes example_decodes sample_event_wf(2)] sample_event_wf sample_event_encodes
  by blast

end
