(* ===== verification/Recovery_Secret.thy ===== *)
theory Recovery_Secret
  imports Cbor Device_Signatures Example_Primitives
begin

text \<open>
  The recovery secret of \<^verbatim>\<open>enrollment.rs\<close>: 32 bytes of entropy and a two-byte checksum, written in
  Crockford's base 32 in groups of five. The encoder and the decoder keep a \<^verbatim>\<open>u32\<close> accumulator whose high bits
  are shifted out; the proofs read both as a bit stream, of which only the lowest bits of the accumulator are still
  pending. Text is its UTF-8 bytes. The characters the normalization looks at are ASCII, so its filter and its
  conversion to upper case act on bytes.
\<close>

section \<open>Base 32\<close>

definition CROCKFORD_ALPHABET :: bytes where
  "CROCKFORD_ALPHABET = ascii ''0123456789ABCDEFGHJKMNPQRSTVWXYZ''"

definition RECOVERY_ENTROPY_BYTES :: nat where "RECOVERY_ENTROPY_BYTES = 32"
definition RECOVERY_CHECKSUM_BYTES :: nat where "RECOVERY_CHECKSUM_BYTES = 2"
definition RECOVERY_PAYLOAD_BYTES :: nat where
  "RECOVERY_PAYLOAD_BYTES = RECOVERY_ENTROPY_BYTES + RECOVERY_CHECKSUM_BYTES"

lemmas recovery_sizes = RECOVERY_ENTROPY_BYTES_def RECOVERY_CHECKSUM_BYTES_def RECOVERY_PAYLOAD_BYTES_def

definition crockford_symbol :: "u32 \<Rightarrow> byte" where
  "crockford_symbol v = CROCKFORD_ALPHABET ! unat (v AND 0x1f)"

text \<open>\<^verbatim>\<open>while bits >= 5\<close>\<close>

fun crockford_drain :: "u32 \<Rightarrow> nat \<Rightarrow> bytes \<Rightarrow> nat \<times> bytes" where
  "crockford_drain accumulator bits output =
     (if bits \<ge> 5
      then crockford_drain accumulator (bits - 5) (output @ [crockford_symbol (drop_bit (bits - 5) accumulator)])
      else (bits, output))"

declare crockford_drain.simps [simp del]

fun crockford_encode_loop :: "u32 \<Rightarrow> nat \<Rightarrow> bytes \<Rightarrow> bytes \<Rightarrow> u32 \<times> nat \<times> bytes" where
  "crockford_encode_loop accumulator bits output [] = (accumulator, bits, output)"
| "crockford_encode_loop accumulator bits output (b # bs) =
     (let accumulator = push_bit 8 accumulator OR ucast b;
          (bits, output) = crockford_drain accumulator (bits + 8) output
      in crockford_encode_loop accumulator bits output bs)"

definition crockford_encode :: "bytes \<Rightarrow> bytes" where
  "crockford_encode input =
     (let (accumulator, bits, output) = crockford_encode_loop 0 0 [] input in
      if bits > 0 then output @ [crockford_symbol (push_bit (5 - bits) accumulator)] else output)"

definition crockford_value :: "byte \<Rightarrow> u8 option" where
  "crockford_value b =
     (if b = 0x30 \<or> b = 0x4f then Some 0
      else if b = 0x31 \<or> b = 0x49 \<or> b = 0x4c then Some 1
      else if 0x32 \<le> b \<and> b \<le> 0x39 then Some (b - 0x30)
      else if 0x41 \<le> b \<and> b \<le> 0x48 then Some (b - 0x41 + 10)
      else if 0x4a \<le> b \<and> b \<le> 0x4b then Some (b - 0x4a + 18)
      else if 0x4d \<le> b \<and> b \<le> 0x4e then Some (b - 0x4d + 20)
      else if 0x50 \<le> b \<and> b \<le> 0x54 then Some (b - 0x50 + 22)
      else if 0x56 \<le> b \<and> b \<le> 0x5a then Some (b - 0x56 + 27)
      else None)"

fun crockford_decode_loop :: "u32 \<Rightarrow> nat \<Rightarrow> bytes \<Rightarrow> bytes \<Rightarrow> (u32 \<times> nat \<times> bytes) cresult" where
  "crockford_decode_loop accumulator bits output [] = Ok (accumulator, bits, output)"
| "crockford_decode_loop accumulator bits output (b # bs) =
     rbind (ok_or (crockford_value b) MalformedInput) (\<lambda>value.
     let accumulator = push_bit 5 accumulator OR ucast value;
         bits = bits + 5
     in if bits \<ge> 8
        then rbind (ok_or (try_from_usize (unat (drop_bit (bits - 8) accumulator AND 0xff))) InputTooLarge) (\<lambda>byte.
          crockford_decode_loop accumulator (bits - 8) (output @ [byte]) bs)
        else crockford_decode_loop accumulator bits output bs)"

definition crockford_decode :: "bytes \<Rightarrow> bytes cresult" where
  "crockford_decode input =
     rbind (crockford_decode_loop 0 0 [] input) (\<lambda>(accumulator, bits, output).
     if bits > 0 \<and> accumulator AND (push_bit bits 1 - 1) \<noteq> 0 then Err MalformedInput else Ok output)"

section \<open>The recovery secret\<close>

text \<open>\<^verbatim>\<open>bytes.chunks(n)\<close>, for positive \<open>n\<close>.\<close>

fun chunks :: "nat \<Rightarrow> 'a list \<Rightarrow> 'a list list" where
  "chunks n xs = (if n = 0 \<or> xs = [] then [] else take n xs # chunks n (drop n xs))"

declare chunks.simps [simp del]

text \<open>\<^verbatim>\<open>parts.join("-")\<close>\<close>

fun join_hyphen :: "bytes list \<Rightarrow> bytes" where
  "join_hyphen [] = []"
| "join_hyphen [p] = p"
| "join_hyphen (p # ps) = p @ [0x2d] @ join_hyphen ps"

definition group_recovery_secret :: "bytes \<Rightarrow> bytes" where
  "group_recovery_secret compact = join_hyphen (map (\<lambda>chunk. if utf8_valid chunk then chunk else []) (chunks 5 compact))"

definition encode_recovery_secret :: "prims \<Rightarrow> bytes \<Rightarrow> bytes cresult" where
  "encode_recovery_secret P entropy =
     rbind (sha256 P entropy) (\<lambda>digest.
     Ok (group_recovery_secret (crockford_encode (entropy @ take RECOVERY_CHECKSUM_BYTES digest))))"

definition is_ascii_whitespace :: "byte \<Rightarrow> bool" where
  "is_ascii_whitespace b \<longleftrightarrow> b = 0x20 \<or> b = 0x09 \<or> b = 0x0a \<or> b = 0x0c \<or> b = 0x0d"

definition to_ascii_uppercase :: "byte \<Rightarrow> byte" where
  "to_ascii_uppercase b = (if 0x61 \<le> b \<and> b \<le> 0x7a then b - 0x20 else b)"

definition compact_secret :: "bytes \<Rightarrow> bytes" where
  "compact_secret input = map to_ascii_uppercase (filter (\<lambda>b. \<not> is_ascii_whitespace b \<and> b \<noteq> 0x2d) input)"

definition normalize_recovery_secret :: "prims \<Rightarrow> bytes \<Rightarrow> bytes cresult" where
  "normalize_recovery_secret P input =
     (if \<not> utf8_valid input then Err AuthenticationFailed
      else case crockford_decode (compact_secret input) of
        Inl _ \<Rightarrow> Err AuthenticationFailed
      | Inr payload \<Rightarrow>
          if length payload \<noteq> RECOVERY_PAYLOAD_BYTES then Err AuthenticationFailed
          else rbind (sha256 P (take RECOVERY_ENTROPY_BYTES payload)) (\<lambda>digest.
            if drop RECOVERY_ENTROPY_BYTES payload \<noteq> take RECOVERY_CHECKSUM_BYTES digest
            then Err AuthenticationFailed
            else Ok (group_recovery_secret (crockford_encode payload))))"

section \<open>Bit streams\<close>

text \<open>The \<open>n\<close> lowest bits of a word, highest first.\<close>

definition word_bits :: "nat \<Rightarrow> 'a::len word \<Rightarrow> bool list" where
  "word_bits n w = map (bit w) (rev [0..<n])"

definition byte_bits :: "bytes \<Rightarrow> bool list" where
  "byte_bits bs = concat (map (word_bits 8) bs)"

text \<open>The five-bit values a text spells, and their bits.\<close>

definition spells :: "bytes \<Rightarrow> u8 list \<Rightarrow> bool" where
  "spells text vs \<longleftrightarrow> map crockford_value text = map Some vs"

definition value_bits :: "u8 list \<Rightarrow> bool list" where
  "value_bits vs = concat (map (word_bits 5) vs)"

lemma length_word_bits [simp]: "length (word_bits n w) = n"
  by (simp add: word_bits_def)

lemma nth_word_bits: "i < n \<Longrightarrow> word_bits n w ! i = bit w (n - 1 - i)"
  by (simp add: word_bits_def rev_nth)

lemma word_bits_eqI:
  "(\<And>i. i < n \<Longrightarrow> bit v i = bit w i) \<Longrightarrow> word_bits n v = word_bits n w"
  by (simp add: word_bits_def)

lemma word_bits_eqD: "word_bits n v = word_bits n w \<Longrightarrow> i < n \<Longrightarrow> bit v i = bit w i"
  by (simp add: word_bits_def)

lemma word_bits_split: "word_bits (n + m) w = word_bits n (drop_bit m w) @ word_bits m w"
proof -
  have "map (bit w) [m..<m + n] = map (bit (drop_bit m w)) [0..<n]"
    by (rule nth_equalityI) (simp_all add: bit_drop_bit_eq)
  moreover have "[0..<n + m] = [0..<m] @ [m..<m + n]"
    by (metis add.commute upt_add_eq_append zero_le)
  ultimately show ?thesis by (simp only: word_bits_def rev_append map_append rev_map [symmetric])
qed

lemma word_bits_inj: "word_bits 8 v = word_bits 8 w \<Longrightarrow> v = (w :: byte)"
  by (rule bit_word_eqI, erule word_bits_eqD) simp

lemma byte_bits_simps [simp]:
  "byte_bits [] = []" "byte_bits (b # bs) = word_bits 8 b @ byte_bits bs"
  "byte_bits (as @ bs) = byte_bits as @ byte_bits bs"
  by (simp_all add: byte_bits_def)

lemma length_byte_bits [simp]: "length (byte_bits bs) = 8 * length bs"
  by (induction bs) simp_all

lemma byte_bits_inj: "byte_bits as = byte_bits bs \<Longrightarrow> as = bs"
proof (induction as bs rule: list_induct2')
  case (4 a as b bs)
  then show ?case by (auto dest: word_bits_inj)
next
  case (2 a as)
  then have "length (byte_bits (a # as)) = 0" by simp
  then show ?case by simp
next
  case (3 b bs)
  then have "length (byte_bits (b # bs)) = 0" by simp
  then show ?case by simp
qed simp

lemma value_bits_simps [simp]:
  "value_bits [] = []" "value_bits (v # vs) = word_bits 5 v @ value_bits vs"
  "value_bits (us @ vs) = value_bits us @ value_bits vs"
  by (simp_all add: value_bits_def)

lemma length_value_bits [simp]: "length (value_bits vs) = 5 * length vs"
  by (induction vs) simp_all

lemma spells_simps [simp]:
  "spells [] vs \<longleftrightarrow> vs = []"
  "spells (b # bs) vs \<longleftrightarrow> (\<exists>w ws. vs = w # ws \<and> crockford_value b = Some w \<and> spells bs ws)"
  by (auto simp: spells_def Cons_eq_map_conv)

lemma spells_append: "spells s us \<Longrightarrow> spells t vs \<Longrightarrow> spells (s @ t) (us @ vs)"
  by (simp add: spells_def)

lemma spells_length: "spells s vs \<Longrightarrow> length s = length vs"
  unfolding spells_def by (metis length_map)

text \<open>Shifting a byte or a five-bit value into the accumulator.\<close>

lemma word_bits_shift_in:
  fixes acc :: u32 and v :: u8
  assumes "n + k \<le> 32" and "k \<le> 8" and "\<And>i. k \<le> i \<Longrightarrow> \<not> bit v i"
  shows "word_bits (n + k) (push_bit k acc OR ucast v) = word_bits n acc @ word_bits k v"
proof -
  have "word_bits n (drop_bit k (push_bit k acc OR ucast v)) = word_bits n acc"
    using assms by (intro word_bits_eqI) (auto simp: bit_simps)
  moreover have "word_bits k (push_bit k acc OR ucast v) = word_bits k v"
    using assms by (auto simp: word_bits_def bit_simps)
  ultimately show ?thesis by (simp add: word_bits_split)
qed

section \<open>Base 32 as a bit stream\<close>

lemma low_bits_u32: "v AND 0x1f = take_bit 5 v" "v AND 0xff = take_bit 8 v" for v :: u32
  by (simp_all add: take_bit_eq_mask mask_eq_exp_minus_1)

lemma unat_low5: "unat (v AND 0x1f :: u32) < 32"
  using take_bit_nat_less_exp [of 5 "unat v"] by (simp add: low_bits_u32 unsigned_take_bit_eq)

lemma alphabet_values: "n < 32 \<Longrightarrow> crockford_value (CROCKFORD_ALPHABET ! n) = Some (word_of_nat n)"
proof -
  have "list_all (\<lambda>n. crockford_value (CROCKFORD_ALPHABET ! n) = Some (word_of_nat n)) [0..<32]" by code_simp
  then show "n < 32 \<Longrightarrow> ?thesis" by (simp add: list_all_iff)
qed

lemma crockford_value_symbol: "crockford_value (crockford_symbol v) = Some (ucast (v AND 0x1f))"
  by (simp only: crockford_symbol_def alphabet_values [OF unat_low5] ucast_eq_word_of_nat)

lemma crockford_value_range:
  assumes "crockford_value b = Some v"
  shows "v < 32 \<and> \<not> is_ascii_whitespace b \<and> b \<noteq> 0x2d \<and> to_ascii_uppercase b = b \<and> b < 0x80"
  using assms unfolding crockford_value_def is_ascii_whitespace_def to_ascii_uppercase_def
  by (auto simp: word_le_nat_alt word_less_nat_alt word_unat_eq_iff unat_sub unat_word_ariths split: if_splits)

lemma crockford_value_bits:
  assumes "crockford_value b = Some v" and "5 \<le> i"
  shows "\<not> bit v i"
proof -
  have "v < 32" using crockford_value_range [OF assms(1)] by simp
  then have "unat v < 2 ^ 5" by (simp add: word_less_nat_alt)
  then have "take_bit 5 (unat v) = unat v" by (simp add: take_bit_nat_eq_self_iff)
  then have "bit (unat v) i \<longleftrightarrow> i < 5 \<and> bit (unat v) i" by (metis bit_take_bit_iff)
  then show ?thesis using assms(2) by (simp add: bit_unsigned_iff)
qed

lemma word_bits_low5: "word_bits 5 (ucast (v AND 0x1f :: u32) :: u8) = word_bits 5 v"
  by (rule nth_equalityI) (auto simp: low_bits_u32 nth_word_bits bit_simps)

lemma spells_symbol: "spells s vs \<Longrightarrow> spells (s @ [crockford_symbol v]) (vs @ [ucast (v AND 0x1f)])"
  by (rule spells_append) (simp_all add: crockford_value_symbol)

lemma crockford_drain_bits:
  assumes "crockford_drain acc bits out = (b, out')" and "bits \<le> 32" and "spells out us"
  shows "\<exists>vs. spells out' vs \<and> value_bits vs @ word_bits b acc = value_bits us @ word_bits bits acc \<and> b < 5"
  using assms
proof (induction acc bits out arbitrary: us rule: crockford_drain.induct)
  case (1 acc bits out)
  show ?case
  proof (cases "bits \<ge> 5")
    case True
    then have "word_bits bits acc = word_bits 5 (drop_bit (bits - 5) acc) @ word_bits (bits - 5) acc"
      using word_bits_split [of 5 "bits - 5" acc] by simp
    with 1 True spells_symbol [OF "1.prems"(3), of "drop_bit (bits - 5) acc"] show ?thesis
      by (fastforce simp: crockford_drain.simps [of _ bits] word_bits_low5)
  next
    case False
    with 1 show ?thesis by (auto simp: crockford_drain.simps [of _ bits])
  qed
qed

lemma word_bits_shift_byte:
  "n \<le> 24 \<Longrightarrow> word_bits (n + 8) (push_bit 8 acc OR ucast b :: u32) = word_bits n acc @ word_bits 8 (b :: byte)"
  by (rule word_bits_shift_in) (auto dest: bit_imp_le_length)

lemma crockford_encode_loop_bits:
  assumes "crockford_encode_loop acc bits out bs = (acc', b, out')" and "bits < 5" and "spells out us"
  shows "\<exists>vs. spells out' vs \<and> value_bits vs @ word_bits b acc' = value_bits us @ word_bits bits acc @ byte_bits bs \<and> b < 5"
  using assms
proof (induction bs arbitrary: acc bits out us)
  case Nil
  then show ?case by auto
next
  case (Cons x bs)
  let ?acc = "push_bit 8 acc OR ucast x :: u32"
  obtain b1 out1 where drain: "crockford_drain ?acc (bits + 8) out = (b1, out1)" by fastforce
  with Cons.prems have loop: "crockford_encode_loop ?acc b1 out1 bs = (acc', b, out')" by simp
  obtain vs where vs: "spells out1 vs" "b1 < 5"
    "value_bits vs @ word_bits b1 ?acc = value_bits us @ word_bits (bits + 8) ?acc"
    using crockford_drain_bits [OF drain _ Cons.prems(3)] Cons.prems(2) by auto
  have "word_bits (bits + 8) ?acc = word_bits bits acc @ word_bits 8 x"
    using Cons.prems(2) by (intro word_bits_shift_byte) simp
  with Cons.IH [OF loop vs(2,1)] vs(3) show ?case by (metis append.assoc byte_bits_simps(2))
qed

lemma word_bits_pad:
  "n \<le> 5 \<Longrightarrow> word_bits 5 (push_bit (5 - n) acc :: u32) = word_bits n acc @ replicate (5 - n) False"
  by (rule nth_equalityI) (auto simp: nth_word_bits nth_append bit_simps)

lemma crockford_encode_bits:
  "\<exists>vs k. spells (crockford_encode bs) vs \<and> k < 5 \<and> value_bits vs = byte_bits bs @ replicate k False"
proof -
  obtain acc b out where loop: "crockford_encode_loop 0 0 [] bs = (acc, b, out)" by (metis prod_cases3)
  from crockford_encode_loop_bits [OF loop, of "[]"] obtain vs where
    vs: "spells out vs" "value_bits vs @ word_bits b acc = byte_bits bs" "b < 5"
    by (auto simp: word_bits_def)
  show ?thesis
  proof (cases "b > 0")
    case True
    let ?v = "ucast (push_bit (5 - b) acc AND 0x1f) :: u8"
    have "spells (crockford_encode bs) (vs @ [?v])"
      using True vs by (simp add: crockford_encode_def loop spells_symbol)
    moreover have "value_bits (vs @ [?v]) = byte_bits bs @ replicate (5 - b) False"
      using vs by (simp add: word_bits_low5 word_bits_pad flip: vs(2))
    ultimately show ?thesis using True by (intro exI [of _ "vs @ [?v]"] exI [of _ "5 - b"]) simp
  next
    case False
    with vs show ?thesis by (intro exI [of _ vs] exI [of _ 0]) (simp add: crockford_encode_def loop word_bits_def)
  qed
qed

lemma word_bits_shift_value:
  "n \<le> 27 \<Longrightarrow> crockford_value b = Some v \<Longrightarrow>
     word_bits (n + 5) (push_bit 5 acc OR ucast v :: u32) = word_bits n acc @ word_bits 5 v"
  by (rule word_bits_shift_in) (auto dest: crockford_value_bits)

lemma take_high_byte:
  fixes acc :: u32
  assumes "8 \<le> n"
  shows "(try_from_usize (unat (drop_bit (n - 8) acc AND 0xff)) :: u8 option) = Some (ucast (drop_bit (n - 8) acc))"
    and "word_bits n acc = word_bits 8 (ucast (drop_bit (n - 8) acc) :: u8) @ word_bits (n - 8) acc"
proof -
  have "unat (take_bit 8 v) < 256" for v :: u32
    using take_bit_nat_less_exp [of 8 "unat v"] by (simp add: unsigned_take_bit_eq)
  then show "(try_from_usize (unat (drop_bit (n - 8) acc AND 0xff)) :: u8 option) = Some (ucast (drop_bit (n - 8) acc))"
    by (simp add: low_bits_u32 try_from_usize_def ucast_eq_word_of_nat [symmetric]) (rule bit_word_eqI, simp add: bit_simps)
  have "word_bits 8 (drop_bit (n - 8) acc) = word_bits 8 (ucast (drop_bit (n - 8) acc) :: u8)"
    by (rule nth_equalityI) (auto simp: nth_word_bits bit_simps)
  then show "word_bits n acc = word_bits 8 (ucast (drop_bit (n - 8) acc) :: u8) @ word_bits (n - 8) acc"
    using word_bits_split [of 8 "n - 8" acc] assms by simp
qed

lemma crockford_decode_loop_bits:
  assumes "spells s vs" and "bits < 8"
  shows "\<exists>acc' b out'. crockford_decode_loop acc bits out s = Ok (acc', b, out') \<and> b < 8
    \<and> byte_bits out' @ word_bits b acc' = byte_bits out @ word_bits bits acc @ value_bits vs"
  using assms
proof (induction s arbitrary: acc bits out vs)
  case Nil
  then show ?case by simp
next
  case (Cons x s)
  then obtain v ws where v: "vs = v # ws" "crockford_value x = Some v" "spells s ws" by auto
  let ?acc = "push_bit 5 acc OR ucast v :: u32"
  have shift: "word_bits (bits + 5) ?acc = word_bits bits acc @ word_bits 5 v"
    using Cons.prems(2) v(2) by (intro word_bits_shift_value) simp_all
  show ?case
  proof (cases "8 \<le> bits + 5")
    case True
    let ?out = "out @ [ucast (drop_bit (bits + 5 - 8) ?acc)]"
    have out: "byte_bits ?out @ word_bits (bits + 5 - 8) ?acc = byte_bits out @ word_bits bits acc @ word_bits 5 v"
      using take_high_byte(2) [OF True, of ?acc] by (simp only: shift byte_bits_simps append_assoc append_Nil2)
    have step: "crockford_decode_loop acc bits out (x # s) = crockford_decode_loop ?acc (bits + 5 - 8) ?out s"
      by (simp only: crockford_decode_loop.simps v ok_or_simps rbind_simps Let_def take_high_byte(1) [OF True] True if_True)
    have "bits + 5 - 8 < 8" using Cons.prems(2) by simp
    from Cons.IH [OF v(3) this, of ?acc ?out, unfolded append_assoc [symmetric] out] show ?thesis
      by (simp only: step v(1) value_bits_simps append_assoc)
  next
    case False
    then have less: "bits + 5 < 8" by simp
    have step: "crockford_decode_loop acc bits out (x # s) = crockford_decode_loop ?acc (bits + 5) out s"
      by (simp only: crockford_decode_loop.simps v ok_or_simps rbind_simps Let_def False if_False)
    from Cons.IH [OF v(3) less, of ?acc out] show ?thesis
      by (simp only: step v(1) value_bits_simps append_assoc shift)
  qed
qed

lemma spells_exists: "(\<exists>vs. spells s vs) \<longleftrightarrow> (\<forall>b \<in> set s. crockford_value b \<noteq> None)"
  by (induction s) auto

lemma crockford_decode_loop_spells:
  "crockford_decode_loop acc bits out s = Ok res \<Longrightarrow> \<forall>b \<in> set s. crockford_value b \<noteq> None"
  by (induction s arbitrary: acc bits out) (auto simp: Let_def elim!: rbind_OkE split: if_splits)

lemma word_bits_zero_iff: "word_bits n w = replicate n False \<longleftrightarrow> (\<forall>i < n. \<not> bit w i)"
proof -
  have "replicate n False = map (\<lambda>_. False) (rev [0..<n])" by (simp add: map_replicate_const)
  then show ?thesis unfolding word_bits_def by (simp only: map_eq_conv set_rev set_upt) auto
qed

lemma pending_bits_zero:
  assumes "b < 8"
  shows "(acc :: u32) AND (2 ^ b - 1) = 0 \<longleftrightarrow> word_bits b acc = replicate b False"
proof -
  have "acc AND (2 ^ b - 1) = take_bit b acc" by (simp only: take_bit_eq_mask mask_eq_exp_minus_1)
  moreover have "take_bit b acc = 0 \<longleftrightarrow> (\<forall>i < b. \<not> bit acc i)"
    using assms by (auto simp: bit_eq_iff bit_take_bit_iff dest: bit_imp_le_length)
  ultimately show ?thesis by (simp only: word_bits_zero_iff)
qed

lemma crockford_decode_iff:
  "crockford_decode s = Ok bs \<longleftrightarrow>
     (\<exists>vs k. spells s vs \<and> k < 8 \<and> value_bits vs = byte_bits bs @ replicate k False)"
proof (cases "\<exists>vs. spells s vs")
  case False
  then have "crockford_decode_loop 0 0 [] s \<noteq> Ok res" for res
    using crockford_decode_loop_spells [of 0 0 "[]" s res] unfolding spells_exists by blast
  with False show ?thesis by (auto simp: crockford_decode_def rbind_Ok_iff)
next
  case True
  then obtain vs where vs: "spells s vs" by blast
  then have uniq: "spells s ws \<longleftrightarrow> ws = vs" for ws
    by (auto simp: spells_def)
  obtain acc b out where loop: "crockford_decode_loop 0 0 [] s = Ok (acc, b, out)" "b < 8"
    "byte_bits out @ word_bits b acc = value_bits vs"
    using crockford_decode_loop_bits [OF vs, of 0 0 "[]"] by (auto simp: word_bits_def)
  have "crockford_decode s = Ok bs \<longleftrightarrow> word_bits b acc = replicate b False \<and> bs = out"
    using loop(2) by (cases "b = 0") (auto simp: crockford_decode_def loop(1) pending_bits_zero word_bits_def [of 0])
  also have "\<dots> \<longleftrightarrow> (\<exists>k < 8. value_bits vs = byte_bits bs @ replicate k False)"
  proof
    assume "\<exists>k < 8. value_bits vs = byte_bits bs @ replicate k False"
    then obtain k where k: "k < 8" "byte_bits out @ word_bits b acc = byte_bits bs @ replicate k False"
      by (auto simp: loop(3))
    then have "length (byte_bits out @ word_bits b acc) = length (byte_bits bs @ replicate k False)" by simp
    then have "8 * length out + b = 8 * length bs + k" by simp
    with k(1) loop(2) have "length out = length bs \<and> k = b" by presburger
    with k(2) show "word_bits b acc = replicate b False \<and> bs = out"
      by (auto dest: byte_bits_inj)
  qed (use loop(2) in \<open>auto simp: loop(3) [symmetric]\<close>)
  finally show ?thesis by (auto simp: uniq)
qed

lemma crockford_round_trip: "crockford_decode (crockford_encode bs) = Ok bs"
proof -
  obtain vs k where "spells (crockford_encode bs) vs" "k < 5" "value_bits vs = byte_bits bs @ replicate k False"
    using crockford_encode_bits [of bs] by blast
  then show ?thesis unfolding crockford_decode_iff by (intro exI [of _ vs] exI [of _ k]) simp
qed

lemma value_bits_inj:
  assumes "spells s vs" and "spells t ws" and "value_bits vs = value_bits ws"
  shows "vs = ws"
proof -
  have "length (value_bits vs) = length (value_bits ws)" using assms(3) by simp
  then have "length vs = length ws" by simp
  then show ?thesis using assms
  proof (induction vs ws arbitrary: s t rule: list_induct2)
    case (Cons v vs w ws)
    obtain b bs where b: "s = b # bs" "crockford_value b = Some v" "spells bs vs"
      using Cons.prems(1) by (cases s) auto
    obtain c cs where c: "t = c # cs" "crockford_value c = Some w" "spells cs ws"
      using Cons.prems(2) by (cases t) auto
    have bits: "word_bits 5 v = word_bits 5 w" and rest: "value_bits vs = value_bits ws" using Cons.prems(3) by simp_all
    have "v = w"
    proof (rule bit_word_eqI)
      show "bit v i = bit w i" for i
        using word_bits_eqD [OF bits, of i] crockford_value_bits [OF b(2), of i] crockford_value_bits [OF c(2), of i]
        by (cases "i < 5") auto
    qed
    with Cons.IH [OF b(3) c(3) rest] show ?case by simp
  qed simp
qed

text \<open>For the 34 bytes of a recovery payload a text decodes to it exactly when it spells the encoder's symbols.\<close>

lemma crockford_decode_payload_iff:
  assumes "length payload = RECOVERY_PAYLOAD_BYTES"
  shows "crockford_decode s = Ok payload \<longleftrightarrow> (\<exists>vs. spells s vs \<and> spells (crockford_encode payload) vs)"
proof -
  obtain vs k where vs: "spells (crockford_encode payload) vs" "k < 5" "value_bits vs = byte_bits payload @ replicate k False"
    using crockford_encode_bits [of payload] by blast
  then have "length (value_bits vs) = length (byte_bits payload @ replicate k False)" by simp
  then have "5 * length vs = 8 * 34 + k" using assms by (simp add: recovery_sizes)
  with vs(2) have k: "k = 3" by presburger
  have uniq: "spells (crockford_encode payload) ws \<longleftrightarrow> ws = vs" for ws
    using vs(1) by (auto simp: spells_def)
  have "spells s vs" if s: "spells s ws" "j < 8" "value_bits ws = byte_bits payload @ replicate j False" for ws j
  proof -
    from s have "length (value_bits ws) = length (byte_bits payload @ replicate j False)" by simp
    then have "5 * length ws = 8 * 34 + j" using assms by (simp add: recovery_sizes)
    with s(2) have "j = k" unfolding k by presburger
    with s vs show ?thesis using value_bits_inj [OF s(1) vs(1)] by simp
  qed
  then show ?thesis unfolding crockford_decode_iff uniq using vs(2,3) by (auto intro!: exI [of _ k])
qed

section \<open>Grouping\<close>

lemma concat_chunks: "0 < n \<Longrightarrow> concat (chunks n xs) = xs"
  by (induction n xs rule: chunks.induct) (subst chunks.simps, auto)

lemma set_chunks: "c \<in> set (chunks n xs) \<Longrightarrow> set c \<subseteq> set xs"
proof (induction n xs rule: chunks.induct)
  case (1 n xs)
  then show ?case
    by (subst (asm) (2) chunks.simps) (auto split: if_splits dest: in_set_takeD in_set_dropD)
qed

lemma compact_append: "compact_secret (a @ b) = compact_secret a @ compact_secret b"
  by (simp add: compact_secret_def)

lemma compact_join: "compact_secret (join_hyphen ps) = concat (map compact_secret ps)"
  by (induction ps rule: join_hyphen.induct) (simp_all add: compact_secret_def is_ascii_whitespace_def)

lemma compact_spelled: "\<forall>b \<in> set s. crockford_value b \<noteq> None \<Longrightarrow> compact_secret s = s"
  unfolding compact_secret_def
  by (induction s) (auto dest: crockford_value_range)

lemma utf8_ascii: "\<forall>b \<in> set s. b < 0x80 \<Longrightarrow> utf8_chars s = Some (map unat s)"
  by (induction s) (simp_all add: utf8_chars.simps)

lemma ascii_spelled: "\<forall>b \<in> set s. crockford_value b \<noteq> None \<Longrightarrow> \<forall>b \<in> set s. b < 0x80"
  using crockford_value_range by blast

lemma utf8_valid_ascii: "\<forall>b \<in> set s. b < 0x80 \<Longrightarrow> utf8_valid s"
  by (simp add: utf8_valid_def utf8_ascii)

lemma group_recovery_secret_eq:
  assumes "\<forall>b \<in> set s. b < 0x80"
  shows "group_recovery_secret s = join_hyphen (chunks 5 s)"
proof -
  have "utf8_valid c" if "c \<in> set (chunks 5 s)" for c
    using set_chunks [OF that] assms by (intro utf8_valid_ascii) blast
  then have "map (\<lambda>c. if utf8_valid c then c else []) (chunks 5 s) = chunks 5 s" by (simp add: map_idI)
  then show ?thesis by (simp add: group_recovery_secret_def)
qed

lemma compact_group:
  assumes s: "\<forall>b \<in> set s. crockford_value b \<noteq> None"
  shows "compact_secret (group_recovery_secret s) = s"
proof -
  have "compact_secret c = c" if "c \<in> set (chunks 5 s)" for c
    using set_chunks [OF that] s by (intro compact_spelled) blast
  then have "map compact_secret (chunks 5 s) = chunks 5 s" by (simp add: map_idI)
  then show ?thesis
    by (simp add: group_recovery_secret_eq [OF ascii_spelled [OF s]] compact_join concat_chunks)
qed

lemma set_join_hyphen: "set (join_hyphen ps) \<subseteq> insert 0x2d (\<Union> (set ` set ps))"
  by (induction ps rule: join_hyphen.induct) auto

lemma group_recovery_secret_ascii:
  assumes s: "\<forall>b \<in> set s. b < 0x80"
  shows "\<forall>b \<in> set (group_recovery_secret s). b < 0x80"
  using set_join_hyphen [of "chunks 5 s"] set_chunks [of _ 5 s] s
  unfolding group_recovery_secret_eq [OF s] by fastforce

lemma encoded_spelled: "\<forall>b \<in> set (crockford_encode bs). crockford_value b \<noteq> None"
  using crockford_encode_bits [of bs] spells_exists by blast

section \<open>Reading a recovery secret\<close>

lemma encode_recovery_secret_eq:
  "length entropy \<le> MAX_INPUT_BYTES \<Longrightarrow>
     encode_recovery_secret P entropy = Ok (group_recovery_secret (crockford_encode (entropy @ take 2 (sha256_raw P entropy))))"
  by (simp add: encode_recovery_secret_def sha256_def bounded_defs recovery_sizes)

lemma compact_recovery_secret:
  "encode_recovery_secret P entropy = Ok text \<Longrightarrow>
     compact_secret text = crockford_encode (entropy @ take 2 (sha256_raw P entropy))"
  by (auto simp: encode_recovery_secret_def sha256_def bounded_defs recovery_sizes compact_group [OF encoded_spelled]
      elim!: rbind_OkE split: if_splits)

lemma normalize_iff:
  assumes P: "sized_prims P"
  shows "normalize_recovery_secret P input = Ok text \<longleftrightarrow>
    utf8_valid input \<and> (\<exists>entropy vs. length entropy = RECOVERY_ENTROPY_BYTES \<and> encode_recovery_secret P entropy = Ok text
      \<and> spells (compact_secret text) vs \<and> spells (compact_secret input) vs)"
    (is "_ \<longleftrightarrow> _ \<and> ?same")
proof -
  let ?payload = "\<lambda>entropy. entropy @ take 2 (sha256_raw P entropy)"
  have len: "length (sha256_raw P entropy) = 32" for entropy using P by (rule sized_primsD)
  have "normalize_recovery_secret P input = Ok text \<longleftrightarrow> utf8_valid input
    \<and> (\<exists>entropy. length entropy = RECOVERY_ENTROPY_BYTES \<and> crockford_decode (compact_secret input) = Ok (?payload entropy)
        \<and> text = group_recovery_secret (crockford_encode (?payload entropy)))"
  proof (cases "crockford_decode (compact_secret input)")
    case (Inr payload)
    show ?thesis
    proof
      assume "normalize_recovery_secret P input = Ok text"
      with Inr have ok: "utf8_valid input" "length payload = 34" "text = group_recovery_secret (crockford_encode payload)"
        and sum: "drop 32 payload = take 2 (sha256_raw P (take 32 payload))"
        by (auto simp: normalize_recovery_secret_def recovery_sizes sha256_def bounded_defs split: if_splits elim!: rbind_OkE)
      have "?payload (take 32 payload) = payload" unfolding sum [symmetric] by (rule append_take_drop_id)
      with Inr ok show "utf8_valid input \<and> (\<exists>entropy. length entropy = RECOVERY_ENTROPY_BYTES
          \<and> crockford_decode (compact_secret input) = Ok (?payload entropy)
          \<and> text = group_recovery_secret (crockford_encode (?payload entropy)))"
        by (intro conjI exI [of _ "take 32 payload"]) (simp_all add: recovery_sizes)
    qed (use Inr len in \<open>auto simp: normalize_recovery_secret_def recovery_sizes sha256_def bounded_defs MAX_INPUT_BYTES_def\<close>)
  qed (simp add: normalize_recovery_secret_def)
  also have "\<dots> \<longleftrightarrow> utf8_valid input \<and> ?same"
  proof -
    have "crockford_decode (compact_secret input) = Ok (?payload entropy) \<longleftrightarrow>
        (\<exists>vs. spells (compact_secret text) vs \<and> spells (compact_secret input) vs)"
      if "length entropy = RECOVERY_ENTROPY_BYTES" "encode_recovery_secret P entropy = Ok text" for entropy
    proof -
      have "length (?payload entropy) = RECOVERY_PAYLOAD_BYTES" using that(1) by (simp add: len recovery_sizes)
      then show ?thesis
        unfolding compact_recovery_secret [OF that(2)] using crockford_decode_payload_iff by blast
    qed
    moreover have "encode_recovery_secret P entropy = Ok text \<longleftrightarrow> text = group_recovery_secret (crockford_encode (?payload entropy))"
      if "length entropy = RECOVERY_ENTROPY_BYTES" for entropy
      using that by (auto simp: encode_recovery_secret_eq recovery_sizes MAX_INPUT_BYTES_def)
    ultimately show ?thesis by blast
  qed
  finally show ?thesis .
qed

text \<open>
  C21: how a recovery secret is read back. Normalization accepts an input exactly when it is valid UTF-8
  and, after dropping white space and hyphens and ignoring case, spells the same base 32 values as the secret that is
  printed for some 32 bytes of entropy; it then returns that printed form. So the confusable letters O, I and L,
  any grouping and any case are accepted, and every other change of a symbol is refused or is the printed
  secret of another entropy.
\<close>

theorem recovery_secret_read_iff:
  assumes "sized_prims P"
  shows "normalize_recovery_secret P input = Ok text \<longleftrightarrow>
    utf8_valid input \<and> (\<exists>entropy vs. length entropy = RECOVERY_ENTROPY_BYTES \<and> encode_recovery_secret P entropy = Ok text
      \<and> spells (compact_secret text) vs \<and> spells (compact_secret input) vs)"
  by (rule normalize_iff [OF assms])

text \<open>The secret of all-zero entropy, and the same secret with every digit zero read as the letter o.\<close>

definition sample_secret :: bytes where
  "sample_secret = group_recovery_secret (crockford_encode (replicate 32 0 @ [0, 0]))"

definition confuse_zero :: "byte \<Rightarrow> byte" where
  "confuse_zero b = (if b = 0x30 then 0x6f else b)"

lemma sample_secret_printed: "encode_recovery_secret example_prims (replicate 32 0) = Ok sample_secret"
proof -
  have "take 2 (sha256_raw example_prims (replicate 32 0)) = [0, 0]"
    by (simp add: example_prims_def fit_def numeral_2_eq_2)
  then show ?thesis by (simp add: encode_recovery_secret_eq MAX_INPUT_BYTES_def sample_secret_def)
qed

lemma confuse_zero_simps:
  "crockford_value (to_ascii_uppercase (confuse_zero b)) = crockford_value (to_ascii_uppercase b)"
  "is_ascii_whitespace (confuse_zero b) = is_ascii_whitespace b"
  "confuse_zero b = 0x2d \<longleftrightarrow> b = 0x2d"
  by (cases "b = 0x30"; simp add: confuse_zero_def is_ascii_whitespace_def to_ascii_uppercase_def crockford_value_def)+

lemma confused_spelling: "map crockford_value (compact_secret (map confuse_zero s)) = map crockford_value (compact_secret s)"
  unfolding compact_secret_def by (induction s) (simp_all add: confuse_zero_simps)

lemma sample_spelled:
  "utf8_valid (map confuse_zero sample_secret)"
  "\<exists>vs. spells (compact_secret sample_secret) vs \<and> spells (compact_secret (map confuse_zero sample_secret)) vs"
proof -
  have "\<forall>b \<in> set sample_secret. b < 0x80"
    unfolding sample_secret_def by (intro group_recovery_secret_ascii ascii_spelled encoded_spelled)
  then show "utf8_valid (map confuse_zero sample_secret)"
    by (intro utf8_valid_ascii) (auto simp: confuse_zero_def)
  have "compact_secret sample_secret = crockford_encode (replicate 32 0 @ [0, 0])"
    unfolding sample_secret_def by (rule compact_group [OF encoded_spelled])
  then obtain vs where "spells (compact_secret sample_secret) vs"
    using encoded_spelled spells_exists by metis
  then show "\<exists>vs. spells (compact_secret sample_secret) vs \<and> spells (compact_secret (map confuse_zero sample_secret)) vs"
    by (intro exI [of _ vs]) (simp add: spells_def confused_spelling)
qed

theorem recovery_secret_read_iff_witness:
  "sized_prims example_prims
   \<and> normalize_recovery_secret example_prims (map confuse_zero sample_secret) = Ok sample_secret"
proof -
  have "length (replicate 32 (0 :: byte)) = RECOVERY_ENTROPY_BYTES" by (simp add: RECOVERY_ENTROPY_BYTES_def)
  with sample_secret_printed sample_spelled show ?thesis
    using recovery_secret_read_iff [OF example_sized, of "map confuse_zero sample_secret" sample_secret] example_sized by blast
qed

end
