(* ===== verification/Identity_Package.thy ===== *)
theory Identity_Package
  imports Recovery_Secret
begin

text \<open>
  The account identity of \<^verbatim>\<open>enrollment.rs\<close>: the package that holds the three cross-signing secrets, the backup
  that is encrypted under the recovery secret, the first identity, its restoration and the replacement of a
  recovery secret.
\<close>

section \<open>The identity package\<close>

definition IDENTITY_PACKAGE_MAGIC :: bytes where "IDENTITY_PACKAGE_MAGIC = ascii ''CPIDV001''"
definition BACKUP_MAGIC :: bytes where "BACKUP_MAGIC = ascii ''CPKBV001''"
definition IDENTITY_PLAINTEXT_MAGIC :: bytes where "IDENTITY_PLAINTEXT_MAGIC = ascii ''CPIPV001''"
definition BACKUP_DOMAIN :: bytes where "BACKUP_DOMAIN = ascii ''chat:v1:identity-backup''"
definition BACKUP_BUCKET_BYTES :: nat where "BACKUP_BUCKET_BYTES = 4096"
definition BACKUP_MEMORY_KIB :: u32 where "BACKUP_MEMORY_KIB = 65536"
definition BACKUP_ITERATIONS :: u32 where "BACKUP_ITERATIONS = 3"
definition BACKUP_PARALLELISM :: u32 where "BACKUP_PARALLELISM = 4"
definition BACKUP_HEADER_BYTES :: nat where "BACKUP_HEADER_BYTES = 64"
definition IDENTITY_PLAINTEXT_BYTES :: nat where "IDENTITY_PLAINTEXT_BYTES = 120"

lemmas identity_constants =
  IDENTITY_PACKAGE_MAGIC_def BACKUP_MAGIC_def IDENTITY_PLAINTEXT_MAGIC_def BACKUP_DOMAIN_def BACKUP_BUCKET_BYTES_def
  BACKUP_MEMORY_KIB_def BACKUP_ITERATIONS_def BACKUP_PARALLELISM_def BACKUP_HEADER_BYTES_def IDENTITY_PLAINTEXT_BYTES_def

record identity_secrets =
  is_master :: bytes
  is_self_signing :: bytes
  is_user_signing :: bytes

record identity_package =
  ip_user_id :: bytes
  ip_master_public :: bytes
  ip_self_signing_public :: bytes
  ip_master_signature :: bytes
  ip_secrets :: identity_secrets
  ip_recovery_secret :: bytes
  ip_backup :: bytes

definition raw_uuid :: "bytes \<Rightarrow> bytes cresult" where
  "raw_uuid v = fixed 16 v"

definition package_flags :: "bytes \<Rightarrow> bytes \<Rightarrow> u8" where
  "package_flags recovery_secret backup =
     (if recovery_secret \<noteq> [] then 1 else 0) OR push_bit 1 (if backup \<noteq> [] then 1 else 0)"

definition encode_identity_package ::
    "prims \<Rightarrow> bytes \<Rightarrow> identity_secrets \<Rightarrow> bytes \<Rightarrow> bytes \<Rightarrow> bytes cresult" where
  "encode_identity_package P user_id secrets recovery_secret backup =
     (let master_public = ed_public_of P (is_master secrets);
          self_signing_public = ed_public_of P (is_self_signing secrets);
          user_signing_public = ed_public_of P (is_user_signing secrets) in
      rbind (encode_master_signature \<lparr>ci_user_id = user_id, ci_self_signing_public = self_signing_public,
          ci_user_signing_public = user_signing_public\<rparr>) (\<lambda>master_bytes.
      rbind (ed25519_sign P (is_master secrets) master_bytes) (\<lambda>master_signature.
      rbind (ok_or (try_from_usize (length recovery_secret)) InputTooLarge) (\<lambda>recovery_len :: u16.
      rbind (ok_or (try_from_usize (length backup)) InputTooLarge) (\<lambda>backup_len :: u32.
      Ok (IDENTITY_PACKAGE_MAGIC @ [package_flags recovery_secret backup] @ user_id @ master_public
          @ self_signing_public @ user_signing_public @ master_signature @ u16_bytes recovery_len @ u32_bytes backup_len
          @ is_master secrets @ is_self_signing secrets @ is_user_signing secrets @ recovery_secret @ backup))))))"

text \<open>The fields and the checks up to the signature; the second result is the public user-signing key.\<close>

definition identity_fields :: "prims \<Rightarrow> (identity_package \<times> bytes) parser" where
  "identity_fields P =
     sbind (reader_take 8) (\<lambda>magic.
     sbind (slift (reject_if (magic \<noteq> IDENTITY_PACKAGE_MAGIC) MalformedInput)) (\<lambda>_.
     sbind reader_u8 (\<lambda>flags.
     sbind (slift (reject_if (flags AND NOT 3 \<noteq> 0) MalformedInput)) (\<lambda>_.
     sbind (reader_array 16) (\<lambda>user_id.
     sbind (reader_array 32) (\<lambda>master_public.
     sbind (reader_array 32) (\<lambda>self_signing_public.
     sbind (reader_array 32) (\<lambda>user_signing_public.
     sbind (reader_array 64) (\<lambda>master_signature.
     sbind reader_u16 (\<lambda>recovery_len.
     sbind reader_u32 (\<lambda>backup_len.
     sbind (reader_array 32) (\<lambda>master.
     sbind (reader_array 32) (\<lambda>self_signing.
     sbind (reader_array 32) (\<lambda>user_signing.
     sbind (reader_take (unat recovery_len)) (\<lambda>recovery_secret.
     sbind (reader_take (unat backup_len)) (\<lambda>backup.
     sbind finished (\<lambda>fin.
     sbind (slift (reject_if
         (\<not> fin \<or> (flags AND 1 \<noteq> 0) = (recovery_secret = []) \<or> (flags AND 2 \<noteq> 0) = (backup = [])
          \<or> ed_public_of P master \<noteq> master_public \<or> ed_public_of P self_signing \<noteq> self_signing_public
          \<or> ed_public_of P user_signing \<noteq> user_signing_public) MalformedInput)) (\<lambda>_.
     ret (\<lparr>ip_user_id = user_id, ip_master_public = master_public, ip_self_signing_public = self_signing_public,
           ip_master_signature = master_signature,
           ip_secrets = \<lparr>is_master = master, is_self_signing = self_signing, is_user_signing = user_signing\<rparr>,
           ip_recovery_secret = recovery_secret, ip_backup = backup\<rparr>, user_signing_public)))))))))))))))))))"

definition parse_identity_package :: "prims \<Rightarrow> bytes \<Rightarrow> identity_package cresult" where
  "parse_identity_package P package =
     rbind (run_parser (identity_fields P) package) (\<lambda>(identity, user_signing_public).
     rbind (encode_master_signature \<lparr>ci_user_id = ip_user_id identity,
         ci_self_signing_public = ip_self_signing_public identity, ci_user_signing_public = user_signing_public\<rparr>) (\<lambda>encoded.
     rbind (ed25519_verify P (ip_master_public identity) encoded (ip_master_signature identity)) (\<lambda>_.
     Ok identity)))"

section \<open>The backup\<close>

definition backup_header :: "bytes \<Rightarrow> bytes \<Rightarrow> u32 \<Rightarrow> bytes" where
  "backup_header salt nonce ciphertext_len =
     BACKUP_MAGIC @ u32_bytes BACKUP_MEMORY_KIB @ u32_bytes BACKUP_ITERATIONS @ u32_bytes BACKUP_PARALLELISM
     @ salt @ nonce @ u32_bytes ciphertext_len"

definition backup_aad :: "bytes \<Rightarrow> bytes \<Rightarrow> bytes" where
  "backup_aad header user_id = BACKUP_DOMAIN @ header @ user_id"

definition encrypt_backup :: "prims \<Rightarrow> bytes \<Rightarrow> identity_secrets \<Rightarrow> bytes \<Rightarrow> bytes ent" where
  "encrypt_backup P user_id secrets recovery_secret =
     sbind (random_bytes 16) (\<lambda>salt.
     sbind (random_bytes 24) (\<lambda>nonce.
     sbind (slift (secret_vec_password recovery_secret)) (\<lambda>password.
     sbind (slift (argon2id P password salt)) (\<lambda>key.
     sbind (slift (secret_vec_from_vec (IDENTITY_PLAINTEXT_MAGIC @ user_id @ is_master secrets @ is_self_signing secrets
         @ is_user_signing secrets) IDENTITY_PLAINTEXT_BYTES)) (\<lambda>plaintext.
     sbind (slift (ok_or (usize_checked_add IDENTITY_PLAINTEXT_BYTES 16) InputTooLarge)) (\<lambda>ciphertext_len.
     sbind (slift (ok_or (try_from_usize ciphertext_len) InputTooLarge)) (\<lambda>ciphertext_len32.
     let header = backup_header salt nonce ciphertext_len32;
         aad = backup_aad header user_id in
     sbind (slift (xchacha20poly1305_encrypt P key nonce plaintext aad)) (\<lambda>ciphertext.
     let backup = header @ ciphertext in
     sbind (random_bytes (BACKUP_BUCKET_BYTES - length backup)) (\<lambda>padding.
     ret (backup @ padding))))))))))"

definition backup_fields :: "nat \<Rightarrow> (bytes \<times> bytes \<times> bytes) parser" where
  "backup_fields backup_len =
     sbind (reader_take 8) (\<lambda>magic.
     sbind (slift (reject_if (magic \<noteq> BACKUP_MAGIC) MalformedInput)) (\<lambda>_.
     sbind reader_u32 (\<lambda>memory.
     sbind reader_u32 (\<lambda>iterations.
     sbind reader_u32 (\<lambda>parallelism.
     sbind (slift (reject_if (memory \<noteq> BACKUP_MEMORY_KIB \<or> iterations \<noteq> BACKUP_ITERATIONS
         \<or> parallelism \<noteq> BACKUP_PARALLELISM) UnsupportedVersion)) (\<lambda>_.
     sbind (reader_array 16) (\<lambda>salt.
     sbind (reader_array 24) (\<lambda>nonce.
     sbind reader_u32 (\<lambda>ciphertext_len.
     sbind (slift (reject_if (unat ciphertext_len \<noteq> IDENTITY_PLAINTEXT_BYTES + 16
         \<or> BACKUP_HEADER_BYTES + unat ciphertext_len > backup_len) MalformedInput)) (\<lambda>_.
     sbind (reader_take (unat ciphertext_len)) (\<lambda>ciphertext.
     ret (salt, nonce, ciphertext))))))))))))"

definition backup_plaintext :: "bytes \<Rightarrow> identity_secrets parser" where
  "backup_plaintext user_id =
     sbind (reader_take 8) (\<lambda>magic.
     sbind (slift (reject_if (magic \<noteq> IDENTITY_PLAINTEXT_MAGIC) AuthenticationFailed)) (\<lambda>_.
     sbind (reader_take 16) (\<lambda>owner.
     sbind (slift (reject_if (owner \<noteq> user_id) AuthenticationFailed)) (\<lambda>_.
     sbind (reader_array 32) (\<lambda>master.
     sbind (reader_array 32) (\<lambda>self_signing.
     sbind (reader_array 32) (\<lambda>user_signing.
     sbind finished (\<lambda>fin.
     sbind (slift (reject_if (\<not> fin) MalformedInput)) (\<lambda>_.
     ret \<lparr>is_master = master, is_self_signing = self_signing, is_user_signing = user_signing\<rparr>)))))))))"

definition decrypt_backup :: "prims \<Rightarrow> bytes \<Rightarrow> bytes \<Rightarrow> bytes \<Rightarrow> identity_secrets cresult" where
  "decrypt_backup P user_id recovery_secret backup =
     rbind (reject_if (length backup \<notin> {4096, 16384, 65536, 262144, 1048576}) MalformedInput) (\<lambda>_.
     rbind (run_parser (backup_fields (length backup)) backup) (\<lambda>(salt, nonce, ciphertext).
     rbind (secret_vec_password recovery_secret) (\<lambda>password.
     rbind (argon2id P password salt) (\<lambda>key.
     let aad = backup_aad (take BACKUP_HEADER_BYTES backup) user_id in
     rbind (xchacha20poly1305_decrypt P key nonce ciphertext aad) (\<lambda>plaintext.
     run_parser (backup_plaintext user_id) plaintext)))))"

section \<open>Operations\<close>

text \<open>A fresh recovery secret, a backup under it, and the package that carries both.\<close>

definition with_new_recovery :: "prims \<Rightarrow> bytes \<Rightarrow> identity_secrets \<Rightarrow> bytes ent" where
  "with_new_recovery P user_id secrets =
     sbind (random_bytes RECOVERY_ENTROPY_BYTES) (\<lambda>recovery_entropy.
     sbind (slift (encode_recovery_secret P recovery_entropy)) (\<lambda>recovery_secret.
     sbind (encrypt_backup P user_id secrets recovery_secret) (\<lambda>backup.
     slift (encode_identity_package P user_id secrets recovery_secret backup))))"

definition prepare_first_identity :: "prims \<Rightarrow> bytes \<Rightarrow> bytes ent" where
  "prepare_first_identity P user =
     sbind (slift (raw_uuid user)) (\<lambda>user_id.
     sbind (random_bytes 32) (\<lambda>master.
     sbind (random_bytes 32) (\<lambda>self_signing.
     sbind (random_bytes 32) (\<lambda>user_signing.
     with_new_recovery P user_id
       \<lparr>is_master = master, is_self_signing = self_signing, is_user_signing = user_signing\<rparr>))))"

definition restore_identity :: "prims \<Rightarrow> bytes \<Rightarrow> bytes \<Rightarrow> bytes \<Rightarrow> bytes cresult" where
  "restore_identity P user recovery_secret backup =
     rbind (raw_uuid user) (\<lambda>user_id.
     rbind (normalize_recovery_secret P recovery_secret) (\<lambda>normalized.
     rbind (decrypt_backup P user_id normalized backup) (\<lambda>secrets.
     encode_identity_package P user_id secrets [] [])))"

definition sanitize_identity_package :: "prims \<Rightarrow> bytes \<Rightarrow> bytes cresult" where
  "sanitize_identity_package P package =
     rbind (parse_identity_package P package) (\<lambda>parsed.
     encode_identity_package P (ip_user_id parsed) (ip_secrets parsed) [] [])"

definition rotate_recovery_secret :: "prims \<Rightarrow> bytes \<Rightarrow> bytes ent" where
  "rotate_recovery_secret P identity_package =
     sbind (slift (parse_identity_package P identity_package)) (\<lambda>parsed.
     with_new_recovery P (ip_user_id parsed) (ip_secrets parsed))"

section \<open>The package format\<close>

definition identity_bytes :: "identity_package \<times> bytes \<Rightarrow> bytes" where
  "identity_bytes = (\<lambda>(i, user_signing_public).
     IDENTITY_PACKAGE_MAGIC @ [package_flags (ip_recovery_secret i) (ip_backup i)] @ ip_user_id i @ ip_master_public i
     @ ip_self_signing_public i @ user_signing_public @ ip_master_signature i
     @ u16_bytes (word_of_nat (length (ip_recovery_secret i))) @ u32_bytes (word_of_nat (length (ip_backup i)))
     @ is_master (ip_secrets i) @ is_self_signing (ip_secrets i) @ is_user_signing (ip_secrets i)
     @ ip_recovery_secret i @ ip_backup i)"

definition secrets_wf :: "identity_secrets \<Rightarrow> bool" where
  "secrets_wf s \<longleftrightarrow> length (is_master s) = 32 \<and> length (is_self_signing s) = 32 \<and> length (is_user_signing s) = 32"

definition identity_fields_wf :: "prims \<Rightarrow> identity_package \<times> bytes \<Rightarrow> bool" where
  "identity_fields_wf P = (\<lambda>(i, user_signing_public).
     length (ip_user_id i) = 16 \<and> secrets_wf (ip_secrets i)
     \<and> ip_master_public i = ed_public_of P (is_master (ip_secrets i)) \<and> length (ip_master_public i) = 32
     \<and> ip_self_signing_public i = ed_public_of P (is_self_signing (ip_secrets i)) \<and> length (ip_self_signing_public i) = 32
     \<and> user_signing_public = ed_public_of P (is_user_signing (ip_secrets i)) \<and> length user_signing_public = 32
     \<and> length (ip_master_signature i) = 64
     \<and> length (ip_recovery_secret i) < 2 ^ 16 \<and> length (ip_backup i) < 2 ^ 32)"

lemma low_flags: "f AND NOT 3 = 0 \<Longrightarrow> f = 0 \<or> f = 1 \<or> f = 2 \<or> f = (3 :: u8)"
proof -
  have mask: "3 = (mask 2 :: u8)" by (simp add: mask_eq_exp_minus_1)
  assume "f AND NOT 3 = 0"
  moreover have "f = (f AND mask 2) OR (f AND NOT (mask 2))"
    by (simp only: bit.conj_disj_distrib [symmetric] bit.disj_cancel_right bit.conj_one_right)
  ultimately have "f = take_bit 2 f" unfolding mask by (simp only: take_bit_eq_mask bit.disj_zero_right)
  then have "unat f = take_bit 2 (unat f)" by (simp only: unsigned_take_bit_eq [symmetric])
  then have "unat f < 4" using take_bit_nat_less_exp [of 2 "unat f"] by simp
  then have "unat f = 0 \<or> unat f = 1 \<or> unat f = 2 \<or> unat f = 3" by auto
  then show ?thesis by (auto simp: word_unat_eq_iff)
qed

lemma package_flags_iff:
  "f = package_flags r b \<longleftrightarrow>
     f AND NOT 3 = 0 \<and> (f AND 1 \<noteq> 0) = (r \<noteq> []) \<and> (f AND 2 \<noteq> 0) = (b \<noteq> [])"
proof (cases "f AND NOT 3 = 0")
  case True
  then consider "f = 0" | "f = 1" | "f = 2" | "f = 3" using low_flags by blast
  then show ?thesis by cases (simp_all add: package_flags_def)
next
  case False
  then show ?thesis by (auto simp: package_flags_def)
qed

interpretation identity_codec: whole_codec "identity_fields P" identity_bytes "identity_fields_wf P" for P
proof unfold_locales
  show "reads_to_end (identity_fields P) (identity_bytes i) i" if wf: "identity_fields_wf P i" for i
  proof (cases i)
    case (Pair p usk)
    let ?flags = "package_flags (ip_recovery_secret p) (ip_backup p)"
    have flags: "?flags AND NOT 3 = 0" "(?flags AND 1 \<noteq> 0) = (ip_recovery_secret p \<noteq> [])"
      "(?flags AND 2 \<noteq> 0) = (ip_backup p \<noteq> [])"
      using package_flags_iff [of ?flags "ip_recovery_secret p" "ip_backup p"] by simp_all
    show ?thesis
      unfolding Pair identity_fields_def identity_bytes_def prod.case
      by (rule reads_to_end_last, simp only: append_assoc, intro ends_intros)
        (use wf flags in \<open>auto simp: Pair identity_fields_wf_def secrets_wf_def IDENTITY_PACKAGE_MAGIC_def\<close>)
  qed
  show "sound_to_end (identity_fields P) (\<lambda>bs i. identity_fields_wf P i \<and> bs = identity_bytes i)"
    unfolding identity_fields_def
    by (intro sound_end_intros)
      (use unat_u16_bound unat_u32_bound in \<open>auto simp: identity_fields_wf_def secrets_wf_def identity_bytes_def
        package_flags_iff split: if_splits\<close>)
qed

section \<open>Packages the encoder writes\<close>

definition master_statement :: "prims \<Rightarrow> bytes \<Rightarrow> identity_secrets \<Rightarrow> bytes" where
  "master_statement P user_id s =
     MASTER_SIGNATURE_DOMAIN @ frames [user_id, ed_public_of P (is_self_signing s), ed_public_of P (is_user_signing s)]"

definition identity_of :: "prims \<Rightarrow> bytes \<Rightarrow> identity_secrets \<Rightarrow> bytes \<Rightarrow> bytes \<Rightarrow> identity_package" where
  "identity_of P user_id s recovery_secret backup =
     \<lparr>ip_user_id = user_id, ip_master_public = ed_public_of P (is_master s),
      ip_self_signing_public = ed_public_of P (is_self_signing s),
      ip_master_signature = ed_sign_raw P (is_master s) (master_statement P user_id s),
      ip_secrets = s, ip_recovery_secret = recovery_secret, ip_backup = backup\<rparr>"

definition package_bytes :: "prims \<Rightarrow> bytes \<Rightarrow> identity_secrets \<Rightarrow> bytes \<Rightarrow> bytes \<Rightarrow> bytes" where
  "package_bytes P user_id s recovery_secret backup =
     identity_bytes (identity_of P user_id s recovery_secret backup, ed_public_of P (is_user_signing s))"

lemma encode_master_signature_total:
  assumes "length (ci_user_id i) + length (ci_self_signing_public i) + length (ci_user_signing_public i) \<le> 1000000"
  shows "encode_master_signature i = Ok (MASTER_SIGNATURE_DOMAIN @ frames (master_fields i))"
  using assms
  by (simp add: encode_master_signature_def encoder_new_def encoder_field_def usize_checked_add_def try_from_usize_def
      MAX_INPUT_BYTES_def MASTER_SIGNATURE_DOMAIN_def master_fields_def frame_def)

lemma master_statement_encoded:
  assumes "sized_prims P" and "length user_id = 16"
  shows "encode_master_signature \<lparr>ci_user_id = user_id, ci_self_signing_public = ed_public_of P (is_self_signing s),
      ci_user_signing_public = ed_public_of P (is_user_signing s)\<rparr> = Ok (master_statement P user_id s)"
    and "length (master_statement P user_id s) \<le> MAX_INPUT_BYTES"
  using assms sized_primsD(1) [OF assms(1)]
  by (simp_all add: encode_master_signature_total master_fields_def master_statement_def MASTER_SIGNATURE_DOMAIN_def
      MAX_INPUT_BYTES_def)

lemma encode_identity_package_Ok_iff:
  assumes "sized_prims P" and "length user_id = 16"
  shows "encode_identity_package P user_id s r b = Ok bs \<longleftrightarrow>
    length r < 2 ^ 16 \<and> length b < 2 ^ 32 \<and> bs = package_bytes P user_id s r b"
  using master_statement_encoded [OF assms, of s]
  by (auto simp: encode_identity_package_def Let_def ed25519_sign_def bounded_defs package_bytes_def identity_bytes_def
      identity_of_def try_from_usize_def)

lemma parse_package_bytes:
  assumes P: "sized_prims P" "signatures_verify P" and wf: "length user_id = 16" "secrets_wf s" "length r < 2 ^ 16" "length b < 2 ^ 32"
  shows "parse_identity_package P (package_bytes P user_id s r b) = Ok (identity_of P user_id s r b)"
proof -
  let ?i = "(identity_of P user_id s r b, ed_public_of P (is_user_signing s))"
  have "identity_fields_wf P ?i"
    using wf sized_primsD(1,2) [OF P(1)] by (simp add: identity_fields_wf_def identity_of_def)
  moreover have "length (identity_bytes ?i) < 2 ^ 64"
    using wf sized_primsD(1,2) [OF P(1)]
    by (simp add: identity_bytes_def identity_of_def secrets_wf_def IDENTITY_PACKAGE_MAGIC_def)
  ultimately have "run_parser (identity_fields P) (package_bytes P user_id s r b) = Ok ?i"
    unfolding package_bytes_def by (simp add: identity_codec.run_iff)
  moreover have "ed25519_verify P (ed_public_of P (is_master s)) (master_statement P user_id s)
      (ed_sign_raw P (is_master s) (master_statement P user_id s)) = Ok ()"
    using P(2) master_statement_encoded(2) [OF P(1) wf(1)] by (simp add: ed25519_verify_Ok_iff signatures_verify_def)
  ultimately show ?thesis
    by (simp add: parse_identity_package_def identity_of_def master_statement_encoded [OF P(1) wf(1)])
qed

lemma parse_identity_wf:
  assumes "parse_identity_package P package = Ok identity" and "length package < 2 ^ 64"
  shows "length (ip_user_id identity) = 16" and "secrets_wf (ip_secrets identity)"
  using assms by (auto simp: parse_identity_package_def identity_codec.run_iff identity_fields_wf_def elim!: rbind_OkE)

lemma sanitize_eq:
  assumes P: "sized_prims P" and parsed: "parse_identity_package P package = Ok identity" "length (ip_user_id identity) = 16"
  shows "sanitize_identity_package P package = Ok (package_bytes P (ip_user_id identity) (ip_secrets identity) [] [])"
  using encode_identity_package_Ok_iff [OF P parsed(2)] by (simp add: sanitize_identity_package_def parsed(1))

section \<open>The backup opens\<close>

lemma backup_fields_reads:
  assumes "length salt = 16" and "length nonce = 24" and "length ciphertext = 136" and "200 \<le> n"
  shows "reads (backup_fields n) (backup_header salt nonce 136 @ ciphertext) (salt, nonce, ciphertext)"
  unfolding backup_fields_def backup_header_def
  by (rule reads_last, simp only: append_assoc, intro reads_intros)
    (use assms in \<open>auto simp: identity_constants\<close>)

lemma backup_plaintext_reads:
  assumes "length user_id = 16" and "secrets_wf s"
  shows "reads_to_end (backup_plaintext user_id)
    (IDENTITY_PLAINTEXT_MAGIC @ user_id @ is_master s @ is_self_signing s @ is_user_signing s) s"
  unfolding backup_plaintext_def
  by (rule reads_to_end_last, simp only: append_assoc, intro ends_intros)
    (use assms in \<open>auto simp: identity_constants secrets_wf_def\<close>)

lemma backup_opens:
  assumes P: "aead_correct P" and wf: "length user_id = 16" "secrets_wf s"
    and made: "encrypt_backup P user_id s r tape = Ok (backup, rest)"
  shows "length backup = 4096" and "decrypt_backup P user_id r backup = Ok s"
proof -
  let ?plain = "IDENTITY_PLAINTEXT_MAGIC @ user_id @ is_master s @ is_self_signing s @ is_user_signing s"
  have plain: "length ?plain = 120" using wf by (simp add: secrets_wf_def identity_constants)
  have sum: "usize_checked_add 120 16 = Some 136" "try_from_usize 136 = Some (136 :: u32)"
    by (simp_all add: usize_checked_add_def try_from_usize_def)
  from made obtain salt nonce key ct padding where
    salt: "length salt = 16" "length nonce = 24"
    and key: "length r \<le> MAX_PASSWORD_BYTES" "argon2id P r salt = Ok key"
    and ct: "xchacha20poly1305_encrypt P key nonce ?plain (backup_aad (backup_header salt nonce 136) user_id) = Ok ct"
    and padding: "length padding = BACKUP_BUCKET_BYTES - length (backup_header salt nonce 136 @ ct)"
    and backup: "backup = (backup_header salt nonce 136 @ ct) @ padding"
    unfolding encrypt_backup_def Let_def
    by (auto simp: random_bytes_Ok_iff secret_vec_Ok_iff bounded_defs IDENTITY_PLAINTEXT_BYTES_def sum ret_apply
        elim!: monad_elims split: if_splits)
  let ?header = "backup_header salt nonce 136"
  have header: "length ?header = 64" using salt by (simp add: backup_header_def identity_constants)
  obtain ct' where "xchacha20poly1305_encrypt P key nonce ?plain (backup_aad ?header user_id) = Ok ct'" "length ct' = 136"
    "xchacha20poly1305_decrypt P key nonce ct' (backup_aad ?header user_id) = Ok ?plain"
    by (rule xchacha_round_trip [OF P, of ?plain "backup_aad ?header user_id"])
      (use plain header wf in \<open>simp_all add: MAX_INPUT_BYTES_def backup_aad_def identity_constants\<close>)
  with ct have len: "length ct = 136" and decrypt: "xchacha20poly1305_decrypt P key nonce ct (backup_aad ?header user_id) = Ok ?plain"
    by simp_all
  show size: "length backup = 4096" using header len padding by (simp add: backup identity_constants)
  have "backup_fields 4096 (reader_new backup) = Ok ((salt, nonce, ct), advance (length (?header @ ct)) (reader_new backup))"
    by (rule readsD [OF backup_fields_reads, where tail = padding]) (use salt len size in \<open>simp_all add: backup\<close>)
  moreover have "run_parser (backup_plaintext user_id) ?plain = Ok s"
    using reads_to_end_new [OF backup_plaintext_reads [OF wf]] plain by (simp add: run_parser_def)
  moreover have "take 64 backup = ?header" by (simp add: backup header)
  ultimately show "decrypt_backup P user_id r backup = Ok s"
    using key decrypt by (simp add: decrypt_backup_def size run_parser_def [of "backup_fields 4096"] bounded_defs BACKUP_HEADER_BYTES_def)
qed

section \<open>Recovery\<close>

lemma with_new_recovery_Ok:
  assumes P: "sized_prims P" "signatures_verify P" "aead_correct P" and wf: "length user_id = 16" "secrets_wf s"
    and made: "with_new_recovery P user_id s tape = Ok (package, rest)"
  obtains entropy r b where "length entropy = RECOVERY_ENTROPY_BYTES" and "encode_recovery_secret P entropy = Ok r"
    and "parse_identity_package P package = Ok (identity_of P user_id s r b)"
    and "decrypt_backup P user_id r b = Ok s" and "package = package_bytes P user_id s r b"
proof -
  from made obtain entropy r b tape1 tape2 where
    entropy: "length entropy = RECOVERY_ENTROPY_BYTES" and r: "encode_recovery_secret P entropy = Ok r"
    and b: "encrypt_backup P user_id s r tape1 = Ok (b, tape2)"
    and package: "encode_identity_package P user_id s r b = Ok package"
    unfolding with_new_recovery_def by (auto simp: random_bytes_Ok_iff elim!: monad_elims)
  from package have size: "length r < 2 ^ 16" "length b < 2 ^ 32" "package = package_bytes P user_id s r b"
    by (simp_all add: encode_identity_package_Ok_iff [OF P(1) wf(1)])
  show thesis
    using that [OF entropy r _ backup_opens(2) [OF P(3) wf b] size(3)] parse_package_bytes [OF P(1,2) wf size(1,2)]
    by (simp add: size(3))
qed

text \<open>A printed secret is read back as it is.\<close>

lemma normalize_printed:
  assumes P: "sized_prims P" and "length entropy = RECOVERY_ENTROPY_BYTES" and r: "encode_recovery_secret P entropy = Ok r"
  shows "normalize_recovery_secret P r = Ok r"
proof -
  have r_eq: "r = group_recovery_secret (crockford_encode (entropy @ take 2 (sha256_raw P entropy)))"
    using r assms(2) by (simp add: encode_recovery_secret_eq recovery_sizes MAX_INPUT_BYTES_def)
  have "utf8_valid r"
    unfolding r_eq by (intro utf8_valid_ascii group_recovery_secret_ascii ascii_spelled encoded_spelled)
  moreover obtain vs where "spells (compact_secret r) vs"
    using encoded_spelled spells_exists unfolding compact_recovery_secret [OF r] by metis
  ultimately show ?thesis using assms by (auto simp: normalize_iff [OF P])
qed

lemma restore_eq:
  assumes P: "sized_prims P" and "length user_id = 16" and "normalize_recovery_secret P input = Ok r"
    and "decrypt_backup P user_id r b = Ok s"
  shows "restore_identity P user_id input b = Ok (package_bytes P user_id s [] [])"
  using assms encode_identity_package_Ok_iff [OF P assms(2)] by (simp add: restore_identity_def raw_uuid_def fixed_def)

text \<open>
  What a package with a fresh recovery secret promises: it parses, its recovery secret in any accepted
  spelling opens its backup, and the restored package is the package without secret and backup.
\<close>

definition recoverable :: "prims \<Rightarrow> bytes \<Rightarrow> identity_package \<Rightarrow> bool" where
  "recoverable P package identity \<longleftrightarrow>
     parse_identity_package P package = Ok identity
     \<and> normalize_recovery_secret P (ip_recovery_secret identity) = Ok (ip_recovery_secret identity)
     \<and> (\<exists>restored. sanitize_identity_package P package = Ok restored
         \<and> (\<forall>input. normalize_recovery_secret P input = Ok (ip_recovery_secret identity) \<longrightarrow>
              restore_identity P (ip_user_id identity) input (ip_backup identity) = Ok restored))"

lemma with_new_recovery_recoverable:
  assumes P: "sized_prims P" "signatures_verify P" "aead_correct P" and wf: "length user_id = 16" "secrets_wf s"
    and made: "with_new_recovery P user_id s tape = Ok (package, rest)"
  shows "\<exists>identity. recoverable P package identity \<and> ip_user_id identity = user_id \<and> ip_secrets identity = s
    \<and> sanitize_identity_package P package = Ok (package_bytes P user_id s [] [])"
proof -
  obtain entropy r b where e: "length entropy = RECOVERY_ENTROPY_BYTES" "encode_recovery_secret P entropy = Ok r"
    and parse: "parse_identity_package P package = Ok (identity_of P user_id s r b)"
    and open_: "decrypt_backup P user_id r b = Ok s"
    using with_new_recovery_Ok [OF assms] by blast
  have sel: "ip_user_id (identity_of P user_id s r b) = user_id" "ip_secrets (identity_of P user_id s r b) = s"
    "ip_recovery_secret (identity_of P user_id s r b) = r" "ip_backup (identity_of P user_id s r b) = b"
    by (simp_all add: identity_of_def)
  have "sanitize_identity_package P package = Ok (package_bytes P user_id s [] [])"
    using sanitize_eq [OF P(1) parse] wf(1) by (simp add: sel)
  then show ?thesis
    using parse normalize_printed [OF P(1) e] restore_eq [OF P(1) wf(1) _ open_]
    by (intro exI [of _ "identity_of P user_id s r b"]) (simp add: recoverable_def sel)
qed

text \<open>Argon2id accepts every password and a salt of 16 bytes.\<close>

definition argon2_total :: "prims \<Rightarrow> bool" where
  "argon2_total P \<longleftrightarrow> (\<forall>password salt. length salt = 16 \<longrightarrow> argon2id_raw P password salt \<noteq> None)"

lemma length_join_hyphen: "length (join_hyphen ps) \<le> length (concat ps) + length ps"
  by (induction ps rule: join_hyphen.induct) simp_all

lemma length_chunks: "0 < n \<Longrightarrow> length (chunks n xs) \<le> length xs"
proof (induction n xs rule: chunks.induct)
  case (1 n xs)
  then show ?case by (cases xs) (auto simp: chunks.simps [of n "[]"] chunks.simps [of n "_ # _"])
qed

lemma length_crockford_encode: "length (crockford_encode bs) \<le> 2 * length bs + 1"
proof -
  obtain vs k where vs: "spells (crockford_encode bs) vs" "k < 5" "value_bits vs = byte_bits bs @ replicate k False"
    using crockford_encode_bits by blast
  then have "length (value_bits vs) = length (byte_bits bs @ replicate k False)" by simp
  then have "5 * length vs = 8 * length bs + k" by simp
  with vs(2) spells_length [OF vs(1)] show ?thesis by linarith
qed

lemma recovery_secret_total:
  assumes "length entropy = RECOVERY_ENTROPY_BYTES"
  shows "\<exists>r. encode_recovery_secret P entropy = Ok r \<and> length r \<le> 138"
proof -
  let ?s = "crockford_encode (entropy @ take 2 (sha256_raw P entropy))"
  have "length ?s \<le> 69" using length_crockford_encode [of "entropy @ take 2 (sha256_raw P entropy)"] assms
    by (simp add: recovery_sizes)
  moreover have "length (group_recovery_secret ?s) \<le> 2 * length ?s"
    using length_join_hyphen [of "chunks 5 ?s"] length_chunks [of 5 ?s]
    by (simp add: group_recovery_secret_eq [OF ascii_spelled [OF encoded_spelled]] concat_chunks)
  ultimately show ?thesis
    using assms by (simp add: encode_recovery_secret_eq recovery_sizes MAX_INPUT_BYTES_def)
qed

lemma random_bytes_total: "n \<le> MAX_INPUT_BYTES \<Longrightarrow> n \<le> length tape \<Longrightarrow> random_bytes n tape = Ok (take n tape, drop n tape)"
  by (simp add: random_bytes_def fill_def)

lemma encrypt_backup_total:
  assumes P: "aead_correct P" "argon2_total P" and wf: "length user_id = 16" "secrets_wf s" "length r \<le> MAX_PASSWORD_BYTES"
    and tape: "3936 \<le> length tape"
  shows "\<exists>backup rest. encrypt_backup P user_id s r tape = Ok (backup, rest) \<and> length rest = length tape - 3936"
proof -
  let ?plain = "IDENTITY_PLAINTEXT_MAGIC @ user_id @ is_master s @ is_self_signing s @ is_user_signing s"
  let ?salt = "take 16 tape" and ?nonce = "take 24 (drop 16 tape)"
  let ?header = "backup_header ?salt ?nonce 136"
  have plain: "length ?plain = 120" using wf by (simp add: secrets_wf_def identity_constants)
  have header: "length ?header = 64" using tape by (simp add: backup_header_def identity_constants)
  have sum: "usize_checked_add 120 16 = Some 136" "try_from_usize 136 = Some (136 :: u32)"
    by (simp_all add: usize_checked_add_def try_from_usize_def)
  have "argon2id_raw P r ?salt \<noteq> None" using P(2) tape by (simp add: argon2_total_def)
  then obtain key where key: "argon2id P r ?salt = Ok key" using wf(3) by (auto simp: argon2id_def bounded_defs)
  obtain ct where ct: "xchacha20poly1305_encrypt P key ?nonce ?plain (backup_aad ?header user_id) = Ok ct" "length ct = 136"
    by (rule xchacha_round_trip [OF P(1), of ?plain "backup_aad ?header user_id"])
      (use plain header wf in \<open>simp_all add: MAX_INPUT_BYTES_def backup_aad_def identity_constants\<close>)
  have "encrypt_backup P user_id s r tape =
      Ok ((?header @ ct) @ take 3896 (drop 40 tape), drop 3896 (drop 40 tape))"
    using tape plain wf(3)
    by (simp add: encrypt_backup_def Let_def sbind_Ok [OF random_bytes_total] MAX_INPUT_BYTES_def bounded_defs sum ret_apply
        IDENTITY_PLAINTEXT_BYTES_def BACKUP_BUCKET_BYTES_def header key) 
      (subst ct(1), simp add: ct(2) sbind_Ok [OF random_bytes_total] MAX_INPUT_BYTES_def ret_apply)
  with tape show ?thesis by simp
qed

lemma with_new_recovery_total:
  assumes P: "sized_prims P" "aead_correct P" "argon2_total P" and wf: "length user_id = 16" "secrets_wf s"
    and tape: "3968 \<le> length tape"
  shows "\<exists>package rest. with_new_recovery P user_id s tape = Ok (package, rest)"
proof -
  have "length (take 32 tape) = RECOVERY_ENTROPY_BYTES" using tape by (simp add: recovery_sizes)
  from recovery_secret_total [OF this, of P] obtain r where r: "encode_recovery_secret P (take 32 tape) = Ok r" "length r \<le> 138"
    by blast
  obtain b rest where b: "encrypt_backup P user_id s r (drop 32 tape) = Ok (b, rest)"
    using encrypt_backup_total [OF P(2,3) wf, of r "drop 32 tape"] r(2) tape by (fastforce simp: MAX_PASSWORD_BYTES_def)
  moreover have "length b = 4096" by (rule backup_opens(1) [OF P(2) wf b])
  ultimately show ?thesis
    using tape r encode_identity_package_Ok_iff [OF P(1) wf(1), of s r b "package_bytes P user_id s r b"]
    by (simp add: with_new_recovery_def sbind_Ok [OF random_bytes_total] recovery_sizes MAX_INPUT_BYTES_def sbind_Ok [of "encrypt_backup P user_id s r", OF b])
qed

lemma prepare_first_identity_total:
  assumes P: "sized_prims P" "aead_correct P" "argon2_total P" and "length user = 16" and tape: "4064 \<le> length tape"
  shows "\<exists>package rest. prepare_first_identity P user tape = Ok (package, rest)"
  using with_new_recovery_total [OF P assms(4), of "\<lparr>is_master = take 32 tape, is_self_signing = take 32 (drop 32 tape),
      is_user_signing = take 32 (drop 64 tape)\<rparr>" "drop 96 tape"] assms(4) tape
  by (simp add: prepare_first_identity_def raw_uuid_def fixed_def sbind_Ok [OF random_bytes_total] MAX_INPUT_BYTES_def
      secrets_wf_def)

lemma example_argon2: "argon2_total example_prims"
  by (simp add: argon2_total_def example_prims_def)

text \<open>
  C20: an account can be recovered. When a first identity was prepared for a user, its package parses
  to an identity of that user, and restoring from the package's backup with its recovery secret, in whatever spelling
  normalizes to it, returns exactly the package stripped of secret and backup: the same keys and the same master
  signature.
\<close>

theorem first_identity_recoverable:
  assumes "sized_prims P" and "signatures_verify P" and "aead_correct P"
    and "prepare_first_identity P user tape = Ok (package, rest)"
  shows "\<exists>identity. recoverable P package identity \<and> ip_user_id identity = user"
proof -
  from assms(4) obtain m s u tape1 where user: "length user = 16" and sizes: "length m = 32" "length s = 32" "length u = 32"
    and made: "with_new_recovery P user \<lparr>is_master = m, is_self_signing = s, is_user_signing = u\<rparr> tape1 = Ok (package, rest)"
    by (auto simp: prepare_first_identity_def raw_uuid_def random_bytes_Ok_iff elim!: monad_elims)
  from with_new_recovery_recoverable [OF assms(1-3) user _ made] sizes show ?thesis by (auto simp: secrets_wf_def)
qed

theorem first_identity_recoverable_witness:
  "\<exists>package rest identity. prepare_first_identity example_prims (replicate 16 1) (replicate 4064 7) = Ok (package, rest)
     \<and> recoverable example_prims package identity \<and> ip_user_id identity = replicate 16 1"
proof -
  obtain package rest where made: "prepare_first_identity example_prims (replicate 16 1) (replicate 4064 7) = Ok (package, rest)"
    using prepare_first_identity_total [OF example_sized example_aead example_argon2, of "replicate 16 1" "replicate 4064 7"]
    by auto
  with first_identity_recoverable [OF example_sized example_signatures example_aead made] show ?thesis by blast
qed

text \<open>
  C22: replacing the recovery secret keeps the identity. The new package parses to an identity with the same user and the
  same three secrets, it is recoverable with its own new secret, and stripped of secret and backup it is byte for byte
  the old package stripped of them.
\<close>

theorem recovery_rotation_keeps_identity:
  assumes "sized_prims P" and "signatures_verify P" and "aead_correct P" and "length package < 2 ^ 64"
    and "parse_identity_package P package = Ok identity"
    and "rotate_recovery_secret P package tape = Ok (package', rest)"
  shows "\<exists>identity'. recoverable P package' identity' \<and> ip_user_id identity' = ip_user_id identity
    \<and> ip_secrets identity' = ip_secrets identity
    \<and> sanitize_identity_package P package' = sanitize_identity_package P package"
proof -
  note wf = parse_identity_wf [OF assms(5,4)]
  have "with_new_recovery P (ip_user_id identity) (ip_secrets identity) tape = Ok (package', rest)"
    using assms(6) by (simp add: rotate_recovery_secret_def assms(5))
  from with_new_recovery_recoverable [OF assms(1-3) wf this] show ?thesis
    using sanitize_eq [OF assms(1,5) wf(1)] by auto
qed

definition sample_secrets :: identity_secrets where
  "sample_secrets = \<lparr>is_master = replicate 32 1, is_self_signing = replicate 32 2, is_user_signing = replicate 32 3\<rparr>"

definition sample_identity_package :: bytes where
  "sample_identity_package = package_bytes example_prims (replicate 16 1) sample_secrets [] []"

lemma sample_identity_parses:
  "parse_identity_package example_prims sample_identity_package = Ok (identity_of example_prims (replicate 16 1) sample_secrets [] [])"
  unfolding sample_identity_package_def
  by (rule parse_package_bytes [OF example_sized example_signatures]) (simp_all add: secrets_wf_def sample_secrets_def)

lemma length_sample_identity: "length sample_identity_package = 287"
  by (simp add: sample_identity_package_def package_bytes_def identity_bytes_def identity_of_def sample_secrets_def
      example_prims_def IDENTITY_PACKAGE_MAGIC_def)

theorem recovery_rotation_keeps_identity_witness:
  "\<exists>package' rest identity'. rotate_recovery_secret example_prims sample_identity_package (replicate 4000 9) = Ok (package', rest)
     \<and> recoverable example_prims package' identity' \<and> ip_secrets identity' = sample_secrets"
proof -
  have len: "length sample_identity_package < 2 ^ 64" by (simp add: length_sample_identity)
  obtain package' rest where made: "rotate_recovery_secret example_prims sample_identity_package (replicate 4000 9) = Ok (package', rest)"
    using with_new_recovery_total [OF example_sized example_aead example_argon2, of "replicate 16 1" sample_secrets "replicate 4000 9"]
    by (auto simp: rotate_recovery_secret_def sample_identity_parses identity_of_def secrets_wf_def sample_secrets_def)
  have "ip_secrets (identity_of example_prims (replicate 16 1) sample_secrets [] []) = sample_secrets"
    by (simp add: identity_of_def)
  with recovery_rotation_keeps_identity [OF example_sized example_signatures example_aead len sample_identity_parses made] made
  show ?thesis by auto
qed

end
