(* ===== verification/Device_Label.thy ===== *)
theory Device_Label
  imports Identity_Package
begin

text \<open>
  The account-private labels of devices (\<^verbatim>\<open>seal_device_label\<close> and \<^verbatim>\<open>open_device_label\<close> of \<^verbatim>\<open>enrollment.rs\<close>): a
  label of at most 64 characters is padded, sealed under a key derived from the self-signing secret and bound to
  its user and device.
\<close>

section \<open>Sealing and opening\<close>

definition DEVICE_LABEL_BUCKET_BYTES :: nat where "DEVICE_LABEL_BUCKET_BYTES = 256"
definition DEVICE_LABEL_MAGIC :: bytes where "DEVICE_LABEL_MAGIC = ascii ''CPLBV001''"
definition DEVICE_LABEL_PLAINTEXT_MAGIC :: bytes where "DEVICE_LABEL_PLAINTEXT_MAGIC = ascii ''CPLPV001''"
definition DEVICE_LABEL_DOMAIN :: bytes where "DEVICE_LABEL_DOMAIN = ascii ''chat:v1:device-label''"
definition DEVICE_LABEL_KEY_DOMAIN :: bytes where "DEVICE_LABEL_KEY_DOMAIN = ascii ''chat:v1:device-label-key''"
definition DEVICE_LABEL_PLAINTEXT_BYTES :: nat where "DEVICE_LABEL_PLAINTEXT_BYTES = 160"
definition DEVICE_LABEL_MAX_BYTES :: nat where "DEVICE_LABEL_MAX_BYTES = 128"
definition DEVICE_LABEL_MAX_SCALARS :: nat where "DEVICE_LABEL_MAX_SCALARS = 64"

lemmas label_constants =
  DEVICE_LABEL_BUCKET_BYTES_def DEVICE_LABEL_MAGIC_def DEVICE_LABEL_PLAINTEXT_MAGIC_def DEVICE_LABEL_DOMAIN_def
  DEVICE_LABEL_KEY_DOMAIN_def DEVICE_LABEL_PLAINTEXT_BYTES_def DEVICE_LABEL_MAX_BYTES_def DEVICE_LABEL_MAX_SCALARS_def

definition device_label_aad :: "bytes \<Rightarrow> bytes \<Rightarrow> bytes \<Rightarrow> bytes" where
  "device_label_aad header user_id device_id = DEVICE_LABEL_DOMAIN @ header @ user_id @ device_id"

definition label_content :: "u16 \<Rightarrow> bytes \<Rightarrow> bytes" where
  "label_content label_len label = DEVICE_LABEL_PLAINTEXT_MAGIC @ u16_bytes label_len @ label"

definition label_header :: "bytes \<Rightarrow> u16 \<Rightarrow> bytes" where
  "label_header nonce ciphertext_len = DEVICE_LABEL_MAGIC @ [1] @ nonce @ u16_bytes ciphertext_len"

definition device_label_key :: "prims \<Rightarrow> bytes \<Rightarrow> identity_package \<Rightarrow> bytes cresult" where
  "device_label_key P user_id identity =
     rbind (secret_vec_from_slice (is_self_signing (ip_secrets identity)) 32) (\<lambda>key_material.
     rbind (provider_hkdf_sha256 P user_id key_material DEVICE_LABEL_KEY_DOMAIN) (\<lambda>derived.
     ok_or (if length derived = 32 then Some derived else None) InternalFailure))"

definition seal_device_label :: "prims \<Rightarrow> bytes \<Rightarrow> bytes \<Rightarrow> bytes \<Rightarrow> bytes \<Rightarrow> bytes ent" where
  "seal_device_label P package user device label =
     sbind (slift (parse_identity_package P package)) (\<lambda>identity.
     sbind (slift (raw_uuid user)) (\<lambda>user_id.
     sbind (slift (raw_uuid device)) (\<lambda>device_id.
     sbind (slift (reject_if (ip_user_id identity \<noteq> user_id \<or> label = [] \<or> length label > DEVICE_LABEL_MAX_BYTES)
         InvalidArgument)) (\<lambda>_.
     sbind (slift (ok_or (utf8_chars label) MalformedInput)) (\<lambda>chars.
     sbind (slift (reject_if (length chars > DEVICE_LABEL_MAX_SCALARS) InvalidArgument)) (\<lambda>_.
     sbind (slift (device_label_key P user_id identity)) (\<lambda>key.
     sbind (random_bytes 24) (\<lambda>nonce.
     sbind (slift (ok_or (try_from_usize (length label)) InputTooLarge)) (\<lambda>label_len :: u16.
     let content = label_content label_len label in
     sbind (random_bytes (DEVICE_LABEL_PLAINTEXT_BYTES - length content)) (\<lambda>padding.
     sbind (slift (secret_vec_from_vec (content @ padding) DEVICE_LABEL_PLAINTEXT_BYTES)) (\<lambda>plaintext.
     sbind (slift (ok_or (try_from_usize (DEVICE_LABEL_PLAINTEXT_BYTES + 16)) InputTooLarge)) (\<lambda>ciphertext_len :: u16.
     let header = label_header nonce ciphertext_len;
         aad = device_label_aad header user_id device_id in
     sbind (slift (xchacha20poly1305_encrypt P key nonce plaintext aad)) (\<lambda>ciphertext.
     let output = header @ ciphertext in
     sbind (random_bytes (DEVICE_LABEL_BUCKET_BYTES - length output)) (\<lambda>tail.
     ret (output @ tail)))))))))))))))"

definition label_header_fields :: "(bytes \<times> u16) parser" where
  "label_header_fields =
     sbind (reader_take (length DEVICE_LABEL_MAGIC)) (\<lambda>magic.
     sbind (slift (reject_if (magic \<noteq> DEVICE_LABEL_MAGIC) MalformedInput)) (\<lambda>_.
     sbind reader_u8 (\<lambda>version.
     sbind (slift (reject_if (version \<noteq> 1) UnsupportedVersion)) (\<lambda>_.
     sbind (reader_array 24) (\<lambda>nonce.
     sbind reader_u16 (\<lambda>ciphertext_len.
     sbind (slift (reject_if (unat ciphertext_len \<noteq> DEVICE_LABEL_PLAINTEXT_BYTES + 16) MalformedInput)) (\<lambda>_.
     ret (nonce, ciphertext_len))))))))"

definition label_blob_fields :: "(bytes \<times> nat \<times> bytes) parser" where
  "label_blob_fields =
     sbind label_header_fields (\<lambda>(nonce, ciphertext_len).
     sbind (\<lambda>r. Ok (reader_position r, r)) (\<lambda>header_len.
     sbind (reader_take (unat ciphertext_len)) (\<lambda>ciphertext.
     ret (nonce, header_len, ciphertext))))"

definition label_plaintext_fields :: "bytes parser" where
  "label_plaintext_fields =
     sbind (reader_take (length DEVICE_LABEL_PLAINTEXT_MAGIC)) (\<lambda>magic.
     sbind (slift (reject_if (magic \<noteq> DEVICE_LABEL_PLAINTEXT_MAGIC) MalformedInput)) (\<lambda>_.
     sbind reader_u16 (\<lambda>label_len.
     sbind (slift (reject_if (unat label_len = 0 \<or> unat label_len > DEVICE_LABEL_MAX_BYTES) MalformedInput)) (\<lambda>_.
     reader_take (unat label_len)))))"

definition open_device_label :: "prims \<Rightarrow> bytes \<Rightarrow> bytes \<Rightarrow> bytes \<Rightarrow> bytes \<Rightarrow> bytes cresult" where
  "open_device_label P package user device blob =
     rbind (reject_if (length blob \<noteq> DEVICE_LABEL_BUCKET_BYTES) MalformedInput) (\<lambda>_.
     rbind (parse_identity_package P package) (\<lambda>identity.
     rbind (raw_uuid user) (\<lambda>user_id.
     rbind (raw_uuid device) (\<lambda>device_id.
     rbind (reject_if (ip_user_id identity \<noteq> user_id) AuthenticationFailed) (\<lambda>_.
     rbind (run_parser label_blob_fields blob) (\<lambda>(nonce, header_len, ciphertext).
     rbind (device_label_key P user_id identity) (\<lambda>key.
     let aad = device_label_aad (take header_len blob) user_id device_id in
     rbind (xchacha20poly1305_decrypt P key nonce ciphertext aad) (\<lambda>plaintext.
     rbind (run_parser label_plaintext_fields plaintext) (\<lambda>label.
     rbind (ok_or (utf8_chars label) MalformedInput) (\<lambda>chars.
     rbind (reject_if (length chars > DEVICE_LABEL_MAX_SCALARS) MalformedInput) (\<lambda>_.
     Ok label)))))))))))"

section \<open>A sealed label opens\<close>

text \<open>The labels that can be sealed.\<close>

definition label_ok :: "bytes \<Rightarrow> bool" where
  "label_ok label \<longleftrightarrow> label \<noteq> [] \<and> length label \<le> 128 \<and> utf8_valid label \<and> char_count label \<le> 64"

lemma device_label_key_total:
  assumes P: "sized_prims P" and "length user_id = 16" and "secrets_wf (ip_secrets identity)"
  obtains key where "device_label_key P user_id identity = Ok key"
proof -
  obtain out where "hkdf256_raw P user_id (is_self_signing (ip_secrets identity)) DEVICE_LABEL_KEY_DOMAIN 32 = Some out"
      "length out = 32"
    by (rule sized_prims_hkdf [OF P, of 32]) auto
  with assms(2,3) that show thesis
    by (simp add: device_label_key_def provider_hkdf_sha256_def bounded_defs secrets_wf_def MAX_INPUT_BYTES_def label_constants)
qed

lemma length_label_parts:
  "length (label_content n label) = 10 + length label" "length nonce = 24 \<Longrightarrow> length (label_header nonce k) = 35"
  by (simp_all add: label_content_def label_header_def label_constants)

lemma label_header_reads: "length nonce = 24 \<Longrightarrow> reads label_header_fields (label_header nonce 176) (nonce, 176)"
  unfolding label_header_fields_def label_header_def
  by (rule reads_last, simp only: append_assoc, intro reads_intros) (auto simp: label_constants)

lemma label_blob_read:
  assumes "length nonce = 24" and "length ct = 176" and "length (label_header nonce 176 @ ct @ rest) < 2 ^ 64"
  shows "run_parser label_blob_fields (label_header nonce 176 @ ct @ rest) = Ok (nonce, 35, ct)"
proof -
  let ?r = "reader_new (label_header nonce 176 @ ct @ rest)"
  note header = length_label_parts(2) [OF assms(1), of 176]
  have "label_header_fields ?r = Ok ((nonce, 176), advance (length (label_header nonce 176)) ?r)"
    by (rule readsD [OF label_header_reads [OF assms(1)]]) (use assms(3) in simp_all)
  moreover have "reader_take 176 (advance 35 ?r) = Ok (ct, advance 176 (advance 35 ?r))"
    using assms(2,3) by (simp add: reader_take_def usize_checked_add_def advance_def reader_new_def header)
  ultimately show ?thesis unfolding header
    by (simp add: run_parser_def label_blob_fields_def sbind_def reader_position_def ret_apply)
      (simp add: advance_def reader_new_def)
qed

lemma label_plaintext_read:
  assumes label: "label_ok label" and "length padding = 150 - length label"
  shows "run_parser label_plaintext_fields (label_content (word_of_nat (length label)) label @ padding) = Ok label"
proof -
  have len: "unat (word_of_nat (length label) :: u16) = length label"
    using label by (simp add: label_ok_def unsigned_of_nat take_bit_nat_eq_self)
  have reads: "reads label_plaintext_fields (label_content (word_of_nat (length label)) label) label"
    unfolding label_plaintext_fields_def label_content_def
    by (intro reads_intros) (use label in \<open>auto simp: label_constants label_ok_def len reads_take\<close>)
  have "label_plaintext_fields (reader_new (label_content (word_of_nat (length label)) label @ padding))
      = Ok (label, advance (length (label_content (word_of_nat (length label)) label))
          (reader_new (label_content (word_of_nat (length label)) label @ padding)))"
    by (rule readsD [OF reads]) (use assms in \<open>simp_all add: length_label_parts label_ok_def\<close>)
  then show ?thesis by (simp add: run_parser_def)
qed

lemma seal_device_label_opens:
  assumes P: "aead_correct P" and parsed: "parse_identity_package P package = Ok identity" "length (ip_user_id identity) = 16"
    and key: "device_label_key P (ip_user_id identity) identity = Ok key"
    and device: "length device = 16" and tape: "250 \<le> length tape" and label: "label_ok label"
  shows "\<exists>blob rest. seal_device_label P package (ip_user_id identity) device label tape = Ok (blob, rest)
    \<and> length blob = 256 \<and> open_device_label P package (ip_user_id identity) device blob = Ok label"
proof -
  define nonce where "nonce = take 24 tape"
  define tape1 where "tape1 = drop 24 tape"
  define padding where "padding = take (150 - length label) tape1"
  define tape2 where "tape2 = drop (150 - length label) tape1"
  define tail where "tail = take 45 tape2"
  let ?user = "ip_user_id identity" and ?content = "label_content (word_of_nat (length label)) label"
  let ?aad = "device_label_aad (label_header nonce 176) (ip_user_id identity) device"
  have bounds: "label \<noteq> []" "length label \<le> 128" using label by (simp_all add: label_ok_def)
  obtain chars where chars: "utf8_chars label = Some chars" "length chars \<le> 64"
    using label by (auto simp: label_ok_def utf8_valid_def char_count_def)
  have lens: "length nonce = 24" "length padding = 150 - length label" "length tail = 45"
    using tape bounds by (simp_all add: nonce_def padding_def tail_def tape1_def tape2_def)
  note sizes = length_label_parts(1) length_label_parts(2) [OF lens(1)]
  obtain ct where ct: "xchacha20poly1305_encrypt P key nonce (?content @ padding) ?aad = Ok ct" "length ct = 176"
      "xchacha20poly1305_decrypt P key nonce ct ?aad = Ok (?content @ padding)"
    by (rule xchacha_round_trip [OF P, of "?content @ padding" ?aad])
      (use lens bounds parsed(2) device in \<open>simp_all add: device_label_aad_def MAX_INPUT_BYTES_def sizes label_constants\<close>)
  have room: "24 \<le> length tape" "150 - length label \<le> length tape1" "45 \<le> length tape2"
    using tape by (simp_all add: tape1_def tape2_def)
  have random: "random_bytes 24 tape = Ok (nonce, tape1)" "random_bytes (150 - length label) tape1 = Ok (padding, tape2)"
      "random_bytes 45 tape2 = Ok (tail, drop 45 tape2)"
    unfolding nonce_def padding_def tail_def tape1_def [symmetric] tape2_def [symmetric]
    using room by (simp_all add: random_bytes_total MAX_INPUT_BYTES_def tape1_def tape2_def)
  let ?blob = "(label_header nonce 176 @ ct) @ tail"
  have size: "length ?blob = 256" using ct(2) lens by (simp add: sizes)
  have "seal_device_label P package ?user device label tape = Ok (?blob, drop 45 tape2)"
    unfolding seal_device_label_def Let_def label_constants
    using bounds chars parsed(2) device lens
    by (simp add: parsed(1) raw_uuid_def fixed_def key try_from_usize_def bounded_defs sizes ct(1,2) ret_apply
        sbind_Ok [where m = "random_bytes 24", OF random(1)] sbind_Ok [where m = "random_bytes (150 - length label)", OF random(2)]
        sbind_Ok [where m = "random_bytes 45", OF random(3)])
  moreover have "open_device_label P package ?user device ?blob = Ok label"
    using label_blob_read [OF lens(1) ct(2), of tail] label_plaintext_read [OF label lens(2)] parsed(2) device size ct(3) chars
    unfolding open_device_label_def label_constants
    by (simp add: parsed(1) raw_uuid_def fixed_def key sizes)
  ultimately show ?thesis using size by blast
qed

text \<open>
  C38: device labels. With enough entropy, the labels that can be sealed with an identity package for its user are exactly
  the non-empty valid UTF-8 strings of at most 128 bytes and 64 characters; the sealed label has 256
  bytes whatever its length, and it opens for the same user and device to the label.
\<close>

theorem device_label_round_trip:
  assumes "sized_prims P" and "aead_correct P" and "length package < 2 ^ 64" and "parse_identity_package P package = Ok identity"
    and "length device = 16" and "250 \<le> length tape"
  shows "(label_ok label \<longleftrightarrow> (\<exists>blob rest. seal_device_label P package (ip_user_id identity) device label tape = Ok (blob, rest)))
    \<and> (\<forall>blob rest. seal_device_label P package (ip_user_id identity) device label tape = Ok (blob, rest) \<longrightarrow>
         length blob = 256 \<and> open_device_label P package (ip_user_id identity) device blob = Ok label)"
proof -
  note wf = parse_identity_wf [OF assms(4,3)]
  obtain key where key: "device_label_key P (ip_user_id identity) identity = Ok key"
    by (rule device_label_key_total [OF assms(1) wf])
  have "label_ok label" if "seal_device_label P package (ip_user_id identity) device label tape = Ok (blob, rest)" for blob rest
    using that by (auto simp: seal_device_label_def label_ok_def utf8_valid_def char_count_def label_constants elim!: monad_elims)
  with seal_device_label_opens [OF assms(2,4) wf(1) key assms(5,6)] show ?thesis by fastforce
qed

theorem device_label_round_trip_witness:
  "\<exists>blob rest. seal_device_label example_prims sample_identity_package (replicate 16 1) (replicate 16 2) (ascii ''Laptop'')
       (replicate 250 7) = Ok (blob, rest) \<and> length blob = 256
     \<and> open_device_label example_prims sample_identity_package (replicate 16 1) (replicate 16 2) blob = Ok (ascii ''Laptop'')"
proof -
  have "label_ok (ascii ''Laptop'')" by code_simp
  moreover have "length sample_identity_package < 2 ^ 64" by (simp add: length_sample_identity)
  moreover have "length (replicate 16 2 :: bytes) = 16" "250 \<le> length (replicate 250 7 :: bytes)" by simp_all
  ultimately show ?thesis
    using device_label_round_trip [OF example_sized example_aead _ sample_identity_parses, of "replicate 16 2" "replicate 250 7"
        "ascii ''Laptop''"]
    by (auto simp: identity_of_def)
qed

end
