(* ===== verification/Application_Operations.thy ===== *)
theory Application_Operations
  imports Application_Format Device_Label
begin

text \<open>
  The operations of \<^verbatim>\<open>application.rs\<close> that the client calls: encoding and decoding of events, event and conversation
  identifiers, device control messages and device labels, and their dispatcher.
\<close>

section \<open>Operations\<close>

definition encode_operation :: "minicbor \<Rightarrow> bytes \<Rightarrow> bytes cresult" where
  "encode_operation M input =
     rbind (decode_projection_request input) (\<lambda>event.
     rbind (encode_event M event) (\<lambda>encoded.
     Ok (ENCODE_RESPONSE_MAGIC @ encoded)))"

definition decode_operation :: "minicbor \<Rightarrow> bytes \<Rightarrow> bytes cresult" where
  "decode_operation M input =
     rbind (decode_event M input) (\<lambda>(event, unsupported_version).
     case unsupported_version of
       Some version \<Rightarrow> Ok (DECODE_RESPONSE_MAGIC @ [2] @ [version])
     | None \<Rightarrow>
         rbind (ok_or event InternalFailure) (\<lambda>event.
         encode_projection event (DECODE_RESPONSE_MAGIC @ [if ae_body event = Unsupported then 1 else 0])))"

definition random_event_id :: "bytes \<Rightarrow> bytes ent" where
  "random_event_id input =
     sbind (slift (reject_if (input \<noteq> []) InvalidArgument)) (\<lambda>_.
     sbind (random_bytes 16) (\<lambda>event_id.
     ret (RANDOM_RESPONSE_MAGIC @ event_id)))"

definition conversation_response :: "bytes \<Rightarrow> bytes cresult" where
  "conversation_response conversation_id = Ok (CONVERSATION_RESPONSE_MAGIC @ conversation_id)"

definition derive_dm_conversation_id :: "prims \<Rightarrow> bytes \<Rightarrow> bytes cresult" where
  "derive_dm_conversation_id P users =
     rbind (reject_if (length users \<noteq> 32) InvalidArgument) (\<lambda>_.
     let left = take 16 users; right = drop 16 users in
     rbind (reject_if (left = right) InvalidArgument) (\<lambda>_.
     rbind (sha256 P (DM_CONVERSATION_DOMAIN @ (if left < right then left @ right else right @ left))) conversation_response))"

definition derive_saved_conversation_id :: "prims \<Rightarrow> bytes \<Rightarrow> bytes cresult" where
  "derive_saved_conversation_id P input =
     rbind (reject_if (length input \<noteq> 16) InvalidArgument) (\<lambda>_.
     rbind (sha256 P (SAVED_CONVERSATION_DOMAIN @ input)) conversation_response)"

definition label_request :: "bytes \<Rightarrow> (bytes \<times> bytes \<times> bytes \<times> bytes) parser" where
  "label_request magic =
     sbind (reader_expect magic) (\<lambda>_.
     sbind reader_framed (\<lambda>identity.
     sbind (reader_take 16) (\<lambda>user_id.
     sbind (reader_take 16) (\<lambda>device_id.
     sbind reader_framed (\<lambda>content.
     sbind finished (\<lambda>fin.
     sbind (slift (reject_if (\<not> fin) MalformedInput)) (\<lambda>_.
     ret (identity, user_id, device_id, content))))))))"

definition seal_label_operation :: "prims \<Rightarrow> bytes \<Rightarrow> bytes ent" where
  "seal_label_operation P input =
     sbind (slift (run_parser (label_request LABEL_SEAL_REQUEST_MAGIC) input)) (\<lambda>(identity, user_id, device_id, label).
     sbind (seal_device_label P identity user_id device_id label) (\<lambda>blob.
     ret (LABEL_SEAL_RESPONSE_MAGIC @ blob)))"

definition open_label_operation :: "prims \<Rightarrow> bytes \<Rightarrow> bytes cresult" where
  "open_label_operation P input =
     rbind (run_parser (label_request LABEL_OPEN_REQUEST_MAGIC) input) (\<lambda>(identity, user_id, device_id, blob).
     rbind (open_device_label P identity user_id device_id blob) (\<lambda>label.
     push_frame LABEL_OPEN_RESPONSE_MAGIC label))"

section \<open>Device control messages\<close>

text \<open>The validator reads every field of a message and keeps none; the model returns what it read.\<close>

datatype control_body =
    GossipHeads "(bytes \<times> u64 \<times> bytes) list"
  | BatchPosition u32
  | HistoryBatch u32 bool u8 "bytes list"
  | TransferStatus u8

record device_control =
  dc_kind :: u8
  dc_event_id :: bytes
  dc_sender_user_id :: bytes
  dc_sender_device_id :: bytes
  dc_target_device_id :: bytes
  dc_transfer_id :: bytes
  dc_body :: control_body

definition gossip_head :: "(bytes \<times> u64 \<times> bytes) parser" where
  "gossip_head =
     sbind (reader_array 16) (\<lambda>user.
     sbind reader_u64 (\<lambda>sequence.
     sbind (reader_array 32) (\<lambda>hash.
     ret (user, sequence, hash))))"

definition gossip_heads :: "bool \<Rightarrow> control_body parser" where
  "gossip_heads addressed =
     sbind (slift (reject_if addressed MalformedInput)) (\<lambda>_.
     sbind reader_u8 (\<lambda>count.
     sbind (slift (reject_if (unat count = 0 \<or> unat count > MAX_DEVICE_GOSSIP_HEADS) InputTooLarge)) (\<lambda>_.
     sbind (repeat_s (unat count) gossip_head) (\<lambda>heads.
     sbind (slift (reject_if (has_duplicates (map fst heads)) MalformedInput)) (\<lambda>_.
     ret (GossipHeads heads))))))"

definition check_history_event :: "minicbor \<Rightarrow> bytes \<Rightarrow> unit cresult" where
  "check_history_event M bytes =
     rbind (decode_event M bytes) (\<lambda>(event, unsupported_version).
     rbind (ok_or event UnsupportedVersion) (\<lambda>event.
     if unsupported_version \<noteq> None
        \<or> (case ae_body event of Unsupported \<Rightarrow> True | TypingSet _ _ \<Rightarrow> True | _ \<Rightarrow> False)
     then Err MalformedInput
     else rbind (encode_event M event) (\<lambda>encoded. reject_if (encoded \<noteq> bytes) MalformedInput)))"

primrec history_events :: "minicbor \<Rightarrow> nat \<Rightarrow> nat \<Rightarrow> bytes list parser" where
  "history_events M 0 used = ret []"
| "history_events M (Suc n) used =
     sbind reader_framed (\<lambda>bytes.
     sbind (slift (ok_or (usize_checked_add used (length bytes)) InputTooLarge)) (\<lambda>used.
     sbind (slift (reject_if (used > MAX_HISTORY_BATCH_BYTES) InputTooLarge)) (\<lambda>_.
     sbind (slift (check_history_event M bytes)) (\<lambda>_.
     sbind (history_events M n used) (\<lambda>rest.
     ret (bytes # rest))))))"

definition history_batch :: "minicbor \<Rightarrow> bool \<Rightarrow> control_body parser" where
  "history_batch M unaddressed =
     sbind (slift (reject_if unaddressed MalformedInput)) (\<lambda>_.
     sbind reader_u32 (\<lambda>batch_index.
     sbind reader_boolean (\<lambda>final_batch.
     sbind reader_u8 (\<lambda>flag.
     sbind (slift (reject_if (flag > 1) MalformedInput)) (\<lambda>_.
     sbind reader_u16 (\<lambda>count.
     sbind (slift (reject_if (unat count = 0 \<or> unat count > MAX_HISTORY_BATCH_EVENTS) InputTooLarge)) (\<lambda>_.
     sbind (history_events M (unat count) 0) (\<lambda>events.
     ret (HistoryBatch batch_index final_batch flag events)))))))))"

definition batch_position :: "bool \<Rightarrow> control_body parser" where
  "batch_position unaddressed =
     sbind (slift (reject_if unaddressed MalformedInput)) (\<lambda>_.
     sbind reader_u32 (\<lambda>position.
     ret (BatchPosition position)))"

definition transfer_status :: "bool \<Rightarrow> control_body parser" where
  "transfer_status unaddressed =
     sbind (slift (reject_if unaddressed MalformedInput)) (\<lambda>_.
     sbind reader_u8 (\<lambda>status.
     sbind (slift (reject_if (status > 2) MalformedInput)) (\<lambda>_.
     ret (TransferStatus status))))"

definition control_body_fields :: "minicbor \<Rightarrow> u8 \<Rightarrow> bytes \<Rightarrow> bytes \<Rightarrow> control_body parser" where
  "control_body_fields M kind target_device_id transfer_id =
     (let zero = replicate 16 0;
          unaddressed = (target_device_id = zero \<or> transfer_id = zero) in
      if kind = 1 then gossip_heads (target_device_id \<noteq> zero \<or> transfer_id \<noteq> zero)
      else if kind = 2 \<or> kind = 4 then batch_position unaddressed
      else if kind = 3 then history_batch M unaddressed
      else if kind = 5 then transfer_status unaddressed
      else slift (Err UnsupportedOperation))"

definition device_control_fields :: "minicbor \<Rightarrow> device_control parser" where
  "device_control_fields M =
     sbind (reader_expect DEVICE_CONTROL_MAGIC) (\<lambda>_.
     sbind reader_u8 (\<lambda>version.
     sbind (slift (reject_if (version \<noteq> 1) UnsupportedVersion)) (\<lambda>_.
     sbind reader_u8 (\<lambda>kind.
     sbind (reader_array 16) (\<lambda>event_id.
     sbind (reader_array 16) (\<lambda>sender_user_id.
     sbind (reader_array 16) (\<lambda>sender_device_id.
     sbind (reader_array 16) (\<lambda>target_device_id.
     sbind (reader_array 16) (\<lambda>transfer_id.
     sbind (control_body_fields M kind target_device_id transfer_id) (\<lambda>body.
     sbind finished (\<lambda>fin.
     sbind (slift (reject_if (\<not> fin) MalformedInput)) (\<lambda>_.
     ret \<lparr>dc_kind = kind, dc_event_id = event_id, dc_sender_user_id = sender_user_id, dc_sender_device_id = sender_device_id,
          dc_target_device_id = target_device_id, dc_transfer_id = transfer_id, dc_body = body\<rparr>))))))))))))"

definition validate_device_control :: "minicbor \<Rightarrow> bytes \<Rightarrow> unit cresult" where
  "validate_device_control M input = rbind (run_parser (device_control_fields M) input) (\<lambda>_. Ok ())"

definition encode_device_control :: "minicbor \<Rightarrow> bytes \<Rightarrow> bytes cresult" where
  "encode_device_control M input =
     rbind (validate_device_control M input) (\<lambda>_. Ok (DEVICE_CONTROL_ENCODE_RESPONSE_MAGIC @ input))"

definition decode_device_control :: "minicbor \<Rightarrow> bytes \<Rightarrow> bytes cresult" where
  "decode_device_control M input =
     rbind (validate_device_control M input) (\<lambda>_. Ok (DEVICE_CONTROL_DECODE_RESPONSE_MAGIC @ input))"

definition application_operation :: "prims \<Rightarrow> minicbor \<Rightarrow> u32 \<Rightarrow> bytes \<Rightarrow> bytes ent" where
  "application_operation P M operation input =
     sbind (slift (reject_if (length input > APPLICATION_MAX_IO_BYTES) InputTooLarge)) (\<lambda>_.
     if operation = 1 then slift (encode_operation M input)
     else if operation = 2 then slift (decode_operation M input)
     else if operation = 3 then random_event_id input
     else if operation = 4 then slift (derive_dm_conversation_id P input)
     else if operation = 5 then slift (derive_saved_conversation_id P input)
     else if operation = 6 then slift (encode_device_control M input)
     else if operation = 7 then slift (decode_device_control M input)
     else if operation = 8 then seal_label_operation P input
     else if operation = 9 then slift (open_label_operation P input)
     else slift (Err UnsupportedOperation))"

section \<open>Encoding and decoding are inverse\<close>

lemma encode_operation_iff:
  assumes M: "minicbor_encodes M" and len: "length request < 2 ^ 64"
  shows "encode_operation M request = Ok response \<longleftrightarrow>
    (\<exists>e cbor. event_wf e \<and> request = ENCODE_REQUEST_MAGIC @ event_bytes e \<and> encode_event M e = Ok cbor
      \<and> response = ENCODE_RESPONSE_MAGIC @ cbor)"
  unfolding encode_operation_def decode_projection_request_def
  by (auto simp: rbind_Ok_iff whole_codec.run_iff [OF projection_request_codec len])

lemma encode_projection_unsupported:
  "ae_body e = Unsupported \<Longrightarrow> encode_projection e out = Ok res \<Longrightarrow> \<exists>rest. res = out @ rest"
  by (auto simp: encode_projection_def Let_def encode_projection_body_def push_u16_def push_u64_def elim!: rbind_OkE)

lemma decode_operation_supported_iff:
  assumes M: "minicbor_encodes M" "minicbor_decodes M"
  shows "decode_operation M cbor = Ok (DECODE_RESPONSE_MAGIC @ [0] @ projection) \<longleftrightarrow>
    (\<exists>e. event_wf e \<and> projection = event_bytes e \<and> encode_event M e = Ok cbor \<and> length projection + 9 \<le> APPLICATION_MAX_IO_BYTES)"
    (is "?run \<longleftrightarrow> ?rhs")
proof
  assume ?run
  then obtain event version where dec: "decode_event M cbor = Ok (event, version)"
    and rest: "(case version of Some v \<Rightarrow> Ok (DECODE_RESPONSE_MAGIC @ [2] @ [v])
      | None \<Rightarrow> rbind (ok_or event InternalFailure) (\<lambda>event.
         encode_projection event (DECODE_RESPONSE_MAGIC @ [if ae_body event = Unsupported then 1 else 0])))
       = Ok (DECODE_RESPONSE_MAGIC @ [0] @ projection)"
    by (auto simp: decode_operation_def elim!: rbind_OkE)
  have none: "version = None" using rest by (cases version) auto
  with rest obtain e where e: "event = Some e"
    and p: "encode_projection e (DECODE_RESPONSE_MAGIC @ [if ae_body e = Unsupported then 1 else 0])
      = Ok (DECODE_RESPONSE_MAGIC @ [0] @ projection)"
    by (cases event) auto
  have body: "ae_body e \<noteq> Unsupported" using p encode_projection_unsupported [of e] by fastforce
  have kind: "is_supported_kind (ae_kind e)"
    using dec body by (auto simp: e none decode_event_iff [OF M(2)] body_ok_def split: if_splits)
  with dec have "event_wf e" "encode_event M e = Ok cbor" by (simp_all add: e none decode_supported_iff [OF M])
  with p body show ?rhs by (auto simp: encode_projection_eq split: if_splits)
next
  assume ?rhs
  then obtain e where e: "event_wf e" "projection = event_bytes e" "encode_event M e = Ok cbor"
      "length projection + 9 \<le> APPLICATION_MAX_IO_BYTES" by blast
  then have kind: "is_supported_kind (ae_kind e)" and "ae_body e \<noteq> Unsupported"
    by (auto simp: event_wf_def dest: body_wf_supported)
  with e show ?run
    using decode_supported_iff [OF M kind, of cbor] by (simp add: decode_operation_def encode_projection_eq)
qed

section \<open>The device control format is exact\<close>

text \<open>The events a history batch may carry: the encodings of well-formed events other than typing notices.\<close>

definition history_event :: "minicbor \<Rightarrow> bytes \<Rightarrow> bool" where
  "history_event M bs \<longleftrightarrow> (\<exists>e. event_wf e \<and> encode_event M e = Ok bs \<and> \<not> is_TypingSet (ae_body e))"

lemma check_history_event_iff:
  assumes M: "minicbor_encodes M" "minicbor_decodes M"
  shows "check_history_event M bs = Ok u \<longleftrightarrow> history_event M bs"
proof
  assume "check_history_event M bs = Ok u"
  then obtain e where e: "decode_event M bs = Ok (Some e, None)" "ae_body e \<noteq> Unsupported" "\<not> is_TypingSet (ae_body e)"
    by (auto simp: check_history_event_def elim!: rbind_OkE split: event_body.splits if_splits option.splits)
  then have "is_supported_kind (ae_kind e)" by (auto simp: decode_event_iff [OF M(2)] body_ok_def split: if_splits)
  with e show "history_event M bs" by (auto simp: history_event_def decode_supported_iff [OF M])
next
  assume "history_event M bs"
  then obtain e where e: "event_wf e" "encode_event M e = Ok bs" "\<not> is_TypingSet (ae_body e)" by (auto simp: history_event_def)
  then have "is_supported_kind (ae_kind e)" "ae_body e \<noteq> Unsupported" by (auto simp: event_wf_def dest: body_wf_supported)
  with e decode_supported_iff [OF M, of e bs] show "check_history_event M bs = Ok u"
    by (auto simp: check_history_event_def split: event_body.splits)
qed

lemma history_events_reads:
  assumes M: "minicbor_encodes M" "minicbor_decodes M"
  shows "list_all (history_event M) evs \<Longrightarrow> list_all (\<lambda>b. length b \<le> MAX_INPUT_BYTES) evs \<Longrightarrow> n = length evs
    \<Longrightarrow> used + sum_list (map length evs) \<le> MAX_HISTORY_BATCH_BYTES \<Longrightarrow> reads (history_events M n used) (concat (map frame evs)) evs"
proof (induction evs arbitrary: n used)
  case (Cons b evs)
  let ?used = "used + length b"
  have add: "usize_checked_add used (length b) = Some ?used"
    using Cons.prems by (simp add: usize_checked_add_def MAX_HISTORY_BATCH_BYTES_def)
  have "reads (history_events M (length evs) ?used) (concat (map frame evs)) evs" using Cons by simp
  then have "reads (sbind (history_events M (length evs) ?used) (\<lambda>rest. ret (b # rest))) (concat (map frame evs) @ []) (b # evs)"
    by (rule reads_bind) (rule reads_ret)
  then show ?case
    using Cons.prems check_history_event_iff [OF M, of b]
    by (auto simp: add intro!: frame_codec.bind_reads)
qed (simp add: reads_ret)

lemma history_events_sound:
  assumes M: "minicbor_encodes M" "minicbor_decodes M"
  shows "used \<le> MAX_HISTORY_BATCH_BYTES \<Longrightarrow> sound (history_events M n used) (\<lambda>bs evs. (list_all (history_event M) evs
    \<and> list_all (\<lambda>b. length b \<le> MAX_INPUT_BYTES) evs \<and> length evs = n
    \<and> used + sum_list (map length evs) \<le> MAX_HISTORY_BATCH_BYTES) \<and> bs = concat (map frame evs))"
proof (induction n arbitrary: used)
  case (Suc n)
  show ?case unfolding history_events.simps
    by (intro frame_codec.bind_sound sound_intros sound_bind [OF Suc.IH])
      (auto simp: check_history_event_iff [OF M] usize_checked_add_def split: if_splits)
qed (simp add: sound_ret)

fun control_body_bytes :: "control_body \<Rightarrow> bytes" where
  "control_body_bytes (GossipHeads heads) =
     [word_of_nat (length heads)] @ concat (map (\<lambda>(user, sequence, hash). user @ u64_bytes sequence @ hash) heads)"
| "control_body_bytes (BatchPosition position) = u32_bytes position"
| "control_body_bytes (HistoryBatch index final flag events) =
     u32_bytes index @ bool_bytes final @ [flag] @ u16_bytes (word_of_nat (length events)) @ concat (map frame events)"
| "control_body_bytes (TransferStatus status) = [status]"

fun control_body_wf :: "minicbor \<Rightarrow> u8 \<Rightarrow> bool \<Rightarrow> bool \<Rightarrow> control_body \<Rightarrow> bool" where
  "control_body_wf M kind broadcast addressed (GossipHeads heads) \<longleftrightarrow>
     kind = 1 \<and> broadcast \<and> heads \<noteq> [] \<and> length heads \<le> 32 \<and> distinct (map fst heads)
     \<and> list_all (\<lambda>(user, sequence, hash). length user = 16 \<and> length hash = 32) heads"
| "control_body_wf M kind broadcast addressed (BatchPosition position) \<longleftrightarrow> (kind = 2 \<or> kind = 4) \<and> addressed"
| "control_body_wf M kind broadcast addressed (HistoryBatch index final flag events) \<longleftrightarrow>
     kind = 3 \<and> addressed \<and> flag \<le> 1 \<and> events \<noteq> [] \<and> length events \<le> 32 \<and> list_all (history_event M) events
     \<and> sum_list (map length events) \<le> MAX_HISTORY_BATCH_BYTES"
| "control_body_wf M kind broadcast addressed (TransferStatus status) \<longleftrightarrow> kind = 5 \<and> addressed \<and> status \<le> 2"

lemma gossip_head_codec:
  "codec gossip_head (\<lambda>(user, sequence, hash). user @ u64_bytes sequence @ hash)
     (\<lambda>(user, sequence, hash). length user = 16 \<and> length hash = 32)"
proof
  show "reads gossip_head ((\<lambda>(user, sequence, hash). user @ u64_bytes sequence @ hash) h) h"
    if "case h of (user, sequence, hash) \<Rightarrow> length user = 16 \<and> length hash = 32" for h
  proof -
    obtain user sequence hash where h: "h = (user, sequence, hash)" by (cases h)
    show ?thesis unfolding h prod.case gossip_head_def
      by (rule reads_last, simp only: append_assoc, intro reads_intros) (use that h in auto)
  qed
  show "sound gossip_head (\<lambda>bs h. (case h of (user, sequence, hash) \<Rightarrow> length user = 16 \<and> length hash = 32)
      \<and> bs = (\<lambda>(user, sequence, hash). user @ u64_bytes sequence @ hash) h)"
    unfolding gossip_head_def by (intro sound_intros) auto
qed

lemma gossip_heads_codec: "codec (gossip_heads (\<not> broadcast)) control_body_bytes (control_body_wf M 1 broadcast addressed)"
proof
  note rep = codec.repeat_codec [OF gossip_head_codec]
  show "reads (gossip_heads (\<not> broadcast)) (control_body_bytes b) b" if wf: "control_body_wf M 1 broadcast addressed b" for b
  proof -
    obtain heads where b: "b = GossipHeads heads" using wf by (cases b) auto
    have "0 < length heads" "length heads < 2 ^ LENGTH(8)" using wf b by auto
    then show ?thesis unfolding b control_body_bytes.simps gossip_heads_def
      by (rule_tac reads_last, simp only: append_assoc, intro codec.bind_reads [OF rep] reads_intros)
        (use wf b in \<open>auto simp: has_duplicates_iff MAX_DEVICE_GOSSIP_HEADS_def\<close>)
  qed
  show "sound (gossip_heads (\<not> broadcast)) (\<lambda>bs b. control_body_wf M 1 broadcast addressed b \<and> bs = control_body_bytes b)"
    unfolding gossip_heads_def
    by (intro codec.bind_sound [OF rep] sound_intros) (auto simp: has_duplicates_iff MAX_DEVICE_GOSSIP_HEADS_def)
qed

lemma history_batch_codec:
  assumes M: "minicbor_encodes M" "minicbor_decodes M"
  shows "codec (history_batch M (\<not> addressed)) control_body_bytes (control_body_wf M 3 broadcast addressed)"
proof
  have fits: "length bs \<le> MAX_INPUT_BYTES" if "history_event M bs" for bs
    using that by (auto simp: history_event_def encode_event_eq [OF M(1)] APPLICATION_MAX_IO_BYTES_def MAX_INPUT_BYTES_def
        split: if_splits)
  show "reads (history_batch M (\<not> addressed)) (control_body_bytes b) b" if wf: "control_body_wf M 3 broadcast addressed b" for b
  proof -
    obtain index final flag events where b: "b = HistoryBatch index final flag events" using wf by (cases b) auto
    have events: "0 < length events" "length events < 2 ^ LENGTH(16)" "list_all (\<lambda>b. length b \<le> MAX_INPUT_BYTES) events"
      using wf b fits by (auto simp: list_all_iff)
    show ?thesis unfolding b control_body_bytes.simps history_batch_def
      by (rule reads_last, simp only: append_assoc, intro reads_bind [OF history_events_reads [OF M]] reads_intros)
        (use wf b events in \<open>auto simp: MAX_HISTORY_BATCH_EVENTS_def not_less\<close>)
  qed
  show "sound (history_batch M (\<not> addressed)) (\<lambda>bs b. control_body_wf M 3 broadcast addressed b \<and> bs = control_body_bytes b)"
    unfolding history_batch_def
    by (intro sound_bind [OF history_events_sound [OF M]] sound_intros) (auto simp: MAX_HISTORY_BATCH_EVENTS_def not_less)
qed

lemma batch_position_codec:
  "kind = 2 \<or> kind = 4 \<Longrightarrow> codec (batch_position (\<not> addressed)) control_body_bytes (control_body_wf M kind broadcast addressed)"
proof
  assume kind: "kind = 2 \<or> kind = 4"
  show "reads (batch_position (\<not> addressed)) (control_body_bytes b) b" if wf: "control_body_wf M kind broadcast addressed b" for b
  proof -
    obtain position where b: "b = BatchPosition position" using wf kind by (cases b) auto
    show ?thesis unfolding b control_body_bytes.simps batch_position_def
      by (rule reads_last, intro reads_intros) (use wf b in auto)
  qed
  show "sound (batch_position (\<not> addressed)) (\<lambda>bs b. control_body_wf M kind broadcast addressed b \<and> bs = control_body_bytes b)"
    unfolding batch_position_def by (intro sound_intros) (use kind in auto)
qed

lemma transfer_status_codec:
  "codec (transfer_status (\<not> addressed)) control_body_bytes (control_body_wf M 5 broadcast addressed)"
proof
  show "reads (transfer_status (\<not> addressed)) (control_body_bytes b) b" if wf: "control_body_wf M 5 broadcast addressed b" for b
  proof -
    obtain status where b: "b = TransferStatus status" using wf by (cases b) auto
    show ?thesis unfolding b control_body_bytes.simps transfer_status_def
      by (rule reads_last, intro reads_intros) (use wf b in auto)
  qed
  show "sound (transfer_status (\<not> addressed)) (\<lambda>bs b. control_body_wf M 5 broadcast addressed b \<and> bs = control_body_bytes b)"
    unfolding transfer_status_def by (intro sound_intros) auto
qed

definition control_wf :: "minicbor \<Rightarrow> device_control \<Rightarrow> bool" where
  "control_wf M c \<longleftrightarrow>
     length (dc_event_id c) = 16 \<and> length (dc_sender_user_id c) = 16 \<and> length (dc_sender_device_id c) = 16
     \<and> length (dc_target_device_id c) = 16 \<and> length (dc_transfer_id c) = 16
     \<and> control_body_wf M (dc_kind c) (dc_target_device_id c = replicate 16 0 \<and> dc_transfer_id c = replicate 16 0)
         (dc_target_device_id c \<noteq> replicate 16 0 \<and> dc_transfer_id c \<noteq> replicate 16 0) (dc_body c)"

definition control_bytes :: "device_control \<Rightarrow> bytes" where
  "control_bytes c = DEVICE_CONTROL_MAGIC @ [1] @ [dc_kind c] @ dc_event_id c @ dc_sender_user_id c @ dc_sender_device_id c
     @ dc_target_device_id c @ dc_transfer_id c @ control_body_bytes (dc_body c)"

lemma control_body_codec:
  assumes M: "minicbor_encodes M" "minicbor_decodes M"
  shows "codec (control_body_fields M kind target transfer) control_body_bytes
    (control_body_wf M kind (target = replicate 16 0 \<and> transfer = replicate 16 0) (target \<noteq> replicate 16 0 \<and> transfer \<noteq> replicate 16 0))"
    (is "codec _ _ (control_body_wf M kind ?broadcast ?addressed)")
proof -
  have unfolded: "control_body_fields M kind target transfer =
      (if kind = 1 then gossip_heads (\<not> ?broadcast) else if kind = 2 \<or> kind = 4 then batch_position (\<not> ?addressed)
       else if kind = 3 then history_batch M (\<not> ?addressed) else if kind = 5 then transfer_status (\<not> ?addressed)
       else slift (Err UnsupportedOperation))"
    by (simp add: control_body_fields_def Let_def)
  consider "kind = 1" | "kind = 2 \<or> kind = 4" | "kind = 3" | "kind = 5"
    | "kind \<noteq> 1" "\<not> (kind = 2 \<or> kind = 4)" "kind \<noteq> 3" "kind \<noteq> 5" by blast
  then show ?thesis
  proof cases
    case 1
    with gossip_heads_codec [of ?broadcast M ?addressed] show ?thesis unfolding unfolded by simp
  next
    case 2
    with batch_position_codec [OF 2, of ?addressed M ?broadcast] show ?thesis unfolding unfolded by auto
  next
    case 3
    with history_batch_codec [OF M, of ?addressed ?broadcast] show ?thesis unfolding unfolded by simp
  next
    case 4
    with transfer_status_codec [of ?addressed M ?broadcast] show ?thesis unfolding unfolded by simp
  next
    case 5
    then have "\<not> control_body_wf M kind ?broadcast ?addressed b" for b by (cases b) auto
    with 5 show ?thesis unfolding unfolded by (simp add: codec_never)
  qed
qed

interpretation expect_codec: codec "reader_expect magic" "\<lambda>_ :: unit. magic" "\<lambda>_. True" for magic
proof unfold_locales
  show "reads (reader_expect magic) magic x" for x
    unfolding reader_expect_def by (rule reads_last, intro take_codec.bind_reads reads_slift) simp_all
  show "sound (reader_expect magic) (\<lambda>bs x. True \<and> bs = magic)"
    unfolding reader_expect_def by (intro sound_intros) (auto split: if_splits)
qed

lemma device_control_codec:
  assumes M: "minicbor_encodes M" "minicbor_decodes M"
  shows "whole_codec (device_control_fields M) control_bytes (control_wf M)"
proof
  note body = codec.bind_reads_to_end [OF control_body_codec [OF M]] codec.bind_sound_to_end [OF control_body_codec [OF M]]
  show "reads_to_end (device_control_fields M) (control_bytes c) c" if "control_wf M c" for c
    unfolding device_control_fields_def control_bytes_def
    by (rule reads_to_end_last, simp only: append_assoc, intro expect_codec.bind_reads_to_end body(1) ends_intros) (use that in \<open>auto simp: control_wf_def\<close>)
  show "sound_to_end (device_control_fields M) (\<lambda>bs c. control_wf M c \<and> bs = control_bytes c)"
    unfolding device_control_fields_def control_bytes_def
    by (intro expect_codec.bind_sound_to_end body(2) sound_end_intros) (auto simp: control_wf_def)
qed

lemma validate_device_control_iff:
  assumes M: "minicbor_encodes M" "minicbor_decodes M" and len: "length input < 2 ^ 64"
  shows "validate_device_control M input = Ok u \<longleftrightarrow> (\<exists>c. control_wf M c \<and> input = control_bytes c)"
  by (auto simp: validate_device_control_def rbind_Ok_iff whole_codec.run_iff [OF device_control_codec [OF M] len])

section \<open>Properties of the operations\<close>

lemma operation_Ok_iff:
  "application_operation P M 1 input tape = Ok (out, tape') \<longleftrightarrow>
     length input \<le> APPLICATION_MAX_IO_BYTES \<and> encode_operation M input = Ok out \<and> tape' = tape"
  "application_operation P M 2 input tape = Ok (out, tape') \<longleftrightarrow>
     length input \<le> APPLICATION_MAX_IO_BYTES \<and> decode_operation M input = Ok out \<and> tape' = tape"
  "application_operation P M 4 input tape = Ok (out, tape') \<longleftrightarrow>
     length input \<le> APPLICATION_MAX_IO_BYTES \<and> derive_dm_conversation_id P input = Ok out \<and> tape' = tape"
  "application_operation P M 7 input tape = Ok (out, tape') \<longleftrightarrow>
     length input \<le> APPLICATION_MAX_IO_BYTES \<and> decode_device_control M input = Ok out \<and> tape' = tape"
  by (auto simp: application_operation_def sbind_Ok_iff slift_Ok_iff not_less)

text \<open>
  C14: encoding and decoding are inverse operations of the client interface. Decoding a byte string gives a projection of a
  supported event exactly when encoding that projection gives the byte string and the response fits into
  the output limit. So every event a client encodes is shown to its peers as it was, and every supported event it is shown has
  one encoding only.
\<close>

theorem event_operations_inverse:
  assumes "minicbor_encodes M" and "minicbor_decodes M"
  shows "application_operation P M 2 cbor tape = Ok (DECODE_RESPONSE_MAGIC @ [0] @ projection, tape) \<longleftrightarrow>
    application_operation P M 1 (ENCODE_REQUEST_MAGIC @ projection) tape = Ok (ENCODE_RESPONSE_MAGIC @ cbor, tape)
    \<and> length projection + 9 \<le> APPLICATION_MAX_IO_BYTES"
proof (cases "length projection + 9 \<le> APPLICATION_MAX_IO_BYTES")
  case True
  then have "length (ENCODE_REQUEST_MAGIC @ projection) < 2 ^ 64" by (simp add: APPLICATION_MAX_IO_BYTES_def)
  moreover have "length cbor \<le> APPLICATION_MAX_IO_BYTES" if "event_wf e" "encode_event M e = Ok cbor" for e
    using that by (auto simp: encode_event_eq [OF assms(1)] split: if_splits)
  ultimately show ?thesis
    using True by (auto simp: operation_Ok_iff decode_operation_supported_iff [OF assms, simplified] encode_operation_iff [OF assms(1)])
next
  case False
  then show ?thesis by (auto simp: operation_Ok_iff decode_operation_supported_iff [OF assms, simplified])
qed

theorem event_operations_inverse_witness:
  "application_operation example_prims example_minicbor 2 (event_item sample_event) []
     = Ok (DECODE_RESPONSE_MAGIC @ [0] @ event_bytes sample_event, [])"
proof -
  have size: "length (event_bytes sample_event) + 9 \<le> APPLICATION_MAX_IO_BYTES"
    by (simp add: sample_event_def event_bytes_def APPLICATION_MAX_IO_BYTES_def)
  then have "length (ENCODE_REQUEST_MAGIC @ event_bytes sample_event) < 2 ^ 64" by (simp add: APPLICATION_MAX_IO_BYTES_def)
  then have "application_operation example_prims example_minicbor 1 (ENCODE_REQUEST_MAGIC @ event_bytes sample_event) []
      = Ok (ENCODE_RESPONSE_MAGIC @ event_item sample_event, [])"
    using size sample_event_encodes sample_event_wf(1) by (auto simp: operation_Ok_iff encode_operation_iff [OF example_encodes])
  with size show ?thesis using event_operations_inverse [OF example_encodes example_decodes] by blast
qed

text \<open>
  Device control messages: the client accepts a message, sent or received, exactly when it is the encoding of a
  well-formed one; in particular the events of a history batch are supported, are no typing notices and are
  canonical encodings.
\<close>

theorem device_control_accepted_iff:
  assumes "minicbor_encodes M" and "minicbor_decodes M"
  shows "application_operation P M 7 input tape = Ok (out, tape') \<longleftrightarrow>
    length input \<le> APPLICATION_MAX_IO_BYTES \<and> (\<exists>c. control_wf M c \<and> input = control_bytes c)
    \<and> out = DEVICE_CONTROL_DECODE_RESPONSE_MAGIC @ input \<and> tape' = tape"
proof (cases "length input \<le> APPLICATION_MAX_IO_BYTES")
  case True
  then have "length input < 2 ^ 64" by (simp add: APPLICATION_MAX_IO_BYTES_def)
  then show ?thesis
    by (auto simp: operation_Ok_iff decode_device_control_def rbind_Ok_iff validate_device_control_iff [OF assms])
qed (simp add: operation_Ok_iff)

text \<open>
  The identifier of a direct conversation: it is the hash of a string that does not depend on the order of the two users
  and is the same only for the same two users.
\<close>

definition dm_commitment :: "bytes \<Rightarrow> bytes \<Rightarrow> bytes" where
  "dm_commitment a b = DM_CONVERSATION_DOMAIN @ (if a < b then a @ b else b @ a)"

theorem dm_conversation_commits:
  assumes "length a = 16" "length b = 16" "a \<noteq> b" and "length c = 16" "length d = 16" "c \<noteq> d"
  shows "derive_dm_conversation_id P (a @ b) = Ok (CONVERSATION_RESPONSE_MAGIC @ sha256_raw P (dm_commitment a b))
    \<and> dm_commitment b a = dm_commitment a b \<and> (dm_commitment a b = dm_commitment c d \<longleftrightarrow> {a, b} = {c, d})"
  using assms
  by (auto simp: derive_dm_conversation_id_def conversation_response_def dm_commitment_def sha256_def bounded_defs
      MAX_INPUT_BYTES_def DM_CONVERSATION_DOMAIN_def doubleton_eq_iff not_less_iff_gr_or_eq)

end
