(* ===== verification/Device_Log.thy ===== *)
theory Device_Log
  imports Identity_Package
begin

text \<open>
  The account records of \<^verbatim>\<open>enrollment.rs\<close> that other accounts check: the signed log of device sets, the published
  identity, the safety fingerprint and the attestation of a peer's master key.
\<close>

section \<open>Device log records\<close>

definition DEVICE_LOG_MAGIC :: bytes where "DEVICE_LOG_MAGIC = ascii ''CPDLV001''"
definition DEVICE_LOG_DOMAIN :: bytes where "DEVICE_LOG_DOMAIN = ascii ''chat:v1:device-log-record''"
definition DEVICE_LOG_BUCKET_BYTES :: nat where "DEVICE_LOG_BUCKET_BYTES = 256"
definition SAFETY_FINGERPRINT_DOMAIN :: bytes where "SAFETY_FINGERPRINT_DOMAIN = ascii ''chat:v1:safety-fingerprint''"
definition USER_ATTESTATION_DOMAIN :: bytes where "USER_ATTESTATION_DOMAIN = ascii ''chat:v1:user-signing-attestation''"
definition DEVICE_SET_DOMAIN :: bytes where "DEVICE_SET_DOMAIN = ascii ''chat:v1:device-set''"
definition VERIFY_IDENTITY_MAGIC :: bytes where "VERIFY_IDENTITY_MAGIC = ascii ''CPIRV001''"
definition VERIFY_LOG_MAGIC :: bytes where "VERIFY_LOG_MAGIC = ascii ''CPDLR001''"
definition SAFETY_MAGIC :: bytes where "SAFETY_MAGIC = ascii ''CPSFV001''"
definition VERIFY_ATTESTATION_MAGIC :: bytes where "VERIFY_ATTESTATION_MAGIC = ascii ''CPUAV001''"

lemmas log_constants =
  DEVICE_LOG_MAGIC_def DEVICE_LOG_DOMAIN_def DEVICE_LOG_BUCKET_BYTES_def SAFETY_FINGERPRINT_DOMAIN_def
  USER_ATTESTATION_DOMAIN_def DEVICE_SET_DOMAIN_def VERIFY_IDENTITY_MAGIC_def VERIFY_LOG_MAGIC_def SAFETY_MAGIC_def
  VERIFY_ATTESTATION_MAGIC_def

definition encode_device_log_signature :: "bytes \<Rightarrow> u64 \<Rightarrow> bytes \<Rightarrow> bytes \<Rightarrow> u32 \<Rightarrow> u32 \<Rightarrow> bytes cresult" where
  "encode_device_log_signature user_id sequence previous_hash live_set_hash identity_version coarse_unix_day =
     rbind (push_frame DEVICE_LOG_DOMAIN user_id) (\<lambda>encoded.
     rbind (push_frame encoded (u64_bytes sequence)) (\<lambda>encoded.
     rbind (push_frame encoded previous_hash) (\<lambda>encoded.
     rbind (push_frame encoded live_set_hash) (\<lambda>encoded.
     rbind (push_frame encoded (u32_bytes identity_version)) (\<lambda>encoded.
     push_frame encoded (u32_bytes coarse_unix_day))))))"

definition create_device_log_record ::
    "prims \<Rightarrow> bytes \<Rightarrow> bytes \<Rightarrow> u64 \<Rightarrow> bytes \<Rightarrow> bytes \<Rightarrow> u32 \<Rightarrow> u32 \<Rightarrow> bytes ent" where
  "create_device_log_record P package user sequence previous canonical_live_set identity_version coarse_unix_day =
     sbind (slift (reject_if (identity_version = 0) InvalidArgument)) (\<lambda>_.
     sbind (slift (parse_identity_package P package)) (\<lambda>identity.
     sbind (slift (raw_uuid user)) (\<lambda>user_id.
     sbind (slift (reject_if (ip_user_id identity \<noteq> user_id) StateViolation)) (\<lambda>_.
     sbind (slift (if previous = [] then Ok (replicate 32 0) else fixed 32 previous)) (\<lambda>previous_hash.
     sbind (slift (sha256 P canonical_live_set)) (\<lambda>live_set_hash.
     sbind (slift (encode_device_log_signature user_id sequence previous_hash live_set_hash identity_version
         coarse_unix_day)) (\<lambda>signed.
     sbind (slift (ed25519_sign P (is_self_signing (ip_secrets identity)) signed)) (\<lambda>signature.
     let record = DEVICE_LOG_MAGIC @ [1] @ u64_bytes sequence @ u32_bytes coarse_unix_day @ u32_bytes identity_version
           @ user_id @ previous_hash @ live_set_hash @ signature in
     sbind (slift (if length record \<le> DEVICE_LOG_BUCKET_BYTES then Ok (DEVICE_LOG_BUCKET_BYTES - length record)
         else Err InternalFailure)) (\<lambda>padding.
     sbind (random_bytes padding) (\<lambda>noise.
     ret (record @ noise)))))))))))"

record log_record =
  lr_sequence :: u64
  lr_coarse_unix_day :: u32
  lr_identity_version :: u32
  lr_user_id :: bytes
  lr_previous_hash :: bytes
  lr_live_set_hash :: bytes
  lr_signature :: bytes

text \<open>
  Both inspections read the same fields; they differ in the error for another version. The padding after the
  signature is not read.
\<close>

definition log_record_fields :: "crypto_error \<Rightarrow> log_record parser" where
  "log_record_fields version_error =
     sbind (reader_take 8) (\<lambda>magic.
     sbind (slift (reject_if (magic \<noteq> DEVICE_LOG_MAGIC) MalformedInput)) (\<lambda>_.
     sbind reader_u8 (\<lambda>version.
     sbind (slift (reject_if (version \<noteq> 1) version_error)) (\<lambda>_.
     sbind reader_u64 (\<lambda>sequence.
     sbind reader_u32 (\<lambda>coarse_unix_day.
     sbind reader_u32 (\<lambda>identity_version.
     sbind (reader_array 16) (\<lambda>record_user.
     sbind (reader_array 32) (\<lambda>previous_hash.
     sbind (reader_array 32) (\<lambda>live_set_hash.
     sbind (reader_array 64) (\<lambda>signature.
     ret \<lparr>lr_sequence = sequence, lr_coarse_unix_day = coarse_unix_day, lr_identity_version = identity_version,
          lr_user_id = record_user, lr_previous_hash = previous_hash, lr_live_set_hash = live_set_hash,
          lr_signature = signature\<rparr>)))))))))))"

definition verify_log_record :: "prims \<Rightarrow> bytes \<Rightarrow> log_record \<Rightarrow> unit cresult" where
  "verify_log_record P self_signing_public r =
     rbind (encode_device_log_signature (lr_user_id r) (lr_sequence r) (lr_previous_hash r) (lr_live_set_hash r)
         (lr_identity_version r) (lr_coarse_unix_day r)) (\<lambda>signed.
     ed25519_verify P self_signing_public signed (lr_signature r))"

definition inspect_device_log_record :: "prims \<Rightarrow> bytes \<Rightarrow> bytes \<Rightarrow> bytes \<Rightarrow> bytes cresult" where
  "inspect_device_log_record P package user record =
     rbind (reject_if (length record \<noteq> DEVICE_LOG_BUCKET_BYTES) MalformedInput) (\<lambda>_.
     rbind (parse_identity_package P package) (\<lambda>identity.
     rbind (raw_uuid user) (\<lambda>expected_user.
     rbind (run_parser (log_record_fields UnsupportedVersion) record) (\<lambda>r.
     rbind (reject_if (lr_user_id r \<noteq> expected_user \<or> ip_user_id identity \<noteq> expected_user) AuthenticationFailed) (\<lambda>_.
     rbind (verify_log_record P (ip_self_signing_public identity) r) (\<lambda>_.
     rbind (sha256 P record) (\<lambda>hash.
     Ok (u64_bytes (lr_sequence r) @ lr_previous_hash r @ hash))))))))"

definition inspect_log_with_public :: "prims \<Rightarrow> bytes \<Rightarrow> bytes \<Rightarrow> bytes option \<Rightarrow> bytes \<Rightarrow> bytes cresult" where
  "inspect_log_with_public P expected_user self_signing_public expected_live_set_hash record =
     rbind (run_parser (log_record_fields MalformedInput) record) (\<lambda>r.
     rbind (reject_if (lr_user_id r \<noteq> expected_user
         \<or> (case expected_live_set_hash of Some expected \<Rightarrow> lr_live_set_hash r \<noteq> expected | None \<Rightarrow> False))
         AuthenticationFailed) (\<lambda>_.
     rbind (verify_log_record P self_signing_public r) (\<lambda>_.
     rbind (sha256 P record) (\<lambda>hash.
     Ok (u64_bytes (lr_sequence r) @ lr_previous_hash r @ hash @ lr_live_set_hash r @ u32_bytes (lr_identity_version r))))))"

record log_device =
  ld_device_id :: bytes
  ld_ik_public :: bytes
  ld_registration_id :: u32
  ld_cross_signature :: "bytes option"
  ld_bundle_version :: u32

fun push_log_devices :: "bytes \<Rightarrow> log_device list \<Rightarrow> bytes cresult" where
  "push_log_devices encoded [] = Ok encoded"
| "push_log_devices encoded (d # ds) =
     rbind (push_frame (encoded @ ld_device_id d) (ld_ik_public d)) (\<lambda>encoded.
     rbind (push_frame (push_u32 encoded (ld_registration_id d))
         (case ld_cross_signature d of Some signature \<Rightarrow> signature | None \<Rightarrow> [])) (\<lambda>encoded.
     push_log_devices (push_u32 encoded (ld_bundle_version d)) ds))"

text \<open>\<^verbatim>\<open>sort_by_key\<close> is stable, as \<^const>\<open>sort_key\<close> is.\<close>

definition hash_canonical_live_set :: "prims \<Rightarrow> log_device list \<Rightarrow> bytes cresult" where
  "hash_canonical_live_set P devices =
     (let devices = sort_key ld_device_id devices in
      rbind (ok_or (try_from_usize (length devices)) InputTooLarge) (\<lambda>count.
      rbind (push_log_devices (push_u32 DEVICE_SET_DOMAIN count) devices) (\<lambda>encoded.
      sha256 P encoded)))"

definition optional_signature :: "bytes option parser" where
  "optional_signature = sbind reader_u8 (\<lambda>signature_present.
     if signature_present = 0 then ret None
     else if signature_present = 1 then sbind (reader_array 64) (\<lambda>signature. ret (Some signature))
     else slift (Err MalformedInput))"

definition log_device_fields :: "log_device parser" where
  "log_device_fields =
     sbind (reader_array 16) (\<lambda>device_id.
     sbind (reader_array 64) (\<lambda>ik_public.
     sbind reader_u32 (\<lambda>registration_id.
     sbind optional_signature (\<lambda>cross_signature.
     sbind reader_u32 (\<lambda>bundle_version.
     sbind (slift (reject_if (cross_signature = None \<and> bundle_version \<noteq> 0
         \<or> cross_signature \<noteq> None \<and> bundle_version = 0) MalformedInput)) (\<lambda>_.
     ret \<lparr>ld_device_id = device_id, ld_ik_public = ik_public, ld_registration_id = registration_id,
          ld_cross_signature = cross_signature, ld_bundle_version = bundle_version\<rparr>))))))"

definition reader_remaining_bytes :: "bytes parser" where
  "reader_remaining_bytes r = Ok (drop (rd_position r) (rd_input r), r\<lparr>rd_position := length (rd_input r)\<rparr>)"

record peer_log =
  pl_expected_user :: bytes
  pl_self_signing_public :: bytes
  pl_verify_live_set :: bool
  pl_devices :: "log_device list"
  pl_record :: bytes

definition peer_log_fields :: "peer_log parser" where
  "peer_log_fields =
     sbind (reader_take 8) (\<lambda>magic.
     sbind (slift (reject_if (magic \<noteq> VERIFY_LOG_MAGIC) MalformedInput)) (\<lambda>_.
     sbind (reader_array 16) (\<lambda>expected_user.
     sbind (reader_array 32) (\<lambda>self_signing_public.
     sbind reader_boolean (\<lambda>verify_live_set.
     sbind reader_u32 (\<lambda>device_count.
     sbind (slift (reject_if (unat device_count > 100) ResourceExhausted)) (\<lambda>_.
     sbind (repeat_s (unat device_count) log_device_fields) (\<lambda>devices.
     sbind reader_remaining_bytes (\<lambda>record.
     sbind (slift (reject_if (length record \<noteq> DEVICE_LOG_BUCKET_BYTES) MalformedInput)) (\<lambda>_.
     ret \<lparr>pl_expected_user = expected_user, pl_self_signing_public = self_signing_public,
          pl_verify_live_set = verify_live_set, pl_devices = devices, pl_record = record\<rparr>))))))))))"

definition peer_live_set_hash :: "prims \<Rightarrow> peer_log \<Rightarrow> bytes option cresult" where
  "peer_live_set_hash P p =
     (if pl_verify_live_set p then rbind (hash_canonical_live_set P (pl_devices p)) (\<lambda>hash. Ok (Some hash))
      else Ok None)"

definition inspect_peer_device_log_record :: "prims \<Rightarrow> bytes \<Rightarrow> bytes cresult" where
  "inspect_peer_device_log_record P input =
     rbind (run_parser peer_log_fields input) (\<lambda>p.
     rbind (peer_live_set_hash P p) (\<lambda>expected_live_set_hash.
     inspect_log_with_public P (pl_expected_user p) (pl_self_signing_public p) expected_live_set_hash (pl_record p)))"

section \<open>Published identities, fingerprints and attestations\<close>

definition published_identity_fields :: "(cross_signing_identity \<times> bytes \<times> bytes) parser" where
  "published_identity_fields =
     sbind (reader_take 8) (\<lambda>magic.
     sbind (slift (reject_if (magic \<noteq> VERIFY_IDENTITY_MAGIC) MalformedInput)) (\<lambda>_.
     sbind (reader_array 16) (\<lambda>user_id.
     sbind (reader_array 32) (\<lambda>master_public.
     sbind (reader_array 32) (\<lambda>self_signing_public.
     sbind (reader_array 32) (\<lambda>user_signing_public.
     sbind (reader_array 64) (\<lambda>master_signature.
     sbind finished (\<lambda>fin.
     sbind (slift (reject_if (\<not> fin) MalformedInput)) (\<lambda>_.
     ret (\<lparr>ci_user_id = user_id, ci_self_signing_public = self_signing_public, ci_user_signing_public = user_signing_public\<rparr>,
          master_public, master_signature))))))))))"

definition verify_published_identity :: "prims \<Rightarrow> bytes \<Rightarrow> unit cresult" where
  "verify_published_identity P input =
     rbind (run_parser published_identity_fields input) (\<lambda>(identity, master_public, master_signature).
     verify_master_signature P identity master_public master_signature)"

definition safety_fields :: "(bytes \<times> bytes \<times> bytes \<times> bytes) parser" where
  "safety_fields =
     sbind (reader_take 8) (\<lambda>magic.
     sbind (slift (reject_if (magic \<noteq> SAFETY_MAGIC) MalformedInput)) (\<lambda>_.
     sbind (reader_array 16) (\<lambda>first_user.
     sbind (reader_array 32) (\<lambda>first_master.
     sbind (reader_array 16) (\<lambda>second_user.
     sbind (reader_array 32) (\<lambda>second_master.
     sbind finished (\<lambda>fin.
     sbind (slift (reject_if (\<not> fin) MalformedInput)) (\<lambda>_.
     ret (first_user, first_master, second_user, second_master)))))))))"

definition safety_fingerprint :: "prims \<Rightarrow> bytes \<Rightarrow> bytes cresult" where
  "safety_fingerprint P input =
     rbind (run_parser safety_fields input) (\<lambda>(first_user, first_master, second_user, second_master).
     let (left_user, left_master, right_user, right_master) =
           (if first_user \<le> second_user then (first_user, first_master, second_user, second_master)
            else (second_user, second_master, first_user, first_master)) in
     rbind (push_frame SAFETY_FINGERPRINT_DOMAIN left_user) (\<lambda>committed.
     rbind (push_frame committed left_master) (\<lambda>committed.
     rbind (push_frame committed right_user) (\<lambda>committed.
     rbind (push_frame committed right_master) (\<lambda>committed.
     sha256 P committed)))))"

definition encode_user_attestation :: "bytes \<Rightarrow> bytes \<Rightarrow> bytes \<Rightarrow> bytes cresult" where
  "encode_user_attestation signer_user peer_user peer_master =
     rbind (push_frame USER_ATTESTATION_DOMAIN signer_user) (\<lambda>encoded.
     rbind (push_frame encoded peer_user) (\<lambda>encoded.
     push_frame encoded peer_master))"

definition attest_peer_master :: "prims \<Rightarrow> bytes \<Rightarrow> bytes \<Rightarrow> bytes \<Rightarrow> bytes cresult" where
  "attest_peer_master P package peer_user_id peer_master_public =
     rbind (parse_identity_package P package) (\<lambda>identity.
     rbind (raw_uuid peer_user_id) (\<lambda>peer_user.
     rbind (fixed 32 peer_master_public) (\<lambda>peer_master.
     rbind (encode_user_attestation (ip_user_id identity) peer_user peer_master) (\<lambda>signed.
     ed25519_sign P (is_user_signing (ip_secrets identity)) signed))))"

definition attestation_fields :: "(bytes \<times> bytes \<times> bytes \<times> bytes \<times> bytes) parser" where
  "attestation_fields =
     sbind (reader_take 8) (\<lambda>magic.
     sbind (slift (reject_if (magic \<noteq> VERIFY_ATTESTATION_MAGIC) MalformedInput)) (\<lambda>_.
     sbind (reader_array 16) (\<lambda>signer_user.
     sbind (reader_array 32) (\<lambda>signer_public.
     sbind (reader_array 16) (\<lambda>peer_user.
     sbind (reader_array 32) (\<lambda>peer_master.
     sbind (reader_array 64) (\<lambda>signature.
     sbind finished (\<lambda>fin.
     sbind (slift (reject_if (\<not> fin) MalformedInput)) (\<lambda>_.
     ret (signer_user, signer_public, peer_user, peer_master, signature))))))))))"

definition verify_user_attestation :: "prims \<Rightarrow> bytes \<Rightarrow> unit cresult" where
  "verify_user_attestation P input =
     rbind (run_parser attestation_fields input) (\<lambda>(signer_user, signer_public, peer_user, peer_master, signature).
     rbind (encode_user_attestation signer_user peer_user peer_master) (\<lambda>signed.
     ed25519_verify P signer_public signed signature))"

section \<open>The record format\<close>

definition log_record_bytes :: "log_record \<Rightarrow> bytes" where
  "log_record_bytes r =
     DEVICE_LOG_MAGIC @ [1] @ u64_bytes (lr_sequence r) @ u32_bytes (lr_coarse_unix_day r)
     @ u32_bytes (lr_identity_version r) @ lr_user_id r @ lr_previous_hash r @ lr_live_set_hash r @ lr_signature r"

definition log_record_wf :: "log_record \<Rightarrow> bool" where
  "log_record_wf r \<longleftrightarrow> length (lr_user_id r) = 16 \<and> length (lr_previous_hash r) = 32
     \<and> length (lr_live_set_hash r) = 32 \<and> length (lr_signature r) = 64"

interpretation log_record_codec: codec "log_record_fields e" log_record_bytes log_record_wf for e
proof unfold_locales
  show "reads (log_record_fields e) (log_record_bytes r) r" if "log_record_wf r" for r
    unfolding log_record_fields_def log_record_bytes_def
    by (rule reads_last, simp only: append_assoc, intro reads_intros)
      (use that in \<open>auto simp: log_record_wf_def log_constants\<close>)
  show "sound (log_record_fields e) (\<lambda>bs r. log_record_wf r \<and> bs = log_record_bytes r)"
    unfolding log_record_fields_def
    by (intro sound_intros) (auto simp: log_record_wf_def log_record_bytes_def)
qed

definition log_statement :: "log_record \<Rightarrow> bytes" where
  "log_statement r =
     DEVICE_LOG_DOMAIN @ frames [lr_user_id r, u64_bytes (lr_sequence r), lr_previous_hash r, lr_live_set_hash r,
       u32_bytes (lr_identity_version r), u32_bytes (lr_coarse_unix_day r)]"

lemma encode_device_log_signature_eq:
  "log_record_wf r \<Longrightarrow> encode_device_log_signature (lr_user_id r) (lr_sequence r) (lr_previous_hash r) (lr_live_set_hash r)
     (lr_identity_version r) (lr_coarse_unix_day r) = Ok (log_statement r)"
  by (simp add: encode_device_log_signature_def push_frame_eq log_record_wf_def log_statement_def)

lemma length_log_statement: "log_record_wf r \<Longrightarrow> length (log_statement r) = 145"
  by (simp add: log_statement_def log_record_wf_def log_constants)

lemma length_log_record: "log_record_wf r \<Longrightarrow> length (log_record_bytes r) = 169"
  by (simp add: log_record_bytes_def log_record_wf_def log_constants)

definition log_signed :: "prims \<Rightarrow> bytes \<Rightarrow> log_record \<Rightarrow> bool" where
  "log_signed P key r \<longleftrightarrow> ed_key_valid P key \<and> ed_verify_strict P key (log_statement r) (lr_signature r)"

lemma verify_log_record_iff: "log_record_wf r \<Longrightarrow> verify_log_record P key r = Ok () \<longleftrightarrow> log_signed P key r"
  by (simp add: verify_log_record_def encode_device_log_signature_eq ed25519_verify_Ok_iff length_log_statement
      log_signed_def MAX_INPUT_BYTES_def)

lemma run_log_record_iff:
  assumes "length record < 2 ^ 64"
  shows "run_parser (log_record_fields e) record = Ok r \<longleftrightarrow>
    log_record_wf r \<and> (\<exists>padding. record = log_record_bytes r @ padding)"
proof
  assume "run_parser (log_record_fields e) record = Ok r"
  then obtain r' where "log_record_fields e (reader_new record) = Ok (r, r')"
    by (auto simp: run_parser_def elim!: monad_elims)
  from soundD [OF log_record_codec.parse_sound reader_ok_new [OF assms] this]
  show "log_record_wf r \<and> (\<exists>padding. record = log_record_bytes r @ padding)" by auto
next
  assume "log_record_wf r \<and> (\<exists>padding. record = log_record_bytes r @ padding)"
  then show "run_parser (log_record_fields e) record = Ok r"
    using readsD [OF log_record_codec.parse_enc reader_ok_new [OF assms]] by (auto simp: run_parser_def)
qed

lemma inspect_log_with_public_iff:
  assumes "length record = DEVICE_LOG_BUCKET_BYTES"
  shows "inspect_log_with_public P user key expected record = Ok out \<longleftrightarrow>
    (\<exists>r padding. record = log_record_bytes r @ padding \<and> log_record_wf r \<and> lr_user_id r = user
      \<and> (\<forall>hash. expected = Some hash \<longrightarrow> lr_live_set_hash r = hash) \<and> log_signed P key r
      \<and> out = u64_bytes (lr_sequence r) @ lr_previous_hash r @ sha256_raw P record @ lr_live_set_hash r
          @ u32_bytes (lr_identity_version r))"
proof -
  have "length record < 2 ^ 64" and "sha256 P record = Ok (sha256_raw P record)"
    using assms by (simp_all add: log_constants sha256_def bounded_defs MAX_INPUT_BYTES_def)
  then show ?thesis
    by (cases expected) (auto simp: inspect_log_with_public_def rbind_Ok_iff run_log_record_iff verify_log_record_iff)
qed

section \<open>The live set\<close>

definition device_entry :: "log_device \<Rightarrow> bytes" where
  "device_entry d = ld_device_id d @ frame (ld_ik_public d) @ u32_bytes (ld_registration_id d)
     @ frame (case ld_cross_signature d of Some signature \<Rightarrow> signature | None \<Rightarrow> []) @ u32_bytes (ld_bundle_version d)"

definition live_set_bytes :: "log_device list \<Rightarrow> bytes" where
  "live_set_bytes ds = DEVICE_SET_DOMAIN @ u32_bytes (word_of_nat (length ds))
     @ concat (map device_entry (sort_key ld_device_id ds))"

definition log_device_wf :: "log_device \<Rightarrow> bool" where
  "log_device_wf d \<longleftrightarrow> length (ld_device_id d) = 16 \<and> length (ld_ik_public d) = 64
     \<and> (\<forall>signature. ld_cross_signature d = Some signature \<longrightarrow> length signature = 64)
     \<and> (ld_cross_signature d = None \<longleftrightarrow> ld_bundle_version d = 0)"

lemma push_log_devices_eq:
  "list_all log_device_wf ds \<Longrightarrow> push_log_devices encoded ds = Ok (encoded @ concat (map device_entry ds))"
  by (induction ds arbitrary: encoded)
    (auto simp: push_frame_eq push_u32_def device_entry_def log_device_wf_def split: option.splits)

lemma length_device_entry: "log_device_wf d \<Longrightarrow> length (device_entry d) \<le> 160"
  by (auto simp: device_entry_def log_device_wf_def split: option.splits)

lemma length_device_entries: "list_all log_device_wf ds \<Longrightarrow> length (concat (map device_entry ds)) \<le> 160 * length ds"
  by (induction ds) (auto dest: length_device_entry)

lemma list_all_sort_key: "list_all Q (sort_key f ds) = list_all Q ds"
  by (simp add: list_all_iff)

lemma hash_canonical_live_set_eq:
  assumes "list_all log_device_wf ds" and "length ds \<le> 100"
  shows "hash_canonical_live_set P ds = Ok (sha256_raw P (live_set_bytes ds))"
proof -
  have sorted: "list_all log_device_wf (sort_key ld_device_id ds)" using assms(1) by (simp add: list_all_sort_key)
  have "length (live_set_bytes ds) \<le> MAX_INPUT_BYTES"
    using length_device_entries [OF sorted] assms(2) by (simp add: live_set_bytes_def log_constants MAX_INPUT_BYTES_def)
  then show ?thesis
    using sorted assms(2)
    by (simp add: hash_canonical_live_set_def push_log_devices_eq push_u32_def sha256_def bounded_defs live_set_bytes_def)
qed

text \<open>The order in which devices are listed does not matter.\<close>

lemma live_set_bytes_permuted:
  assumes "mset ds = mset ds'" and "distinct (map ld_device_id ds)"
  shows "live_set_bytes ds = live_set_bytes ds'"
proof -
  have "inj_on ld_device_id (set ds)" using assms(2) by (simp add: distinct_map)
  then have "sort_key ld_device_id ds = sort_key ld_device_id ds'"
    using assms(1) sort_key_inj_key_eq [of ds "sort_key ld_device_id ds'" ld_device_id] by simp
  moreover have "length ds = length ds'" using assms(1) by (rule mset_eq_length)
  ultimately show ?thesis by (simp add: live_set_bytes_def)
qed

section \<open>The peer's request\<close>

definition log_device_bytes :: "log_device \<Rightarrow> bytes" where
  "log_device_bytes d = ld_device_id d @ ld_ik_public d @ u32_bytes (ld_registration_id d)
     @ (case ld_cross_signature d of None \<Rightarrow> [0] | Some signature \<Rightarrow> 1 # signature) @ u32_bytes (ld_bundle_version d)"

lemma optional_signature_codec:
  "codec optional_signature (\<lambda>s. case s of None \<Rightarrow> [0] | Some signature \<Rightarrow> 1 # signature)
     (\<lambda>s. \<forall>signature. s = Some signature \<longrightarrow> length signature = 64)"
proof unfold_locales
  fix s :: "bytes option"
  assume wf: "\<forall>signature. s = Some signature \<longrightarrow> length signature = 64"
  show "reads optional_signature (case s of None \<Rightarrow> [0] | Some signature \<Rightarrow> 1 # signature) s"
  proof (cases s)
    case None
    have "reads optional_signature ([0] @ []) None"
      unfolding optional_signature_def by (intro u8_codec.bind_reads reads_intros) simp_all
    then show ?thesis by (simp add: None)
  next
    case (Some signature)
    have "reads optional_signature ([1] @ signature @ []) (Some signature)"
      unfolding optional_signature_def using wf Some
      by (intro u8_codec.bind_reads) (simp_all add: array_codec.bind_reads [of _ _ _ "[]", simplified] reads_ret)
    then show ?thesis by (simp add: Some)
  qed
next
  show "sound optional_signature (\<lambda>bs s. (\<forall>signature. s = Some signature \<longrightarrow> length signature = 64)
      \<and> bs = (case s of None \<Rightarrow> [0] | Some signature \<Rightarrow> 1 # signature))"
    unfolding optional_signature_def by (intro sound_intros) auto
qed

interpretation log_device_codec: codec log_device_fields log_device_bytes log_device_wf
proof unfold_locales
  show "reads log_device_fields (log_device_bytes d) d" if "log_device_wf d" for d
    unfolding log_device_fields_def log_device_bytes_def
    by (rule reads_last, simp only: append_assoc, intro codec.bind_reads [OF optional_signature_codec] reads_intros)
      (use that in \<open>auto simp: log_device_wf_def\<close>)
  show "sound log_device_fields (\<lambda>bs d. log_device_wf d \<and> bs = log_device_bytes d)"
    unfolding log_device_fields_def
    by (intro codec.bind_sound [OF optional_signature_codec] sound_intros)
      (auto simp: log_device_wf_def log_device_bytes_def)
qed

lemma reads_to_end_remaining [ends_intros]:
  "reads_to_end (f bs) [] y \<Longrightarrow> reads_to_end (sbind reader_remaining_bytes f) bs y"
proof -
  assume f: "reads_to_end (f bs) [] y"
  show ?thesis
    unfolding reads_to_end_def
  proof (intro allI impI)
    fix r
    assume r: "reader_ok r" "unread r = bs"
    then have len: "rd_position r + length bs = length (rd_input r)" by (auto simp: reader_ok_def unread_def)
    then have "reader_remaining_bytes r = Ok (bs, advance (length bs) r)"
      using r by (simp add: reader_remaining_bytes_def unread_def advance_def)
    moreover have "reader_ok (advance (length bs) r)" "unread (advance (length bs) r) = []"
      using r len by (simp_all add: reader_ok_def advance_def unread_def)
    ultimately show "sbind reader_remaining_bytes f r = Ok (y, advance (length bs) r)"
      using f by (simp add: sbind_def reads_to_end_def)
  qed
qed

lemma sound_to_end_remaining [sound_end_intros]:
  assumes "\<And>record. sound_to_end (f record) (\<lambda>bs y. R record y)"
  shows "sound_to_end (sbind reader_remaining_bytes f) R"
  unfolding sound_to_end_def
proof (intro allI impI)
  fix r x r'
  assume r: "reader_ok r" and run: "sbind reader_remaining_bytes f r = Ok (x, r')"
  let ?s = "r\<lparr>rd_position := length (rd_input r)\<rparr>"
  have "reader_ok ?s" using r by (simp add: reader_ok_def)
  moreover have "f (unread r) ?s = Ok (x, r')" using run by (simp add: sbind_def reader_remaining_bytes_def unread_def)
  ultimately show "R (unread r) x" using assms [of "unread r"] unfolding sound_to_end_def by blast
qed

definition peer_log_bytes :: "peer_log \<Rightarrow> bytes" where
  "peer_log_bytes p = VERIFY_LOG_MAGIC @ pl_expected_user p @ pl_self_signing_public p
     @ bool_bytes (pl_verify_live_set p) @ u32_bytes (word_of_nat (length (pl_devices p)))
     @ concat (map log_device_bytes (pl_devices p)) @ pl_record p"

definition peer_log_wf :: "peer_log \<Rightarrow> bool" where
  "peer_log_wf p \<longleftrightarrow> length (pl_expected_user p) = 16 \<and> length (pl_self_signing_public p) = 32
     \<and> length (pl_devices p) \<le> 100 \<and> list_all log_device_wf (pl_devices p)
     \<and> length (pl_record p) = DEVICE_LOG_BUCKET_BYTES"

interpretation peer_log_codec: whole_codec peer_log_fields peer_log_bytes peer_log_wf
proof unfold_locales
  show "reads_to_end peer_log_fields (peer_log_bytes p) p" if "peer_log_wf p" for p
    unfolding peer_log_fields_def peer_log_bytes_def
    by (rule reads_to_end_last, simp only: append_assoc,
        intro codec.bind_reads_to_end [OF log_device_codec.repeat_codec] ends_intros)
      (use that in \<open>auto simp: peer_log_wf_def log_constants\<close>)
  show "sound_to_end peer_log_fields (\<lambda>bs p. peer_log_wf p \<and> bs = peer_log_bytes p)"
    unfolding peer_log_fields_def
    by (intro codec.bind_sound_to_end [OF log_device_codec.repeat_codec] sound_end_intros)
      (auto simp: peer_log_wf_def peer_log_bytes_def split: if_splits)
qed

section \<open>Records are accepted exactly when they are signed\<close>

lemma inspect_peer_iff:
  assumes "length input < 2 ^ 64"
  shows "inspect_peer_device_log_record P input = Ok out \<longleftrightarrow>
    (\<exists>p r padding. peer_log_wf p \<and> input = peer_log_bytes p \<and> pl_record p = log_record_bytes r @ padding \<and> log_record_wf r
      \<and> lr_user_id r = pl_expected_user p
      \<and> (pl_verify_live_set p \<longrightarrow> lr_live_set_hash r = sha256_raw P (live_set_bytes (pl_devices p)))
      \<and> log_signed P (pl_self_signing_public p) r
      \<and> out = u64_bytes (lr_sequence r) @ lr_previous_hash r @ sha256_raw P (pl_record p) @ lr_live_set_hash r
          @ u32_bytes (lr_identity_version r))"
    (is "_ \<longleftrightarrow> (\<exists>p. ?accepted p)")
proof -
  let ?expected = "\<lambda>p. if pl_verify_live_set p then Some (sha256_raw P (live_set_bytes (pl_devices p))) else None"
  let ?inspect = "\<lambda>p. inspect_log_with_public P (pl_expected_user p) (pl_self_signing_public p) (?expected p) (pl_record p)"
  have hash: "peer_live_set_hash P p = Ok (?expected p)" if "peer_log_wf p" for p
    using that by (simp add: peer_live_set_hash_def peer_log_wf_def hash_canonical_live_set_eq)
  have "inspect_peer_device_log_record P input = Ok out \<longleftrightarrow>
      (\<exists>p. (peer_log_wf p \<and> input = peer_log_bytes p) \<and> rbind (peer_live_set_hash P p) (\<lambda>expected.
        inspect_log_with_public P (pl_expected_user p) (pl_self_signing_public p) expected (pl_record p)) = Ok out)"
    unfolding inspect_peer_device_log_record_def by (subst rbind_Ok_iff) (simp only: peer_log_codec.run_iff [OF assms])
  also have "\<dots> \<longleftrightarrow> (\<exists>p. (peer_log_wf p \<and> input = peer_log_bytes p) \<and> ?inspect p = Ok out)"
    by (intro iff_exI conj_cong refl) (simp only: hash rbind_simps)
  also have "\<dots> \<longleftrightarrow> (\<exists>p. ?accepted p)"
  proof (intro iff_exI)
    show "(peer_log_wf p \<and> input = peer_log_bytes p) \<and> ?inspect p = Ok out \<longleftrightarrow> ?accepted p" for p
    proof (cases "peer_log_wf p")
      case True
      then have "length (pl_record p) = DEVICE_LOG_BUCKET_BYTES" by (simp add: peer_log_wf_def)
      from inspect_log_with_public_iff [OF this] show ?thesis by auto
    qed simp
  qed
  finally show ?thesis .
qed

lemma parse_identity_keys:
  assumes "parse_identity_package P package = Ok identity" and "length package < 2 ^ 64"
  shows "ip_self_signing_public identity = ed_public_of P (is_self_signing (ip_secrets identity))"
  using assms by (auto simp: parse_identity_package_def identity_codec.run_iff identity_fields_wf_def elim!: rbind_OkE)

lemma created_record:
  assumes P: "sized_prims P" "signatures_verify P" and package: "length package < 2 ^ 64"
      "parse_identity_package P package = Ok identity"
    and made: "create_device_log_record P package user sequence previous live_set version day tape = Ok (record, rest)"
  obtains r padding where "record = log_record_bytes r @ padding" and "log_record_wf r"
    and "length record = DEVICE_LOG_BUCKET_BYTES" and "lr_user_id r = user" and "ip_user_id identity = user"
    and "lr_sequence r = sequence" and "lr_previous_hash r = (if previous = [] then replicate 32 0 else previous)"
    and "lr_live_set_hash r = sha256_raw P live_set" and "lr_identity_version r = version"
    and "log_signed P (ip_self_signing_public identity) r"
proof -
  let ?previous = "if previous = [] then replicate 32 0 else previous"
  let ?secret = "is_self_signing (ip_secrets identity)"
  let ?r = "\<lambda>signature. \<lparr>lr_sequence = sequence, lr_coarse_unix_day = day, lr_identity_version = version, lr_user_id = user,
    lr_previous_hash = ?previous, lr_live_set_hash = sha256_raw P live_set, lr_signature = signature\<rparr>"
  from made have sizes: "length user = 16" "length ?previous = 32" "ip_user_id identity = user"
    by (auto simp: create_device_log_record_def package(2) raw_uuid_def split: if_splits elim!: monad_elims)
  define signature where "signature = ed_sign_raw P ?secret (log_statement (?r (replicate 64 0)))"
  have wf: "log_record_wf (?r s)" if "length s = 64" for s
    using sizes that sized_primsD(10) [OF P(1)] by (simp add: log_record_wf_def)
  have sig: "length signature = 64" unfolding signature_def by (rule sized_primsD(2) [OF P(1)])
  have same: "log_statement (?r (replicate 64 0)) = log_statement (?r signature)" by (simp add: log_statement_def)
  have "length (log_record_bytes (?r signature)) = 169" by (rule length_log_record [OF wf [OF sig]])
  moreover obtain noise where "record = log_record_bytes (?r signature) @ noise"
    "length noise = DEVICE_LOG_BUCKET_BYTES - length (log_record_bytes (?r signature))"
    using made sizes encode_device_log_signature_eq [OF wf [of "replicate 64 0"]] length_log_statement [OF wf [of "replicate 64 0"]]
    by (auto simp: create_device_log_record_def package(2) raw_uuid_def fixed_def Let_def sha256_def bounded_defs
        ed25519_sign_def random_bytes_Ok_iff ret_apply signature_def log_record_bytes_def
        split: if_splits elim!: monad_elims)
  moreover have "log_signed P (ip_self_signing_public identity) (?r signature)"
    using P(2) by (simp add: log_signed_def parse_identity_keys [OF package(2,1)] signatures_verify_def same [symmetric]
        signature_def [symmetric]) (simp add: signature_def)
  ultimately show thesis
    using that [of "?r signature" noise] wf [OF sig] sizes by (simp add: log_constants)
qed

lemma length_peer_log_bytes:
  assumes "peer_log_wf p"
  shows "length (peer_log_bytes p) < 2 ^ 64"
proof -
  have "length (concat (map log_device_bytes ds)) \<le> 200 * length ds" if "list_all log_device_wf ds" for ds
    using that by (induction ds) (auto simp: log_device_bytes_def log_device_wf_def split: option.splits)
  from this [of "pl_devices p"] show ?thesis
    using assms by (simp add: peer_log_wf_def peer_log_bytes_def log_constants bool_bytes_def)
qed

lemma inspect_own_record:
  assumes "parse_identity_package P package = Ok identity" and r: "record = log_record_bytes r @ padding" "log_record_wf r"
    and "length record = DEVICE_LOG_BUCKET_BYTES" and "lr_user_id r = ip_user_id identity"
    and "log_signed P (ip_self_signing_public identity) r"
  shows "inspect_device_log_record P package (ip_user_id identity) record =
    Ok (u64_bytes (lr_sequence r) @ lr_previous_hash r @ sha256_raw P record)"
proof -
  have "length record < 2 ^ 64" and "sha256 P record = Ok (sha256_raw P record)"
    using assms(4) by (simp_all add: log_constants sha256_def bounded_defs MAX_INPUT_BYTES_def)
  moreover from this(1) have "run_parser (log_record_fields UnsupportedVersion) record = Ok r"
    using run_log_record_iff r by blast
  moreover have "length (ip_user_id identity) = 16" using r(2) assms(5) by (simp add: log_record_wf_def)
  moreover have "verify_log_record P (ip_self_signing_public identity) r = Ok ()"
    using verify_log_record_iff [OF r(2)] assms(6) by simp
  ultimately show ?thesis
    using assms by (simp add: inspect_device_log_record_def raw_uuid_def fixed_def)
qed

text \<open>
  C24: the device log. A record that was created from an identity package is accepted by its owner's inspection, which
  returns its sequence number, its previous hash and its own hash; and it is accepted by a peer that knows the owner's
  public self-signing key and lists the devices of the committed set in any order.
\<close>

theorem created_log_record_accepted:
  assumes "sized_prims P" and "signatures_verify P" and "length package < 2 ^ 64"
    and "parse_identity_package P package = Ok identity"
    and "create_device_log_record P package user sequence previous (live_set_bytes devices) version day tape = Ok (record, rest)"
    and "list_all log_device_wf devices" and "length devices \<le> 100" and "distinct (map ld_device_id devices)"
    and "mset listed = mset devices"
  shows "let previous_hash = (if previous = [] then replicate 32 0 else previous);
      inspection = u64_bytes sequence @ previous_hash @ sha256_raw P record
    in inspect_device_log_record P package user record = Ok inspection
       \<and> inspect_peer_device_log_record P (peer_log_bytes \<lparr>pl_expected_user = user,
             pl_self_signing_public = ip_self_signing_public identity, pl_verify_live_set = True,
             pl_devices = listed, pl_record = record\<rparr>)
         = Ok (inspection @ sha256_raw P (live_set_bytes devices) @ u32_bytes version)"
proof -
  obtain r padding where r: "record = log_record_bytes r @ padding" "log_record_wf r"
    "length record = DEVICE_LOG_BUCKET_BYTES" "lr_user_id r = user" "ip_user_id identity = user" "lr_sequence r = sequence"
    "lr_previous_hash r = (if previous = [] then replicate 32 0 else previous)"
    "lr_live_set_hash r = sha256_raw P (live_set_bytes devices)" "lr_identity_version r = version"
    "log_signed P (ip_self_signing_public identity) r"
    by (rule created_record [OF assms(1-5)])
  have user: "length user = 16" using r(2,4) by (simp add: log_record_wf_def)
  have key: "length (ip_self_signing_public identity) = 32"
    by (simp add: parse_identity_keys [OF assms(4,3)] sized_primsD(1) [OF assms(1)])
  have own: "inspect_device_log_record P package user record = Ok (u64_bytes sequence @ lr_previous_hash r @ sha256_raw P record)"
    using inspect_own_record [OF assms(4) r(1-3)] r(4-6,10) by simp
  let ?p = "\<lparr>pl_expected_user = user, pl_self_signing_public = ip_self_signing_public identity, pl_verify_live_set = True,
      pl_devices = listed, pl_record = record\<rparr>"
  have listed: "length listed = length devices" "set listed = set devices"
    using assms(9) by (auto dest: mset_eq_length mset_eq_setD)
  have wf: "peer_log_wf ?p" using assms(6,7) listed user key r(3) by (simp add: peer_log_wf_def list_all_iff)
  have "live_set_bytes listed = live_set_bytes devices"
    using live_set_bytes_permuted [of devices listed] assms(8,9) by simp
  then have peer: "inspect_peer_device_log_record P (peer_log_bytes ?p) = Ok (u64_bytes sequence @ lr_previous_hash r
      @ sha256_raw P record @ sha256_raw P (live_set_bytes devices) @ u32_bytes version)"
    using wf r by (subst inspect_peer_iff [OF length_peer_log_bytes [OF wf]]) (auto intro!: exI [of _ ?p] exI [of _ r])
  show ?thesis using own peer by (simp add: Let_def r(7))
qed

definition sample_log_device :: log_device where
  "sample_log_device = \<lparr>ld_device_id = replicate 16 4, ld_ik_public = replicate 64 5, ld_registration_id = 6,
     ld_cross_signature = None, ld_bundle_version = 0\<rparr>"

lemma sample_log_created:
  "\<exists>record rest. create_device_log_record example_prims sample_identity_package (replicate 16 1) 9 []
     (live_set_bytes [sample_log_device]) 1 20000 (replicate 87 3) = Ok (record, rest)"
proof -
  let ?live = "live_set_bytes [sample_log_device]"
  have "length ?live \<le> MAX_INPUT_BYTES"
    by (simp add: live_set_bytes_def device_entry_def sample_log_device_def log_constants MAX_INPUT_BYTES_def)
  then have "sha256 example_prims ?live = Ok (sha256_raw example_prims ?live)" by (simp add: sha256_def bounded_defs)
  moreover have "length (sha256_raw example_prims ?live) = 32" by (rule sized_primsD(10) [OF example_sized])
  moreover have "length (ed_sign_raw example_prims s m) = 64" for s m by (rule sized_primsD(2) [OF example_sized])
  ultimately show ?thesis
    by (simp add: create_device_log_record_def sample_identity_parses identity_of_def raw_uuid_def fixed_def
        encode_device_log_signature_def push_frame_eq ed25519_sign_def bounded_defs Let_def log_constants MAX_INPUT_BYTES_def
        sbind_Ok [OF random_bytes_total] ret_apply)
qed

theorem created_log_record_accepted_witness:
  "\<exists>record rest. create_device_log_record example_prims sample_identity_package (replicate 16 1) 9 []
       (live_set_bytes [sample_log_device]) 1 20000 (replicate 87 3) = Ok (record, rest)
     \<and> inspect_device_log_record example_prims sample_identity_package (replicate 16 1) record
       = Ok (u64_bytes 9 @ replicate 32 0 @ sha256_raw example_prims record)"
proof -
  obtain rec rest where made: "create_device_log_record example_prims sample_identity_package (replicate 16 1) 9 []
      (live_set_bytes [sample_log_device]) 1 20000 (replicate 87 3) = Ok (rec, rest)"
    using sample_log_created by blast
  have "length sample_identity_package < 2 ^ 64" by (simp add: length_sample_identity)
  from created_log_record_accepted [OF example_sized example_signatures this sample_identity_parses made, of "[sample_log_device]"]
  have "inspect_device_log_record example_prims sample_identity_package (replicate 16 1) rec
      = Ok (u64_bytes 9 @ replicate 32 0 @ sha256_raw example_prims rec)"
    by (simp add: Let_def log_device_wf_def sample_log_device_def)
  with made show ?thesis by blast
qed

text \<open>
  C25: what a peer believes of a log record. The inspection of a peer's record succeeds exactly for a request that frames
  a signed record of the expected user, whose live-set hash, when the check is asked for, is the hash of the listed
  devices; and it returns the record's sequence number, previous hash, own hash, live-set hash and identity version.
\<close>

theorem peer_log_record_accepted_iff:
  assumes "length input < 2 ^ 64"
  shows "inspect_peer_device_log_record P input = Ok out \<longleftrightarrow>
    (\<exists>p r padding. peer_log_wf p \<and> input = peer_log_bytes p \<and> pl_record p = log_record_bytes r @ padding \<and> log_record_wf r
      \<and> lr_user_id r = pl_expected_user p
      \<and> (pl_verify_live_set p \<longrightarrow> lr_live_set_hash r = sha256_raw P (live_set_bytes (pl_devices p)))
      \<and> log_signed P (pl_self_signing_public p) r
      \<and> out = u64_bytes (lr_sequence r) @ lr_previous_hash r @ sha256_raw P (pl_record p) @ lr_live_set_hash r
          @ u32_bytes (lr_identity_version r))"
  by (rule inspect_peer_iff [OF assms])

definition sample_log_record :: log_record where
  "sample_log_record = \<lparr>lr_sequence = 3, lr_coarse_unix_day = 20000, lr_identity_version = 1, lr_user_id = replicate 16 1,
     lr_previous_hash = replicate 32 5, lr_live_set_hash = replicate 32 6, lr_signature = replicate 64 2\<rparr>"

definition sample_peer_log :: peer_log where
  "sample_peer_log = \<lparr>pl_expected_user = replicate 16 1, pl_self_signing_public = replicate 32 2, pl_verify_live_set = False,
     pl_devices = [], pl_record = log_record_bytes sample_log_record @ replicate 87 0\<rparr>"

theorem peer_log_record_accepted_iff_witness:
  "inspect_peer_device_log_record example_prims (peer_log_bytes sample_peer_log) =
     Ok (u64_bytes 3 @ replicate 32 5 @ sha256_raw example_prims (pl_record sample_peer_log) @ replicate 32 6 @ u32_bytes 1)"
proof -
  have r: "log_record_wf sample_log_record" by (simp add: log_record_wf_def sample_log_record_def)
  then have wf: "peer_log_wf sample_peer_log"
    by (simp add: peer_log_wf_def sample_peer_log_def length_log_record log_constants)
  have "log_signed example_prims (replicate 32 2) sample_log_record"
    by (simp add: log_signed_def example_prims_def sample_log_record_def)
  with r wf show ?thesis
    by (subst peer_log_record_accepted_iff [OF length_peer_log_bytes [OF wf]])
      (auto intro!: exI [of _ sample_peer_log] exI [of _ sample_log_record] simp: sample_peer_log_def sample_log_record_def)
qed

section \<open>Fingerprints\<close>

definition safety_bytes :: "bytes \<times> bytes \<times> bytes \<times> bytes \<Rightarrow> bytes" where
  "safety_bytes = (\<lambda>(u, m, v, n). SAFETY_MAGIC @ u @ m @ v @ n)"

definition safety_wf :: "bytes \<times> bytes \<times> bytes \<times> bytes \<Rightarrow> bool" where
  "safety_wf = (\<lambda>(u, m, v, n). length u = 16 \<and> length m = 32 \<and> length v = 16 \<and> length n = 32)"

interpretation safety_codec: whole_codec safety_fields safety_bytes safety_wf
proof unfold_locales
  show "reads_to_end safety_fields (safety_bytes x) x" if "safety_wf x" for x
  proof -
    obtain u m v n where x: "x = (u, m, v, n)" by (cases x)
    show ?thesis
      unfolding x safety_fields_def safety_bytes_def prod.case
      by (rule reads_to_end_last, simp only: append_assoc, intro ends_intros)
        (use that in \<open>auto simp: x safety_wf_def log_constants\<close>)
  qed
  show "sound_to_end safety_fields (\<lambda>bs x. safety_wf x \<and> bs = safety_bytes x)"
    unfolding safety_fields_def by (intro sound_end_intros) (auto simp: safety_wf_def safety_bytes_def)
qed

text \<open>The committed string: the two accounts in the order of their identifiers.\<close>

definition safety_commitment :: "bytes \<times> bytes \<times> bytes \<times> bytes \<Rightarrow> bytes" where
  "safety_commitment = (\<lambda>(u, m, v, n). SAFETY_FINGERPRINT_DOMAIN @ frames (if u \<le> v then [u, m, v, n] else [v, n, u, m]))"

lemma safety_fingerprint_eq:
  assumes "safety_wf x"
  shows "safety_fingerprint P (safety_bytes x) = Ok (sha256_raw P (safety_commitment x))"
proof -
  obtain u m v n where x: "x = (u, m, v, n)" by (cases x)
  have "length (safety_bytes x) < 2 ^ 64" using assms by (simp add: x safety_wf_def safety_bytes_def log_constants)
  then have run: "run_parser safety_fields (safety_bytes x) = Ok (u, m, v, n)"
    using safety_codec.run_iff assms unfolding x by blast
  show ?thesis
    using assms
    by (auto simp: safety_fingerprint_def run [unfolded x] x safety_wf_def push_frame_eq sha256_def bounded_defs
        MAX_INPUT_BYTES_def safety_commitment_def log_constants Let_def)
qed

text \<open>
  C39: the safety fingerprint commits to the two accounts and does not depend on who computes it. The fingerprint of two
  accounts with different identifiers is the hash of a string that is the same for both orders, and two such
  strings are equal only for the same two pairs of user and master key.
\<close>

theorem safety_fingerprint_commits:
  assumes "safety_wf (u, m, v, n)" and "u \<noteq> v" and "safety_wf (u', m', v', n')" and "u' \<noteq> v'"
  shows "safety_fingerprint P (safety_bytes (u, m, v, n)) = Ok (sha256_raw P (safety_commitment (u, m, v, n)))
    \<and> safety_fingerprint P (safety_bytes (v, n, u, m)) = Ok (sha256_raw P (safety_commitment (u, m, v, n)))
    \<and> (safety_commitment (u, m, v, n) = safety_commitment (u', m', v', n') \<longleftrightarrow> {(u, m), (v, n)} = {(u', m'), (v', n')})"
proof -
  define xs where "xs = (if u \<le> v then [u, m, v, n] else [v, n, u, m])"
  define ys where "ys = (if u' \<le> v' then [u', m', v', n'] else [v', n', u', m'])"
  have swap: "safety_commitment (v, n, u, m) = safety_commitment (u, m, v, n)"
    using assms(2) by (auto simp: safety_commitment_def)
  have len: "length xs = length ys" "length (frames xs) \<le> MAX_INPUT_BYTES"
    using assms(1) by (simp_all add: xs_def ys_def safety_wf_def MAX_INPUT_BYTES_def)
  have "safety_commitment (u, m, v, n) = safety_commitment (u', m', v', n') \<longleftrightarrow> frames xs = frames ys"
    by (simp only: safety_commitment_def prod.case same_append_eq xs_def ys_def)
  also have "\<dots> \<longleftrightarrow> xs = ys" using frames_inj [OF _ len] by auto
  also have "\<dots> \<longleftrightarrow> {(u, m), (v, n)} = {(u', m'), (v', n')}"
    using assms(2,4) by (auto simp: xs_def ys_def doubleton_eq_iff)
  finally show ?thesis
    using safety_fingerprint_eq [OF assms(1)] safety_fingerprint_eq [of "(v, n, u, m)"] assms(1) swap by (simp add: safety_wf_def)
qed

theorem safety_fingerprint_commits_witness:
  "safety_fingerprint example_prims (safety_bytes (replicate 16 1, replicate 32 2, replicate 16 3, replicate 32 4))
   = safety_fingerprint example_prims (safety_bytes (replicate 16 3, replicate 32 4, replicate 16 1, replicate 32 2))"
proof -
  have wf: "safety_wf (replicate 16 1, replicate 32 2, replicate 16 3, replicate 32 4)" by (simp add: safety_wf_def)
  have "replicate 16 1 \<noteq> (replicate 16 3 :: bytes)" by (simp add: replicate_eq_replicate)
  from safety_fingerprint_commits [OF wf this wf this, of example_prims] show ?thesis by simp
qed

section \<open>Published identities and attestations\<close>

definition published_bytes :: "cross_signing_identity \<times> bytes \<times> bytes \<Rightarrow> bytes" where
  "published_bytes = (\<lambda>(i, master_public, signature). VERIFY_IDENTITY_MAGIC @ ci_user_id i @ master_public
     @ ci_self_signing_public i @ ci_user_signing_public i @ signature)"

definition published_wf :: "cross_signing_identity \<times> bytes \<times> bytes \<Rightarrow> bool" where
  "published_wf = (\<lambda>(i, master_public, signature). length (ci_user_id i) = 16 \<and> length master_public = 32
     \<and> length (ci_self_signing_public i) = 32 \<and> length (ci_user_signing_public i) = 32 \<and> length signature = 64)"

interpretation published_codec: whole_codec published_identity_fields published_bytes published_wf
proof unfold_locales
  show "reads_to_end published_identity_fields (published_bytes x) x" if "published_wf x" for x
  proof -
    obtain i m g where x: "x = (i, m, g)" by (cases x)
    show ?thesis
      unfolding x published_identity_fields_def published_bytes_def prod.case
      by (rule reads_to_end_last, simp only: append_assoc, intro ends_intros)
        (use that in \<open>auto simp: x published_wf_def log_constants\<close>)
  qed
  show "sound_to_end published_identity_fields (\<lambda>bs x. published_wf x \<and> bs = published_bytes x)"
    unfolding published_identity_fields_def by (intro sound_end_intros) (auto simp: published_wf_def published_bytes_def)
qed

definition attestation_bytes :: "bytes \<times> bytes \<times> bytes \<times> bytes \<times> bytes \<Rightarrow> bytes" where
  "attestation_bytes = (\<lambda>(user, key, peer, master, signature). VERIFY_ATTESTATION_MAGIC @ user @ key @ peer @ master @ signature)"

definition attestation_wf :: "bytes \<times> bytes \<times> bytes \<times> bytes \<times> bytes \<Rightarrow> bool" where
  "attestation_wf = (\<lambda>(user, key, peer, master, signature). length user = 16 \<and> length key = 32 \<and> length peer = 16
     \<and> length master = 32 \<and> length signature = 64)"

interpretation attestation_codec: whole_codec attestation_fields attestation_bytes attestation_wf
proof unfold_locales
  show "reads_to_end attestation_fields (attestation_bytes x) x" if "attestation_wf x" for x
  proof -
    obtain u k p m g where x: "x = (u, k, p, m, g)" by (cases x)
    show ?thesis
      unfolding x attestation_fields_def attestation_bytes_def prod.case
      by (rule reads_to_end_last, simp only: append_assoc, intro ends_intros)
        (use that in \<open>auto simp: x attestation_wf_def log_constants\<close>)
  qed
  show "sound_to_end attestation_fields (\<lambda>bs x. attestation_wf x \<and> bs = attestation_bytes x)"
    unfolding attestation_fields_def by (intro sound_end_intros) (auto simp: attestation_wf_def attestation_bytes_def)
qed

lemma encode_user_attestation_eq:
  assumes "length user = 16" and "length peer = 16" and "length master = 32"
  shows "encode_user_attestation user peer master = Ok (USER_ATTESTATION_DOMAIN @ frames [user, peer, master])"
  using assms by (simp add: encode_user_attestation_def push_frame_eq)

lemma attestation_verifies:
  assumes P: "sized_prims P" "signatures_verify P" and package: "length package < 2 ^ 64"
      "parse_identity_package P package = Ok identity"
    and signed: "attest_peer_master P package peer master = Ok signature"
  shows "verify_user_attestation P (attestation_bytes (ip_user_id identity,
      ed_public_of P (is_user_signing (ip_secrets identity)), peer, master, signature)) = Ok ()"
proof -
  note user = parse_identity_wf(1) [OF package(2,1)]
  let ?m = "USER_ATTESTATION_DOMAIN @ frames [ip_user_id identity, peer, master]"
  let ?key = "ed_public_of P (is_user_signing (ip_secrets identity))"
  from signed have sizes: "length peer = 16" "length master = 32"
    by (auto simp: attest_peer_master_def raw_uuid_def elim!: rbind_OkE)
  note encoded = encode_user_attestation_eq [OF user sizes]
  have small: "length ?m \<le> MAX_INPUT_BYTES" using user sizes by (simp add: log_constants MAX_INPUT_BYTES_def)
  from signed have signature: "signature = ed_sign_raw P (is_user_signing (ip_secrets identity)) ?m"
    by (auto simp: attest_peer_master_def package(2) raw_uuid_def encoded ed25519_sign_Ok_iff elim!: rbind_OkE)
  have wf: "attestation_wf (ip_user_id identity, ?key, peer, master, signature)"
    using user sizes sized_primsD(1,2) [OF P(1)] by (simp add: attestation_wf_def signature)
  then have "length (attestation_bytes (ip_user_id identity, ?key, peer, master, signature)) < 2 ^ 64"
    by (simp add: attestation_wf_def attestation_bytes_def log_constants)
  with wf have "run_parser attestation_fields (attestation_bytes (ip_user_id identity, ?key, peer, master, signature))
      = Ok (ip_user_id identity, ?key, peer, master, signature)"
    by (simp add: attestation_codec.run_iff)
  then show ?thesis
    using small P(2) by (simp add: verify_user_attestation_def encoded ed25519_verify_Ok_iff signature signatures_verify_def)
qed

lemma published_identity_verifies:
  assumes P: "sized_prims P" and package: "length package < 2 ^ 64" "parse_identity_package P package = Ok identity"
  shows "verify_published_identity P (published_bytes (\<lparr>ci_user_id = ip_user_id identity,
      ci_self_signing_public = ip_self_signing_public identity,
      ci_user_signing_public = ed_public_of P (is_user_signing (ip_secrets identity))\<rparr>,
      ip_master_public identity, ip_master_signature identity)) = Ok ()"
    (is "_ P (published_bytes (?i, ?key, ?signature)) = _")
proof -
  from package obtain encoded where wf: "identity_fields_wf P (identity, ed_public_of P (is_user_signing (ip_secrets identity)))"
    and verified: "encode_master_signature ?i = Ok encoded" "ed25519_verify P ?key encoded ?signature = Ok ()"
    by (auto simp: parse_identity_package_def identity_codec.run_iff identity_fields_wf_def elim!: rbind_OkE)
  have "published_wf (?i, ?key, ?signature)" using wf by (auto simp: published_wf_def identity_fields_wf_def)
  moreover from this have "length (published_bytes (?i, ?key, ?signature)) < 2 ^ 64"
    by (simp add: published_wf_def published_bytes_def log_constants)
  ultimately have "run_parser published_identity_fields (published_bytes (?i, ?key, ?signature)) = Ok (?i, ?key, ?signature)"
    by (simp add: published_codec.run_iff)
  then show ?thesis by (simp add: verify_published_identity_def verify_master_signature_def verify_def verified)
qed

text \<open>
  What an account publishes verifies. The public half of an identity package that parses is
  accepted as a published identity, and an attestation of a peer's master key made with the package is accepted under
  the published user-signing key.
\<close>

theorem account_publications_verify:
  assumes "sized_prims P" and "signatures_verify P" and "length package < 2 ^ 64"
    and "parse_identity_package P package = Ok identity"
    and "attest_peer_master P package peer master = Ok signature"
  shows "verify_published_identity P (published_bytes (\<lparr>ci_user_id = ip_user_id identity,
        ci_self_signing_public = ip_self_signing_public identity,
        ci_user_signing_public = ed_public_of P (is_user_signing (ip_secrets identity))\<rparr>,
        ip_master_public identity, ip_master_signature identity)) = Ok ()
    \<and> verify_user_attestation P (attestation_bytes (ip_user_id identity,
        ed_public_of P (is_user_signing (ip_secrets identity)), peer, master, signature)) = Ok ()"
  using published_identity_verifies [OF assms(1,3,4)] attestation_verifies [OF assms] by blast

theorem account_publications_verify_witness:
  "\<exists>signature. attest_peer_master example_prims sample_identity_package (replicate 16 8) (replicate 32 9) = Ok signature
     \<and> verify_user_attestation example_prims (attestation_bytes (replicate 16 1,
         ed_public_of example_prims (replicate 32 3), replicate 16 8, replicate 32 9, signature)) = Ok ()"
proof -
  have "encode_user_attestation (replicate 16 1) (replicate 16 8) (replicate 32 9)
      = Ok (USER_ATTESTATION_DOMAIN @ frames [replicate 16 1, replicate 16 8, replicate 32 9])"
    by (rule encode_user_attestation_eq) simp_all
  then obtain signature where signed: "attest_peer_master example_prims sample_identity_package (replicate 16 8) (replicate 32 9) = Ok signature"
    by (simp add: attest_peer_master_def sample_identity_parses raw_uuid_def fixed_def identity_of_def ed25519_sign_def bounded_defs
        log_constants MAX_INPUT_BYTES_def)
  have "length sample_identity_package < 2 ^ 64" by (simp add: length_sample_identity)
  from account_publications_verify [OF example_sized example_signatures this sample_identity_parses signed] signed
  show ?thesis by (auto simp: identity_of_def sample_secrets_def)
qed

section \<open>All statements an account signs\<close>

text \<open>The statements of \<^verbatim>\<open>device_signatures.rs\<close>, the log records and the attestations, with the bytes each is signed as.\<close>

datatype account_statement =
    KeyStatement signed_statement
  | LogStatement bytes u64 bytes bytes u32 u32
  | AttestationStatement bytes bytes bytes

fun encode_account_statement :: "account_statement \<Rightarrow> bytes cresult" where
  "encode_account_statement (KeyStatement s) = encode_statement s"
| "encode_account_statement (LogStatement user sequence previous live version day) =
     encode_device_log_signature user sequence previous live version day"
| "encode_account_statement (AttestationStatement user peer master) = encode_user_attestation user peer master"

fun account_domain :: "account_statement \<Rightarrow> bytes" where
  "account_domain (KeyStatement s) = statement_domain s"
| "account_domain (LogStatement user sequence previous live version day) = DEVICE_LOG_DOMAIN"
| "account_domain (AttestationStatement user peer master) = USER_ATTESTATION_DOMAIN"

fun account_fields :: "account_statement \<Rightarrow> bytes list" where
  "account_fields (KeyStatement s) = statement_fields s"
| "account_fields (LogStatement user sequence previous live version day) =
     [user, u64_bytes sequence, previous, live, u32_bytes version, u32_bytes day]"
| "account_fields (AttestationStatement user peer master) = [user, peer, master]"

lemma encode_account_statement_Ok:
  "encode_account_statement s = Ok bs \<Longrightarrow> bs = account_domain s @ frames (account_fields s)"
  by (cases s) (auto simp: encode_device_log_signature_def encode_user_attestation_def push_frame_eq
      dest!: encode_statement_Ok split: if_splits elim!: rbind_OkE)

text \<open>Bytes 8 and 15 tell the six domains apart.\<close>

lemma domain_bytes:
  "(DEVICE_LOG_DOMAIN @ x) ! 8 = 100" "(USER_ATTESTATION_DOMAIN @ x) ! 8 = 117"
  "(DEVICE_LOG_DOMAIN @ x) ! 15 = 108" "(CROSS_SIGNATURE_DOMAIN @ x) ! 15 = 98"
  by (simp_all add: log_constants CROSS_SIGNATURE_DOMAIN_def ascii_def)

lemma key_domain_bytes:
  "(statement_domain a @ x) ! 8 = 100 \<Longrightarrow> (statement_domain a @ x) ! 15 \<noteq> 108"
  "(statement_domain a @ x) ! 8 \<noteq> 117"
  by (cases a; simp add: domain_bytes domain_byte_8)+

lemma account_domain_eq:
  assumes "account_domain s @ x = account_domain t @ y"
  shows "(\<exists>a b. s = KeyStatement a \<and> t = KeyStatement b)
    \<or> account_domain s = account_domain t \<and> length (account_fields s) = length (account_fields t)
      \<and> (account_fields s = account_fields t \<longrightarrow> s = t)"
proof -
  from assms have "(account_domain s @ x) ! 8 = (account_domain t @ y) ! 8"
    and "(account_domain s @ x) ! 15 = (account_domain t @ y) ! 15" by simp_all
  moreover have "a = b" if "u64_bytes a = u64_bytes b" for a b
    using u64_codec.prefix_free [where x = a and y = b and u = "[]" and v = "[]"] that by simp
  ultimately show ?thesis
    by (cases s; cases t) (auto simp: domain_bytes dest: key_domain_bytes(1) key_domain_bytes(2) [THEN notE]
        key_domain_bytes(1) [OF sym] key_domain_bytes(2) [THEN notE, OF sym])
qed

lemma account_statement_eq:
  assumes "encode_account_statement s = Ok bs" and "encode_account_statement t = Ok bs" and "length bs \<le> MAX_INPUT_BYTES"
  shows "s = t"
proof -
  have eq: "account_domain s @ frames (account_fields s) = account_domain t @ frames (account_fields t)"
    using encode_account_statement_Ok [OF assms(1)] encode_account_statement_Ok [OF assms(2)] by simp
  from account_domain_eq [OF this] show ?thesis
  proof (elim disjE exE conjE)
    fix a b
    assume "s = KeyStatement a" "t = KeyStatement b"
    then show ?thesis using signed_statement_unique assms(1,2) by simp
  next
    assume d: "account_domain s = account_domain t" "length (account_fields s) = length (account_fields t)"
      "account_fields s = account_fields t \<longrightarrow> s = t"
    have "frames (account_fields s) = frames (account_fields t)" using eq d(1) by simp
    moreover have "length (frames (account_fields s)) \<le> MAX_INPUT_BYTES"
      using encode_account_statement_Ok [OF assms(1)] assms(3) by simp
    ultimately show ?thesis using frames_inj d(2,3) by blast
  qed
qed

text \<open>
  C23: signed byte strings are unambiguous. Two statements an account or device signs (device bundle,
  cross-signing identity, signed prekey, post-quantum signed prekey, device log record, attestation of a peer) that
  are signed as the same bytes are the same statement of the same kind, so a signature over one of them is not a
  signature over another.
\<close>

theorem account_statement_unique:
  assumes "encode_account_statement s = Ok bs" and "encode_account_statement t = Ok bs" and "length bs \<le> MAX_INPUT_BYTES"
  shows "s = t"
  by (rule account_statement_eq [OF assms])

theorem account_statement_unique_witness:
  "\<exists>bs. encode_account_statement (AttestationStatement (replicate 16 1) (replicate 16 2) (replicate 32 3)) = Ok bs
     \<and> length bs \<le> MAX_INPUT_BYTES
     \<and> encode_account_statement (AttestationStatement (replicate 16 2) (replicate 16 1) (replicate 32 3)) \<noteq> Ok bs"
proof -
  let ?s = "AttestationStatement (replicate 16 1) (replicate 16 2) (replicate 32 3)"
  let ?bs = "USER_ATTESTATION_DOMAIN @ frames [replicate 16 1, replicate 16 2, replicate 32 3]"
  have s: "encode_account_statement ?s = Ok ?bs"
    by (simp add: encode_user_attestation_eq)
  have len: "length ?bs \<le> MAX_INPUT_BYTES" by (simp add: log_constants MAX_INPUT_BYTES_def)
  have "(replicate 16 1 :: bytes) \<noteq> replicate 16 2" by (simp add: replicate_eq_replicate)
  then have "encode_account_statement (AttestationStatement (replicate 16 2) (replicate 16 1) (replicate 32 3)) \<noteq> Ok ?bs"
    using account_statement_unique [OF s _ len] by blast
  with s len show ?thesis by blast
qed

end
