(* ===== verification/Device_Enrollment.thy ===== *)
theory Device_Enrollment
  imports Identity_Package Bundle_Verification Prekey_Operations
begin

text \<open>
  The enrollment of a device (\<^verbatim>\<open>enrollment.rs\<close>): its first package with signed and one-time prekeys, the parser of
  that package, and its cross signature by the account. The package is the version 1 state that
  \<^verbatim>\<open>prekey_state.rs\<close> migrates.
\<close>

section \<open>Preparing a device\<close>

definition DEVICE_PACKAGE_MAGIC :: bytes where "DEVICE_PACKAGE_MAGIC = ascii ''CPDVV001''"
definition INITIAL_CLASSICAL_ONE_TIME_PREKEYS :: nat where "INITIAL_CLASSICAL_ONE_TIME_PREKEYS = 8"
definition INITIAL_PQ_ONE_TIME_PREKEYS :: nat where "INITIAL_PQ_ONE_TIME_PREKEYS = 4"

lemmas enrollment_constants =
  DEVICE_PACKAGE_MAGIC_def INITIAL_CLASSICAL_ONE_TIME_PREKEYS_def INITIAL_PQ_ONE_TIME_PREKEYS_def

definition enroll_classical :: "prims \<Rightarrow> nat \<Rightarrow> classical_one_time_key ent" where
  "enroll_classical P index =
     sbind (random_bytes 32) (\<lambda>secret.
     sbind (slift (x25519_public P secret)) (\<lambda>public.
     sbind (slift (ok_or (try_from_usize (index + 1)) InputTooLarge)) (\<lambda>i.
     ret \<lparr>co_id = i, co_public = public, co_secret = secret\<rparr>)))"

definition enroll_pq :: "prims \<Rightarrow> nat \<Rightarrow> pq_one_time_key ent" where
  "enroll_pq P index =
     sbind (mlkem768_keypair P) (\<lambda>(public, secret).
     sbind (slift (ok_or (try_from_usize (index + 1)) InputTooLarge)) (\<lambda>i.
     ret \<lparr>po_id = i, po_public = public, po_secret = secret\<rparr>))"

definition prepare_device :: "prims \<Rightarrow> bytes \<Rightarrow> bytes ent" where
  "prepare_device P user =
     sbind (slift (raw_uuid user)) (\<lambda>user_id.
     sbind (random_bytes 32) (\<lambda>device_signing_secret.
     sbind (random_bytes 32) (\<lambda>identity_secret.
     sbind (random_bytes 32) (\<lambda>signed_prekey_secret.
     let device_signing_public = ed_public_of P device_signing_secret in
     sbind (slift (x25519_public P identity_secret)) (\<lambda>identity_public.
     let ik_public = ik_from_halves device_signing_public identity_public in
     sbind (slift (x25519_public P signed_prekey_secret)) (\<lambda>spk_public.
     sbind (slift (encode_signed_prekey \<lparr>sp_user_id = user_id, sp_prekey = \<lparr>pk_id = 1, pk_public = spk_public\<rparr>\<rparr>)) (\<lambda>signed_prekey_bytes.
     sbind (slift (ed25519_sign P device_signing_secret signed_prekey_bytes)) (\<lambda>spk_signature.
     sbind (mlkem768_keypair P) (\<lambda>(pq_spk_public, pq_spk_secret).
     sbind (slift (encode_pq_signed_prekey \<lparr>sp_user_id = user_id, sp_prekey = \<lparr>pk_id = 1, pk_public = pq_spk_public\<rparr>\<rparr>)) (\<lambda>pq_bytes.
     sbind (slift (ed25519_sign P device_signing_secret pq_bytes)) (\<lambda>pq_spk_signature.
     sbind (random_bytes 4) (\<lambda>registration_bytes.
     let registration_id = word_of_nat (be_value registration_bytes) AND 0x7fffffff in
     sbind (slift (sha256 P ik_public)) (\<lambda>fingerprint.
     sbind (map_s (enroll_classical P) [0..<INITIAL_CLASSICAL_ONE_TIME_PREKEYS]) (\<lambda>classical.
     sbind (map_s (enroll_pq P) [0..<INITIAL_PQ_ONE_TIME_PREKEYS]) (\<lambda>pq.
     sbind (slift (ok_or (try_from_usize INITIAL_CLASSICAL_ONE_TIME_PREKEYS) InputTooLarge)) (\<lambda>classical_count :: u16.
     sbind (slift (ok_or (try_from_usize INITIAL_PQ_ONE_TIME_PREKEYS) InputTooLarge)) (\<lambda>pq_count :: u16.
     ret (DEVICE_PACKAGE_MAGIC @ user_id @ u32_bytes registration_id @ u32_bytes 1 @ u32_bytes 1
          @ u16_bytes classical_count @ u16_bytes pq_count @ ik_public @ spk_public @ spk_signature @ pq_spk_public
          @ pq_spk_signature @ fingerprint
          @ concat (map (\<lambda>k. u32_bytes (co_id k) @ co_public k) classical)
          @ concat (map (\<lambda>k. u32_bytes (po_id k) @ po_public k) pq)
          @ device_signing_secret @ identity_secret @ signed_prekey_secret @ pq_spk_secret
          @ concat (map co_secret classical) @ concat (map po_secret pq)))))))))))))))))))"

section \<open>Reading the package back\<close>

record device_package =
  dp_user_id :: bytes
  dp_registration_id :: u32
  dp_spk_id :: u32
  dp_pq_spk_id :: u32
  dp_ik_public :: bytes
  dp_spk_public :: bytes
  dp_pq_spk_public :: bytes

definition remainder_length :: "nat \<Rightarrow> nat \<Rightarrow> nat" where
  "remainder_length classical_count pq_count =
     classical_count * (4 + 32) + pq_count * (4 + 1184) + (32 + 32 + 32 + 2400 + classical_count * 32 + pq_count * 2400)"

definition device_package_fields :: "prims \<Rightarrow> (device_package \<times> bytes \<times> bytes) parser" where
  "device_package_fields P =
     sbind (reader_take 8) (\<lambda>magic.
     sbind (slift (reject_if (magic \<noteq> DEVICE_PACKAGE_MAGIC) MalformedInput)) (\<lambda>_.
     sbind (reader_array 16) (\<lambda>user_id.
     sbind reader_u32 (\<lambda>registration_id.
     sbind reader_u32 (\<lambda>spk_id.
     sbind reader_u32 (\<lambda>pq_spk_id.
     sbind reader_u16 (\<lambda>classical_count.
     sbind reader_u16 (\<lambda>pq_count.
     sbind (slift (reject_if (unat classical_count = 0 \<or> unat classical_count > INITIAL_CLASSICAL_ONE_TIME_PREKEYS
         \<or> unat pq_count = 0 \<or> unat pq_count > INITIAL_PQ_ONE_TIME_PREKEYS) MalformedInput)) (\<lambda>_.
     sbind (reader_take 64) (\<lambda>ik_bytes.
     sbind (slift (ik_try_from_bytes ik_bytes)) (\<lambda>ik_public.
     sbind (reader_array 32) (\<lambda>spk_public.
     sbind (reader_array 64) (\<lambda>spk_signature.
     sbind (reader_array 1184) (\<lambda>pq_spk_public.
     sbind (reader_array 64) (\<lambda>pq_spk_signature.
     sbind (reader_array 32) (\<lambda>fingerprint.
     sbind (reader_take (remainder_length (unat classical_count) (unat pq_count))) (\<lambda>_.
     sbind finished (\<lambda>fin.
     sbind (slift (reject_if (\<not> fin) MalformedInput)) (\<lambda>_.
     sbind (slift (sha256 P ik_public)) (\<lambda>digest.
     sbind (slift (reject_if (digest \<noteq> fingerprint) MalformedInput)) (\<lambda>_.
     ret (\<lparr>dp_user_id = user_id, dp_registration_id = registration_id, dp_spk_id = spk_id, dp_pq_spk_id = pq_spk_id,
           dp_ik_public = ik_public, dp_spk_public = spk_public, dp_pq_spk_public = pq_spk_public\<rparr>,
          spk_signature, pq_spk_signature))))))))))))))))))))))"

definition parse_device_package :: "prims \<Rightarrow> bytes \<Rightarrow> device_package cresult" where
  "parse_device_package P package =
     rbind (run_parser (device_package_fields P) package) (\<lambda>(device, spk_signature, pq_spk_signature).
     rbind (encode_signed_prekey \<lparr>sp_user_id = dp_user_id device,
         sp_prekey = \<lparr>pk_id = dp_spk_id device, pk_public = dp_spk_public device\<rparr>\<rparr>) (\<lambda>spk.
     rbind (ed25519_verify P (ik_device_signing_public (dp_ik_public device)) spk spk_signature) (\<lambda>_.
     rbind (encode_pq_signed_prekey \<lparr>sp_user_id = dp_user_id device,
         sp_prekey = \<lparr>pk_id = dp_pq_spk_id device, pk_public = dp_pq_spk_public device\<rparr>\<rparr>) (\<lambda>pq_spk.
     rbind (ed25519_verify P (ik_device_signing_public (dp_ik_public device)) pq_spk pq_spk_signature) (\<lambda>_.
     Ok device)))))"

definition cross_sign_device :: "prims \<Rightarrow> bytes \<Rightarrow> bytes \<Rightarrow> bytes \<Rightarrow> u32 \<Rightarrow> bytes cresult" where
  "cross_sign_device P device_pkg identity_pkg device_uuid bundle_version =
     rbind (reject_if (bundle_version = 0) InvalidArgument) (\<lambda>_.
     rbind (parse_device_package P device_pkg) (\<lambda>device.
     rbind (parse_identity_package P identity_pkg) (\<lambda>identity.
     rbind (raw_uuid device_uuid) (\<lambda>device_id.
     rbind (reject_if (dp_user_id device \<noteq> ip_user_id identity) StateViolation) (\<lambda>_.
     rbind (encode_cross_signature \<lparr>db_user_id = dp_user_id device, db_device_id = device_id,
         db_ik_public = dp_ik_public device, db_spk_id = dp_spk_id device, db_spk_public = dp_spk_public device,
         db_pq_signed_prekey = Some \<lparr>pk_id = dp_pq_spk_id device, pk_public = dp_pq_spk_public device\<rparr>,
         db_registration_id = dp_registration_id device, db_bundle_version = bundle_version\<rparr>) (\<lambda>encoded.
     ed25519_sign P (is_self_signing (ip_secrets identity)) encoded))))))"

section \<open>The package as a device state\<close>

text \<open>The state a package stands for; the package does not record when its signed prekeys were made.\<close>

definition enrolled_state ::
    "prims \<Rightarrow> bytes \<Rightarrow> u32 \<Rightarrow> bytes \<Rightarrow> bytes \<Rightarrow> bytes \<Rightarrow> bytes \<Rightarrow> bytes \<Rightarrow> classical_one_time_key list
     \<Rightarrow> pq_one_time_key list \<Rightarrow> u32 \<Rightarrow> device_state" where
  "enrolled_state P uid registration signing ident spk pq_public pq_secret classical pq day =
     \<lparr>ds_user_id = uid, ds_registration_id = registration, ds_bundle_version = 1, ds_next_classical_one_time_id = 9,
      ds_next_pq_one_time_id = 5, ds_device_signing_public = ed_public_of P signing, ds_identity_public = x_public_of P ident,
      ds_device_signing_secret = signing, ds_identity_secret = ident,
      ds_current_classical =
        \<lparr>cs_id = 1, cs_created_day = day, cs_public = x_public_of P spk,
         cs_signature = ed_sign_raw P signing (SIGNED_PREKEY_DOMAIN @ frames [uid, u32_bytes 1, x_public_of P spk]),
         cs_secret = spk\<rparr>,
      ds_current_pq =
        \<lparr>ps_id = 1, ps_created_day = day, ps_public = pq_public,
         ps_signature = ed_sign_raw P signing (PQ_SIGNED_PREKEY_DOMAIN @ frames [uid, u32_bytes 1, pq_public]),
         ps_secret = pq_secret\<rparr>,
      ds_cross_signature = replicate 64 0, ds_retired = [], ds_classical_one_time = classical, ds_pq_one_time = pq,
      ds_pending = None\<rparr>"

definition package_of_state :: "prims \<Rightarrow> device_state \<Rightarrow> bytes" where
  "package_of_state P st =
     DEVICE_PACKAGE_MAGIC @ ds_user_id st @ u32_bytes (ds_registration_id st) @ u32_bytes (cs_id (ds_current_classical st))
     @ u32_bytes (ps_id (ds_current_pq st)) @ u16_bytes (word_of_nat (length (ds_classical_one_time st)))
     @ u16_bytes (word_of_nat (length (ds_pq_one_time st))) @ ds_device_signing_public st @ ds_identity_public st
     @ cs_public (ds_current_classical st) @ cs_signature (ds_current_classical st) @ ps_public (ds_current_pq st)
     @ ps_signature (ds_current_pq st) @ sha256_raw P (ds_device_signing_public st @ ds_identity_public st)
     @ concat (map (\<lambda>k. u32_bytes (co_id k) @ co_public k) (ds_classical_one_time st))
     @ concat (map (\<lambda>k. u32_bytes (po_id k) @ po_public k) (ds_pq_one_time st))
     @ ds_device_signing_secret st @ ds_identity_secret st @ cs_secret (ds_current_classical st)
     @ ps_secret (ds_current_pq st) @ concat (map co_secret (ds_classical_one_time st))
     @ concat (map po_secret (ds_pq_one_time st))"

text \<open>The states a version 1 package can stand for when it is migrated on a given day.\<close>

definition v1_state :: "prims \<Rightarrow> u32 \<Rightarrow> device_state \<Rightarrow> bool" where
  "v1_state P day st \<longleftrightarrow>
     freshly_migrated P day st \<and> ds_cross_signature st = replicate 64 0
     \<and> initial_next_id (map co_id (ds_classical_one_time st)) = Ok (ds_next_classical_one_time_id st)
     \<and> initial_next_id (map po_id (ds_pq_one_time st)) = Ok (ds_next_pq_one_time_id st)
     \<and> ds_classical_one_time st \<noteq> [] \<and> length (ds_classical_one_time st) \<le> 8
     \<and> ds_pq_one_time st \<noteq> [] \<and> length (ds_pq_one_time st) \<le> 4"

lemma reads_map_s:
  "(\<And>y. y \<in> set ys \<Longrightarrow> reads (f (g y)) (enc y) y) \<Longrightarrow> reads (map_s f (map g ys)) (concat (map enc ys)) ys"
proof (induction ys)
  case (Cons y ys)
  have "reads (sbind (map_s f (map g ys)) (\<lambda>zs. ret (y # zs))) (concat (map enc ys) @ []) (y # ys)"
    using Cons by (intro reads_bind [OF Cons.IH] reads_ret) simp
  with Cons.prems show ?case by (auto intro: reads_bind)
qed (simp add: reads_ret)

lemma v1_secrets_read:
  "list_all (\<lambda>k. length (co_secret k) = 32) ks \<Longrightarrow>
     reads (map_s (\<lambda>(i, public). sbind (reader_array 32) (\<lambda>secret.
         ret \<lparr>co_id = i, co_public = public, co_secret = secret\<rparr>)) (map (\<lambda>k. (co_id k, co_public k)) ks))
       (concat (map co_secret ks)) ks"
  "list_all (\<lambda>k. length (po_secret k) = 2400) qs \<Longrightarrow>
     reads (map_s (\<lambda>(i, public). sbind (reader_array 2400) (\<lambda>secret.
         ret \<lparr>po_id = i, po_public = public, po_secret = secret\<rparr>)) (map (\<lambda>k. (po_id k, po_public k)) qs))
       (concat (map po_secret qs)) qs"
  by (rule reads_map_s, simp only: prod.case, rule reads_last, intro array_codec.bind_reads reads_ret_eq;
      simp add: list_all_iff)+

lemma v1_state_sizes:
  assumes "v1_state P day st"
  shows "length (ds_user_id st) = 16" "length (ds_device_signing_public st) = 32" "length (ds_identity_public st) = 32"
    "length (ds_device_signing_secret st) = 32" "length (ds_identity_secret st) = 32"
    "length (cs_public (ds_current_classical st)) = 32" "length (cs_signature (ds_current_classical st)) = 64"
    "length (cs_secret (ds_current_classical st)) = 32" "cs_id (ds_current_classical st) \<le> KEY_ID_MAX"
    "length (ps_public (ds_current_pq st)) = 1184" "length (ps_signature (ds_current_pq st)) = 64"
    "length (ps_secret (ds_current_pq st)) = 2400" "ps_id (ds_current_pq st) \<le> KEY_ID_MAX"
    "list_all classical_one_time_wf (ds_classical_one_time st)" "list_all pq_one_time_wf (ds_pq_one_time st)"
    "ds_classical_one_time st \<noteq> []" "\<not> 8 < length (ds_classical_one_time st)"
    "ds_pq_one_time st \<noteq> []" "\<not> 4 < length (ds_pq_one_time st)"
  using assms
  by (simp_all add: v1_state_def freshly_migrated_def device_valid_def device_fields_wf_def classical_signed_wf_def pq_signed_wf_def)

lemma v1_state_checks:
  assumes "v1_state P day st"
  shows "\<not> is_zero (ds_user_id st)" "validate_sorted_classical (ds_classical_one_time st) = Ok ()"
    "validate_sorted_pq (ds_pq_one_time st) = Ok ()"
    "ed_public_of P (ds_device_signing_secret st) = ds_device_signing_public st"
    "x_public_of P (ds_identity_secret st) = ds_identity_public st"
    "x_public_of P (cs_secret (ds_current_classical st)) = cs_public (ds_current_classical st)"
    "initial_next_id (map co_id (ds_classical_one_time st)) = Ok (ds_next_classical_one_time_id st)"
    "initial_next_id (map po_id (ds_pq_one_time st)) = Ok (ds_next_pq_one_time_id st)"
    "validate_device_material P st = Ok ()"
  using assms
  by (simp_all add: v1_state_def freshly_migrated_def device_valid_def validate_sorted_Ok_iff validate_device_material_Ok_iff
      device_material_def classical_authentic_def)

lemma v1_state_signed:
  assumes "v1_state P day st"
  obtains spk pq where "encode_signed_prekey \<lparr>sp_user_id = ds_user_id st,
        sp_prekey = \<lparr>pk_id = cs_id (ds_current_classical st), pk_public = cs_public (ds_current_classical st)\<rparr>\<rparr> = Ok spk"
    and "ed25519_verify P (ds_device_signing_public st) spk (cs_signature (ds_current_classical st)) = Ok ()"
    and "encode_pq_signed_prekey \<lparr>sp_user_id = ds_user_id st,
        sp_prekey = \<lparr>pk_id = ps_id (ds_current_pq st), pk_public = ps_public (ds_current_pq st)\<rparr>\<rparr> = Ok pq"
    and "ed25519_verify P (ds_device_signing_public st) pq (ps_signature (ds_current_pq st)) = Ok ()"
  using assms by (auto simp: v1_state_def freshly_migrated_def device_valid_def device_material_def classical_authentic_def pq_authentic_def)

lemma v1_state_record:
  assumes "v1_state P day st"
  shows "\<lparr>ds_user_id = ds_user_id st, ds_registration_id = ds_registration_id st, ds_bundle_version = 1,
      ds_next_classical_one_time_id = ds_next_classical_one_time_id st, ds_next_pq_one_time_id = ds_next_pq_one_time_id st,
      ds_device_signing_public = ds_device_signing_public st, ds_identity_public = ds_identity_public st,
      ds_device_signing_secret = ds_device_signing_secret st, ds_identity_secret = ds_identity_secret st,
      ds_current_classical = \<lparr>cs_id = cs_id (ds_current_classical st), cs_created_day = saturating_sub day 7,
        cs_public = cs_public (ds_current_classical st), cs_signature = cs_signature (ds_current_classical st),
        cs_secret = cs_secret (ds_current_classical st)\<rparr>,
      ds_current_pq = \<lparr>ps_id = ps_id (ds_current_pq st), ps_created_day = saturating_sub day 7,
        ps_public = ps_public (ds_current_pq st), ps_signature = ps_signature (ds_current_pq st),
        ps_secret = ps_secret (ds_current_pq st)\<rparr>,
      ds_cross_signature = replicate 64 0, ds_retired = [], ds_classical_one_time = ds_classical_one_time st,
      ds_pq_one_time = ds_pq_one_time st, ds_pending = None\<rparr> = st"
proof -
  have "ds_bundle_version st = 1" "ds_cross_signature st = replicate 64 0" "ds_retired st = []" "ds_pending st = None"
    "cs_created_day (ds_current_classical st) = saturating_sub day 7" "ps_created_day (ds_current_pq st) = saturating_sub day 7"
    using assms by (simp_all add: v1_state_def freshly_migrated_def)
  then show ?thesis
    by (metis (full_types) classical_signed_key.surjective device_state.surjective old.unit.exhaust pq_signed_key.surjective)
qed

lemma v1_fingerprint:
  assumes "sized_prims P" and "v1_state P day st"
  shows "sha256 P (ds_device_signing_public st @ ds_identity_public st)
      = Ok (sha256_raw P (ds_device_signing_public st @ ds_identity_public st))"
    and "length (sha256_raw P (ds_device_signing_public st @ ds_identity_public st)) = 32"
    and "ik_device_signing_public (ik_from_halves (ds_device_signing_public st) (ds_identity_public st)) = ds_device_signing_public st"
  using sized_primsD(10) [OF assms(1)] v1_state_sizes [OF assms(2)]
  by (simp_all add: sha256_def bounded_defs MAX_INPUT_BYTES_def ik_from_halves_def ik_device_signing_public_def)

lemma v1_state_read:
  assumes P: "sized_prims P" and st: "v1_state P day st"
  shows "reads_to_end (parse_v1 P day) (package_of_state P st) st"
proof -
  let ?c = "ds_classical_one_time st" and ?q = "ds_pq_one_time st"
  let ?ce = "map (\<lambda>k. (co_id k, co_public k)) ?c" and ?qe = "map (\<lambda>k. (po_id k, po_public k)) ?q"
  note sizes = v1_state_sizes [OF st]
  have publics: "concat (map (\<lambda>k. u32_bytes (co_id k) @ co_public k) ?c) = concat (map public_entry ?ce)"
    "concat (map (\<lambda>k. u32_bytes (po_id k) @ po_public k) ?q) = concat (map public_entry ?qe)"
    by (simp_all add: public_entry_def comp_def)
  have entries: "list_all (\<lambda>e. fst e \<le> KEY_ID_MAX \<and> length (snd e) = 32) ?ce"
    "list_all (\<lambda>e. fst e \<le> KEY_ID_MAX \<and> length (snd e) = 1184) ?qe"
    "list_all (\<lambda>k. length (co_secret k) = 32) ?c" "list_all (\<lambda>k. length (po_secret k) = 2400) ?q"
    using sizes(14,15) by (auto simp: record_wf_defs list_all_iff)
  have counts: "unat (word_of_nat (length ?c) :: u16) = length ?c" "unat (word_of_nat (length ?q) :: u16) = length ?q"
    using sizes by simp_all
  obtain spk pq where signed: "encode_signed_prekey \<lparr>sp_user_id = ds_user_id st,
        sp_prekey = \<lparr>pk_id = cs_id (ds_current_classical st), pk_public = cs_public (ds_current_classical st)\<rparr>\<rparr> = Ok spk"
      "ed25519_verify P (ds_device_signing_public st) spk (cs_signature (ds_current_classical st)) = Ok ()"
      "encode_pq_signed_prekey \<lparr>sp_user_id = ds_user_id st,
        sp_prekey = \<lparr>pk_id = ps_id (ds_current_pq st), pk_public = ps_public (ds_current_pq st)\<rparr>\<rparr> = Ok pq"
      "ed25519_verify P (ds_device_signing_public st) pq (ps_signature (ds_current_pq st)) = Ok ()"
    by (rule v1_state_signed [OF st])
  show ?thesis
    unfolding parse_v1_def package_of_state_def publics Let_def
    by (rule reads_to_end_last, simp only: append_assoc,
        intro reads_to_end_bind [OF v1_secrets_read(1)] reads_to_end_bind [OF v1_secrets_read(2)] ends_intros)
      (auto simp: sizes v1_state_checks [OF st] v1_state_record [OF st] v1_fingerprint [OF P st] entries counts signed
        x25519_public_def DEVICE_PACKAGE_MAGIC_def DEVICE_V1_MAGIC_def)
qed

lemma length_concat_map: "list_all (\<lambda>x. length (f x) = n) xs \<Longrightarrow> length (concat (map f xs)) = n * length xs"
  by (induction xs) simp_all

definition package_remainder :: "device_state \<Rightarrow> bytes" where
  "package_remainder st =
     concat (map (\<lambda>k. u32_bytes (co_id k) @ co_public k) (ds_classical_one_time st))
     @ concat (map (\<lambda>k. u32_bytes (po_id k) @ po_public k) (ds_pq_one_time st))
     @ ds_device_signing_secret st @ ds_identity_secret st @ cs_secret (ds_current_classical st)
     @ ps_secret (ds_current_pq st) @ concat (map co_secret (ds_classical_one_time st))
     @ concat (map po_secret (ds_pq_one_time st))"

lemma length_package_remainder:
  assumes "v1_state P day st"
  shows "length (package_remainder st) = remainder_length (length (ds_classical_one_time st)) (length (ds_pq_one_time st))"
proof -
  note sizes = v1_state_sizes [OF assms]
  have "list_all (\<lambda>k. length (u32_bytes (co_id k) @ co_public k) = 36) (ds_classical_one_time st)"
    "list_all (\<lambda>k. length (u32_bytes (po_id k) @ po_public k) = 1188) (ds_pq_one_time st)"
    "list_all (\<lambda>k. length (co_secret k) = 32) (ds_classical_one_time st)"
    "list_all (\<lambda>k. length (po_secret k) = 2400) (ds_pq_one_time st)"
    using sizes(14,15) by (auto simp: record_wf_defs list_all_iff)
  from this [THEN length_concat_map] show ?thesis
    using sizes by (simp add: package_remainder_def remainder_length_def)
qed

definition package_device :: "device_state \<Rightarrow> device_package" where
  "package_device st =
     \<lparr>dp_user_id = ds_user_id st, dp_registration_id = ds_registration_id st, dp_spk_id = cs_id (ds_current_classical st),
      dp_pq_spk_id = ps_id (ds_current_pq st), dp_ik_public = ds_device_signing_public st @ ds_identity_public st,
      dp_spk_public = cs_public (ds_current_classical st), dp_pq_spk_public = ps_public (ds_current_pq st)\<rparr>"

lemma device_package_read:
  assumes P: "sized_prims P" and st: "v1_state P day st"
  shows "reads_to_end (device_package_fields P) (package_of_state P st)
    (package_device st, cs_signature (ds_current_classical st), ps_signature (ds_current_pq st))"
proof -
  let ?ik = "ds_device_signing_public st @ ds_identity_public st"
  let ?c = "length (ds_classical_one_time st)" and ?q = "length (ds_pq_one_time st)"
  note sizes = v1_state_sizes [OF st]
  have split: "package_of_state P st = DEVICE_PACKAGE_MAGIC @ ds_user_id st @ u32_bytes (ds_registration_id st)
     @ u32_bytes (cs_id (ds_current_classical st)) @ u32_bytes (ps_id (ds_current_pq st)) @ u16_bytes (word_of_nat ?c)
     @ u16_bytes (word_of_nat ?q) @ ?ik @ cs_public (ds_current_classical st) @ cs_signature (ds_current_classical st)
     @ ps_public (ds_current_pq st) @ ps_signature (ds_current_pq st) @ sha256_raw P ?ik @ package_remainder st @ []"
    by (simp add: package_of_state_def package_remainder_def)
  have counts: "unat (word_of_nat ?c :: u16) = ?c" "unat (word_of_nat ?q :: u16) = ?q" using sizes by simp_all
  have ik: "ik_try_from_bytes ?ik = Ok ?ik" "length ?ik = 64" using sizes by (simp_all add: ik_try_from_bytes_def fixed_def)
  show ?thesis
    unfolding split device_package_fields_def
    by (intro ends_intros)
      (auto simp: sizes counts ik v1_fingerprint [OF P st] length_package_remainder [OF st] package_device_def enrollment_constants)
qed

lemma length_package:
  assumes P: "sized_prims P" and st: "v1_state P day st"
  shows "length (package_of_state P st) < 2 ^ 64"
proof -
  have "length (package_of_state P st) = 1480 + length (package_remainder st)"
    using v1_state_sizes [OF st] v1_fingerprint [OF P st] by (simp add: package_of_state_def package_remainder_def DEVICE_PACKAGE_MAGIC_def)
  also have "\<dots> \<le> 1480 + remainder_length 8 4"
    using v1_state_sizes(17,19) [OF st] by (simp add: length_package_remainder [OF st] remainder_length_def)
  finally show ?thesis by (simp add: remainder_length_def)
qed

lemma package_decodes:
  assumes "sized_prims P" and "v1_state P day st"
  shows "decode_device_state P (package_of_state P st) day = Ok st"
proof -
  have "take 8 (package_of_state P st) = DEVICE_V1_MAGIC" "8 \<le> length (package_of_state P st)"
    by (simp_all add: package_of_state_def DEVICE_PACKAGE_MAGIC_def DEVICE_V1_MAGIC_def)
  then show ?thesis
    using reads_to_end_new [OF v1_state_read [OF assms] length_package [OF assms]]
    by (simp add: decode_device_state_def decode_v1_def)
qed

lemma package_parses:
  assumes "sized_prims P" and st: "v1_state P day st"
  shows "parse_device_package P (package_of_state P st) = Ok (package_device st)"
proof -
  obtain spk pq where "encode_signed_prekey \<lparr>sp_user_id = ds_user_id st,
        sp_prekey = \<lparr>pk_id = cs_id (ds_current_classical st), pk_public = cs_public (ds_current_classical st)\<rparr>\<rparr> = Ok spk"
      "ed25519_verify P (ds_device_signing_public st) spk (cs_signature (ds_current_classical st)) = Ok ()"
      "encode_pq_signed_prekey \<lparr>sp_user_id = ds_user_id st,
        sp_prekey = \<lparr>pk_id = ps_id (ds_current_pq st), pk_public = ps_public (ds_current_pq st)\<rparr>\<rparr> = Ok pq"
      "ed25519_verify P (ds_device_signing_public st) pq (ps_signature (ds_current_pq st)) = Ok ()"
    by (rule v1_state_signed [OF st])
  then show ?thesis
    using reads_to_end_new [OF device_package_read [OF assms] length_package [OF assms]] v1_state_sizes(2) [OF st]
    by (simp add: parse_device_package_def run_parser_def package_device_def ik_device_signing_public_def)
qed

section \<open>What prepare returns\<close>

definition fresh_keys :: "prims \<Rightarrow> classical_one_time_key list \<Rightarrow> pq_one_time_key list \<Rightarrow> bool" where
  "fresh_keys P classical pq \<longleftrightarrow>
     map co_id classical = [1, 2, 3, 4, 5, 6, 7, 8] \<and> map po_id pq = [1, 2, 3, 4]
     \<and> (\<forall>k \<in> set classical. length (co_secret k) = 32 \<and> co_public k = x_public_of P (co_secret k))
     \<and> (\<forall>k \<in> set pq. length (po_public k) = 1184 \<and> length (po_secret k) = 2400 \<and> pq_embedded (po_secret k) (po_public k))"

lemma map_s_elements:
  assumes "map_s f xs s = Ok (ys, s')" and "\<And>x s y s'. f x s = Ok (y, s') \<Longrightarrow> g y = h x \<and> Q y"
  shows "map g ys = map h xs \<and> list_all Q ys"
  using assms(1)
proof (induction xs arbitrary: s ys)
  case (Cons x xs)
  then show ?case using assms(2) by (auto simp: ret_apply elim!: monad_elims)
qed (simp add: ret_apply)

lemma enroll_classical_Ok:
  "enroll_classical P i tape = Ok (k, rest) \<Longrightarrow>
     co_id k = word_of_nat (Suc i) \<and> length (co_secret k) = 32 \<and> co_public k = x_public_of P (co_secret k)"
  by (auto simp: enroll_classical_def random_bytes_Ok_iff x25519_public_def ret_apply try_from_usize_def
      elim!: monad_elims split: if_splits)

lemma enroll_pq_Ok:
  assumes "sized_prims P" and "kem_embeds_public P" and "enroll_pq P i tape = Ok (k, rest)"
  shows "po_id k = word_of_nat (Suc i) \<and> length (po_public k) = 1184 \<and> length (po_secret k) = 2400
    \<and> pq_embedded (po_secret k) (po_public k)"
  using assms(3) sized_primsD(5,6) [OF assms(1)] assms(2)
  by (auto simp: enroll_pq_def mlkem768_keypair_def kem_embeds_public_def pq_embedded_def ret_apply try_from_usize_def
      elim!: monad_elims split: if_splits)

lemma enrolled_keys_fresh:
  assumes P: "sized_prims P" "kem_embeds_public P"
    and c: "map_s (enroll_classical P) [0..<8] t1 = Ok (classical, t2)"
    and q: "map_s (enroll_pq P) [0..<4] t3 = Ok (pq, t4)"
  shows "fresh_keys P classical pq"
proof -
  have "map (\<lambda>i. word_of_nat (Suc i)) [0..<8] = [1, 2, 3, 4, 5, 6, 7, 8 :: u32]"
    "map (\<lambda>i. word_of_nat (Suc i)) [0..<4] = [1, 2, 3, 4 :: u32]"
    by (simp_all add: upt_rec)
  moreover have "map co_id classical = map (\<lambda>i. word_of_nat (Suc i)) [0..<8]
      \<and> list_all (\<lambda>k. length (co_secret k) = 32 \<and> co_public k = x_public_of P (co_secret k)) classical"
    by (rule map_s_elements [OF c]) (rule enroll_classical_Ok)
  moreover have "map po_id pq = map (\<lambda>i. word_of_nat (Suc i)) [0..<4]
      \<and> list_all (\<lambda>k. length (po_public k) = 1184 \<and> length (po_secret k) = 2400 \<and> pq_embedded (po_secret k) (po_public k)) pq"
    by (rule map_s_elements [OF q]) (rule enroll_pq_Ok [OF P])
  ultimately show ?thesis by (simp add: fresh_keys_def list_all_iff)
qed

lemma fresh_keys_lists:
  assumes "fresh_keys P classical pq" and "sized_prims P"
  shows "list_all classical_one_time_wf classical" "list_all pq_one_time_wf pq" "length classical = 8" "length pq = 4"
    "sorted_wrt (\<lambda>a b. co_id a < co_id b) classical" "sorted_wrt (\<lambda>a b. po_id a < po_id b) pq"
    "initial_next_id (map co_id classical) = Ok 9" "initial_next_id (map po_id pq) = Ok 5"
    "\<forall>k \<in> set classical. co_id k < 9" "\<forall>k \<in> set pq. po_id k < 5"
proof -
  have ids: "map co_id classical = [1, 2, 3, 4, 5, 6, 7, 8]" "map po_id pq = [1, 2, 3, 4]"
    using assms(1) by (simp_all add: fresh_keys_def)
  show "length classical = 8" "length pq = 4"
    using arg_cong [OF ids(1), of length] arg_cong [OF ids(2), of length] by simp_all
  have "co_id ` set classical = set [1, 2, 3, 4, 5, 6, 7, 8]" "po_id ` set pq = set [1, 2, 3, 4]"
    using arg_cong [OF ids(1), of set] arg_cong [OF ids(2), of set] by simp_all
  then have c: "\<And>k. k \<in> set classical \<Longrightarrow> co_id k \<in> {1, 2, 3, 4, 5, 6, 7, 8}" and q: "\<And>k. k \<in> set pq \<Longrightarrow> po_id k \<in> {1, 2, 3, 4}"
    by (metis imageI list.simps(15) set_empty)+
  show "\<forall>k \<in> set classical. co_id k < 9" "\<forall>k \<in> set pq. po_id k < 5" using c q by fastforce+
  have "co_id k \<le> KEY_ID_MAX" if "k \<in> set classical" for k using c [OF that] by (auto simp: KEY_ID_MAX_def)
  moreover have "po_id k \<le> KEY_ID_MAX" if "k \<in> set pq" for k using q [OF that] by (auto simp: KEY_ID_MAX_def)
  ultimately show "list_all classical_one_time_wf classical" "list_all pq_one_time_wf pq"
    using assms sized_primsD(3) [OF assms(2)] by (simp_all add: fresh_keys_def record_wf_defs list_all_iff)
  have "sorted_wrt (<) (map co_id classical)" "sorted_wrt (<) (map po_id pq)" by (simp_all add: ids)
  then show "sorted_wrt (\<lambda>a b. co_id a < co_id b) classical" "sorted_wrt (\<lambda>a b. po_id a < po_id b) pq"
    by (simp_all add: sorted_wrt_map)
  show "initial_next_id (map co_id classical) = Ok 9" "initial_next_id (map po_id pq) = Ok 5"
    by (simp_all add: ids initial_next_id_def KEY_ID_MAX_def checked_add_def)
qed

lemma enrolled_state_valid:
  assumes P: "sized_prims P" "signatures_verify P"
    and sizes: "length uid = 16" "\<not> is_zero uid" "length signing = 32" "length ident = 32" "length spk = 32"
    and pq_pair: "length pq_public = 1184" "length pq_secret = 2400" "pq_embedded pq_secret pq_public"
    and keys: "fresh_keys P classical pq"
  shows "v1_state P day (enrolled_state P uid registration signing ident spk pq_public pq_secret classical pq (saturating_sub day 7))"
    (is "v1_state P day ?st")
proof -
  note lists = fresh_keys_lists [OF keys P(1)]
  have lens: "length (ed_public_of P s) = 32" "length (x_public_of P s) = 32" "length (ed_sign_raw P s m) = 64" for s m
    by (rule sized_primsD [OF P(1)])+
  have wf: "device_fields_wf ?st"
    using sizes pq_pair lists by (simp add: enrolled_state_def device_fields_wf_def classical_signed_wf_def pq_signed_wf_def lens
        prekey_limits pending_wf_def KEY_ID_MAX_def)
  have verify: "ed25519_verify P (ed_public_of P signing) m (ed_sign_raw P signing m) = Ok ()" if "length m \<le> MAX_INPUT_BYTES" for m
    using P(2) that by (simp add: ed25519_verify_Ok_iff signatures_verify_def)
  have "device_material P ?st"
    using sizes(1) pq_pair keys encode_signed_prekey_total [OF sizes(1)]
      verify [OF signed_prekey_bytes_fit(1) [OF sizes(1), of "x_public_of P spk" 1]]
      verify [OF signed_prekey_bytes_fit(2) [OF sizes(1), of pq_public 1]]
    by (simp add: enrolled_state_def device_material_def classical_authentic_def pq_authentic_def lens fresh_keys_def)
  then show ?thesis
    using wf sizes lists
    by (simp add: v1_state_def freshly_migrated_def device_valid_def high_water_ok_def KEY_ID_MAX_def)
      (auto simp: enrolled_state_def high_water_ok_def KEY_ID_MAX_def)
qed

lemma prepare_device_Ok:
  assumes P: "sized_prims P" "kem_embeds_public P" and made: "prepare_device P user tape = Ok (package, rest)"
  obtains registration signing ident spk pq_public pq_secret classical pq
  where "length user = 16" and "length signing = 32" and "length ident = 32" and "length spk = 32"
    and "length pq_public = 1184" and "length pq_secret = 2400" and "pq_embedded pq_secret pq_public"
    and "fresh_keys P classical pq"
    and "\<And>day. package = package_of_state P
      (enrolled_state P user registration signing ident spk pq_public pq_secret classical pq day)"
proof -
  have lens: "length (x_public_of P s) = 32" "length (ed_public_of P s) = 32" for s by (rule sized_primsD [OF P(1)])+
  from made obtain signing ident spk pq_public pq_secret registration classical pq coins t1 t2 t3 where
    user: "length user = 16" and secrets: "length signing = 32" "length ident = 32" "length spk = 32"
    and pair: "kem_keypair_derand P coins = Some (pq_public, pq_secret)"
    and c: "map_s (enroll_classical P) [0..<8] t1 = Ok (classical, t2)" and q: "map_s (enroll_pq P) [0..<4] t2 = Ok (pq, t3)"
    and package: "package = DEVICE_PACKAGE_MAGIC @ user @ u32_bytes registration @ u32_bytes 1 @ u32_bytes 1
          @ u16_bytes 8 @ u16_bytes 4 @ (ed_public_of P signing @ x_public_of P ident) @ x_public_of P spk
          @ ed_sign_raw P signing (SIGNED_PREKEY_DOMAIN @ frames [user, u32_bytes 1, x_public_of P spk])
          @ pq_public
          @ ed_sign_raw P signing (PQ_SIGNED_PREKEY_DOMAIN @ frames [user, u32_bytes 1, pq_public])
          @ sha256_raw P (ed_public_of P signing @ x_public_of P ident)
          @ concat (map (\<lambda>k. u32_bytes (co_id k) @ co_public k) classical)
          @ concat (map (\<lambda>k. u32_bytes (po_id k) @ po_public k) pq)
          @ signing @ ident @ spk @ pq_secret @ concat (map co_secret classical) @ concat (map po_secret pq)"
    using encode_signed_prekey_total [of user] sized_primsD(5) [OF P(1)]
    by (auto simp: prepare_device_def Let_def raw_uuid_def random_bytes_Ok_iff x25519_public_def ed25519_sign_def bounded_defs
        mlkem768_keypair_def sha256_def ik_from_halves_def enrollment_constants ret_apply lens
        elim!: monad_elims split: if_splits)
  have keys: "fresh_keys P classical pq" by (rule enrolled_keys_fresh [OF P c q])
  show thesis
  proof (rule that [OF user secrets])
    show "length pq_public = 1184" "length pq_secret = 2400" using sized_primsD(5,6) [OF P(1) pair] by simp_all
    show "pq_embedded pq_secret pq_public" using P(2) pair by (simp add: kem_embeds_public_def pq_embedded_def)
    show "fresh_keys P classical pq" by (rule keys)
    show "package = package_of_state P (enrolled_state P user registration signing ident spk pq_public pq_secret classical pq day)" for day
      using fresh_keys_lists(3,4) [OF keys P(1)] by (simp add: package package_of_state_def enrolled_state_def)
  qed
qed

lemma parse_identity_public:
  assumes "parse_identity_package P package = Ok identity" and "length package < 2 ^ 64"
  shows "ip_self_signing_public identity = ed_public_of P (is_self_signing (ip_secrets identity))"
    and "length (ip_self_signing_public identity) = 32"
  using assms by (auto simp: parse_identity_package_def identity_codec.run_iff identity_fields_wf_def elim!: rbind_OkE)

text \<open>The cross signature made over the package of a state is a cross signature of the bundle that the state publishes.\<close>

lemma cross_sign_publishes:
  assumes P: "sized_prims P" "signatures_verify P" and st: "v1_state P day st"
    and identity: "parse_identity_package P idpkg = Ok identity" "length idpkg < 2 ^ 64" "ip_user_id identity = ds_user_id st"
    and device: "length device_id = 16"
  obtains signature where "cross_sign_device P (package_of_state P st) idpkg device_id 1 = Ok signature"
    and "length signature = 64"
    and "bundle_cross_signed P (st\<lparr>ds_cross_signature := signature\<rparr>) device_id (ip_self_signing_public identity)"
proof -
  define b where "b = \<lparr>db_user_id = ds_user_id st, db_device_id = device_id,
      db_ik_public = ds_device_signing_public st @ ds_identity_public st, db_spk_id = cs_id (ds_current_classical st),
      db_spk_public = cs_public (ds_current_classical st),
      db_pq_signed_prekey = Some \<lparr>pk_id = ps_id (ds_current_pq st), pk_public = ps_public (ds_current_pq st)\<rparr>,
      db_registration_id = ds_registration_id st, db_bundle_version = 1\<rparr>"
  let ?m = "CROSS_SIGNATURE_DOMAIN @ frames (cross_fields b)"
  let ?signature = "ed_sign_raw P (is_self_signing (ip_secrets identity)) ?m"
  have encoded: "encode_cross_signature b = Ok ?m"
    by (rule encode_cross_signature_total [where q = "\<lparr>pk_id = ps_id (ds_current_pq st), pk_public = ps_public (ds_current_pq st)\<rparr>"])
      (simp_all add: b_def device v1_state_sizes [OF st])
  have fits: "length ?m \<le> MAX_INPUT_BYTES"
    by (simp add: b_def cross_fields_def device v1_state_sizes [OF st] CROSS_SIGNATURE_DOMAIN_def MAX_INPUT_BYTES_def)
  have "ds_bundle_version st = 1" using st by (simp add: v1_state_def freshly_migrated_def)
  then have published: "claimed_device_bundle (published_claim (st\<lparr>ds_cross_signature := s\<rparr>) device_id k) = b" for s k
    by (simp add: claimed_device_bundle_def published_claim_def state_ik_public_def ik_from_halves_def b_def)
  show thesis
  proof (rule that)
    show "cross_sign_device P (package_of_state P st) idpkg device_id 1 = Ok ?signature"
      using encoded fits
      by (simp add: cross_sign_device_def package_parses [OF P(1) st] package_device_def identity raw_uuid_def fixed_def device
          ed25519_sign_def bounded_defs b_def)
    show "length ?signature = 64" by (rule sized_primsD(2) [OF P(1)])
    show "bundle_cross_signed P (st\<lparr>ds_cross_signature := ?signature\<rparr>) device_id (ip_self_signing_public identity)"
      using P(2) fits
      by (simp add: bundle_cross_signed_def published verify_cross_signature_def encoded verify_def ed25519_verify_Ok_iff
          signatures_verify_def parse_identity_public(1) [OF identity(1,2)])
  qed
qed

lemma device_valid_cross_signature:
  "device_valid P st \<Longrightarrow> length signature = 64 \<Longrightarrow> device_valid P (st\<lparr>ds_cross_signature := signature\<rparr>)"
  by (simp add: device_valid_def device_fields_wf_def device_material_def high_water_ok_def classical_authentic_def pq_authentic_def)

lemma prepared_package:
  assumes P: "sized_prims P" "signatures_verify P" "kem_embeds_public P"
    and made: "prepare_device P user tape = Ok (package, rest)" and user: "\<not> is_zero user"
  obtains st where "v1_state P day st" and "package = package_of_state P st" and "ds_user_id st = user"
    and "length (ds_classical_one_time st) = 8" and "length (ds_pq_one_time st) = 4"
proof (rule prepare_device_Ok [OF P(1,3) made])
  fix registration signing ident spk pq_public pq_secret classical pq
  assume sizes: "length user = 16" "length signing = 32" "length ident = 32" "length spk = 32"
      "length pq_public = 1184" "length pq_secret = 2400" "pq_embedded pq_secret pq_public"
    and keys: "fresh_keys P classical pq"
    and package: "\<And>day. package = package_of_state P
      (enrolled_state P user registration signing ident spk pq_public pq_secret classical pq day)"
  show thesis
    by (rule that [OF enrolled_state_valid [OF P(1,2) sizes(1) user sizes(2-7) keys] package])
      (simp_all add: enrolled_state_def fresh_keys_lists(3,4) [OF keys P(1)])
qed

text \<open>
  C9: an enrolled device can be reached. A package prepared for a user, whose identifier is not zero, loads as a valid device state with eight
  classical and four post-quantum one-time prekeys; the account of that user cross-signs it for any non-zero
  device identifier, and the bundle made of the state's public keys and that signature is accepted by session setup under the
  account's self-signing key, with exactly the prekeys of the state.
\<close>

theorem enrolled_device_ready:
  assumes "sized_prims P" and "signatures_verify P" and "kem_embeds_public P"
    and "prepare_device P user tape = Ok (package, rest)" and "\<not> is_zero user"
    and "parse_identity_package P idpkg = Ok identity" and "length idpkg < 2 ^ 64" and "ip_user_id identity = user"
    and "length device_id = 16" and "\<not> is_zero device_id"
  shows "\<exists>st signature cb. decode_device_state P package day = Ok st \<and> device_valid P st \<and> ds_user_id st = user
    \<and> length (ds_classical_one_time st) = 8 \<and> length (ds_pq_one_time st) = 4
    \<and> cross_sign_device P package idpkg device_id 1 = Ok signature
    \<and> cb = (published_claim st device_id (ip_self_signing_public identity))\<lparr>cb_cross_signature := signature\<rparr>
    \<and> parse_peer_bundle P (claimed_bundle_bytes cb)
      = Ok (peer_bundle_of cb \<lparr>pk_id = ps_id (ds_current_pq st), pk_public = ps_public (ds_current_pq st)\<rparr>)"
proof -
  from prepared_package [OF assms(1-5)] obtain st where st: "v1_state P day st" "package = package_of_state P st"
    and keys: "ds_user_id st = user" "length (ds_classical_one_time st) = 8" "length (ds_pq_one_time st) = 4" by metis
  have valid: "device_valid P st" using st(1) by (simp add: v1_state_def freshly_migrated_def)
  obtain signature where signed: "cross_sign_device P package idpkg device_id 1 = Ok signature" "length signature = 64"
      "bundle_cross_signed P (st\<lparr>ds_cross_signature := signature\<rparr>) device_id (ip_self_signing_public identity)"
    using cross_sign_publishes [OF assms(1,2) st(1) assms(6,7) _ assms(9)] assms(8) keys(1) st(2) by metis
  let ?st = "st\<lparr>ds_cross_signature := signature\<rparr>"
  note claim = published_claim_hybrid [OF device_valid_cross_signature [OF valid signed(2)] assms(9,10)
      parse_identity_public(2) [OF assms(6,7)] signed(3)]
  have "published_claim ?st device_id (ip_self_signing_public identity)
      = (published_claim st device_id (ip_self_signing_public identity))\<lparr>cb_cross_signature := signature\<rparr>"
    by (simp add: published_claim_def state_ik_public_def)
  with parse_peer_bundle_accepts [OF claim(3,1,2)] package_decodes [OF assms(1) st(1)] valid keys signed(1) st(2)
  show ?thesis by (intro exI [of _ st] exI [of _ signature] exI) simp
qed

lemma map_s_total:
  assumes "\<And>x t. n \<le> length t \<Longrightarrow> x \<in> set xs \<Longrightarrow> \<exists>y. f x t = Ok (y, drop n t)" and "length xs * n \<le> length t"
  shows "\<exists>ys. map_s f xs t = Ok (ys, drop (length xs * n) t)"
  using assms
proof (induction xs arbitrary: t)
  case (Cons x xs)
  then obtain y where y: "f x t = Ok (y, drop n t)" by (metis add_leE length_Cons list.set_intros(1) mult_Suc)
  from Cons.prems(2) have "length xs * n \<le> length (drop n t)" by simp
  with Cons obtain ys where "map_s f xs (drop n t) = Ok (ys, drop (length xs * n) (drop n t))" by fastforce
  then show ?case by (simp add: sbind_Ok [where m = "f x", OF y] sbind_Ok [where m = "map_s f xs"] ret_apply add.commute)
qed (simp add: ret_apply)

lemma enroll_key_total:
  "i < 100 \<Longrightarrow> 32 \<le> length t \<Longrightarrow> \<exists>k. enroll_classical P i t = Ok (k, drop 32 t)"
  "kem_keypair_total P \<Longrightarrow> i < 100 \<Longrightarrow> 64 \<le> length t \<Longrightarrow> \<exists>k. enroll_pq P i t = Ok (k, drop 64 t)"
proof -
  show "i < 100 \<Longrightarrow> 32 \<le> length t \<Longrightarrow> \<exists>k. enroll_classical P i t = Ok (k, drop 32 t)"
    by (simp add: enroll_classical_def sbind_Ok [OF random_bytes_total] MAX_INPUT_BYTES_def x25519_public_def try_from_usize_def
        ret_apply)
  assume P: "kem_keypair_total P" and i: "i < 100" and t: "64 \<le> length t"
  from P t obtain public secret where "kem_keypair_derand P (take 64 t) = Some (public, secret)"
    unfolding kem_keypair_total_def by (metis length_take min.absorb2)
  with i t show "\<exists>k. enroll_pq P i t = Ok (k, drop 64 t)"
    by (simp add: enroll_pq_def mlkem768_keypair_def fill_def sbind_def monad_simps try_from_usize_def)
qed

lemma prepare_device_total:
  assumes P: "sized_prims P" "kem_keypair_total P" and user: "length user = 16" and tape: "676 \<le> length tape"
  shows "\<exists>package rest. prepare_device P user tape = Ok (package, rest)"
proof -
  let ?t = "drop 160 tape"
  have "length (take 64 (drop 96 tape)) = 64" using tape by simp
  with P(2) obtain pk sk where pair: "kem_keypair_derand P (take 64 (drop 96 tape)) = Some (pk, sk)"
    unfolding kem_keypair_total_def by blast
  then have kem: "mlkem768_keypair P (drop 96 tape) = Ok ((pk, sk), ?t)"
    using tape by (simp add: mlkem768_keypair_def fill_def sbind_def monad_simps)
  have room: "256 \<le> length tape - 164" "256 \<le> length tape - 420" using tape by simp_all
  obtain classical where c: "map_s (enroll_classical P) [0..<8] (drop 164 tape) = Ok (classical, drop 420 tape)"
    using map_s_total [of 32 "[0..<8]" "enroll_classical P" "drop 164 tape"] enroll_key_total(1) room by auto
  obtain pq where q: "map_s (enroll_pq P) [0..<4] (drop 420 tape) = Ok (pq, drop 676 tape)"
    using map_s_total [of 64 "[0..<4]" "enroll_pq P" "drop 420 tape"] enroll_key_total(2) [OF P(2)] room by auto
  have lens: "length (x_public_of P s) = 32" "length (ed_public_of P s) = 32" "length pk = 1184" for s
    using sized_primsD(1,3) [OF P(1)] sized_primsD(5) [OF P(1) pair] by simp_all
  have encoded: "encode_signed_prekey \<lparr>sp_user_id = user, sp_prekey = \<lparr>pk_id = 1, pk_public = x_public_of P s\<rparr>\<rparr>
        = Ok (SIGNED_PREKEY_DOMAIN @ frames [user, u32_bytes 1, x_public_of P s])"
      "encode_pq_signed_prekey \<lparr>sp_user_id = user, sp_prekey = \<lparr>pk_id = 1, pk_public = pk\<rparr>\<rparr>
        = Ok (PQ_SIGNED_PREKEY_DOMAIN @ frames [user, u32_bytes 1, pk])" for s
    by (rule encode_signed_prekey_total [OF user], simp add: lens)+
  have signed: "ed25519_sign P k (SIGNED_PREKEY_DOMAIN @ frames [user, u32_bytes 1, x_public_of P s])
        = Ok (ed_sign_raw P k (SIGNED_PREKEY_DOMAIN @ frames [user, u32_bytes 1, x_public_of P s]))"
      "ed25519_sign P k (PQ_SIGNED_PREKEY_DOMAIN @ frames [user, u32_bytes 1, pk])
        = Ok (ed_sign_raw P k (PQ_SIGNED_PREKEY_DOMAIN @ frames [user, u32_bytes 1, pk]))" for k s
    using signed_prekey_bytes_fit [OF user, of "x_public_of P s" 1] signed_prekey_bytes_fit [OF user, of pk 1]
    unfolding ed25519_sign_def bounded_defs by (simp_all add: lens del: length_append)
  have random: "random_bytes n (drop k tape) = Ok (take n (drop k tape), drop (n + k) tape)"
    if "n + k \<le> 676" for n k
    using tape that by (simp add: random_bytes_total MAX_INPUT_BYTES_def)
  note steps = sbind_Ok [where m = "random_bytes 32", OF random [of 32 0, simplified]] sbind_Ok [where m = "random_bytes 32", OF random [of 32 32, simplified]]
    sbind_Ok [where m = "random_bytes 32", OF random [of 32 64, simplified]] sbind_Ok [where m = "random_bytes 4", OF random [of 4 160, simplified]]
    sbind_Ok [where m = "mlkem768_keypair P", OF kem] sbind_Ok [where m = "map_s (enroll_classical P) [0..<8]", OF c]
    sbind_Ok [where m = "map_s (enroll_pq P) [0..<4]", OF q]
  show ?thesis
    unfolding prepare_device_def enrollment_constants Let_def
    by (simp add: raw_uuid_def fixed_def user steps x25519_public_def encoded signed [simplified] sha256_def bounded_defs lens
        ik_from_halves_def MAX_INPUT_BYTES_def try_from_usize_def ret_apply del: upt_Suc upt_conv_Cons map_s.simps)
qed

theorem enrolled_device_ready_witness:
  "\<exists>package rest st signature. prepare_device example_prims (replicate 16 1) (replicate 676 7) = Ok (package, rest)
     \<and> decode_device_state example_prims package 20000 = Ok st \<and> length (ds_classical_one_time st) = 8
     \<and> cross_sign_device example_prims package sample_identity_package (replicate 16 2) 1 = Ok signature"
proof -
  obtain package rest where made: "prepare_device example_prims (replicate 16 1) (replicate 676 7) = Ok (package, rest)"
    using prepare_device_total [OF example_sized example_kem_total, of "replicate 16 1" "replicate 676 7"] by auto
  have "\<not> is_zero (replicate 16 1)" "\<not> is_zero (replicate 16 2)" "length (replicate 16 2 :: bytes) = 16"
      "length sample_identity_package < 2 ^ 64"
    by (simp_all add: is_zero_def list_all_iff length_sample_identity)
  from enrolled_device_ready [OF example_sized example_signatures example_embeds made this(1) sample_identity_parses this(4) _ this(3,2),
      of 20000] made
  show ?thesis by (auto simp: identity_of_def)
qed

end
