(* ===== verification/Secret_Stream.thy ===== *)
theory Secret_Stream
  imports Crypto_Provider
begin

text \<open>
  The wrapper of libsodium's secret streams at the end of \<^verbatim>\<open>provider.rs\<close>. The library is the parameter \<open>S\<close>: a state of
  type \<open>'s\<close>, the four calls the wrapper makes and the tag of a final message. libsodium draws the stream header itself; the
  model takes it from the tape of entropy.
\<close>

record 's sodium =
  so_ready :: bool
  so_tag_final :: u8
  so_init_push :: "bytes \<Rightarrow> bytes \<Rightarrow> (bytes \<times> 's) option"
  so_init_pull :: "bytes \<Rightarrow> bytes \<Rightarrow> 's option"
  so_push :: "'s \<Rightarrow> bytes \<Rightarrow> bytes \<Rightarrow> u8 \<Rightarrow> (bytes \<times> 's) option"
  so_pull :: "'s \<Rightarrow> bytes \<Rightarrow> bytes \<Rightarrow> (bytes \<times> u8 \<times> 's) option"

definition SECRETSTREAM_ABYTES :: nat where "SECRETSTREAM_ABYTES = 17"

definition secretstream_push_init :: "'s sodium \<Rightarrow> bytes \<Rightarrow> ('s \<times> bytes) ent" where
  "secretstream_push_init S key =
     sbind (slift (reject_if (\<not> so_ready S) InternalFailure)) (\<lambda>_.
     sbind (fill 24) (\<lambda>seed.
     sbind (slift (ok_or (so_init_push S key seed) InternalFailure)) (\<lambda>(header, state).
     ret (state, header))))"

definition secretstream_push :: "'s sodium \<Rightarrow> 's \<Rightarrow> bytes \<Rightarrow> bytes \<Rightarrow> bool \<Rightarrow> (bytes \<times> 's) cresult" where
  "secretstream_push S state plaintext associated_data final_message =
     rbind (bounded_bytes_new plaintext MAX_INPUT_BYTES) (\<lambda>plaintext.
     rbind (bounded_bytes_new associated_data MAX_INPUT_BYTES) (\<lambda>associated_data.
     rbind (ok_or (usize_checked_add (length plaintext) SECRETSTREAM_ABYTES) InputTooLarge) (\<lambda>ciphertext_len.
     rbind (reject_if (ciphertext_len > MAX_INPUT_BYTES) InputTooLarge) (\<lambda>_.
     let tag = (if final_message then so_tag_final S else 0) in
     ok_or (so_push S state plaintext associated_data tag) StateViolation))))"

definition secretstream_pull_init :: "'s sodium \<Rightarrow> bytes \<Rightarrow> bytes \<Rightarrow> 's cresult" where
  "secretstream_pull_init S key header =
     rbind (reject_if (\<not> so_ready S) InternalFailure) (\<lambda>_.
     ok_or (so_init_pull S key header) AuthenticationFailed)"

definition secretstream_pull :: "'s sodium \<Rightarrow> 's \<Rightarrow> bytes \<Rightarrow> bytes \<Rightarrow> (bytes \<times> bool \<times> 's) cresult" where
  "secretstream_pull S state ciphertext associated_data =
     rbind (reject_if (length ciphertext < SECRETSTREAM_ABYTES) MalformedInput) (\<lambda>_.
     rbind (bounded_bytes_new ciphertext MAX_INPUT_BYTES) (\<lambda>ciphertext.
     rbind (bounded_bytes_new associated_data MAX_INPUT_BYTES) (\<lambda>associated_data.
     rbind (ok_or (so_pull S state ciphertext associated_data) AuthenticationFailed) (\<lambda>(plaintext, tag, state).
     rbind (secret_vec_from_vec plaintext MAX_INPUT_BYTES) (\<lambda>plaintext.
     Ok (plaintext, tag = so_tag_final S, state))))))"

section \<open>Documented behaviour of the library\<close>

text \<open>
  \<open>sized_streams\<close>: a stream header has 24 bytes, a pushed message is 17 bytes longer than its plaintext and a pulled one 17
  bytes shorter. \<open>streams_correct\<close>: there is a relation between the two ends of a stream that initialization, which
  always succeeds, establishes and under which every pushed message is pulled with its tag; the final tag differs from the tag of an ordinary message.
\<close>

definition sized_streams :: "'s sodium \<Rightarrow> bool" where
  "sized_streams S \<longleftrightarrow>
     (\<forall>key seed header state. so_init_push S key seed = Some (header, state) \<longrightarrow> length header = 24)
     \<and> (\<forall>state m ad tag c state'. so_push S state m ad tag = Some (c, state') \<longrightarrow> length c = length m + 17)
     \<and> (\<forall>state m ad tag c state'. so_pull S state c ad = Some (m, tag, state') \<longrightarrow> length m + 17 = length c)"

definition streams_correct :: "'s sodium \<Rightarrow> ('s \<Rightarrow> 's \<Rightarrow> bool) \<Rightarrow> bool" where
  "streams_correct S linked \<longleftrightarrow>
     so_tag_final S \<noteq> 0
     \<and> (\<forall>key seed. \<exists>header a b. so_init_push S key seed = Some (header, a)
          \<and> so_init_pull S key header = Some b \<and> linked a b)
     \<and> (\<forall>a b m ad tag. linked a b \<longrightarrow> (\<exists>c a' b'. so_push S a m ad tag = Some (c, a')
          \<and> so_pull S b c ad = Some (m, tag, b') \<and> linked a' b'))"

text \<open>
  Two concrete ends of a stream: the state counts the messages, and a message carries its number and tag in its last 17 bytes.
\<close>

definition example_sodium :: "nat sodium" where
  "example_sodium =
     \<lparr>so_ready = True, so_tag_final = 3,
      so_init_push = (\<lambda>key seed. Some (take 24 (seed @ replicate 24 0), 0)),
      so_init_pull = (\<lambda>key header. Some 0),
      so_push = (\<lambda>n m ad tag. Some (m @ replicate 16 (word_of_nat n) @ [tag], Suc n)),
      so_pull = (\<lambda>n c ad. if 17 \<le> length c \<and> take 16 (drop (length c - 17) c) = replicate 16 (word_of_nat n)
        then Some (take (length c - 17) c, last c, Suc n) else None)\<rparr>"

lemma example_sized_streams: "sized_streams example_sodium"
  by (auto simp: sized_streams_def example_sodium_def split: if_splits)

lemma example_streams: "streams_correct example_sodium (=)"
  by (simp add: streams_correct_def example_sodium_def)

section \<open>The wrapper\<close>

lemma secretstream_push_pull:
  assumes "streams_correct S linked" and "sized_streams S" and "linked a b"
    and "length m + 17 \<le> MAX_INPUT_BYTES" and "length ad \<le> MAX_INPUT_BYTES"
  obtains c a' b' where "secretstream_push S a m ad final = Ok (c, a')" and "length c = length m + 17"
    and "secretstream_pull S b c ad = Ok (m, final, b')" and "linked a' b'"
proof -
  let ?tag = "if final then so_tag_final S else 0"
  from assms(1,3) obtain c a' b' where c: "so_push S a m ad ?tag = Some (c, a')" "so_pull S b c ad = Some (m, ?tag, b')" "linked a' b'"
    unfolding streams_correct_def by blast
  have len: "length c = length m + 17" using assms(2) c(1) unfolding sized_streams_def by blast
  have tag: "(?tag = so_tag_final S) = final" using assms(1) by (auto simp: streams_correct_def)
  show thesis
  proof (rule that)
    show "secretstream_push S a m ad final = Ok (c, a')"
      using c(1) assms(4,5) by (simp add: secretstream_push_def bounded_defs SECRETSTREAM_ABYTES_def usize_checked_add_def MAX_INPUT_BYTES_def)
    show "secretstream_pull S b c ad = Ok (m, final, b')"
      using c(2) assms(4,5) len tag by (simp add: secretstream_pull_def bounded_defs SECRETSTREAM_ABYTES_def)
  qed (rule len, rule c(3))
qed

end
