(* ===== verification/Attachment.thy ===== *)
theory Attachment
  imports Protocol Device_Signatures Secret_Stream "HOL-Library.AList"
begin

text \<open>
  Encrypted attachments (\<^verbatim>\<open>attachment.rs\<close>): a table of open streams, each with the sizes its header promises, and the
  operations that open a stream, push or pull one chunk, and close it. The table is a process-wide map behind a lock; the
  model passes it as an association list. An operation on a chunk can fail after it has changed its session, so these
  operations return the session together with the result.
\<close>

section \<open>Sizes and the attachment header\<close>

definition ATTACHMENT_MAX_IO_BYTES :: nat where "ATTACHMENT_MAX_IO_BYTES = 262144"
definition ATTACHMENT_CHUNK_BYTES :: nat where "ATTACHMENT_CHUNK_BYTES = 65536"
definition ATTACHMENT_BUCKETS :: "u64 list" where
  "ATTACHMENT_BUCKETS = [65536, 262144, 1048576, 4194304, 16777216, 67108864]"

lemmas attachment_constants =
  ATTACHMENT_MAX_IO_BYTES_def ATTACHMENT_CHUNK_BYTES_def ATTACHMENT_BUCKETS_def SECRETSTREAM_ABYTES_def

record attachment_header =
  ah_bytes :: bytes
  ah_plaintext_size :: u64
  ah_stream_size :: u64

definition checked_mul :: "'a::len word \<Rightarrow> 'a word \<Rightarrow> 'a word option" where
  "checked_mul a b = (if unat a * unat b < 2 ^ LENGTH('a) then Some (a * b) else None)"

definition encrypted_stream_size :: "u64 \<Rightarrow> u32 \<Rightarrow> u64 cresult" where
  "encrypted_stream_size plaintext_size chunk_size =
     (let chunk = ucast chunk_size in
      rbind (if plaintext_size = 0 then Ok 1
             else rbind (ok_or (checked_add plaintext_size (chunk - 1)) InputTooLarge) (\<lambda>rounded. Ok (rounded div chunk)))
        (\<lambda>chunk_count.
      ok_or (Option.bind (checked_mul chunk_count (word_of_nat SECRETSTREAM_ABYTES)) (\<lambda>overhead.
        checked_add overhead plaintext_size)) InputTooLarge))"

definition bucket_for_stream :: "u64 \<Rightarrow> u64 cresult" where
  "bucket_for_stream stream_size =
     rbind (ok_or (checked_add stream_size (66 + 24)) InputTooLarge) (\<lambda>required.
     ok_or (find (\<lambda>bucket. required \<le> bucket) ATTACHMENT_BUCKETS) InputTooLarge)"

definition make_header :: "u64 \<Rightarrow> u64 \<Rightarrow> u64 \<Rightarrow> u32 \<Rightarrow> bytes \<Rightarrow> attachment_header cresult" where
  "make_header plaintext_size stream_size bucket_size chunk_size metadata_hash =
     rbind (reject_if (length metadata_hash \<noteq> 32
         \<or> (case checked_add stream_size (66 + 24) of None \<Rightarrow> True | Some required \<Rightarrow> required > bucket_size)) InputTooLarge) (\<lambda>_.
     rbind (ok_or (try_from_usize (unat bucket_size)) InputTooLarge) (\<lambda>bucket :: u32.
     Ok \<lparr>ah_bytes = ascii ''CPAFV001'' @ [1, 0] @ u32_bytes chunk_size @ u64_bytes plaintext_size @ u64_bytes stream_size
           @ u32_bytes bucket @ metadata_hash,
         ah_plaintext_size = plaintext_size, ah_stream_size = stream_size\<rparr>))"

definition parse_header :: "bytes \<Rightarrow> attachment_header cresult" where
  "parse_header bs =
     rbind (reject_if (take 8 bs \<noteq> ascii ''CPAFV001'' \<or> bs ! 8 \<noteq> 1 \<or> bs ! 9 \<noteq> 0) UnsupportedVersion) (\<lambda>_.
     let chunk_size = word_of_nat (be_value (take 4 (drop 10 bs))) :: u32;
         plaintext_size = word_of_nat (be_value (take 8 (drop 14 bs))) :: u64;
         stream_size = word_of_nat (be_value (take 8 (drop 22 bs))) :: u64;
         bucket_size = ucast (word_of_nat (be_value (take 4 (drop 30 bs))) :: u32) :: u64 in
     rbind (reject_if (unat chunk_size \<noteq> ATTACHMENT_CHUNK_BYTES) MalformedInput) (\<lambda>_.
     rbind (bucket_for_stream stream_size) (\<lambda>bucket.
     rbind (reject_if (bucket \<noteq> bucket_size) MalformedInput) (\<lambda>_.
     rbind (encrypted_stream_size plaintext_size chunk_size) (\<lambda>size.
     rbind (reject_if (size \<noteq> stream_size) MalformedInput) (\<lambda>_.
     make_header plaintext_size stream_size bucket_size chunk_size (take 32 (drop 34 bs))))))))"

section \<open>Sessions\<close>

record 's stream_progress =
  sp_stream :: 's
  sp_header :: attachment_header
  sp_plaintext_seen :: u64
  sp_stream_seen :: u64
  sp_final_seen :: bool

datatype 's attachment_session = Push "'s stream_progress" | Pull "'s stream_progress"

type_synonym 's sessions = "(u64 \<times> 's attachment_session) list"

definition new_progress :: "'s \<Rightarrow> attachment_header \<Rightarrow> 's stream_progress" where
  "new_progress stream header =
     \<lparr>sp_stream = stream, sp_header = header, sp_plaintext_seen = 0, sp_stream_seen = 0, sp_final_seen = False\<rparr>"

definition allocate_handle :: "'s sessions \<Rightarrow> 's attachment_session \<Rightarrow> (u64 \<times> 's sessions) ent" where
  "allocate_handle sessions session =
     sbind (random_bytes 8) (\<lambda>handle_bytes.
     let handle = word_of_nat (be_value handle_bytes) :: u64;
         handle = (if handle = 0 then 1 else handle) in
     sbind (slift (reject_if (length sessions \<ge> 64) ResourceExhausted)) (\<lambda>_.
     sbind (slift (reject_if (map_of sessions handle \<noteq> None) ResourceExhausted)) (\<lambda>_.
     ret (handle, (handle, session) # sessions))))"

section \<open>Operations\<close>

definition create_push_request :: "(u64 \<times> u32 \<times> u64 \<times> bytes) parser" where
  "create_push_request =
     sbind (reader_expect (ascii ''CPARQ001'')) (\<lambda>_.
     sbind reader_u64 (\<lambda>plaintext_size.
     sbind reader_u32 (\<lambda>chunk_size.
     sbind reader_u64 (\<lambda>bucket_size.
     sbind reader_framed (\<lambda>metadata.
     sbind (slift (reject_if (length metadata > 4096) InputTooLarge)) (\<lambda>_.
     sbind finished (\<lambda>fin.
     sbind (slift (reject_if (\<not> fin \<or> unat chunk_size \<noteq> ATTACHMENT_CHUNK_BYTES) MalformedInput)) (\<lambda>_.
     ret (plaintext_size, chunk_size, bucket_size, metadata)))))))))"

definition create_push :: "prims \<Rightarrow> 's sodium \<Rightarrow> 's sessions \<Rightarrow> bytes \<Rightarrow> (bytes \<times> 's sessions) ent" where
  "create_push P S sessions input =
     sbind (slift (run_parser create_push_request input)) (\<lambda>(plaintext_size, chunk_size, bucket_size, metadata).
     let metadata_hash = sha256_raw P metadata in
     sbind (slift (encrypted_stream_size plaintext_size chunk_size)) (\<lambda>stream_size.
     sbind (slift (bucket_for_stream stream_size)) (\<lambda>bucket.
     sbind (slift (reject_if (bucket_size \<noteq> bucket) MalformedInput)) (\<lambda>_.
     sbind (slift (make_header plaintext_size stream_size bucket_size chunk_size metadata_hash)) (\<lambda>header.
     sbind (random_bytes 32) (\<lambda>key.
     sbind (secretstream_push_init S key) (\<lambda>(stream, stream_header).
     sbind (allocate_handle sessions (Push (new_progress stream header))) (\<lambda>(handle, sessions).
     ret (ascii ''CPARE001'' @ u64_bytes handle @ key @ ah_bytes header @ stream_header @ u64_bytes stream_size,
          sessions)))))))))"

definition create_pull_request :: "(bytes \<times> bytes \<times> bytes \<times> bytes) parser" where
  "create_pull_request =
     sbind (reader_expect (ascii ''CPAPD001'')) (\<lambda>_.
     sbind (reader_array 32) (\<lambda>key.
     sbind (reader_array 66) (\<lambda>header_bytes.
     sbind (reader_array 24) (\<lambda>stream_header.
     sbind reader_framed (\<lambda>metadata.
     sbind (slift (reject_if (length metadata > 4096) InputTooLarge)) (\<lambda>_.
     sbind finished (\<lambda>fin.
     sbind (slift (reject_if (\<not> fin) MalformedInput)) (\<lambda>_.
     ret (key, header_bytes, stream_header, metadata)))))))))"

definition create_pull :: "prims \<Rightarrow> 's sodium \<Rightarrow> 's sessions \<Rightarrow> bytes \<Rightarrow> (bytes \<times> 's sessions) ent" where
  "create_pull P S sessions input =
     sbind (slift (run_parser create_pull_request input)) (\<lambda>(key, header_bytes, stream_header, metadata).
     sbind (slift (parse_header header_bytes)) (\<lambda>header.
     sbind (slift (reject_if (sha256_raw P metadata \<noteq> take 32 (drop 34 (ah_bytes header))) AuthenticationFailed)) (\<lambda>_.
     sbind (slift (secretstream_pull_init S key stream_header)) (\<lambda>stream.
     sbind (allocate_handle sessions (Pull (new_progress stream header))) (\<lambda>(handle, sessions).
     ret (ascii ''CPARE001'' @ u64_bytes handle, sessions))))))"

definition push_progress :: "'s sodium \<Rightarrow> bytes \<Rightarrow> bool \<Rightarrow> 's stream_progress \<Rightarrow> bytes cresult \<times> 's stream_progress" where
  "push_progress S plaintext final_message p =
     (let header = sp_header p;
          after = sp_plaintext_seen p + word_of_nat (length plaintext) in
      if sp_final_seen p \<or> after > ah_plaintext_size header then (Err StateViolation, p)
      else if \<not> final_message \<and> after \<ge> ah_plaintext_size header then (Err StateViolation, p)
      else if final_message \<and> after \<noteq> ah_plaintext_size header then (Err StateViolation, p)
      else case rbind (secret_vec_input plaintext) (\<lambda>plaintext.
          secretstream_push S (sp_stream p) plaintext (ah_bytes header) final_message) of
        Err e \<Rightarrow> (Err e, p)
      | Ok (encrypted, stream) \<Rightarrow>
          let p = p\<lparr>sp_stream := stream, sp_plaintext_seen := after,
                sp_stream_seen := sp_stream_seen p + word_of_nat (length encrypted)\<rparr> in
          if sp_stream_seen p > ah_stream_size header then (Err StateViolation, p)
          else (Ok (ascii ''CPARO001'' @ [0] @ encrypted), p\<lparr>sp_final_seen := final_message\<rparr>))"

definition pull_progress :: "'s sodium \<Rightarrow> bytes \<Rightarrow> 's stream_progress \<Rightarrow> bytes cresult \<times> 's stream_progress" where
  "pull_progress S ciphertext p =
     (let header = sp_header p in
      if sp_final_seen p \<or> length ciphertext > ATTACHMENT_CHUNK_BYTES + SECRETSTREAM_ABYTES then (Err StateViolation, p)
      else case secretstream_pull S (sp_stream p) ciphertext (ah_bytes header) of
        Err e \<Rightarrow> (Err e, p)
      | Ok (plaintext, final_message, stream) \<Rightarrow>
          let p = p\<lparr>sp_stream := stream\<rparr>;
              stream_seen = sp_stream_seen p + word_of_nat (length ciphertext);
              plaintext_seen = sp_plaintext_seen p + word_of_nat (length plaintext) in
          if stream_seen > ah_stream_size header \<or> plaintext_seen > ah_plaintext_size header then (Err StateViolation, p)
          else let p = p\<lparr>sp_stream_seen := stream_seen, sp_plaintext_seen := plaintext_seen\<rparr> in
            if final_message \<and> (stream_seen \<noteq> ah_stream_size header \<or> plaintext_seen \<noteq> ah_plaintext_size header)
            then (Err StateViolation, p)
            else (Ok (ascii ''CPARO001'' @ [if final_message then 1 else 0] @ plaintext), p\<lparr>sp_final_seen := final_message\<rparr>))"

definition push_request :: "(u64 \<times> bool \<times> bytes) parser" where
  "push_request =
     sbind (reader_expect (ascii ''CPAPR001'')) (\<lambda>_.
     sbind reader_u64 (\<lambda>handle.
     sbind reader_u8 (\<lambda>final_message.
     sbind (\<lambda>r. reader_take (reader_remaining r) r) (\<lambda>plaintext.
     sbind (slift (reject_if (length plaintext > ATTACHMENT_CHUNK_BYTES) InputTooLarge)) (\<lambda>_.
     ret (handle, final_message \<noteq> 0, plaintext))))))"

definition push_chunk :: "'s sodium \<Rightarrow> 's sessions \<Rightarrow> bytes \<Rightarrow> bytes cresult \<times> 's sessions" where
  "push_chunk S sessions input =
     (case run_parser push_request input of
        Err e \<Rightarrow> (Err e, sessions)
      | Ok (handle, final_message, plaintext) \<Rightarrow>
          (case map_of sessions handle of
             None \<Rightarrow> (Err InvalidHandle, sessions)
           | Some (Pull _) \<Rightarrow> (Err WrongHandleType, sessions)
           | Some (Push p) \<Rightarrow>
               let (result, p) = push_progress S plaintext final_message p in
               (result, AList.update handle (Push p) sessions)))"

definition pull_request :: "(u64 \<times> bytes) parser" where
  "pull_request =
     sbind (reader_expect (ascii ''CPAPC001'')) (\<lambda>_.
     sbind reader_u64 (\<lambda>handle.
     sbind (\<lambda>r. reader_take (reader_remaining r) r) (\<lambda>ciphertext.
     sbind (slift (reject_if (length ciphertext < SECRETSTREAM_ABYTES) MalformedInput)) (\<lambda>_.
     ret (handle, ciphertext)))))"

definition pull_chunk :: "'s sodium \<Rightarrow> 's sessions \<Rightarrow> bytes \<Rightarrow> bytes cresult \<times> 's sessions" where
  "pull_chunk S sessions input =
     (case run_parser pull_request input of
        Err e \<Rightarrow> (Err e, sessions)
      | Ok (handle, ciphertext) \<Rightarrow>
          (case map_of sessions handle of
             None \<Rightarrow> (Err InvalidHandle, sessions)
           | Some (Push _) \<Rightarrow> (Err WrongHandleType, sessions)
           | Some (Pull p) \<Rightarrow>
               let (result, p) = pull_progress S ciphertext p in
               (result, AList.update handle (Pull p) sessions)))"

definition close_request :: "(u64 \<times> bool) parser" where
  "close_request =
     sbind (reader_expect (ascii ''CPAPX001'')) (\<lambda>_.
     sbind reader_u64 (\<lambda>handle.
     sbind reader_u8 (\<lambda>abort.
     sbind finished (\<lambda>fin.
     sbind (slift (reject_if (\<not> fin) MalformedInput)) (\<lambda>_.
     ret (handle, abort \<noteq> 0))))))"

fun session_progress :: "'s attachment_session \<Rightarrow> 's stream_progress" where
  "session_progress (Push p) = p"
| "session_progress (Pull p) = p"

definition close_session :: "'s sessions \<Rightarrow> bytes \<Rightarrow> (bytes \<times> 's sessions) cresult" where
  "close_session sessions input =
     rbind (run_parser close_request input) (\<lambda>(handle, abort).
     rbind (ok_or (map_of sessions handle) InvalidHandle) (\<lambda>session.
     rbind (reject_if (\<not> abort \<and> \<not> sp_final_seen (session_progress session)) StateViolation) (\<lambda>_.
     Ok (ascii ''CPARX001'', AList.delete handle sessions))))"

definition random_request :: "nat parser" where
  "random_request =
     sbind (reader_expect (ascii ''CPAPN001'')) (\<lambda>_.
     sbind reader_u32 (\<lambda>len.
     sbind finished (\<lambda>fin.
     sbind (slift (reject_if (\<not> fin \<or> unat len > ATTACHMENT_CHUNK_BYTES) InputTooLarge)) (\<lambda>_.
     ret (unat len)))))"

definition attachment_random_bytes :: "bytes \<Rightarrow> bytes ent" where
  "attachment_random_bytes input =
     sbind (slift (run_parser random_request input)) (\<lambda>n.
     sbind (random_bytes n) (\<lambda>bs.
     ret (ascii ''CPARN001'' @ bs)))"

text \<open>The result of an operation together with the table and the entropy it leaves.\<close>

definition with_table :: "'s sessions \<Rightarrow> bytes \<Rightarrow> (bytes \<times> 's sessions) ent \<Rightarrow> bytes cresult \<times> 's sessions \<times> bytes" where
  "with_table sessions tape f =
     (case f tape of Err e \<Rightarrow> (Err e, sessions, tape) | Ok ((out, sessions), tape) \<Rightarrow> (Ok out, sessions, tape))"

definition attachment_operation ::
    "prims \<Rightarrow> 's sodium \<Rightarrow> u32 \<Rightarrow> bytes \<Rightarrow> 's sessions \<times> bytes \<Rightarrow> bytes cresult \<times> 's sessions \<times> bytes" where
  "attachment_operation P S operation input = (\<lambda>(sessions, tape).
     if length input > ATTACHMENT_MAX_IO_BYTES then (Err InputTooLarge, sessions, tape)
     else if operation = 1 then with_table sessions tape (create_push P S sessions input)
     else if operation = 2 then (let (result, sessions) = push_chunk S sessions input in (result, sessions, tape))
     else if operation = 3 then with_table sessions tape (create_pull P S sessions input)
     else if operation = 4 then (let (result, sessions) = pull_chunk S sessions input in (result, sessions, tape))
     else if operation = 5 then with_table sessions tape (slift (close_session sessions input))
     else if operation = 6 then with_table sessions tape
       (sbind (attachment_random_bytes input) (\<lambda>out. ret (out, sessions)))
     else (Err UnsupportedOperation, sessions, tape))"

end
