(* ===== verification/Attachment_Properties.thy ===== *)
theory Attachment_Properties
  imports Attachment Application_Operations
begin

text \<open>
  What the attachment operations guarantee: the sizes a header promises are exact, a session is complete only when
  it has processed exactly these sizes, and what is pushed is pulled.
\<close>

section \<open>Sizes\<close>

definition chunk_count :: "nat \<Rightarrow> nat" where
  "chunk_count n = (if n = 0 then 1 else (n + 65535) div 65536)"

definition header_ok :: "attachment_header \<Rightarrow> bool" where
  "header_ok h \<longleftrightarrow> length (ah_bytes h) = 66 \<and> unat (ah_plaintext_size h) \<le> 67108864
     \<and> unat (ah_stream_size h) = unat (ah_plaintext_size h) + 17 * chunk_count (unat (ah_plaintext_size h))
     \<and> unat (ah_stream_size h) \<le> 67108864"

lemma chunk_count_bounds: "n \<le> 65536 * chunk_count n" "1 \<le> chunk_count n" "m \<ge> 1 \<Longrightarrow> n \<le> 65536 * m \<Longrightarrow> chunk_count n \<le> m"
  unfolding chunk_count_def by auto

lemma unat_rounded: "unat ((n + 65535) div 65536 :: u64) = (unat n + 65535) div 65536" if "unat n + 65535 < 2 ^ 64"
proof -
  have "unat (n + 65535) = unat n + unat (65535 :: u64)" by (rule unat_add_no_overflow) (use that in simp)
  then show ?thesis by (simp only: unat_div) simp
qed

lemma encrypted_stream_size_eq:
  assumes chunk: "chunk = 65536" and made: "encrypted_stream_size n chunk = Ok stream_size"
  shows "unat stream_size = unat n + 17 * chunk_count (unat n)"
proof -
  have mul: "unat b = unat a * 17" if "checked_mul a 17 = Some b" for a b :: u64
    using that by (auto simp: checked_mul_def unat_word_ariths split: if_splits)
  have total: "unat stream_size = 17 * unat k + unat n"
    if "Option.bind (checked_mul k 17) (\<lambda>overhead. checked_add overhead n) = Some stream_size" for k
    using that by (auto simp: bind_eq_Some_conv dest!: mul checked_add_unat)
  show ?thesis
  proof (cases "n = 0")
    case True
    with made total [of 1] show ?thesis
      by (simp add: encrypted_stream_size_def Let_def chunk chunk_count_def SECRETSTREAM_ABYTES_def)
  next
    case False
    then have pos: "unat n \<noteq> 0" by (simp add: unat_eq_0)
    from made False obtain rounded where rounded: "checked_add n 65535 = Some rounded"
      and k: "Option.bind (checked_mul (rounded div 65536) 17) (\<lambda>overhead. checked_add overhead n) = Some stream_size"
      by (auto simp: encrypted_stream_size_def Let_def chunk SECRETSTREAM_ABYTES_def elim!: rbind_OkE)
    from rounded have "rounded = n + 65535" "unat n + 65535 < 2 ^ 64" by (auto simp: checked_add_def split: if_splits)
    with unat_rounded total [OF k] pos show ?thesis by (simp add: chunk_count_def)
  qed
qed

lemma found: "find Q xs = Some x \<Longrightarrow> Q x \<and> x \<in> set xs"
  by (induction xs) (auto split: if_splits)

lemma bucket_for_stream_bound:
  assumes "bucket_for_stream stream_size = Ok bucket"
  shows "unat stream_size + 90 \<le> unat bucket" and "unat bucket \<le> 67108864"
proof -
  from assms obtain required where required: "checked_add stream_size 90 = Some required"
    and bucket: "find (\<lambda>bucket. required \<le> bucket) ATTACHMENT_BUCKETS = Some bucket"
    by (auto simp: bucket_for_stream_def elim!: rbind_OkE)
  have "unat required = unat stream_size + 90" using checked_add_unat [OF required] by simp
  moreover have "unat required \<le> unat bucket" using found [OF bucket] by (simp add: word_le_nat_alt)
  ultimately show "unat stream_size + 90 \<le> unat bucket" by simp
  show "unat bucket \<le> 67108864" using found [OF bucket] by (auto simp: ATTACHMENT_BUCKETS_def)
qed

lemma made_header_ok:
  assumes "make_header n stream_size bucket chunk hash = Ok h" and "bucket_for_stream stream_size = Ok bucket"
    and "encrypted_stream_size n chunk = Ok stream_size" and "chunk = 65536"
  shows "header_ok h" and "ah_plaintext_size h = n" and "ah_stream_size h = stream_size" and "length hash = 32"
    and "ah_bytes h = ascii ''CPAFV001'' @ [1, 0] @ u32_bytes chunk @ u64_bytes n @ u64_bytes stream_size
      @ u32_bytes (ucast bucket) @ hash"
proof -
  note bound = bucket_for_stream_bound [OF assms(2)]
  have narrow: "try_from_usize (unat bucket) = Some (ucast bucket :: u32)"
    using bound(2) by (simp add: try_from_usize_def)
  from assms(1) have h: "h = \<lparr>ah_bytes = ascii ''CPAFV001'' @ [1, 0] @ u32_bytes chunk @ u64_bytes n @ u64_bytes stream_size
      @ u32_bytes (ucast bucket) @ hash, ah_plaintext_size = n, ah_stream_size = stream_size\<rparr>" and hash: "length hash = 32"
    by (auto simp: make_header_def narrow elim!: rbind_OkE)
  show "header_ok h" using encrypted_stream_size_eq [OF assms(4,3)] bound hash
    by (simp add: h header_ok_def)
  show "ah_plaintext_size h = n" "ah_stream_size h = stream_size" "length hash = 32"
    "ah_bytes h = ascii ''CPAFV001'' @ [1, 0] @ u32_bytes chunk @ u64_bytes n @ u64_bytes stream_size
      @ u32_bytes (ucast bucket) @ hash" by (simp_all add: h hash)
qed

lemma chunk_is: "unat (chunk :: u32) = ATTACHMENT_CHUNK_BYTES \<longleftrightarrow> chunk = 65536"
  by (simp add: ATTACHMENT_CHUNK_BYTES_def word_unat_eq_iff)

lemma parsed_header_ok:
  assumes "parse_header bs = Ok h"
  shows "header_ok h"
proof -
  from assms obtain n stream_size bucket chunk where "make_header n stream_size bucket chunk (take 32 (drop 34 bs)) = Ok h"
      "bucket_for_stream stream_size = Ok bucket" "encrypted_stream_size n chunk = Ok stream_size" "chunk = 65536"
    by (auto simp: parse_header_def Let_def chunk_is elim!: rbind_OkE)
  then show ?thesis by (rule made_header_ok(1))
qed

section \<open>Requests\<close>

lemma reads_to_end_take_remaining [ends_intros]:
  assumes "reads_to_end (f bs) [] y"
  shows "reads_to_end (sbind (\<lambda>r. reader_take (reader_remaining r) r) f) bs y"
  unfolding reads_to_end_def
proof (intro allI impI)
  fix r
  assume r: "reader_ok r" "unread r = bs"
  then have "reader_remaining r = length bs" by (auto simp: reader_ok_def unread_def reader_remaining_def)
  moreover have "reads_to_end (sbind (reader_take (length bs)) f) (bs @ []) y"
    by (rule take_codec.bind_reads_to_end) (simp_all add: assms)
  ultimately show "sbind (\<lambda>r. reader_take (reader_remaining r) r) f r = Ok (y, advance (length bs) r)"
    using r by (simp add: reads_to_end_def sbind_def)
qed

lemma run_to_end: "reads_to_end p bs x \<Longrightarrow> length bs < 2 ^ 64 \<Longrightarrow> run_parser p bs = Ok x"
  using reads_to_end_new [of p bs x] by (simp add: run_parser_def)

text \<open>The requests of a client that pushes \<open>cs\<close>, marking the last chunk as final, or pulls the stored chunks.\<close>

fun push_requests :: "u64 \<Rightarrow> bytes list \<Rightarrow> (u32 \<times> bytes) list" where
  "push_requests handle [] = []"
| "push_requests handle (c # cs) =
     (2, ascii ''CPAPR001'' @ u64_bytes handle @ [if cs = [] then 1 else 0] @ c) # push_requests handle cs"

definition pull_requests :: "u64 \<Rightarrow> bytes list \<Rightarrow> (u32 \<times> bytes) list" where
  "pull_requests handle cs = map (\<lambda>c. (4, ascii ''CPAPC001'' @ u64_bytes handle @ c)) cs"

fun pull_responses :: "bytes list \<Rightarrow> bytes cresult list" where
  "pull_responses [] = []"
| "pull_responses (c # cs) = Ok (ascii ''CPARO001'' @ [if cs = [] then 1 else 0] @ c) # pull_responses cs"

fun attachment_calls :: "prims \<Rightarrow> 's sodium \<Rightarrow> (u32 \<times> bytes) list \<Rightarrow> 's sessions \<times> bytes
    \<Rightarrow> bytes cresult list \<times> 's sessions \<times> bytes" where
  "attachment_calls P S [] st = ([], st)"
| "attachment_calls P S ((operation, input) # requests) st =
     (let (result, st) = attachment_operation P S operation input st;
          (results, st) = attachment_calls P S requests st in
      (result # results, st))"

lemma push_request_reads:
  "length c \<le> 65536 \<Longrightarrow>
     run_parser push_request (ascii ''CPAPR001'' @ u64_bytes handle @ [flag] @ c) = Ok (handle, flag \<noteq> 0, c)"
  unfolding push_request_def
  by (rule run_to_end, intro ends_intros expect_codec.bind_reads_to_end) (simp_all add: ATTACHMENT_CHUNK_BYTES_def)

lemma pull_request_reads:
  "17 \<le> length c \<Longrightarrow> length c \<le> 65553 \<Longrightarrow>
     run_parser pull_request (ascii ''CPAPC001'' @ u64_bytes handle @ c) = Ok (handle, c)"
  unfolding pull_request_def
  by (rule run_to_end, intro ends_intros expect_codec.bind_reads_to_end) (simp_all add: SECRETSTREAM_ABYTES_def)

lemma close_request_reads:
  "run_parser close_request (ascii ''CPAPX001'' @ u64_bytes handle @ [flag]) = Ok (handle, flag \<noteq> 0)"
  unfolding close_request_def
  by (rule run_to_end, rule reads_to_end_last, simp only: append_assoc, intro ends_intros expect_codec.bind_reads_to_end) simp_all

lemma create_push_request_reads:
  "length metadata \<le> 4096 \<Longrightarrow>
     run_parser create_push_request (ascii ''CPARQ001'' @ u64_bytes n @ u32_bytes 65536 @ u64_bytes bucket @ frame metadata)
       = Ok (n, 65536, bucket, metadata)"
  unfolding create_push_request_def
  by (rule run_to_end, rule reads_to_end_last, simp only: append_assoc, intro ends_intros expect_codec.bind_reads_to_end)
    (simp_all add: ATTACHMENT_CHUNK_BYTES_def MAX_INPUT_BYTES_def frame_def)

lemma create_pull_request_reads:
  "length metadata \<le> 4096 \<Longrightarrow> length key = 32 \<Longrightarrow> length header = 66 \<Longrightarrow> length stream_header = 24 \<Longrightarrow>
     run_parser create_pull_request (ascii ''CPAPD001'' @ key @ header @ stream_header @ frame metadata)
       = Ok (key, header, stream_header, metadata)"
  unfolding create_pull_request_def
  by (rule run_to_end, rule reads_to_end_last, simp only: append_assoc, intro ends_intros expect_codec.bind_reads_to_end)
    (simp_all add: MAX_INPUT_BYTES_def frame_def)

section \<open>Progress of a stream\<close>

lemma unat_add_length: "unat (w + word_of_nat n :: u64) = unat w + n" if "unat w + n < 2 ^ 64"
  using that by (simp add: unat_add_no_overflow)

text \<open>The progress after \<open>n\<close> more bytes of plaintext and \<open>m\<close> more bytes of the stream.\<close>

definition advanced :: "'s \<Rightarrow> nat \<Rightarrow> nat \<Rightarrow> bool \<Rightarrow> 's stream_progress \<Rightarrow> 's stream_progress" where
  "advanced stream n m final p =
     p\<lparr>sp_stream := stream, sp_plaintext_seen := sp_plaintext_seen p + word_of_nat n,
       sp_stream_seen := sp_stream_seen p + word_of_nat m, sp_final_seen := final\<rparr>"

lemma advanced_simps [simp]:
  "sp_stream (advanced stream n m final p) = stream" "sp_header (advanced stream n m final p) = sp_header p"
  "sp_final_seen (advanced stream n m final p) = final"
  "sp_plaintext_seen (advanced stream n m final p) = sp_plaintext_seen p + word_of_nat n"
  "sp_stream_seen (advanced stream n m final p) = sp_stream_seen p + word_of_nat m"
  by (simp_all add: advanced_def)

lemma pushed_progress:
  assumes "\<not> sp_final_seen p" and ok: "header_ok (sp_header p)" and chunk: "length c \<le> 65536"
    and plain: "unat (sp_plaintext_seen p) + length c \<le> unat (ah_plaintext_size (sp_header p))"
    and final: "final \<longleftrightarrow> unat (sp_plaintext_seen p) + length c = unat (ah_plaintext_size (sp_header p))"
    and stream: "unat (sp_stream_seen p) + length c + 17 \<le> unat (ah_stream_size (sp_header p))"
    and push: "secretstream_push S (sp_stream p) c (ah_bytes (sp_header p)) final = Ok (ct, a')"
    and len: "length ct = length c + 17"
  shows "push_progress S c final p = (Ok (ascii ''CPARO001'' @ [0] @ ct), advanced a' (length c) (length ct) final p)"
proof -
  have small: "unat (ah_plaintext_size (sp_header p)) \<le> 67108864" "unat (ah_stream_size (sp_header p)) \<le> 67108864"
    using ok by (simp_all add: header_ok_def)
  have after: "unat (sp_plaintext_seen p + word_of_nat (length c)) = unat (sp_plaintext_seen p) + length c"
    by (rule unat_add_length) (use plain small in simp)
  have after': "unat (sp_stream_seen p + word_of_nat (length ct)) = unat (sp_stream_seen p) + length c + 17"
    by (subst unat_add_length) (use stream small len in simp_all)
  have "\<not> sp_plaintext_seen p + word_of_nat (length c) > ah_plaintext_size (sp_header p)"
    "sp_plaintext_seen p + word_of_nat (length c) = ah_plaintext_size (sp_header p) \<longleftrightarrow> final"
    "sp_plaintext_seen p + word_of_nat (length c) \<ge> ah_plaintext_size (sp_header p) \<longleftrightarrow> final"
    "\<not> sp_stream_seen p + word_of_nat (length ct) > ah_stream_size (sp_header p)"
    unfolding word_less_nat_alt word_le_nat_alt word_unat_eq_iff after after' using plain final stream by auto
  then show ?thesis using assms(1) push chunk
    by (simp add: push_progress_def Let_def bounded_defs MAX_INPUT_BYTES_def advanced_def)
qed

lemma pulled_progress:
  assumes "\<not> sp_final_seen p" and ok: "header_ok (sp_header p)" and chunk: "length c \<le> 65536"
    and plain: "unat (sp_plaintext_seen p) + length c \<le> unat (ah_plaintext_size (sp_header p))"
    and stream: "unat (sp_stream_seen p) + length c + 17 \<le> unat (ah_stream_size (sp_header p))"
    and final: "final \<Longrightarrow> unat (sp_plaintext_seen p) + length c = unat (ah_plaintext_size (sp_header p))
      \<and> unat (sp_stream_seen p) + length c + 17 = unat (ah_stream_size (sp_header p))"
    and pull: "secretstream_pull S (sp_stream p) ct (ah_bytes (sp_header p)) = Ok (c, final, b')"
    and len: "length ct = length c + 17"
  shows "pull_progress S ct p =
    (Ok (ascii ''CPARO001'' @ [if final then 1 else 0] @ c), advanced b' (length c) (length ct) final p)"
proof -
  have small: "unat (ah_plaintext_size (sp_header p)) \<le> 67108864" "unat (ah_stream_size (sp_header p)) \<le> 67108864"
    using ok by (simp_all add: header_ok_def)
  have after: "unat (sp_plaintext_seen p + word_of_nat (length c)) = unat (sp_plaintext_seen p) + length c"
    by (rule unat_add_length) (use plain small in simp)
  have after': "unat (sp_stream_seen p + word_of_nat (length ct)) = unat (sp_stream_seen p) + length c + 17"
    by (subst unat_add_length) (use stream small len in simp_all)
  have "\<not> sp_plaintext_seen p + word_of_nat (length c) > ah_plaintext_size (sp_header p)"
    "\<not> sp_stream_seen p + word_of_nat (length ct) > ah_stream_size (sp_header p)"
    "final \<Longrightarrow> sp_plaintext_seen p + word_of_nat (length c) = ah_plaintext_size (sp_header p)"
    "final \<Longrightarrow> sp_stream_seen p + word_of_nat (length ct) = ah_stream_size (sp_header p)"
    unfolding word_less_nat_alt word_le_nat_alt word_unat_eq_iff after after' using plain final stream by auto
  then show ?thesis using assms(1) pull chunk len
    by (auto simp: pull_progress_def Let_def attachment_constants advanced_def)
qed

lemma push_operation:
  assumes "map_of s handle = Some (Push p)" and "length c \<le> 65536"
    and "push_progress S c final p = (result, p')"
  shows "attachment_operation P S 2 (ascii ''CPAPR001'' @ u64_bytes handle @ [if final then 1 else 0] @ c) (s, tape)
    = (result, AList.update handle (Push p') s, tape)"
  using assms by (cases final) (simp_all add: attachment_operation_def push_chunk_def push_request_reads [simplified] ATTACHMENT_MAX_IO_BYTES_def)

lemma pull_operation:
  assumes "map_of s handle = Some (Pull p)" and "17 \<le> length ct" and "length ct \<le> 65553"
    and "pull_progress S ct p = (result, p')"
  shows "attachment_operation P S 4 (ascii ''CPAPC001'' @ u64_bytes handle @ ct) (s, tape)
    = (result, AList.update handle (Pull p') s, tape)"
  using assms by (simp add: attachment_operation_def pull_chunk_def pull_request_reads ATTACHMENT_MAX_IO_BYTES_def)

section \<open>Transfer of an attachment\<close>

text \<open>The data in pieces of 64 KiB; no data is one empty piece.\<close>

fun chunked :: "bytes \<Rightarrow> bytes list" where
  "chunked data = (if length data \<le> 65536 then [data] else take 65536 data # chunked (drop 65536 data))"

declare chunked.simps [simp del]

lemma chunked_not_Nil [simp]: "chunked data \<noteq> []"
  by (subst chunked.simps) simp

lemma concat_chunked: "concat (chunked data) = data"
  by (induction data rule: chunked.induct) (subst chunked.simps, simp)

lemma chunk_count_step: "65536 < n \<Longrightarrow> chunk_count n = Suc (chunk_count (n - 65536))"
  by (auto simp: chunk_count_def)

lemma chunk_count_one: "n \<le> 65536 \<Longrightarrow> chunk_count n = 1"
  by (auto simp: chunk_count_def intro!: div_nat_eqI)

text \<open>A session that pushes and one that pulls, at the same point of the same stream, with \<open>n\<close> bytes to come.\<close>

definition in_step :: "('s \<Rightarrow> 's \<Rightarrow> bool) \<Rightarrow> nat \<Rightarrow> 's stream_progress \<Rightarrow> 's stream_progress \<Rightarrow> bool" where
  "in_step linked n p q \<longleftrightarrow> header_ok (sp_header p) \<and> sp_header q = sp_header p \<and> linked (sp_stream p) (sp_stream q)
     \<and> \<not> sp_final_seen p \<and> \<not> sp_final_seen q
     \<and> sp_plaintext_seen q = sp_plaintext_seen p \<and> sp_stream_seen q = sp_stream_seen p
     \<and> unat (sp_plaintext_seen p) + n = unat (ah_plaintext_size (sp_header p))
     \<and> unat (sp_stream_seen p) + n + 17 * chunk_count n = unat (ah_stream_size (sp_header p))"

lemma transfer_chunk:
  assumes S: "streams_correct S linked" "sized_streams S" and step: "in_step linked n p q"
    and c: "length c \<le> 65536" "if final then length c = n else length c = 65536 \<and> 65536 < n"
  obtains ct a b where "push_progress S c final p
      = (Ok (ascii ''CPARO001'' @ [0] @ ct), advanced a (length c) (length ct) final p)"
    and "pull_progress S ct q
      = (Ok (ascii ''CPARO001'' @ [if final then 1 else 0] @ c), advanced b (length c) (length ct) final q)"
    and "length ct = length c + 17" and "linked a b"
proof -
  have ad: "length (ah_bytes (sp_header p)) \<le> MAX_INPUT_BYTES" and linked: "linked (sp_stream p) (sp_stream q)"
    using step by (simp_all add: in_step_def header_ok_def MAX_INPUT_BYTES_def)
  have "length c + 17 \<le> MAX_INPUT_BYTES" using c by (simp add: MAX_INPUT_BYTES_def)
  from secretstream_push_pull [OF S linked this ad, where final = final] obtain ct a b where
    ct: "secretstream_push S (sp_stream p) c (ah_bytes (sp_header p)) final = Ok (ct, a)" "length ct = length c + 17"
      "secretstream_pull S (sp_stream q) ct (ah_bytes (sp_header p)) = Ok (c, final, b)" "linked a b" by blast
  have fits: "unat (sp_plaintext_seen p) + length c \<le> unat (ah_plaintext_size (sp_header p))"
    "unat (sp_stream_seen p) + length c + 17 \<le> unat (ah_stream_size (sp_header p))"
    using step c(2) chunk_count_bounds(2) [of n] by (auto simp: in_step_def split: if_splits)
  have complete: "final \<longleftrightarrow> unat (sp_plaintext_seen p) + length c = unat (ah_plaintext_size (sp_header p))"
    and whole: "final \<Longrightarrow> unat (sp_stream_seen p) + length c + 17 = unat (ah_stream_size (sp_header p))"
    using step c by (auto simp: in_step_def chunk_count_one split: if_splits)
  show thesis
  proof (rule that)
    show "push_progress S c final p = (Ok (ascii ''CPARO001'' @ [0] @ ct), advanced a (length c) (length ct) final p)"
      using step by (intro pushed_progress c(1) fits complete ct) (simp_all add: in_step_def)
    show "pull_progress S ct q
        = (Ok (ascii ''CPARO001'' @ [if final then 1 else 0] @ c), advanced b (length c) (length ct) final q)"
      by (rule pulled_progress) (use step c(1) fits complete whole ct in \<open>simp_all add: in_step_def\<close>)
  qed (rule ct)+
qed

lemma in_step_advanced:
  assumes step: "in_step linked n p q" and "65536 < n" and "linked a b"
  shows "in_step linked (n - 65536) (advanced a 65536 65553 False p) (advanced b 65536 65553 False q)"
proof -
  have small: "unat (ah_plaintext_size (sp_header p)) \<le> 67108864" "unat (ah_stream_size (sp_header p)) \<le> 67108864"
    using step by (simp_all add: in_step_def header_ok_def)
  have "unat (sp_plaintext_seen p + word_of_nat 65536) = unat (sp_plaintext_seen p) + 65536"
    "unat (sp_stream_seen p + word_of_nat 65553) = unat (sp_stream_seen p) + 65553"
    by (rule unat_add_length; use step small assms(2) chunk_count_step [OF assms(2)] in \<open>simp add: in_step_def\<close>)+
  then show ?thesis using step assms(2,3) chunk_count_step [OF assms(2)] by (simp add: in_step_def)
qed

lemma stream_transfer:
  assumes S: "streams_correct S linked" "sized_streams S"
    and "map_of s handle = Some (Push p)" and "map_of s' handle' = Some (Pull q)" and "in_step linked (length data) p q"
  shows "\<exists>cts p' q'. attachment_calls P S (push_requests handle (chunked data)) (s, tape)
        = (map (\<lambda>c. Ok (ascii ''CPARO001'' @ [0] @ c)) cts, AList.update handle (Push p') s, tape)
      \<and> attachment_calls P S (pull_requests handle' cts) (s', tape')
        = (pull_responses (chunked data), AList.update handle' (Pull q') s', tape')
      \<and> sp_final_seen p' \<and> sp_final_seen q' \<and> length (concat cts) = length data + 17 * chunk_count (length data)"
  using assms(3-)
proof (induction data arbitrary: s s' p q rule: chunked.induct)
  case (1 data)
  show ?case
  proof (cases "length data \<le> 65536")
    case True
    then have one: "chunked data = [data]" by (simp add: chunked.simps)
    obtain ct a b where step:
      "push_progress S data True p = (Ok (ascii ''CPARO001'' @ [0] @ ct), advanced a (length data) (length ct) True p)"
      "pull_progress S ct q = (Ok (ascii ''CPARO001'' @ [1] @ data), advanced b (length data) (length ct) True q)"
      "length ct = length data + 17"
      by (rule transfer_chunk [OF S 1(4), of data True]) (use True in auto)
    show ?thesis
      using push_operation [OF 1(2) True step(1), of P tape] pull_operation [OF 1(3) _ _ step(2), of P tape'] step(3) True
      by (intro exI [of _ "[ct]"] exI [of _ "advanced a (length data) (length ct) True p"]
          exI [of _ "advanced b (length data) (length ct) True q"]) (simp add: one pull_requests_def chunk_count_one)
  next
    case False
    let ?c = "take 65536 data" and ?rest = "drop 65536 data"
    from False have more: "chunked data = ?c # chunked ?rest" by (simp add: chunked.simps [of data])
    obtain ct a b where step:
      "push_progress S ?c False p = (Ok (ascii ''CPARO001'' @ [0] @ ct), advanced a 65536 65553 False p)"
      "pull_progress S ct q = (Ok (ascii ''CPARO001'' @ [0] @ ?c), advanced b 65536 65553 False q)"
      "length ct = 65553" "linked a b"
      by (rule transfer_chunk [OF S 1(4), of ?c False]) (use False in auto)
    let ?s = "AList.update handle (Push (advanced a 65536 65553 False p)) s"
    let ?s' = "AList.update handle' (Pull (advanced b 65536 65553 False q)) s'"
    have now: "attachment_operation P S 2 (ascii ''CPAPR001'' @ u64_bytes handle @ [0] @ ?c) (s, tape)
        = (Ok (ascii ''CPARO001'' @ [0] @ ct), ?s, tape)"
      "attachment_operation P S 4 (ascii ''CPAPC001'' @ u64_bytes handle' @ ct) (s', tape')
        = (Ok (ascii ''CPARO001'' @ [0] @ ?c), ?s', tape')"
      using push_operation [OF 1(2) _ step(1), of P tape] pull_operation [OF 1(3) _ _ step(2), of P tape'] step(3) by simp_all
    from False 1(4) step(4) have "in_step linked (length ?rest) (advanced a 65536 65553 False p) (advanced b 65536 65553 False q)"
      by (simp add: in_step_advanced)
    from 1(1) [OF False _ _ this, of ?s ?s'] obtain cts p' q' where
      "attachment_calls P S (push_requests handle (chunked ?rest)) (?s, tape)
        = (map (\<lambda>c. Ok (ascii ''CPARO001'' @ [0] @ c)) cts, AList.update handle (Push p') ?s, tape)"
      "attachment_calls P S (pull_requests handle' cts) (?s', tape')
        = (pull_responses (chunked ?rest), AList.update handle' (Pull q') ?s', tape')"
      "sp_final_seen p'" "sp_final_seen q'" "length (concat cts) = length ?rest + 17 * chunk_count (length ?rest)"
      by (auto simp: AList.update_conv')
    with now False step(3) show ?thesis
      by (intro exI [of _ "ct # cts"] exI [of _ p'] exI [of _ q'])
        (simp add: more pull_requests_def chunk_count_step [of "length data"])
  qed
qed

section \<open>Opening and closing\<close>

lemma encrypted_stream_size_Ok:
  assumes "n \<le> 67108864"
  shows "encrypted_stream_size (word_of_nat n) 65536 = Ok (word_of_nat (chunk_count n * 17 + n))"
proof -
  have small: "chunk_count n \<le> 1024" using assms by (intro chunk_count_bounds(3)) simp_all
  have n: "unat (word_of_nat n :: u64) = n" using assms by simp
  have zero: "word_of_nat n = (0 :: u64) \<longleftrightarrow> n = 0" by (subst unat_0_iff [symmetric]) (simp only: n)
  have k: "(if word_of_nat n = (0 :: u64) then Ok 1 else rbind (ok_or (checked_add (word_of_nat n) (65536 - 1)) InputTooLarge)
      (\<lambda>rounded. Ok (rounded div 65536))) = (Ok (word_of_nat (chunk_count n)) :: u64 cresult)"
  proof (cases "n = 0")
    case False
    have "unat ((word_of_nat n + 65535) div 65536 :: u64) = chunk_count n"
      using False assms by (subst unat_rounded) (simp_all add: n chunk_count_def)
    then have "(word_of_nat n + 65535) div 65536 = (word_of_nat (chunk_count n) :: u64)"
      by (metis of_nat_unat ucast_id)
    then show ?thesis using False assms by (simp add: zero checked_add_def n)
  qed (simp add: chunk_count_def)
  have "unat (word_of_nat (chunk_count n) :: u64) = chunk_count n" using small by simp
  then have "checked_mul (word_of_nat (chunk_count n)) (17 :: u64) = Some (word_of_nat (chunk_count n * 17))"
    using small by (simp add: checked_mul_def)
  moreover have "unat (word_of_nat (chunk_count n * 17) :: u64) = chunk_count n * 17" using small by (intro unat_of_nat_small) simp
  then have "checked_add (word_of_nat (chunk_count n * 17)) (word_of_nat n) = Some (word_of_nat (chunk_count n * 17 + n) :: u64)"
    using small assms n by (simp only: checked_add_def of_nat_add) simp
  ultimately show ?thesis using k by (simp add: encrypted_stream_size_def Let_def SECRETSTREAM_ABYTES_def)
qed

lemma be_value_words: "word_of_nat (be_value (u32_bytes v)) = v" "word_of_nat (be_value (u64_bytes w)) = w"
  using unat_u32_bound [of v] unat_u64_bound [of w] by (simp_all add: u32_bytes_def u64_bytes_def be_value_be_bytes)

lemma parse_made_header:
  assumes made: "make_header n stream_size bucket 65536 hash = Ok h" and bucket: "bucket_for_stream stream_size = Ok bucket"
    and size: "encrypted_stream_size n 65536 = Ok stream_size"
  shows "parse_header (ah_bytes h) = Ok h" and "take 32 (drop 34 (ah_bytes h)) = hash"
proof -
  note h = made_header_ok [OF made bucket size refl]
  let ?a = "ascii ''CPAFV001''" let ?b = "u32_bytes 65536" let ?c = "u64_bytes n" let ?d = "u64_bytes stream_size"
  let ?e = "u32_bytes (ucast bucket)"
  have parts: "take 8 (ah_bytes h) = ?a" "ah_bytes h ! 8 = 1" "ah_bytes h ! 9 = 0" "take 4 (drop 10 (ah_bytes h)) = ?b"
    "take 8 (drop 14 (ah_bytes h)) = ?c" "take 8 (drop 22 (ah_bytes h)) = ?d" "take 4 (drop 30 (ah_bytes h)) = ?e"
    and hash: "take 32 (drop 34 (ah_bytes h)) = hash"
    using h(4) by (simp_all add: h(5) nth_append)
  have "ucast (ucast bucket :: u32) = bucket"
    using bucket_for_stream_bound(2) [OF bucket] by (simp add: word_unat_eq_iff unsigned_ucast_eq unsigned_take_bit_eq take_bit_nat_eq_self)
  then show "parse_header (ah_bytes h) = Ok h"
    using made bucket size by (simp add: parse_header_def parts hash chunk_is be_value_words)
  show "take 32 (drop 34 (ah_bytes h)) = hash" by (rule hash)
qed

text \<open>The handle that the next eight bytes of entropy give, and when it can be used.\<close>

definition drawn_handle :: "bytes \<Rightarrow> u64" where
  "drawn_handle tape = (let handle = word_of_nat (be_value (take 8 tape)) in if handle = 0 then 1 else handle)"

definition handle_free :: "'s sessions \<Rightarrow> bytes \<Rightarrow> bool" where
  "handle_free s tape \<longleftrightarrow> 8 \<le> length tape \<and> length s < 64 \<and> map_of s (drawn_handle tape) = None"

lemma allocated:
  "handle_free s tape \<Longrightarrow>
     allocate_handle s session tape = Ok ((drawn_handle tape, (drawn_handle tape, session) # s), drop 8 tape)"
  by (simp add: allocate_handle_def handle_free_def sbind_Ok [where m = "random_bytes 8", OF random_bytes_total]
      MAX_INPUT_BYTES_def drawn_handle_def Let_def ret_apply)

definition create_push_input :: "nat \<Rightarrow> u64 \<Rightarrow> bytes \<Rightarrow> bytes" where
  "create_push_input n bucket metadata =
     ascii ''CPARQ001'' @ u64_bytes (word_of_nat n) @ u32_bytes 65536 @ u64_bytes bucket @ frame metadata"

definition create_pull_input :: "bytes \<Rightarrow> bytes \<Rightarrow> bytes \<Rightarrow> bytes \<Rightarrow> bytes" where
  "create_pull_input key header stream_header metadata =
     ascii ''CPAPD001'' @ key @ header @ stream_header @ frame metadata"

definition close_input :: "u64 \<Rightarrow> bytes" where
  "close_input handle = ascii ''CPAPX001'' @ u64_bytes handle @ [0]"

lemma make_header_total:
  assumes "bucket_for_stream stream_size = Ok bucket" and "length hash = 32"
  shows "\<exists>h. make_header n stream_size bucket chunk hash = Ok h"
proof -
  note bound = bucket_for_stream_bound [OF assms(1)]
  have "checked_add stream_size 90 = Some (stream_size + 90)" "unat (stream_size + 90) = unat stream_size + 90"
    using bound by (simp_all add: checked_add_def unat_add_no_overflow)
  with bound assms(2) show ?thesis by (auto simp: make_header_def try_from_usize_def word_less_nat_alt)
qed

lemma push_created:
  assumes P: "sized_prims P" and S: "so_ready S" "so_init_push S (take 32 tape) (take 24 (drop 32 tape)) = Some (sh, stream)"
    and n: "n \<le> 67108864" and bucket: "bucket_for_stream (word_of_nat (chunk_count n * 17 + n)) = Ok bucket"
    and metadata: "length metadata \<le> 4096" and room: "64 \<le> length tape" "handle_free s (drop 56 tape)"
    and h: "make_header (word_of_nat n) (word_of_nat (chunk_count n * 17 + n)) bucket 65536 (sha256_raw P metadata) = Ok h"
  shows "attachment_operation P S 1 (create_push_input n bucket metadata) (s, tape) =
    (Ok (ascii ''CPARE001'' @ u64_bytes (drawn_handle (drop 56 tape)) @ take 32 tape @ ah_bytes h @ sh
       @ u64_bytes (word_of_nat (chunk_count n * 17 + n))),
     (drawn_handle (drop 56 tape), Push (new_progress stream h)) # s, drop 64 tape)"
proof -
  define t where "t = drop 32 tape"
  define u where "u = drop 24 t"
  have seed: "fill 24 t = Ok (take 24 t, u)" using room by (simp add: fill_def t_def u_def)
  have init: "secretstream_push_init S (take 32 tape) t = Ok ((stream, sh), u)"
    using S by (simp add: secretstream_push_init_def sbind_Ok [where m = "fill 24", OF seed] t_def [symmetric] ret_apply)
  have key: "random_bytes 32 tape = Ok (take 32 tape, t)"
    using room by (simp add: random_bytes_total MAX_INPUT_BYTES_def t_def)
  have u: "u = drop 56 tape" "drop 8 u = drop 64 tape" by (simp_all add: u_def t_def)
  have req: "run_parser create_push_request (create_push_input n bucket metadata) = Ok (word_of_nat n, 65536, bucket, metadata)"
    unfolding create_push_input_def by (rule create_push_request_reads [OF metadata])
  have "create_push P S s (create_push_input n bucket metadata) tape =
    Ok ((ascii ''CPARE001'' @ u64_bytes (drawn_handle u) @ take 32 tape @ ah_bytes h @ sh
       @ u64_bytes (word_of_nat (chunk_count n * 17 + n)),
     (drawn_handle u, Push (new_progress stream h)) # s), drop 8 u)"
    using room(2) bucket h
    by (simp add: create_push_def req encrypted_stream_size_Ok [OF n] sbind_Ok [where m = "random_bytes 32", OF key]
        sbind_Ok [where m = "secretstream_push_init S _", OF init] sbind_Ok [OF allocated] u(1) [symmetric] ret_apply)
  moreover have "length (create_push_input n bucket metadata) \<le> 262144"
    using metadata by (simp add: create_push_input_def frame_def)
  ultimately show ?thesis by (simp add: attachment_operation_def with_table_def u ATTACHMENT_MAX_IO_BYTES_def)
qed

lemma pull_created:
  assumes S: "so_ready S" "so_init_pull S key sh = Some stream" and h: "parse_header (ah_bytes h) = Ok h"
    and hash: "take 32 (drop 34 (ah_bytes h)) = sha256_raw P metadata"
    and sizes: "length metadata \<le> 4096" "length key = 32" "length (ah_bytes h) = 66" "length sh = 24"
    and room: "handle_free s tape"
  shows "attachment_operation P S 3 (create_pull_input key (ah_bytes h) sh metadata) (s, tape) =
    (Ok (ascii ''CPARE001'' @ u64_bytes (drawn_handle tape)),
     (drawn_handle tape, Pull (new_progress stream h)) # s, drop 8 tape)"
proof -
  have req: "run_parser create_pull_request (create_pull_input key (ah_bytes h) sh metadata) = Ok (key, ah_bytes h, sh, metadata)"
    unfolding create_pull_input_def by (rule create_pull_request_reads) (rule sizes)+
  have "create_pull P S s (create_pull_input key (ah_bytes h) sh metadata) tape =
    Ok ((ascii ''CPARE001'' @ u64_bytes (drawn_handle tape), (drawn_handle tape, Pull (new_progress stream h)) # s), drop 8 tape)"
    using room S by (simp add: create_pull_def req h hash secretstream_pull_init_def sbind_Ok [OF allocated] ret_apply)
  moreover have "length (create_pull_input key (ah_bytes h) sh metadata) \<le> 262144"
    using sizes by (simp add: create_pull_input_def frame_def)
  ultimately show ?thesis by (simp add: attachment_operation_def with_table_def ATTACHMENT_MAX_IO_BYTES_def)
qed

lemma closed:
  assumes "map_of s handle = Some session" and "sp_final_seen (session_progress session)"
  shows "attachment_operation P S 5 (close_input handle) (s, tape) = (Ok (ascii ''CPARX001''), AList.delete handle s, tape)"
  using assms
  by (simp add: attachment_operation_def close_input_def close_session_def close_request_reads with_table_def
      slift_def ATTACHMENT_MAX_IO_BYTES_def)

lemma attachment_calls_append:
  "attachment_calls P S xs st = (rs, st') \<Longrightarrow> attachment_calls P S [(operation, input)] st' = (rs', st'') \<Longrightarrow>
     attachment_calls P S (xs @ [(operation, input)]) st = (rs @ rs', st'')"
  by (induction P S xs st arbitrary: rs rule: attachment_calls.induct) (auto split: prod.splits)

lemma delete_new: "map_of s handle = None \<Longrightarrow> AList.delete handle (AList.update handle v ((handle, w) # s)) = s"
  by (simp add: AList.delete_eq map_of_eq_None_iff) (force intro!: filter_True)

lemma closed_new:
  assumes "map_of s handle = None" and "sp_final_seen (session_progress v)"
  shows "attachment_calls P S [(5, close_input handle)] (AList.update handle v ((handle, w) # s), tape)
    = ([Ok (ascii ''CPARX001'')], s, tape)"
  using closed [of "AList.update handle v ((handle, w) # s)" handle v P S tape] delete_new [of s handle v w] assms
  by (simp add: AList.update_conv' del: AList.update.simps)

lemma opened_in_step:
  assumes "header_ok h" and "ah_plaintext_size h = word_of_nat n" and "n \<le> 67108864" and "linked a b"
  shows "in_step linked n (new_progress a h) (new_progress b h)"
  using assms by (simp add: in_step_def new_progress_def header_ok_def)

text \<open>
  C19: An attachment that fits the largest bucket can be transferred. Opening a push session with its size, bucket and
  metadata succeeds when 64 bytes of entropy and a free handle are available; pushing its 64 KiB chunks, the last one
  marked as final, and closing the session succeed and leave the table as it was, and the pushed chunks have the size
  that was announced. With the key and the two headers that opening returned, and the same metadata, another process
  opens a pull session, pulls the chunks in order, is told that exactly the last one is final, and closes the session.
\<close>

theorem attachment_round_trip:
  assumes P: "sized_prims P" and S: "streams_correct S linked" "sized_streams S" "so_ready S"
    and n: "length data \<le> 67108864"
    and bucket: "bucket_for_stream (word_of_nat (chunk_count (length data) * 17 + length data)) = Ok bucket"
    and metadata: "length metadata \<le> 4096"
    and room: "64 \<le> length tape" "handle_free s (drop 56 tape)" and room': "handle_free s' tape'"
  shows "\<exists>handle key header sh cts s1 handle' s1'.
    attachment_operation P S 1 (create_push_input (length data) bucket metadata) (s, tape)
      = (Ok (ascii ''CPARE001'' @ u64_bytes handle @ key @ header @ sh
          @ u64_bytes (word_of_nat (chunk_count (length data) * 17 + length data))), s1, drop 64 tape)
    \<and> attachment_calls P S (push_requests handle (chunked data) @ [(5, close_input handle)]) (s1, drop 64 tape)
      = (map (\<lambda>c. Ok (ascii ''CPARO001'' @ [0] @ c)) cts @ [Ok (ascii ''CPARX001'')], s, drop 64 tape)
    \<and> length (concat cts) = chunk_count (length data) * 17 + length data
    \<and> attachment_operation P S 3 (create_pull_input key header sh metadata) (s', tape')
      = (Ok (ascii ''CPARE001'' @ u64_bytes handle'), s1', drop 8 tape')
    \<and> attachment_calls P S (pull_requests handle' cts @ [(5, close_input handle')]) (s1', drop 8 tape')
      = (pull_responses (chunked data) @ [Ok (ascii ''CPARX001'')], s', drop 8 tape')
    \<and> concat (chunked data) = data"
proof -
  let ?size = "word_of_nat (chunk_count (length data) * 17 + length data) :: u64"
  obtain sh a b where init: "so_init_push S (take 32 tape) (take 24 (drop 32 tape)) = Some (sh, a)"
    "so_init_pull S (take 32 tape) sh = Some b" "linked a b" using S(1) unfolding streams_correct_def by blast
  have hash: "length (sha256_raw P metadata) = 32" using P by (simp add: sized_prims_def)
  from make_header_total [OF bucket hash] obtain h where
    h: "make_header (word_of_nat (length data)) ?size bucket 65536 (sha256_raw P metadata) = Ok h" by blast
  note size = encrypted_stream_size_Ok [OF n]
  note header = made_header_ok [OF h bucket size refl] and parsed = parse_made_header [OF h bucket size]
  let ?handle = "drawn_handle (drop 56 tape)" and ?handle' = "drawn_handle tape'"
  let ?s1 = "(?handle, Push (new_progress a h)) # s" and ?s1' = "(?handle', Pull (new_progress b h)) # s'"
  note push = push_created [OF P S(3) init(1) n bucket metadata room h]
  have "length sh = 24" using S(2) init(1) by (auto simp: sized_streams_def)
  then have pull: "attachment_operation P S 3 (create_pull_input (take 32 tape) (ah_bytes h) sh metadata) (s', tape')
      = (Ok (ascii ''CPARE001'' @ u64_bytes ?handle'), ?s1', drop 8 tape')"
    using header(1) room(1) by (intro pull_created S(3) init(2) parsed metadata room') (simp_all add: header_ok_def)
  have "in_step linked (length data) (new_progress a h) (new_progress b h)"
    by (intro opened_in_step header(1,2) n init(3))
  from stream_transfer [OF S(1,2) _ _ this, of ?s1 ?handle ?s1' ?handle' P "drop 64 tape" "drop 8 tape'"]
  obtain cts p' q' where calls: "attachment_calls P S (push_requests ?handle (chunked data)) (?s1, drop 64 tape)
        = (map (\<lambda>c. Ok (ascii ''CPARO001'' @ [0] @ c)) cts, AList.update ?handle (Push p') ?s1, drop 64 tape)"
      "attachment_calls P S (pull_requests ?handle' cts) (?s1', drop 8 tape')
        = (pull_responses (chunked data), AList.update ?handle' (Pull q') ?s1', drop 8 tape')"
      and final: "sp_final_seen p'" "sp_final_seen q'" and len: "length (concat cts) = length data + 17 * chunk_count (length data)"
    by auto
  have "map_of s ?handle = None" "map_of s' ?handle' = None" using room(2) room' by (simp_all add: handle_free_def)
  note closing = closed_new [OF this(1), of "Push p'" P S "Push (new_progress a h)" "drop 64 tape"]
    closed_new [OF this(2), of "Pull q'" P S "Pull (new_progress b h)" "drop 8 tape'"]
  from push pull attachment_calls_append [OF calls(1) closing(1)] attachment_calls_append [OF calls(2) closing(2)] show ?thesis
    using final len concat_chunked
    by (intro exI [of _ ?handle] exI [of _ "take 32 tape"] exI [of _ "ah_bytes h"] exI [of _ sh] exI [of _ cts]
        exI [of _ ?s1] exI [of _ ?handle'] exI [of _ ?s1']) simp
qed

theorem attachment_round_trip_witness:
  "\<exists>handle key header sh cts s1 handle' s1'.
    attachment_operation example_prims example_sodium 1 (create_push_input 3 65536 [9]) ([], replicate 64 7)
      = (Ok (ascii ''CPARE001'' @ u64_bytes handle @ key @ header @ sh @ u64_bytes 20), s1, [])
    \<and> attachment_calls example_prims example_sodium (push_requests handle (chunked [1, 2, 3]) @ [(5, close_input handle)]) (s1, [])
      = (map (\<lambda>c. Ok (ascii ''CPARO001'' @ [0] @ c)) cts @ [Ok (ascii ''CPARX001'')], [], [])
    \<and> length (concat cts) = 20
    \<and> attachment_operation example_prims example_sodium 3 (create_pull_input key header sh [9]) ([], replicate 8 1)
      = (Ok (ascii ''CPARE001'' @ u64_bytes handle'), s1', [])
    \<and> attachment_calls example_prims example_sodium (pull_requests handle' cts @ [(5, close_input handle')]) (s1', [])
      = (pull_responses (chunked [1, 2, 3]) @ [Ok (ascii ''CPARX001'')], [], [])
    \<and> concat (chunked [1, 2, 3]) = [1, 2, 3]"
proof -
  have len: "length [1, 2, 3 :: byte] = 3" by simp
  have count: "chunk_count 3 * 17 + 3 = 20" by (simp add: chunk_count_def)
  have bucket: "bucket_for_stream 20 = Ok 65536" by (simp add: bucket_for_stream_def checked_add_def ATTACHMENT_BUCKETS_def)
  have ready: "so_ready example_sodium" by (simp add: example_sodium_def)
  have tapes: "drop 64 (replicate 64 (7 :: byte)) = []" "drop 8 (replicate 8 (1 :: byte)) = []" by simp_all
  show ?thesis
    by (rule attachment_round_trip [OF example_sized example_streams example_sized_streams ready,
        of "[1, 2, 3]" 65536 "[9]" "replicate 64 7" "[]" "[]" "replicate 8 1", unfolded len count of_nat_numeral tapes])
      (simp_all add: bucket handle_free_def)
qed

end
