(* ===== verification/Attachment_Table.thy ===== *)
theory Attachment_Table
  imports Attachment_Properties
begin

text \<open>
  The table of attachment sessions after any requests: what it holds and how far its sessions are.
\<close>

section \<open>Every reached table\<close>

fun session_ok :: "nat \<Rightarrow> 's attachment_session \<Rightarrow> bool" where
  "session_ok k (Push p) \<longleftrightarrow> header_ok (sp_header p)
     \<and> (\<exists>n \<le> k. unat (sp_stream_seen p) = unat (sp_plaintext_seen p) + 17 * n \<and> unat (sp_plaintext_seen p) \<le> 65536 * n)
     \<and> sp_plaintext_seen p \<le> ah_plaintext_size (sp_header p)
     \<and> (sp_final_seen p \<longrightarrow> sp_plaintext_seen p = ah_plaintext_size (sp_header p) \<and> sp_stream_seen p = ah_stream_size (sp_header p))"
| "session_ok k (Pull p) \<longleftrightarrow> header_ok (sp_header p)
     \<and> sp_plaintext_seen p \<le> ah_plaintext_size (sp_header p) \<and> sp_stream_seen p \<le> ah_stream_size (sp_header p)
     \<and> (sp_final_seen p \<longrightarrow> sp_plaintext_seen p = ah_plaintext_size (sp_header p) \<and> sp_stream_seen p = ah_stream_size (sp_header p))"

definition table_ok :: "nat \<Rightarrow> 's sessions \<Rightarrow> bool" where
  "table_ok k s \<longleftrightarrow> distinct (map fst s) \<and> length s \<le> 64 \<and> 0 \<notin> fst ` set s \<and> (\<forall>(handle, session) \<in> set s. session_ok k session)"

lemma session_ok_mono: "session_ok k session \<Longrightarrow> k \<le> l \<Longrightarrow> session_ok l session"
  by (cases session) (auto intro: le_trans)

lemma table_ok_mono: "table_ok k s \<Longrightarrow> k \<le> l \<Longrightarrow> table_ok l s"
  by (auto simp: table_ok_def intro: session_ok_mono)

lemma set_update_subset: "set (AList.update k v al) \<subseteq> insert (k, v) (set al)"
  by (induction al) auto

lemma table_ok_update:
  assumes "table_ok k s" and "map_of s handle = Some session" and new: "session_ok (Suc k) session'"
  shows "table_ok (Suc k) (AList.update handle session' s)"
proof -
  have old: "table_ok (Suc k) s" using assms(1) by (rule table_ok_mono) simp
  have "handle \<in> set (map fst s)" using map_of_SomeD [OF assms(2)] by force
  then have keys: "map fst (AList.update handle session' s) = map fst s" by (simp add: AList.update_keys)
  have len: "length (AList.update handle session' s) = length s" using arg_cong [OF keys, of length] by simp
  have fsts: "fst ` set (AList.update handle session' s) = fst ` set s" using arg_cong [OF keys, of set] by simp
  have "session_ok (Suc k) x" if "(h, x) \<in> set (AList.update handle session' s)" for h x
    using that set_update_subset [of handle session' s] old new by (auto simp: table_ok_def)
  then show ?thesis using old by (auto simp: table_ok_def keys len fsts)
qed

lemma table_ok_delete:
  assumes "table_ok k s"
  shows "table_ok k (AList.delete handle s)"
proof -
  have "length (AList.delete handle s) \<le> length s" by (simp add: AList.delete_eq)
  moreover have "set (AList.delete handle s) \<subseteq> set s" by (auto simp: AList.delete_eq)
  moreover have "distinct (map fst (AList.delete handle s))"
    using assms by (intro AList.distinct_delete) (simp add: table_ok_def)
  ultimately show ?thesis using assms unfolding table_ok_def by (meson image_mono le_trans subset_iff)
qed

lemma allocate_handle_Ok:
  assumes "allocate_handle s session tape = Ok ((handle, s'), tape')"
  shows "s' = (handle, session) # s" and "length s < 64" and "map_of s handle = None" and "handle \<noteq> 0"
  using assms by (auto simp: allocate_handle_def ret_apply Let_def reject_if_def elim!: sbind_OkE split: if_splits)

lemma table_ok_new:
  assumes "table_ok k s" and "header_ok h" and alloc: "allocate_handle s session tape = Ok ((handle, s'), tape')"
    and "session = Push (new_progress stream h) \<or> session = Pull (new_progress stream h)"
  shows "table_ok k s'"
proof -
  have new: "session_ok k session" using assms(2,4) by (auto simp: new_progress_def)
  note handle = allocate_handle_Ok [OF alloc]
  then have "handle \<notin> fst ` set s" by (simp add: map_of_eq_None_iff)
  with handle assms(1) new show ?thesis by (auto simp: table_ok_def)
qed

section \<open>A chunk keeps its session\<close>

lemma sized_streamsD:
  assumes "sized_streams S"
  shows "so_push S state m ad tag = Some (c, state') \<Longrightarrow> length c = length m + 17"
    and "so_pull S state c ad = Some (m, tag, state') \<Longrightarrow> length m + 17 = length c"
  using assms unfolding sized_streams_def by blast+

lemma secretstream_push_length:
  assumes "sized_streams S" and "secretstream_push S a m ad final = Ok (c, a')"
  shows "length c = length m + 17"
  using assms(2) sized_streamsD(1) [OF assms(1)]
  by (auto simp: secretstream_push_def bounded_bytes_new_Ok_iff Let_def elim!: rbind_OkE)

lemma secretstream_pull_length:
  assumes "sized_streams S" and "secretstream_pull S b c ad = Ok (m, final, b')"
  shows "length m + 17 = length c"
  using assms(2) sized_streamsD(2) [OF assms(1)]
  by (auto simp: secretstream_pull_def bounded_bytes_new_Ok_iff secret_vec_Ok_iff elim!: rbind_OkE)

lemma push_progress_cases:
  assumes S: "sized_streams S" and run: "push_progress S c final p = (result, p')"
  obtains "p' = p"
  | stream F where "p' = advanced stream (length c) (length c + 17) F p"
    and "sp_plaintext_seen p + word_of_nat (length c) \<le> ah_plaintext_size (sp_header p)"
    and "F \<Longrightarrow> sp_plaintext_seen p + word_of_nat (length c) = ah_plaintext_size (sp_header p)"
    and "F \<Longrightarrow> sp_stream_seen p + word_of_nat (length c + 17) \<le> ah_stream_size (sp_header p)"
proof (cases "p' = p")
  case False
  let ?after = "sp_plaintext_seen p + word_of_nat (length c)" and ?size = "ah_plaintext_size (sp_header p)"
  have fits: "?after \<le> ?size" and open_p: "\<not> sp_final_seen p" and complete: "final \<Longrightarrow> ?after = ?size"
    using run False by (auto simp: push_progress_def Let_def not_less split: if_splits)
  from run False obtain ct stream where push: "secretstream_push S (sp_stream p) c (ah_bytes (sp_header p)) final = Ok (ct, stream)"
    and p': "p' = (let q = p\<lparr>sp_stream := stream, sp_plaintext_seen := ?after,
        sp_stream_seen := sp_stream_seen p + word_of_nat (length ct)\<rparr> in
      if sp_stream_seen q > ah_stream_size (sp_header p) then q else q\<lparr>sp_final_seen := final\<rparr>)"
    by (auto simp: push_progress_def Let_def bounded_defs split: if_splits sum.splits prod.splits)
  have len: "length ct = length c + 17" by (rule secretstream_push_length [OF S push])
  show ?thesis
  proof (cases "sp_stream_seen p + word_of_nat (length c + 17) > ah_stream_size (sp_header p)")
    case True
    have "p' = advanced stream (length c) (length c + 17) False p"
      using True open_p by (cases p) (simp add: p' advanced_def len)
    then show ?thesis by (rule that(2) [OF _ fits]) simp_all
  next
    case False
    have "p' = advanced stream (length c) (length c + 17) final p" using False by (simp add: p' advanced_def len)
    then show ?thesis by (rule that(2) [OF _ fits]) (use complete False in simp_all)
  qed
qed (rule that(1))

lemma pull_progress_cases:
  assumes S: "sized_streams S" and run: "pull_progress S ct p = (result, p')"
  obtains stream where "p' = p\<lparr>sp_stream := stream\<rparr>"
  | stream F and c :: bytes where "length c \<le> 65536" and "length ct = length c + 17"
    and "p' = advanced stream (length c) (length ct) F p"
    and "sp_plaintext_seen p + word_of_nat (length c) \<le> ah_plaintext_size (sp_header p)"
    and "sp_stream_seen p + word_of_nat (length ct) \<le> ah_stream_size (sp_header p)"
    and "F \<Longrightarrow> sp_plaintext_seen p + word_of_nat (length c) = ah_plaintext_size (sp_header p)
      \<and> sp_stream_seen p + word_of_nat (length ct) = ah_stream_size (sp_header p)"
proof (cases "secretstream_pull S (sp_stream p) ct (ah_bytes (sp_header p))")
  case (Inl e)
  then have "p' = p\<lparr>sp_stream := sp_stream p\<rparr>" using run by (auto simp: pull_progress_def Let_def split: if_splits)
  then show ?thesis by (rule that(1))
next
  case (Inr r)
  obtain c final stream where r: "r = (c, final, stream)" by (cases r)
  let ?plain = "sp_plaintext_seen p + word_of_nat (length c)" and ?stream = "sp_stream_seen p + word_of_nat (length ct)"
  have len: "length ct = length c + 17" using secretstream_pull_length [OF S Inr [unfolded r]] by simp
  have guard: "ATTACHMENT_CHUNK_BYTES + SECRETSTREAM_ABYTES = 65553" by (simp add: attachment_constants)
  show ?thesis
  proof (cases "sp_final_seen p \<or> length ct > 65553")
    case True
    then have "p' = p\<lparr>sp_stream := sp_stream p\<rparr>" using run by (simp add: pull_progress_def guard)
    then show ?thesis by (rule that(1))
  next
    case now: False
    show ?thesis
    proof (cases "?stream > ah_stream_size (sp_header p) \<or> ?plain > ah_plaintext_size (sp_header p)")
      case True
      then have "p' = p\<lparr>sp_stream := stream\<rparr>" using run now by (simp add: pull_progress_def guard Inr r)
      then show ?thesis by (rule that(1))
    next
      case False
      let ?complete = "?stream = ah_stream_size (sp_header p) \<and> ?plain = ah_plaintext_size (sp_header p)"
      let ?q = "p\<lparr>sp_stream := stream, sp_stream_seen := ?stream, sp_plaintext_seen := ?plain\<rparr>"
      have "p' = (if final \<and> \<not> ?complete then ?q else ?q\<lparr>sp_final_seen := final\<rparr>)"
        using run now False by (auto simp: pull_progress_def guard Inr r Let_def split: if_splits)
      moreover have "?q = advanced stream (length c) (length ct) False p" using now by (cases p) (simp add: advanced_def)
      ultimately have "p' = advanced stream (length c) (length ct) (final \<and> ?complete) p" by (auto simp: advanced_def)
      with now False len show ?thesis by (intro that(2) [of c stream "final \<and> ?complete"]) (auto simp: not_less)
    qed
  qed
qed

lemma squeezed: "s = a + 17 * m \<Longrightarrow> t = a + 17 * c \<Longrightarrow> c \<le> m \<Longrightarrow> s \<le> t \<Longrightarrow> s = t" for s t a c m :: nat
  by simp

lemma push_keeps:
  assumes S: "sized_streams S" and p: "session_ok k (Push p)" and k: "k < 2 ^ 40" and c: "length c \<le> 65536"
    and run: "push_progress S c final p = (result, p')"
  shows "session_ok (Suc k) (Push p')"
  using S run
proof (cases rule: push_progress_cases)
  case 1
  with p show ?thesis using session_ok_mono [of k "Push p" "Suc k"] by simp
next
  case (2 stream F)
  let ?plain = "sp_plaintext_seen p + word_of_nat (length c)" and ?stream = "sp_stream_seen p + word_of_nat (length c + 17)"
  from p obtain n where n: "n \<le> k" "unat (sp_stream_seen p) = unat (sp_plaintext_seen p) + 17 * n"
      "unat (sp_plaintext_seen p) \<le> 65536 * n"
    and ok: "header_ok (sp_header p)" and seen: "unat (sp_plaintext_seen p) \<le> unat (ah_plaintext_size (sp_header p))"
    by (auto simp: word_le_nat_alt)
  have small: "unat (ah_plaintext_size (sp_header p)) \<le> 67108864" using ok by (simp add: header_ok_def)
  have plain: "unat ?plain = unat (sp_plaintext_seen p) + length c"
    by (rule unat_add_length) (use seen small c in simp)
  have stream: "unat ?stream = unat (sp_stream_seen p) + (length c + 17)"
    by (rule unat_add_length) (use n seen small c k in simp)
  have count: "unat ?stream = unat ?plain + 17 * Suc n" "unat ?plain \<le> 65536 * Suc n"
    using n c by (simp_all only: plain stream) simp_all
  have full: "?stream = ah_stream_size (sp_header p)" if F
  proof -
    have eq: "?plain = ah_plaintext_size (sp_header p)" and le: "unat ?stream \<le> unat (ah_stream_size (sp_header p))"
      using 2(3,4) that by (simp_all only: word_le_nat_alt)
    have "unat (ah_stream_size (sp_header p)) = unat ?plain + 17 * chunk_count (unat ?plain)"
      using ok by (simp add: header_ok_def eq)
    moreover have "chunk_count (unat ?plain) \<le> Suc n" by (rule chunk_count_bounds(3)) (use count(2) in simp_all)
    ultimately have "unat ?stream = unat (ah_stream_size (sp_header p))" by (rule squeezed [OF count(1) _ _ le])
    then show ?thesis by (rule word_unat_eq_iff [THEN iffD2])
  qed
  have "session_ok (Suc k) (Push (advanced stream (length c) (length c + 17) F p))"
    unfolding session_ok.simps advanced_simps using ok 2(2,3) full count n(1) by blast
  with 2(1) show ?thesis by simp
qed

lemma pull_keeps:
  assumes S: "sized_streams S" and p: "session_ok k (Pull p)" and run: "pull_progress S ct p = (result, p')"
  shows "session_ok k (Pull p')"
  using S run
proof (cases rule: pull_progress_cases)
  case (2 stream F c)
  with p show ?thesis by auto
qed (use p in auto)

section \<open>Every operation keeps the table\<close>

lemma push_request_bound: "run_parser push_request input = Ok (handle, final, c) \<Longrightarrow> length c \<le> 65536"
  by (auto simp: run_parser_def push_request_def ret_apply attachment_constants reject_if_def
      elim!: rbind_OkE sbind_OkE split: if_splits)

lemma create_push_request_chunk: "run_parser create_push_request input = Ok (n, chunk, bucket, metadata) \<Longrightarrow> chunk = 65536"
  by (auto simp: run_parser_def create_push_request_def ret_apply chunk_is reject_if_def
      elim!: rbind_OkE sbind_OkE split: if_splits)

lemma create_push_keeps:
  assumes "table_ok k s" and run: "create_push P S s input tape = Ok ((out, s'), tape')"
  shows "table_ok k s'"
proof -
  from run obtain n chunk bucket metadata stream_size h stream handle t where
    request: "run_parser create_push_request input = Ok (n, chunk, bucket, metadata)"
    and size: "encrypted_stream_size n chunk = Ok stream_size" and bucket: "bucket_for_stream stream_size = Ok bucket"
    and h: "make_header n stream_size bucket chunk (sha256_raw P metadata) = Ok h"
    and alloc: "allocate_handle s (Push (new_progress stream h)) t = Ok ((handle, s'), tape')"
    by (auto simp: create_push_def Let_def ret_apply reject_if_def elim!: sbind_OkE split: if_splits prod.splits)
  have "header_ok h" by (rule made_header_ok(1) [OF h bucket size create_push_request_chunk [OF request]])
  then show ?thesis by (rule table_ok_new [OF assms(1) _ alloc]) simp
qed

lemma create_pull_keeps:
  assumes "table_ok k s" and run: "create_pull P S s input tape = Ok ((out, s'), tape')"
  shows "table_ok k s'"
proof -
  from run obtain bs h stream handle t where header: "parse_header bs = Ok h"
    and alloc: "allocate_handle s (Pull (new_progress stream h)) t = Ok ((handle, s'), tape')"
    by (auto simp: create_pull_def ret_apply reject_if_def elim!: sbind_OkE split: if_splits prod.splits)
  show ?thesis by (rule table_ok_new [OF assms(1) parsed_header_ok [OF header] alloc]) simp
qed

lemma table_ok_lookup: "table_ok k s \<Longrightarrow> map_of s handle = Some session \<Longrightarrow> session_ok k session"
  by (auto simp: table_ok_def dest: map_of_SomeD)

lemma push_chunk_cases:
  obtains "snd (push_chunk S s input) = s"
  | handle final c p where "run_parser push_request input = Ok (handle, final, c)" and "map_of s handle = Some (Push p)"
    and "snd (push_chunk S s input) = AList.update handle (Push (snd (push_progress S c final p))) s"
proof (cases "run_parser push_request input")
  case (Inl e)
  then show ?thesis by (intro that(1)) (simp add: push_chunk_def)
next
  case (Inr r)
  obtain handle final c where r: "r = (handle, final, c)" by (cases r)
  show ?thesis
  proof (cases "\<exists>p. map_of s handle = Some (Push p)")
    case True
    then obtain p where "map_of s handle = Some (Push p)" by blast
    then show ?thesis by (intro that(2) [OF Inr [unfolded r]]) (simp_all add: push_chunk_def Inr r case_prod_beta)
  next
    case False
    then show ?thesis by (intro that(1)) (simp add: push_chunk_def Inr r split: option.splits attachment_session.splits)
  qed
qed

lemma pull_chunk_cases:
  obtains "snd (pull_chunk S s input) = s"
  | handle c p where "map_of s handle = Some (Pull p)"
    and "snd (pull_chunk S s input) = AList.update handle (Pull (snd (pull_progress S c p))) s"
proof (cases "run_parser pull_request input")
  case (Inl e)
  then show ?thesis by (intro that(1)) (simp add: pull_chunk_def)
next
  case (Inr r)
  obtain handle c where r: "r = (handle, c)" by (cases r)
  show ?thesis
  proof (cases "\<exists>p. map_of s handle = Some (Pull p)")
    case True
    then obtain p where "map_of s handle = Some (Pull p)" by blast
    then show ?thesis by (intro that(2)) (simp_all add: pull_chunk_def Inr r case_prod_beta)
  next
    case False
    then show ?thesis by (intro that(1)) (simp add: pull_chunk_def Inr r split: option.splits attachment_session.splits)
  qed
qed

lemma push_chunk_keeps:
  assumes S: "sized_streams S" and s: "table_ok k s" and k: "k < 2 ^ 40"
  shows "table_ok (Suc k) (snd (push_chunk S s input))"
proof (cases rule: push_chunk_cases [of S s input])
  case 1
  then show ?thesis using table_ok_mono [OF s, of "Suc k"] by simp
next
  case (2 handle final c p)
  have "session_ok (Suc k) (Push (snd (push_progress S c final p)))"
    by (rule push_keeps [OF S table_ok_lookup [OF s 2(2)] k push_request_bound [OF 2(1)] surjective_pairing])
  from table_ok_update [OF s 2(2) this] 2(3) show ?thesis by simp
qed

lemma pull_chunk_keeps:
  assumes S: "sized_streams S" and s: "table_ok k s"
  shows "table_ok (Suc k) (snd (pull_chunk S s input))"
proof (cases rule: pull_chunk_cases [of S s input])
  case 1
  then show ?thesis using table_ok_mono [OF s, of "Suc k"] by simp
next
  case (2 handle c p)
  have "session_ok k (Pull (snd (pull_progress S c p)))"
    by (rule pull_keeps [OF S table_ok_lookup [OF s 2(1)] surjective_pairing])
  then have "session_ok (Suc k) (Pull (snd (pull_progress S c p)))" by (rule session_ok_mono) simp
  from table_ok_update [OF s 2(1) this] 2(2) show ?thesis by simp
qed

lemma with_table_cases:
  assumes "with_table s tape f = (result, s', tape')"
  obtains "s' = s" | out where "f tape = Ok ((out, s'), tape')"
  using assms by (auto simp: with_table_def split: sum.splits prod.splits)

lemma close_session_keeps:
  assumes "table_ok k s" and run: "close_session s input = Ok (out, s')"
  shows "table_ok k s'"
proof -
  from run obtain handle where "s' = AList.delete handle s"
    by (auto simp: close_session_def elim!: rbind_OkE split: prod.splits)
  then show ?thesis using table_ok_delete [OF assms(1)] by simp
qed

lemma operation_keeps:
  assumes S: "sized_streams S" and s: "table_ok k s" and k: "k < 2 ^ 40"
    and run: "attachment_operation P S operation input (s, tape) = (result, s', tape')"
  shows "table_ok (Suc k) s'"
proof -
  have same: "table_ok (Suc k) s" by (rule table_ok_mono [OF s]) simp
  have table: "table_ok (Suc k) s'" if "with_table s tape f = (result, s', tape')"
      "\<And>out. f tape = Ok ((out, s'), tape') \<Longrightarrow> table_ok (Suc k) s'" for f
    using that(1) by (rule with_table_cases) (use same that(2) in auto)
  show ?thesis
  proof (cases "length input \<le> ATTACHMENT_MAX_IO_BYTES \<and> operation \<in> {1, 2, 3, 4, 5, 6}")
    case False
    then have "s' = s" using run by (simp add: attachment_operation_def split: if_splits)
    with same show ?thesis by simp
  next
    case True
    then have small: "\<not> ATTACHMENT_MAX_IO_BYTES < length input" by simp
    note op = run [unfolded attachment_operation_def prod.case if_not_P [OF small]]
    from True consider "operation = 1" | "operation = 2" | "operation = 3" | "operation = 4" | "operation = 5" | "operation = 6" by blast
    then show ?thesis
    proof cases
      case 1
      with op have "with_table s tape (create_push P S s input) = (result, s', tape')" by simp
      then show ?thesis by (rule table) (rule create_push_keeps [OF same])
    next
      case 2
      with op have "snd (push_chunk S s input) = s'" by (simp split: prod.splits)
      with push_chunk_keeps [OF S s k, of input] show ?thesis by simp
    next
      case 3
      with op have "with_table s tape (create_pull P S s input) = (result, s', tape')" by simp
      then show ?thesis by (rule table) (rule create_pull_keeps [OF same])
    next
      case 4
      with op have "snd (pull_chunk S s input) = s'" by (simp split: prod.splits)
      with pull_chunk_keeps [OF S s, of input] show ?thesis by simp
    next
      case 5
      with op have "with_table s tape (slift (close_session s input)) = (result, s', tape')" by simp
      then show ?thesis
        by (rule table) (auto simp: slift_def intro: close_session_keeps [OF same] elim!: rbind_OkE)
    next
      case 6
      with op have "with_table s tape (sbind (attachment_random_bytes input) (\<lambda>out. ret (out, s))) = (result, s', tape')" by simp
      then show ?thesis by (rule table) (use same in \<open>auto simp: ret_apply elim!: sbind_OkE\<close>)
    qed
  qed
qed

lemma calls_keep:
  assumes S: "sized_streams S"
  shows "table_ok k (fst st) \<Longrightarrow> k + length requests \<le> 2 ^ 40 \<Longrightarrow> attachment_calls P S requests st = (results, s, tape) \<Longrightarrow>
    table_ok (k + length requests) s"
proof (induction requests arbitrary: k st results)
  case (Cons r requests)
  obtain operation input where r: "r = (operation, input)" by (cases r)
  obtain result s1 t1 where step: "attachment_operation P S operation input (fst st, snd st) = (result, s1, t1)"
    by (metis surj_pair)
  obtain results' where rest: "attachment_calls P S requests (s1, t1) = (results', s, tape)"
    using Cons.prems(3) step by (auto simp: r split: prod.splits)
  have "table_ok (Suc k) s1" by (rule operation_keeps [OF S Cons.prems(1) _ step]) (use Cons.prems(2) in simp)
  then show ?case using Cons.IH [of "Suc k" "(s1, t1)"] Cons.prems(2) rest by simp
qed simp

text \<open>
  Whatever requests are made, in whatever order and failing or not, the table has at most 64 sessions with distinct handles
  other than zero. The stream that each session's header announces has 17 bytes more than the plaintext for each 64 KiB
  chunk, no session has processed more plaintext than announced, and a session that has seen its final chunk, and so
  can be closed without an abort, has processed exactly the plaintext and the stream that were announced.
  The number of requests is bounded so that the counter of a push session that keeps failing does not wrap around.
\<close>

theorem attachment_table_bounded:
  assumes S: "sized_streams S" and few: "length requests \<le> 2 ^ 40"
    and run: "attachment_calls P S requests ([], tape) = (results, s, tape')"
  shows "distinct (map fst s) \<and> length s \<le> 64 \<and> 0 \<notin> fst ` set s
    \<and> (\<forall>(handle, session) \<in> set s. let p = session_progress session; h = sp_header p in
         unat (ah_stream_size h) = unat (ah_plaintext_size h) + 17 * chunk_count (unat (ah_plaintext_size h))
         \<and> sp_plaintext_seen p \<le> ah_plaintext_size h
         \<and> (sp_final_seen p \<longrightarrow> sp_plaintext_seen p = ah_plaintext_size h \<and> sp_stream_seen p = ah_stream_size h))"
proof -
  have "table_ok 0 (fst ([], tape))" by (simp add: table_ok_def)
  from calls_keep [OF S this _ run] few have table: "table_ok (length requests) s" by simp
  have "let p = session_progress session; h = sp_header p in
      unat (ah_stream_size h) = unat (ah_plaintext_size h) + 17 * chunk_count (unat (ah_plaintext_size h))
      \<and> sp_plaintext_seen p \<le> ah_plaintext_size h
      \<and> (sp_final_seen p \<longrightarrow> sp_plaintext_seen p = ah_plaintext_size h \<and> sp_stream_seen p = ah_stream_size h)"
    if "session_ok (length requests) session" for session
    using that by (cases session) (auto simp: header_ok_def Let_def)
  with table show ?thesis unfolding table_ok_def case_prod_beta by blast
qed

end
