(* ===== verification/Spec2Isabelle.thy ===== *)
theory Spec2Isabelle
  imports Prekey_Operations Session_Steps Setup_Conflicts Application_Operations Device_Log Device_Enrollment Attachment_Table
begin

text \<open>
  Verification of the native cryptography core of the communication platform, the Rust crate
  \<^verbatim>\<open>src/frontend/native/crypto_core/src\<close>. The Dart client keeps all long-term secrets and all sessions as byte strings that
  only this crate can read: every call takes the stored bytes and a request, and returns the next stored bytes and a
  response. The model follows that shape. A pure operation is a function into \<open>crypto_error + 'a\<close>, an operation that draws
  randomness is a function on the tape of entropy that is left, and a state is a record that the operation returns updated.

  \<^bold>\<open>Parts of the program and where they are modelled\<close>

  \<^item> \<open>Prelude\<close>: result and state monads, machine integers (\<^verbatim>\<open>checked_add\<close>, \<^verbatim>\<open>saturating_add\<close>, \<^verbatim>\<open>try_from\<close> on words; \<^verbatim>\<open>usize\<close> is a
    natural number below \<open>2 ^ 64\<close>), big-endian bytes, sorted lists.
  \<^item> \<open>Crypto_Provider\<close>: \<^verbatim>\<open>error.rs\<close>, \<^verbatim>\<open>bounds.rs\<close>, \<^verbatim>\<open>secret.rs\<close>, \<^verbatim>\<open>random.rs\<close> and the methods of \<^verbatim>\<open>provider.rs\<close> over the record \<open>prims\<close> of
    cryptographic primitives. The crates behind them are not part of the repository, so they are parameters; what the code
    relies on is stated as named laws: output sizes (\<open>sized_prims\<close>), correctness of signatures, key agreement, encapsulation
    and authenticated encryption, and the layout of ML-KEM secret keys. \<open>Example_Primitives\<close> gives concrete functions that
    satisfy all of them. No theorem assumes or claims secrecy or unforgeability.
  \<^item> \<open>Protocol\<close>: the strict reader and the writers of \<^verbatim>\<open>protocol.rs\<close>. The locale \<open>codec\<close> is the contract of a field format: the
    parser reads back what the encoder wrote, whatever follows, and accepts nothing else; \<open>whole_codec\<close> is the contract of a
    format that must fill its input. Every format of the crate is an interpretation or an instance of one of the two.
  \<^item> \<open>Device_Signatures\<close>: \<^verbatim>\<open>device_signatures.rs\<close>, the byte strings that devices and accounts sign.
  \<^item> \<open>Prekey_State\<close>, \<open>Prekey_Codec\<close>, \<open>One_Time_Keys\<close>, \<open>Prekey_Operations\<close>: \<^verbatim>\<open>prekey_state.rs\<close>, the state of a device with its
    signed and one-time prekeys: both stored formats, validation, consumption, replenishment, rotation, retirement. The
    locale \<open>sealed_state\<close> (\<open>Sealed_State\<close>) is the contract of an authenticated stored state, interpreted for device states
    and for sessions; \<open>one_time_store\<close> is the contract of a store of keys that are used once, interpreted for both kinds of
    one-time prekeys.
  \<^item> \<open>Bundle_Verification\<close>: verification of a claimed device bundle (\<^verbatim>\<open>enrollment.rs\<close>) and \<^verbatim>\<open>PeerBundle::parse\<close> (\<^verbatim>\<open>pairwise.rs\<close>).
  \<^item> \<open>Pairwise_Wire\<close>, \<open>Pairwise_Ratchet\<close>, \<open>Pairwise_Session\<close>: \<^verbatim>\<open>pairwise.rs\<close>: envelopes and their headers, the key schedule,
    the stored session, sending, receiving, skipped keys, session repair, and the establishment of a session from
    prekeys. \<open>Ratchet_Invariant\<close>, \<open>Ratchet_Delivery\<close>, \<open>Ratchet_Conversation\<close>, \<open>Session_Agreement\<close>, \<open>Session_Setup\<close>,
    \<open>Setup_Liveness\<close>, \<open>Setup_Properties\<close>, \<open>Session_Steps\<close> and \<open>Setup_Conflicts\<close> hold the lemmas about them.
  \<^item> \<open>Recovery_Secret\<close>, \<open>Identity_Package\<close>, \<open>Device_Enrollment\<close>, \<open>Device_Label\<close>, \<open>Device_Log\<close>: \<^verbatim>\<open>enrollment.rs\<close>: recovery secrets
    in Crockford base 32, the identity package and its encrypted backup, the first package of a device and its cross signature,
    encrypted device labels, the signed device log, published identities, safety fingerprints and attestations.
  \<^item> \<open>Cbor\<close>, \<open>Foundation_Record\<close>: \<^verbatim>\<open>cbor.rs\<close>, and the canonical CBOR readers of \<^verbatim>\<open>application.rs\<close>. The crate \<^verbatim>\<open>minicbor\<close> is the
    parameter \<open>M\<close>, with the laws \<open>minicbor_encodes\<close> and \<open>minicbor_decodes\<close> and the instance \<open>example_minicbor\<close>.
  \<^item> \<open>Application_Event\<close>, \<open>Application_Codec\<close>, \<open>Application_Unknown\<close>, \<open>Application_Format\<close>, \<open>Application_Operations\<close>:
    \<^verbatim>\<open>application.rs\<close>: application events, the frames exchanged with the client, their CBOR form, bodies of unknown kind,
    device control messages and the operations of the client interface.
  \<^item> \<open>Secret_Stream\<close>, \<open>Attachment\<close>, \<open>Attachment_Properties\<close>, \<open>Attachment_Table\<close>: the wrapper of libsodium's secret streams
    at the end of \<^verbatim>\<open>provider.rs\<close> and \<^verbatim>\<open>attachment.rs\<close>: the table of open streams and its operations. The library is the
    parameter \<open>S\<close>, with the laws \<open>sized_streams\<close> and \<open>streams_correct\<close> and the instance \<open>example_sodium\<close>. A chunk that is
    refused can still have changed its session, so these operations return the table with every result.

  \<^bold>\<open>What the theorems show\<close>

  \<^item> Formats. Envelopes, device states, sessions, bundles, packages, log records, application events and control messages
    are exact: the loader accepts a byte string exactly when it is what the writer produces for a valid value. What an account
    signs is unambiguous across all six kinds of statements.
  \<^item> Device state. The invariant \<open>device_valid\<close> is kept by every operation and every reached state can be stored and loads back
    unchanged (\<open>device_steps_storable\<close>); a consumed one-time prekey never returns, even after restarts and replenishment; what
    replenishment and rotation change, when rotation succeeds, and how long a replaced pair is kept.
  \<^item> Sessions. Setup from published prekeys gives both sides the same keys and linked chains (\<open>session_setup_agrees\<close>), an
    initial envelope is accepted once only, two devices that initiate at the same time agree on the primary session (and the
    state of the session that loses cannot be loaded again), and repair replaces the damaged one. The receiving ratchet refines an abstract channel that accepts each message once, in
    whatever order the envelopes arrive (\<open>any_order_delivery\<close>), and turns of a conversation hand the ratchet over
    (\<open>conversation_turn\<close>). Replays are refused, the number of skipped keys is bounded, and the theorems say exactly which
    sessions can be loaded again after an operation.
  \<^item> Enrollment. A prepared device loads as a valid state and its cross-signed bundle is accepted by session setup; an account
    is recoverable from its printed secret in every accepted spelling; log records, labels, fingerprints and attestations
    are accepted by their readers and commit to what they name.
  \<^item> Client interface. Encoding and decoding of events are inverse; unknown event bodies are accepted exactly
    when they are canonical CBOR within the limits.
  \<^item> Attachments. What is pushed in 64 KiB chunks is pulled chunk by chunk (\<open>attachment_round_trip\<close>); after any requests
    the table is within its limits and a complete session has processed exactly the sizes its header announces
    (\<open>attachment_table_bounded\<close>).

  Reachable states are described by inductive step relations (\<open>device_step\<close> and its restriction
  \<open>early_step\<close> in \<open>Prekey_Operations\<close>, \<open>session_step\<close> in
  \<open>Session_Steps\<close>) over the operations and a restart that stores and loads the state; the invariants are proved by rule
  induction.

  \<^bold>\<open>Loops, bounds and fuel\<close>

  No definition uses fuel. Loops over lists are structural recursion. \<open>skip_loop\<close> has a termination proof by the distance
  to the requested message number, and \<open>validate_unknown_value\<close> by the remaining depth, which the source bounds by 16.
  Lengths of inputs are below \<open>2 ^ 64\<close> because a Rust slice cannot be longer; where a theorem needs it, it is a hypothesis.

  \<^bold>\<open>What is not modelled\<close>

  \<^item> Wiping of secrets, constant-time comparison and failure of memory allocation: they have no counterpart in a pure
    model. A comparison with \<^verbatim>\<open>ct_eq\<close> is equality.
  \<^item> The dispatcher of \<^verbatim>\<open>pairwise.rs\<close> (\<^verbatim>\<open>operation\<close> and the functions \<^verbatim>\<open>operation_...\<close>), which frames the inputs and outputs of the
    operations modelled here.
  \<^item> \<^verbatim>\<open>group_control.rs\<close> and \<^verbatim>\<open>room_control.rs\<close>, the signed CBOR events of groups and voice rooms.
  \<^item> The lock around the table of attachment sessions: the operations run one after the other.
  \<^item> \<^verbatim>\<open>lib.rs\<close>, the C interface: raw pointers, panics across the boundary and buffers of the caller.
  \<^item> \<^verbatim>\<open>mlkem_vectors.rs\<close>, \<^verbatim>\<open>build.rs\<close> and the vendored C sources: test vectors and the build of third-party code.
  \<^item> The Dart client and the Python server, which are programs of their own that call or store what this crate produces.
\<close>

end
